(* ===== verification/Knolo_Prelude.thy ===== *)
theory Knolo_Prelude
  imports Main "HOL-Library.AList" "HOL-Library.Sublist" "HOL-Library.Multiset"
begin

text \<open>
  What every component of the development shares: the model of the parts of the JavaScript
  standard library that \<open>packages/agents/src\<close> uses (strings, \<open>Array.prototype.sort\<close>,
  \<open>Set\<close>, \<open>Map\<close>), errors as values, and the generic lemmas about them.

  A JavaScript string is a \<open>string\<close>, one \<open>char\<close> per UTF-16 code unit, so the
  model is exact for strings of code units below 256 and all the operations below
  (\<open>toLowerCase\<close>, the regular expression class \<open>\s\<close>, \<open>trim\<close>,
  \<open>TextEncoder\<close>) are written out for that range.
\<close>

named_theorems js_simps \<open>evaluation rules of the standard library model\<close>
named_theorems res_simps \<open>rules for errors as values\<close>

section \<open>Errors as values\<close>

text \<open>
  One constructor per error class the code throws: \<open>HarnessError\<close> of
  \<open>harness/types.ts\<close>, \<open>DefinitionError\<close> of \<open>builder/index.ts\<close>, a plain
  \<open>Error\<close>, and the \<open>TypeError\<close> the language raises by itself.
\<close>

datatype js_error =
    HarnessError string
  | DefinitionError string
  | PlainError string
  | TypeError string

type_synonym 'a result = "js_error + 'a"

definition bind_res :: "'a result \<Rightarrow> ('a \<Rightarrow> 'b result) \<Rightarrow> 'b result" where
  "bind_res r f = (case r of Inl e \<Rightarrow> Inl e | Inr x \<Rightarrow> f x)"

lemma bind_res_simps [simp, res_simps]:
  "bind_res (Inl e) f = Inl e"
  "bind_res (Inr x) f = f x"
  by (simp_all add: bind_res_def)

lemma bind_res_eq_Inr [res_simps]:
  "bind_res r f = Inr y \<longleftrightarrow> (\<exists>x. r = Inr x \<and> f x = Inr y)"
  by (cases r) simp_all

lemma bind_res_eq_Inl:
  "bind_res r f = Inl e \<longleftrightarrow> r = Inl e \<or> (\<exists>x. r = Inr x \<and> f x = Inl e)"
  by (cases r) auto

text \<open>\<open>xs.map(f)\<close> where \<open>f\<close> may throw: the first error wins.\<close>

fun map_res :: "('a \<Rightarrow> 'b result) \<Rightarrow> 'a list \<Rightarrow> 'b list result" where
  "map_res f [] = Inr []"
| "map_res f (x # xs) = bind_res (f x) (\<lambda>y. bind_res (map_res f xs) (\<lambda>ys. Inr (y # ys)))"

lemma map_res_Inr_iff: "map_res f xs = Inr ys \<longleftrightarrow> list_all2 (\<lambda>x y. f x = Inr y) xs ys"
  by (induction xs arbitrary: ys) (auto simp: bind_res_eq_Inr list_all2_Cons1)

lemma map_res_pure [simp]: "map_res (\<lambda>x. Inr (f x)) xs = Inr (map f xs)"
  by (induction xs) simp_all

lemma map_res_all_Inr:
  "(\<And>x. x \<in> set xs \<Longrightarrow> f x = Inr (g x)) \<Longrightarrow> map_res f xs = Inr (map g xs)"
  by (induction xs) simp_all

text \<open>An operation on a state \<open>'s\<close> that may fail, followed by the rest.\<close>

definition run_then :: "'a result \<times> 's \<Rightarrow> ('a \<Rightarrow> 's \<Rightarrow> 'b result \<times> 's) \<Rightarrow> 'b result \<times> 's" where
  "run_then m f = (case m of (Inl e, s) \<Rightarrow> (Inl e, s) | (Inr a, s) \<Rightarrow> f a s)"

lemma run_then_simps [simp]: "run_then (Inl e, s) f = (Inl e, s)" "run_then (Inr a, s) f = f a s"
  by (simp_all add: run_then_def)

lemma run_then_Inr: "run_then m f = (Inr b, s) \<longleftrightarrow> (\<exists>a s'. m = (Inr a, s') \<and> f a s' = (Inr b, s))"
  by (auto simp: run_then_def split: prod.splits sum.splits)

text \<open>A step that keeps a property of the state, whether it fails or not, before a step that does.\<close>

lemma run_then_keeps:
  assumes "P (snd m)" "\<And>a s. m = (Inr a, s) \<Longrightarrow> P s \<Longrightarrow> P (snd (f a s))"
  shows "P (snd (run_then m f))"
  using assms by (auto simp: run_then_def split: prod.splits sum.splits)

text \<open>\<open>v ?? fallback\<close> on an optional member.\<close>

definition given_or :: "'a \<Rightarrow> 'a option \<Rightarrow> 'a" where
  "given_or fallback v = (case v of Some x \<Rightarrow> x | None \<Rightarrow> fallback)"

section \<open>Array.prototype.find\<close>

fun filter_res :: "('a \<Rightarrow> bool result) \<Rightarrow> 'a list \<Rightarrow> 'a list result" where
  "filter_res p [] = Inr []"
| "filter_res p (x # xs) = bind_res (p x) (\<lambda>b. bind_res (filter_res p xs) (\<lambda>ys. Inr (if b then x # ys else ys)))"

lemma filter_res_Inr: "filter_res p xs = Inr ys \<Longrightarrow> ys = filter (\<lambda>x. p x = Inr True) xs \<and> (\<forall>x \<in> set xs. \<exists>b. p x = Inr b)"
  by (induction xs arbitrary: ys) (auto simp: bind_res_eq_Inr split: if_splits)

lemma filter_res_in: "filter_res p xs = Inr ys \<Longrightarrow> y \<in> set ys \<Longrightarrow> y \<in> set xs \<and> p y = Inr True"
  by (auto dest!: filter_res_Inr)

lemma filter_res_pure [simp]: "filter_res (\<lambda>x. Inr (p x)) xs = Inr (filter p xs)"
  by (induction xs) simp_all

lemma find_in_set: "find P xs = Some x \<Longrightarrow> x \<in> set xs \<and> P x"
  by (induction xs) (auto split: if_splits)

lemma find_snoc: "find P (xs @ [x]) = (case find P xs of None \<Rightarrow> if P x then Some x else None | Some y \<Rightarrow> Some y)"
  by (induction xs) auto

lemma find_unique:
  assumes "x \<in> set xs" "P x" "\<And>y. y \<in> set xs \<Longrightarrow> P y \<Longrightarrow> y = x"
  shows "find P xs = Some x"
proof (cases "find P xs")
  case None
  with assms(1,2) show ?thesis by (auto simp: find_None_iff)
next
  case (Some y)
  then have "y = x" using find_in_set [OF Some] by (intro assms(3)) simp_all
  with Some show ?thesis by simp
qed

section \<open>Strings\<close>

definition code_units :: "string \<Rightarrow> nat list" where
  "code_units s = map of_char s"

lemma code_units_inject [simp]: "code_units s = code_units t \<longleftrightarrow> s = t"
  using inj_map_eq_map [of "of_char :: char \<Rightarrow> nat"] by (simp add: code_units_def inj_def)

lemma inj_code_units: "inj code_units"
  by (rule injI) simp

definition js_ws :: "char \<Rightarrow> bool" where
  "js_ws c \<longleftrightarrow> (let n = (of_char c :: nat) in 9 \<le> n \<and> n \<le> 13 \<or> n = 32 \<or> n = 160)"

definition js_lower_char :: "char \<Rightarrow> char" where
  "js_lower_char c = (let n = (of_char c :: nat) in
     if 65 \<le> n \<and> n \<le> 90 \<or> 192 \<le> n \<and> n \<le> 222 \<and> n \<noteq> 215 then char_of (n + 32) else c)"

definition js_lower :: "string \<Rightarrow> string" where
  "js_lower s = map js_lower_char s"

definition js_trim :: "string \<Rightarrow> string" where
  "js_trim s = rev (dropWhile js_ws (rev (dropWhile js_ws s)))"

text \<open>\<open>hay.includes(needle)\<close>, \<open>s.startsWith(p)\<close>, \<open>xs.join(sep)\<close>.\<close>

definition js_includes :: "string \<Rightarrow> string \<Rightarrow> bool" where
  "js_includes hay needle = sublist needle hay"

definition js_starts_with :: "string \<Rightarrow> string \<Rightarrow> bool" where
  "js_starts_with s p = prefix p s"

fun js_join :: "string \<Rightarrow> string list \<Rightarrow> string" where
  "js_join sep [] = []"
| "js_join sep [x] = x"
| "js_join sep (x # y # xs) = x @ sep @ js_join sep (y # xs)"

text \<open>Decimal digits of a number, as \<open>String(n)\<close> and template literals print integers.\<close>

function dec_pos :: "int \<Rightarrow> string" where
  "dec_pos n = (if n < 10 then [char_of (48 + n)] else dec_pos (n div 10) @ [char_of (48 + n mod 10)])"
  by pat_completeness auto
termination
  by (relation "measure nat") auto

declare dec_pos.simps [simp del]

definition dec_int :: "int \<Rightarrow> string" where
  "dec_int i = (if i < 0 then CHR ''-'' # dec_pos (- i) else dec_pos i)"

definition dec_nat :: "nat \<Rightarrow> string" where
  "dec_nat n = dec_pos (int n)"

lemma of_char_less_256 [simp]: "(of_char c :: nat) < 256"
proof -
  have "(of_char c :: nat) mod 256 < 256" by simp
  then show ?thesis by (simp only: of_char_mod_256)
qed

lemma js_lower_char_idem [simp]: "js_lower_char (js_lower_char c) = js_lower_char c"
  using of_char_less_256 [of c] by (auto simp: js_lower_char_def Let_def)

lemma js_lower_idem [simp]: "js_lower (js_lower s) = js_lower s"
  by (simp add: js_lower_def)

lemma length_js_lower [simp]: "length (js_lower s) = length s"
  by (simp add: js_lower_def)

lemma js_lower_append [simp]: "js_lower (s @ t) = js_lower s @ js_lower t"
  by (simp add: js_lower_def)

lemma js_includes_refl [simp]: "js_includes s s"
  by (simp add: js_includes_def sublist_order.order.refl)

lemma js_includes_Nil [simp]: "js_includes s []"
  by (simp add: js_includes_def)

lemma js_includes_trans: "js_includes a b \<Longrightarrow> js_includes b c \<Longrightarrow> js_includes a c"
  unfolding js_includes_def by (rule sublist_order.order.trans)

lemma js_includes_append1: "js_includes a b \<Longrightarrow> js_includes (a @ c) b"
  by (simp add: js_includes_def sublist_append)

lemma js_includes_append2: "js_includes c b \<Longrightarrow> js_includes (a @ c) b"
  by (auto simp: js_includes_def sublist_append)

section \<open>Set and Map\<close>

text \<open>
  \<open>[...new Set(values)]\<close> keeps the first occurrence of each value, in order. A
  \<open>Map\<close> is the list of its entries in insertion order: \<open>set\<close> on a key that is
  present replaces the value in place (\<open>AList.update\<close>), \<open>get\<close> is \<open>map_of\<close>.
\<close>

fun js_set_from :: "'a list \<Rightarrow> 'a list \<Rightarrow> 'a list" where
  "js_set_from seen [] = seen"
| "js_set_from seen (x # xs) = js_set_from (if x \<in> set seen then seen else seen @ [x]) xs"

definition js_set :: "'a list \<Rightarrow> 'a list" where
  "js_set xs = js_set_from [] xs"

lemma set_js_set_from: "set (js_set_from seen xs) = set seen \<union> set xs"
  by (induction xs arbitrary: seen) auto

lemma distinct_js_set_from: "distinct seen \<Longrightarrow> distinct (js_set_from seen xs)"
  by (induction xs arbitrary: seen) auto

lemma js_set_from_distinct:
  "distinct (seen @ xs) \<Longrightarrow> js_set_from seen xs = seen @ xs"
  by (induction xs arbitrary: seen) auto

lemma set_js_set [simp]: "set (js_set xs) = set xs"
  by (simp add: js_set_def set_js_set_from)

lemma distinct_js_set [simp]: "distinct (js_set xs)"
  by (simp add: js_set_def distinct_js_set_from)

lemma js_set_distinct [simp]: "distinct xs \<Longrightarrow> js_set xs = xs"
  by (simp add: js_set_def js_set_from_distinct)

lemma js_set_Nil [simp]: "js_set [] = []"
  by (simp add: js_set_def)

lemma length_js_set_card: "length (js_set xs) = card (set xs)"
  using distinct_card [OF distinct_js_set [of xs]] by simp

lemma js_set_eq_Nil_iff [simp]: "js_set xs = [] \<longleftrightarrow> xs = []"
  by (metis set_empty set_js_set)

type_synonym ('k, 'v) js_map = "('k \<times> 'v) list"

definition map_put :: "'k \<Rightarrow> 'v \<Rightarrow> ('k, 'v) js_map \<Rightarrow> ('k, 'v) js_map" where
  "map_put k v m = AList.update k v m"

lemma map_of_map_put [simp]: "map_of (map_put k v m) = (map_of m)(k \<mapsto> v)"
  by (simp add: map_put_def update_conv')

lemma map_of_map_put_apply: "map_of (map_put k v m) j = (if j = k then Some v else map_of m j)"
  by simp

lemma distinct_map_put [simp]: "distinct (map fst m) \<Longrightarrow> distinct (map fst (map_put k v m))"
  by (simp add: map_put_def distinct_update)

lemma keys_map_put [simp]: "fst ` set (map_put k v m) = insert k (fst ` set m)"
  by (induction m) (auto simp: map_put_def)

lemma set_map_put_subset: "set (map_put k v m) \<subseteq> insert (k, v) (set m)"
  by (induction m) (auto simp: map_put_def)

lemma values_map_put: "snd ` set (map_put k v m) \<subseteq> insert v (snd ` set m)"
  by (induction m) (auto simp: map_put_def)

section \<open>Array.prototype.sort\<close>

text \<open>
  \<open>xs.sort(cmp)\<close> is required to be stable and, for a consistent comparator, to leave the
  elements in order; lemma \<open>stable_sort_unique\<close> below shows that these two requirements
  determine the result, so that the insertion sort here is what every engine returns.
\<close>

fun insort_cmp :: "('a \<Rightarrow> 'a \<Rightarrow> int) \<Rightarrow> 'a \<Rightarrow> 'a list \<Rightarrow> 'a list" where
  "insort_cmp cmp x [] = [x]"
| "insort_cmp cmp x (y # ys) = (if cmp x y \<le> 0 then x # y # ys else y # insort_cmp cmp x ys)"

fun js_sort :: "('a \<Rightarrow> 'a \<Rightarrow> int) \<Rightarrow> 'a list \<Rightarrow> 'a list" where
  "js_sort cmp [] = []"
| "js_sort cmp (x # xs) = insort_cmp cmp x (js_sort cmp xs)"

lemma mset_insort_cmp [simp]: "mset (insort_cmp cmp x xs) = add_mset x (mset xs)"
  by (induction xs) auto

lemma mset_js_sort [simp]: "mset (js_sort cmp xs) = mset xs"
  by (induction xs) auto

lemma set_js_sort [simp]: "set (js_sort cmp xs) = set xs"
  by (metis mset_js_sort set_mset_mset)

lemma length_js_sort [simp]: "length (js_sort cmp xs) = length xs"
  by (metis mset_js_sort size_mset)

lemma distinct_js_sort [simp]: "distinct (js_sort cmp xs) = distinct xs"
  by (metis mset_js_sort mset_eq_imp_distinct_iff)

lemma sum_list_js_sort [simp]:
  "sum_list (map (f :: 'a \<Rightarrow> 'b :: comm_monoid_add) (js_sort cmp xs)) = sum_list (map f xs)"
  by (metis mset_js_sort mset_map sum_mset_sum_list)

lemma filter_eq_replicate: "filter (\<lambda>y. z = y) xs = replicate (count (mset xs) z) z"
  by (induction xs) auto

locale comparator =
  fixes cmp :: "'a \<Rightarrow> 'a \<Rightarrow> int"
  assumes cmp_antisym: "cmp x y < 0 \<longleftrightarrow> 0 < cmp y x"
    and cmp_trans: "cmp x y \<le> 0 \<Longrightarrow> cmp y z \<le> 0 \<Longrightarrow> cmp x z \<le> 0"
begin

lemma cmp_refl [simp]: "cmp x x = 0"
  using cmp_antisym [of x x] by linarith

lemma cmp_total: "cmp x y \<le> 0 \<or> cmp y x \<le> 0"
  using cmp_antisym [of y x] by linarith

lemma cmp_eq_sym: "cmp x y = 0 \<longleftrightarrow> cmp y x = 0"
  using cmp_antisym [of x y] cmp_antisym [of y x] by linarith

lemma cmp_le_iff: "cmp x y \<le> 0 \<longleftrightarrow> 0 \<le> cmp y x"
  using cmp_antisym [of y x] by linarith

lemma cmp_eq_iff: "cmp x y = 0 \<longleftrightarrow> cmp x y \<le> 0 \<and> cmp y x \<le> 0"
  using cmp_antisym [of x y] cmp_antisym [of y x] by linarith

lemma cmp_eq_cong: "cmp x y = 0 \<Longrightarrow> cmp x z = 0 \<longleftrightarrow> cmp y z = 0"
  by (meson cmp_eq_iff cmp_trans)

abbreviation in_order :: "'a list \<Rightarrow> bool" where
  "in_order \<equiv> sorted_wrt (\<lambda>x y. cmp x y \<le> 0)"

lemma sorted_insort_cmp: "in_order xs \<Longrightarrow> in_order (insort_cmp cmp x xs)"
proof (induction xs)
  case Nil
  then show ?case by simp
next
  case (Cons y ys)
  have set_eq: "set (insort_cmp cmp x ys) = insert x (set ys)"
    by (metis mset_insort_cmp set_mset_add_mset_insert set_mset_mset)
  show ?case
  proof (cases "cmp x y \<le> 0")
    case True
    with Cons.prems show ?thesis by (auto intro: cmp_trans)
  next
    case False
    then have "cmp y x \<le> 0" using cmp_total by blast
    with False Cons show ?thesis by (auto simp: set_eq)
  qed
qed

theorem sorted_js_sort: "in_order (js_sort cmp xs)"
  by (induction xs) (simp_all add: sorted_insort_cmp)

lemma filter_insort_cmp:
  "in_order xs \<Longrightarrow> filter (\<lambda>y. cmp z y = 0) (insort_cmp cmp x xs)
     = (if cmp z x = 0 then [x] else []) @ filter (\<lambda>y. cmp z y = 0) xs"
proof (induction xs)
  case Nil
  then show ?case by simp
next
  case (Cons y ys)
  have "\<not> cmp x y \<le> 0 \<Longrightarrow> cmp z x = 0 \<Longrightarrow> cmp z y \<noteq> 0"
    by (metis cmp_eq_cong cmp_eq_sym order_refl)
  with Cons show ?case by auto
qed

text \<open>Stability: elements that compare equal keep their order.\<close>

theorem stable_js_sort: "filter (\<lambda>y. cmp z y = 0) (js_sort cmp xs) = filter (\<lambda>y. cmp z y = 0) xs"
  by (induction xs) (simp_all add: filter_insort_cmp sorted_js_sort)

lemma in_order_hd_cmp:
  assumes "in_order (x # xs)" "in_order (y # ys)" "mset (x # xs) = mset (y # ys)"
  shows "cmp x y = 0"
proof -
  have "y \<in> set (x # xs)" "x \<in> set (y # ys)"
    using assms(3) by (metis list.set_intros(1) set_mset_mset)+
  then have "cmp x y \<le> 0" "cmp y x \<le> 0"
    using assms(1,2) by (auto simp: cmp_refl)
  then show ?thesis by (simp add: cmp_eq_iff)
qed

theorem stable_sort_unique:
  assumes "in_order xs" "in_order ys" "mset xs = mset ys"
    and "\<And>z. filter (\<lambda>y. cmp z y = 0) xs = filter (\<lambda>y. cmp z y = 0) ys"
  shows "xs = ys"
  using assms
proof (induction xs arbitrary: ys)
  case Nil
  then show ?case by simp
next
  case (Cons x xs)
  from Cons.prems(3) obtain y ys' where ys: "ys = y # ys'"
    by (metis list.exhaust mset_zero_iff_right add_mset_not_empty mset.simps(2))
  have "cmp x y = 0"
    using in_order_hd_cmp Cons.prems(1-3) ys by blast
  with Cons.prems(4) [of x] ys have xy: "x = y" by simp
  have "filter (\<lambda>y. cmp z y = 0) xs = filter (\<lambda>y. cmp z y = 0) ys'" for z
    using Cons.prems(4) [of z] ys xy by (simp split: if_splits)
  then have "xs = ys'"
    using Cons.prems(1-3) ys xy by (intro Cons.IH) simp_all
  with ys xy show ?case by simp
qed

lemma js_sort_in_order: "in_order xs \<Longrightarrow> js_sort cmp xs = xs"
  by (rule stable_sort_unique) (simp_all add: sorted_js_sort stable_js_sort)

lemma js_sort_cong_mset_on:
  assumes "mset xs = mset ys" and eqD: "\<And>x y. x \<in> set xs \<Longrightarrow> y \<in> set xs \<Longrightarrow> cmp x y = 0 \<Longrightarrow> x = y"
  shows "js_sort cmp xs = js_sort cmp ys"
proof (rule stable_sort_unique)
  fix z
  have set_ys: "set ys = set xs"
    using assms(1) by (metis mset_eq_setD)
  show "filter (\<lambda>y. cmp z y = 0) (js_sort cmp xs) = filter (\<lambda>y. cmp z y = 0) (js_sort cmp ys)"
  proof (cases "\<exists>x \<in> set xs. cmp z x = 0")
    case True
    then obtain x where x: "x \<in> set xs" "cmp z x = 0" by blast
    have "cmp z y = 0 \<longleftrightarrow> x = y" if "y \<in> set xs" for y
      using that x eqD cmp_eq_cong [OF x(2)] by (metis cmp_eq_sym)
    then have "filter (\<lambda>y. cmp z y = 0) xs = filter (\<lambda>y. x = y) xs"
      "filter (\<lambda>y. cmp z y = 0) ys = filter (\<lambda>y. x = y) ys"
      using set_ys by (auto intro!: filter_cong)
    then show ?thesis
      unfolding stable_js_sort by (simp add: filter_eq_replicate assms(1))
  next
    case False
    then show ?thesis using set_ys by (simp add: stable_js_sort filter_empty_conv)
  qed
qed (simp_all add: sorted_js_sort assms(1))

lemma js_sort_idem: "js_sort cmp (js_sort cmp xs) = js_sort cmp xs"
  by (rule js_sort_in_order) (rule sorted_js_sort)

end


text \<open>A comparator that only identifies equal values: the sort is then canonical.\<close>

locale total_comparator = comparator +
  assumes cmp_eqD: "cmp x y = 0 \<Longrightarrow> x = y"
begin

lemma cmp_eq_0 [simp]: "cmp x y = 0 \<longleftrightarrow> x = y"
  using cmp_eqD cmp_refl by blast

lemma js_sort_cong_mset:
  assumes "mset xs = mset ys"
  shows "js_sort cmp xs = js_sort cmp ys"
  using assms by (rule js_sort_cong_mset_on) simp

lemma js_sort_distinct_cong:
  "distinct xs \<Longrightarrow> distinct ys \<Longrightarrow> set xs = set ys \<Longrightarrow> js_sort cmp xs = js_sort cmp ys"
  by (rule js_sort_cong_mset) (simp add: set_eq_iff_mset_eq_distinct)

lemma strict_js_sort:
  assumes "distinct xs"
  shows "sorted_wrt (\<lambda>x y. cmp x y < 0) (js_sort cmp xs)"
proof -
  have "in_order ys \<Longrightarrow> distinct ys \<Longrightarrow> sorted_wrt (\<lambda>x y. cmp x y < 0) ys" for ys
    by (induction ys) (auto simp: order_less_le)
  then show ?thesis using assms sorted_js_sort by simp
qed

end

text \<open>
  How comparators are built: \<open>a || b\<close> of two comparators tries the second when the first
  answers 0, and a comparator may look at a field only.
\<close>

definition cmp_then :: "('a \<Rightarrow> 'a \<Rightarrow> int) \<Rightarrow> ('a \<Rightarrow> 'a \<Rightarrow> int) \<Rightarrow> 'a \<Rightarrow> 'a \<Rightarrow> int" where
  "cmp_then c d x y = (if c x y \<noteq> 0 then c x y else d x y)"

definition cmp_on :: "('a \<Rightarrow> 'b) \<Rightarrow> ('b \<Rightarrow> 'b \<Rightarrow> int) \<Rightarrow> 'a \<Rightarrow> 'a \<Rightarrow> int" where
  "cmp_on f c x y = c (f x) (f y)"

definition cmp_desc :: "int \<Rightarrow> int \<Rightarrow> int" where
  "cmp_desc x y = y - x"

lemma comparator_on: "comparator c \<Longrightarrow> comparator (cmp_on f c)"
  unfolding comparator_def cmp_on_def by blast

lemma comparator_then:
  assumes "comparator c" "comparator d"
  shows "comparator (cmp_then c d)"
proof unfold_locales
  note c = comparator.cmp_trans [OF assms(1)] comparator.cmp_eq_iff [OF assms(1)]
  show "cmp_then c d x y < 0 \<longleftrightarrow> 0 < cmp_then c d y x" for x y
    using comparator.cmp_antisym [OF assms(1), of x y] comparator.cmp_antisym [OF assms(2), of x y]
      comparator.cmp_eq_sym [OF assms(1), of x y]
    by (auto simp: cmp_then_def)
  show "cmp_then c d x z \<le> 0" if xy: "cmp_then c d x y \<le> 0" and yz: "cmp_then c d y z \<le> 0" for x y z
  proof (cases "c x z = 0")
    case True
    have cxy: "c x y \<le> 0" and cyz: "c y z \<le> 0"
      using xy yz by (simp_all add: cmp_then_def split: if_splits)
    have "c z x \<le> 0" using True c(2) by blast
    then have "c x y = 0" "c y z = 0" using cxy cyz c by blast+
    then have "d x y \<le> 0" "d y z \<le> 0" using xy yz by (simp_all add: cmp_then_def)
    then have "d x z \<le> 0" by (rule comparator.cmp_trans [OF assms(2)])
    with True show ?thesis by (simp add: cmp_then_def)
  next
    case False
    have "c x y \<le> 0" "c y z \<le> 0"
      using xy yz by (simp_all add: cmp_then_def split: if_splits)
    then have "c x z \<le> 0" by (rule c(1))
    with False show ?thesis by (simp add: cmp_then_def)
  qed
qed

lemma comparator_desc: "comparator cmp_desc"
  by unfold_locales (simp_all add: cmp_desc_def)

text \<open>
  \<open>sort()\<close> without an argument compares code units; \<open>compare_seq\<close> is that order, and
  with differences in place of signs the byte order of \<open>dependencies/cbor.ts\<close>.
\<close>

fun compare_seq :: "nat list \<Rightarrow> nat list \<Rightarrow> int" where
  "compare_seq [] [] = 0"
| "compare_seq [] (y # ys) = - 1"
| "compare_seq (x # xs) [] = 1"
| "compare_seq (x # xs) (y # ys) = (if x < y then - 1 else if y < x then 1 else compare_seq xs ys)"

definition code_unit_order :: "string \<Rightarrow> string \<Rightarrow> int" where
  "code_unit_order s t = compare_seq (code_units s) (code_units t)"

lemma compare_seq_antisym: "compare_seq xs ys < 0 \<longleftrightarrow> 0 < compare_seq ys xs"
  by (induction xs ys rule: compare_seq.induct) auto

lemma compare_seq_trans: "compare_seq xs ys \<le> 0 \<Longrightarrow> compare_seq ys zs \<le> 0 \<Longrightarrow> compare_seq xs zs \<le> 0"
proof (induction xs ys arbitrary: zs rule: compare_seq.induct)
  case (2 y ys)
  then show ?case by (cases zs) auto
next
  case (4 x xs y ys)
  show ?case
  proof (cases zs)
    case Nil
    with 4 show ?thesis by simp
  next
    case (Cons z zs')
    have "compare_seq xs zs' \<le> 0" if "x = y" "y = z"
      using that "4.prems" Cons "4.IH" [of zs'] by simp
    with "4.prems" Cons show ?thesis by (auto split: if_splits)
  qed
qed simp_all

lemma compare_seq_eq: "compare_seq xs ys = 0 \<Longrightarrow> xs = ys"
  by (induction xs ys rule: compare_seq.induct) (auto split: if_splits)

interpretation code_unit: total_comparator code_unit_order
proof unfold_locales
  show "code_unit_order x y < 0 \<longleftrightarrow> 0 < code_unit_order y x" for x y
    unfolding code_unit_order_def by (rule compare_seq_antisym)
  show "code_unit_order x z \<le> 0" if "code_unit_order x y \<le> 0" "code_unit_order y z \<le> 0" for x y z
    using that unfolding code_unit_order_def by (rule compare_seq_trans)
  show "x = y" if "code_unit_order x y = 0" for x y
    using that compare_seq_eq [of "code_units x" "code_units y"] by (simp add: code_unit_order_def)
qed

text \<open>
  \<open>[...new Set(values)].sort()\<close>, the code's \<open>uniqueSorted\<close>, \<open>unique\<close> and
  \<open>uniqueFrom\<close>: a function of the set of values only.
\<close>

definition sorted_set :: "string list \<Rightarrow> string list" where
  "sorted_set values = js_sort code_unit_order (js_set values)"

lemma set_sorted_set [simp]: "set (sorted_set vs) = set vs"
  by (simp add: sorted_set_def)

lemma distinct_sorted_set [simp]: "distinct (sorted_set vs)"
  by (simp add: sorted_set_def)

lemma sorted_set_cong: "set vs = set ws \<Longrightarrow> sorted_set vs = sorted_set ws"
  unfolding sorted_set_def by (rule code_unit.js_sort_distinct_cong) simp_all

lemma sorted_set_idem [simp]: "sorted_set (sorted_set vs) = sorted_set vs"
  by (rule sorted_set_cong) simp

lemma sorted_set_eq_Nil [simp]: "sorted_set vs = [] \<longleftrightarrow> vs = []"
  by (metis set_empty set_sorted_set)

end
