(* ===== verification/JS_Value.thy ===== *)
theory JS_Value
  imports Knolo_Prelude
begin

text \<open>
  JavaScript values as the code meets them at its untyped boundaries (\<open>unknown\<close>,
  \<open>JsonValue\<close>), their serialisation \<open>JSON.stringify\<close>, the key-sorted form and the
  digests of \<open>harness/hash.ts\<close>, and \<open>TextEncoder\<close>.

  An integer-valued number is \<open>JNum\<close>; any other finite number is \<open>JFrac\<close> with its
  shortest decimal form, which is all that the code ever observes of it. The members of
  \<open>JObj\<close> are the own enumerable properties in enumeration order; a missing member reads as
  \<open>JUndef\<close>. SHA-256 comes from the host's WebCrypto and is a parameter.
\<close>

datatype jsval =
    JUndef
  | JNull
  | JBool bool
  | JNum int
  | JFrac string
  | JStr string
  | JArr "jsval list"
  | JObj "(string \<times> jsval) list"

definition js_get :: "(string \<times> jsval) list \<Rightarrow> string \<Rightarrow> jsval" where
  "js_get es k = (case map_of es k of None \<Rightarrow> JUndef | Some v \<Rightarrow> v)"

fun js_truthy :: "jsval \<Rightarrow> bool" where
  "js_truthy JUndef = False"
| "js_truthy JNull = False"
| "js_truthy (JBool b) = b"
| "js_truthy (JNum n) = (n \<noteq> 0)"
| "js_truthy (JFrac s) = True"
| "js_truthy (JStr s) = (s \<noteq> [])"
| "js_truthy (JArr xs) = True"
| "js_truthy (JObj es) = True"

definition max_safe_integer :: int where
  "max_safe_integer = 9007199254740991"

definition is_safe_integer :: "int \<Rightarrow> bool" where
  "is_safe_integer n \<longleftrightarrow> - max_safe_integer \<le> n \<and> n \<le> max_safe_integer"

text \<open>
  A \<open>number\<close> that the code only accepts after \<open>Number.isSafeInteger\<close>: an integer, or
  anything else (a fraction, \<open>NaN\<close>, an infinity), which that guard refuses.
\<close>

datatype js_num = Whole int | NotWhole

fun is_safe_num :: "js_num \<Rightarrow> bool" where
  "is_safe_num (Whole n) = is_safe_integer n"
| "is_safe_num NotWhole = False"

fun num_value :: "js_num \<Rightarrow> int" where
  "num_value (Whole n) = n"
| "num_value NotWhole = 0"

text \<open>\<open>Number.isSafeInteger(n) && n > 0\<close>\<close>

definition is_positive_num :: "js_num \<Rightarrow> bool" where
  "is_positive_num n \<longleftrightarrow> is_safe_num n \<and> 0 < num_value n"

text \<open>\<open>Array.isArray(v) && v.every(item => typeof item === "string")\<close>, the shared guard.\<close>

fun js_string :: "jsval \<Rightarrow> string option" where
  "js_string (JStr s) = Some s"
| "js_string _ = None"

definition is_js_string :: "jsval \<Rightarrow> bool" where
  "is_js_string v \<longleftrightarrow> js_string v \<noteq> None"

fun strings_of :: "jsval list \<Rightarrow> string list option" where
  "strings_of [] = Some []"
| "strings_of (v # vs) =
     (case js_string v of None \<Rightarrow> None | Some s \<Rightarrow> map_option ((#) s) (strings_of vs))"

lemma js_string_Some [simp]: "js_string v = Some s \<longleftrightarrow> v = JStr s"
  by (cases v) auto

lemma strings_of_Some: "strings_of vs = Some ss \<longleftrightarrow> vs = map JStr ss"
  by (induction vs arbitrary: ss) (auto split: option.splits)

lemma strings_of_map_JStr [simp]: "strings_of (map JStr ss) = Some ss"
  by (simp add: strings_of_Some)

section \<open>Regular expressions of the identifiers\<close>

definition is_lower_hex :: "char \<Rightarrow> bool" where
  "is_lower_hex c \<longleftrightarrow> (let n = (of_char c :: nat) in 48 \<le> n \<and> n \<le> 57 \<or> 97 \<le> n \<and> n \<le> 102)"

text \<open>\<open>/^[0-9a-f]{64}$/\<close>\<close>

definition is_sha256 :: "string \<Rightarrow> bool" where
  "is_sha256 s \<longleftrightarrow> length s = 64 \<and> list_all is_lower_hex s"

definition identifier_char :: "char \<Rightarrow> bool" where
  "identifier_char c \<longleftrightarrow> (let n = (of_char c :: nat) in
     65 \<le> n \<and> n \<le> 90 \<or> 97 \<le> n \<and> n \<le> 122 \<or> 45 \<le> n \<and> n \<le> 57 \<or> n = 95)"

text \<open>\<open>/^[A-Za-z0-9_.\/-]{1,128}$/\<close>; the code units 45 to 57 are \<open>- . /\<close> and the digits.\<close>

definition is_identifier :: "string \<Rightarrow> bool" where
  "is_identifier s \<longleftrightarrow> s \<noteq> [] \<and> length s \<le> 128 \<and> list_all identifier_char s"

section \<open>Own property order\<close>

text \<open>
  The engine enumerates array-index keys first, in ascending numeric order, then the others in
  insertion order; \<open>Object.fromEntries\<close> therefore reorders its entries.
\<close>

definition is_digit_char :: "char \<Rightarrow> bool" where
  "is_digit_char c \<longleftrightarrow> (let n = (of_char c :: nat) in 48 \<le> n \<and> n \<le> 57)"

definition digits_value :: "string \<Rightarrow> int" where
  "digits_value s = foldl (\<lambda>n c. 10 * n + (of_char c - 48)) 0 s"

definition is_array_index :: "string \<Rightarrow> bool" where
  "is_array_index s \<longleftrightarrow> s \<noteq> [] \<and> list_all is_digit_char s
     \<and> (s = ''0'' \<or> hd s \<noteq> CHR ''0'') \<and> digits_value s < 4294967295"

definition index_order :: "string \<times> 'a \<Rightarrow> string \<times> 'a \<Rightarrow> int" where
  "index_order x y = digits_value (fst x) - digits_value (fst y)"

definition own_order :: "(string \<times> 'a) list \<Rightarrow> (string \<times> 'a) list" where
  "own_order es = js_sort index_order (filter (\<lambda>e. is_array_index (fst e)) es)
     @ filter (\<lambda>e. \<not> is_array_index (fst e)) es"

lemma mset_own_order [simp]: "mset (own_order es) = mset es"
  by (simp add: own_order_def)

lemma set_own_order [simp]: "set (own_order es) = set es"
  by (metis mset_own_order set_mset_mset)

section \<open>JSON.stringify\<close>

definition hex_char :: "nat \<Rightarrow> char" where
  "hex_char n = (if n < 10 then char_of (48 + n) else char_of (87 + n))"

definition json_escape_char :: "char \<Rightarrow> string" where
  "json_escape_char c = (let n = (of_char c :: nat) in
     if n = 34 then [char_of (92::nat), c]
     else if n = 92 then [c, c]
     else if n = 8 then [char_of (92::nat), CHR ''b'']
     else if n = 9 then [char_of (92::nat), CHR ''t'']
     else if n = 10 then [char_of (92::nat), CHR ''n'']
     else if n = 12 then [char_of (92::nat), CHR ''f'']
     else if n = 13 then [char_of (92::nat), CHR ''r'']
     else if n < 32 then [char_of (92::nat), CHR ''u'', CHR ''0'', CHR ''0'', hex_char (n div 16), hex_char (n mod 16)]
     else [c])"

definition json_quote :: "string \<Rightarrow> string" where
  "json_quote s = char_of (34::nat) # concat (map json_escape_char s) @ [char_of (34::nat)]"

text \<open>\<open>undefined\<close> has no serialisation; it prints as \<open>null\<close> in an array and drops a member.\<close>

fun json_stringify :: "jsval \<Rightarrow> string option" where
  "json_stringify JUndef = None"
| "json_stringify JNull = Some ''null''"
| "json_stringify (JBool b) = Some (if b then ''true'' else ''false'')"
| "json_stringify (JNum n) = Some (dec_int n)"
| "json_stringify (JFrac s) = Some s"
| "json_stringify (JStr s) = Some (json_quote s)"
| "json_stringify (JArr xs) = Some (''['' @ js_join '','' (map (\<lambda>v. case json_stringify v of None \<Rightarrow> ''null'' | Some s \<Rightarrow> s) xs) @ '']'')"
| "json_stringify (JObj es) = Some (''{'' @ js_join '','' (concat (map (\<lambda>e. case json_stringify (snd e) of None \<Rightarrow> [] | Some s \<Rightarrow> [json_quote (fst e) @ '':'' @ s]) es)) @ ''}'')"

text \<open>\<open>String(v)\<close>, as template literals convert: an array joins its elements, with nothing for \<open>null\<close>.\<close>

fun js_to_string :: "jsval \<Rightarrow> string" where
  "js_to_string JUndef = ''undefined''"
| "js_to_string JNull = ''null''"
| "js_to_string (JBool b) = (if b then ''true'' else ''false'')"
| "js_to_string (JNum n) = dec_int n"
| "js_to_string (JFrac s) = s"
| "js_to_string (JStr s) = s"
| "js_to_string (JArr xs) = js_join '','' (map (\<lambda>v. if v = JUndef \<or> v = JNull then [] else js_to_string v) xs)"
| "js_to_string (JObj es) = ''[object Object]''"

text \<open>
  A body as it is read from outside: \<open>text ? JSON.parse(text) : null\<close>, and the text itself where
  \<open>JSON.parse\<close>, a parameter, throws.
\<close>

definition parse_or_text :: "(string \<Rightarrow> jsval option) \<Rightarrow> string \<Rightarrow> jsval" where
  "parse_or_text parse text = (if text = [] then JNull else case parse text of Some v \<Rightarrow> v | None \<Rightarrow> JStr text)"

text \<open>\<open>a ?? b\<close>.\<close>

definition nullish_or :: "jsval \<Rightarrow> jsval \<Rightarrow> jsval" where
  "nullish_or a b = (if a = JUndef \<or> a = JNull then b else a)"

section \<open>Canonical JSON and digests\<close>

fun canonicalize :: "jsval \<Rightarrow> jsval" where
  "canonicalize JUndef = JNull"
| "canonicalize (JArr xs) = JArr (map canonicalize xs)"
| "canonicalize (JObj es) =
     JObj (own_order (js_sort (cmp_on fst code_unit_order) (map (\<lambda>e. (fst e, canonicalize (snd e))) es)))"
| "canonicalize v = v"

definition canonical_json :: "jsval \<Rightarrow> string" where
  "canonical_json v = (case json_stringify (canonicalize v) of None \<Rightarrow> '''' | Some s \<Rightarrow> s)"

lemma json_stringify_canonicalize: "\<exists>s. json_stringify (canonicalize v) = Some s"
  by (cases v) simp_all

definition utf8_char :: "char \<Rightarrow> nat list" where
  "utf8_char c = (let n = of_char c in if n < 128 then [n] else [192 + n div 64, 128 + n mod 64])"

definition utf8 :: "string \<Rightarrow> nat list" where
  "utf8 s = concat (map utf8_char s)"

lemma utf8_byte: "b \<in> set (utf8 s) \<Longrightarrow> b < 256"
proof -
  have "n div 64 < 4" if "n < 256" for n :: nat
    using that by (intro less_mult_imp_div_less) simp
  from this [OF of_char_less_256] have "192 + of_char c div 64 < (256 :: nat)" for c
    by (rule order_less_le_trans [OF add_strict_left_mono]) simp
  moreover have "n mod 64 < 128" for n :: nat
    by (rule order_less_trans [of _ 64]) simp_all
  ultimately have "b \<in> set (utf8_char c) \<Longrightarrow> b < 256" for c
    by (auto simp: utf8_char_def Let_def split: if_splits)
  then show "b \<in> set (utf8 s) \<Longrightarrow> b < 256" by (auto simp: utf8_def)
qed

type_synonym sha256 = "nat list \<Rightarrow> string"

definition sha256_hex :: "sha256 \<Rightarrow> jsval \<Rightarrow> string" where
  "sha256_hex sha value = sha (utf8 (canonical_json value))"

definition digest_root :: "sha256 \<Rightarrow> string \<Rightarrow> jsval \<Rightarrow> string" where
  "digest_root sha label value = label @ '':'' @ sha256_hex sha value"

text \<open>
  Two values that differ only in the order of object members, at any depth.
\<close>

inductive same_json :: "jsval \<Rightarrow> jsval \<Rightarrow> bool" where
  same_refl: "same_json v v"
| same_arr: "list_all2 same_json xs ys \<Longrightarrow> same_json (JArr xs) (JArr ys)"
| same_obj: "distinct (map fst es) \<Longrightarrow> mset fs = mset gs \<Longrightarrow>
     list_all2 (\<lambda>e f. fst e = fst f \<and> same_json (snd e) (snd f)) es fs \<Longrightarrow>
     same_json (JObj es) (JObj gs)"
monos list_all2_mono

lemma js_sort_keys_cong:
  assumes "total_comparator c" "mset fs = mset gs" "distinct (map fst fs)"
  shows "js_sort (cmp_on fst c) fs = js_sort (cmp_on fst c) gs"
proof -
  have c: "comparator c" using assms(1) by (rule total_comparator.axioms(1))
  show ?thesis
  proof (rule comparator.js_sort_cong_mset_on [OF comparator_on [OF c]])
    show "x = y" if "x \<in> set fs" "y \<in> set fs" "cmp_on fst c x y = 0" for x y
    proof -
      have "fst x = fst y" using that(3) total_comparator.cmp_eqD [OF assms(1)] by (simp add: cmp_on_def)
      moreover have "snd x = snd y"
        using eq_key_imp_eq_value [OF assms(3)] that(1,2) calculation by (metis prod.collapse)
      ultimately show ?thesis by (rule prod_eqI)
    qed
  qed (rule assms(2))
qed

lemma list_all2_same_fst:
  "list_all2 (\<lambda>e f. fst e = fst f \<and> P (snd e) (snd f)) es fs \<Longrightarrow> map fst es = map fst fs"
  by (induction rule: list_all2_induct) simp_all

text \<open>Canonical JSON forgets the order of object members.\<close>

lemma canonicalize_same: "same_json v w \<Longrightarrow> canonicalize v = canonicalize w"
proof (induction rule: same_json.induct)
  case (same_refl v)
  show ?case by simp
next
  case (same_arr xs ys)
  then show ?case by (induction rule: list_all2_induct) simp_all
next
  case (same_obj es fs gs)
  let ?c = "\<lambda>e. (fst e, canonicalize (snd e))"
  have keys: "map fst es = map fst fs"
    using same_obj(3) by (auto intro: list_all2_same_fst)
  have "map ?c es = map ?c fs"
    using same_obj(3) by (induction rule: list_all2_induct) auto
  moreover have "js_sort (cmp_on fst code_unit_order) (map ?c fs) = js_sort (cmp_on fst code_unit_order) (map ?c gs)"
    using same_obj(1,2) keys by (intro js_sort_keys_cong code_unit.total_comparator_axioms) (simp_all add: comp_def)
  ultimately show ?case by simp
qed

lemma canonical_json_same: "same_json v w \<Longrightarrow> canonical_json v = canonical_json w"
  by (simp add: canonical_json_def canonicalize_same)

end
