(* ===== verification/Harness_Types.thy ===== *)
theory Harness_Types
  imports JS_Value
begin

text \<open>
  The data of \<open>harness/types.ts\<close> and the task boundary of \<open>harness/task.ts\<close>: the task
  a run is about, what an adapter can do, the context envelope it is handed and the result it
  gives back. An optional member is an \<open>option\<close>; the fields of \<open>budget\<close> are kept as the
  list of their entries because the code iterates over \<open>Object.entries(task.budget)\<close>.
\<close>

datatype assurance_level = L0 | L1 | L2 | L3 | Platform

record agent_capabilities =
  ac_level :: assurance_level
  ac_tools :: bool
  ac_resume :: bool
  ac_observe :: bool
  ac_interrupt :: bool
  ac_limitations :: "string list"

type_synonym harness_budget = "(string \<times> js_num option) list"

record constraint_v1 =
  con_id :: string
  con_description :: string

record task_v1 =
  task_id :: "string option"
  objective :: string
  inputs :: jsval
  constraints :: "constraint_v1 list"
  success_criteria :: "string list"
  required_capabilities :: "string list"
  preferred_skills :: "string list"
  prohibited_actions :: "string list option"
  task_budget :: "harness_budget option"
  output_schema :: jsval
  evidence_requirements :: "string list"

text \<open>
  The envelope holds \<open>capabilities\<close> by reference: \<open>env_capabilities_ref\<close> is the identity
  of the object, which \<open>middleware/pipeline.ts\<close> compares with \<open>!==\<close>.
\<close>

record context_envelope =
  env_task :: task_v1
  env_evidence :: "jsval list"
  env_memories :: "jsval list"
  env_skills :: "jsval list"
  env_constraints :: "constraint_v1 list"
  env_capabilities :: agent_capabilities
  env_capabilities_ref :: nat
  env_budget :: harness_budget
  env_dependency_root :: string
  env_receipts :: "string list"

datatype invocation_status = Succeeded | Partial | Failed | Suspended

fun status_name :: "invocation_status \<Rightarrow> string" where
  "status_name Succeeded = ''succeeded''"
| "status_name Partial = ''partial''"
| "status_name Failed = ''failed''"
| "status_name Suspended = ''suspended''"

record invocation_result =
  res_status :: invocation_status
  res_output :: jsval
  res_error :: "string option"
  res_tool_calls :: "string list option"
  res_tokens :: "int option"

section \<open>validateTask\<close>

fun check_budget_entries :: "harness_budget \<Rightarrow> unit result" where
  "check_budget_entries [] = Inr ()"
| "check_budget_entries ((key, value) # es) =
     (case value of
        None \<Rightarrow> check_budget_entries es
      | Some n \<Rightarrow>
          if is_positive_num n then check_budget_entries es
          else Inl (HarnessError (''task.budget.'' @ key @ '' must be a positive integer'')))"

definition validate_task :: "task_v1 \<Rightarrow> task_v1 result" where
  "validate_task task =
     (if js_trim (objective task) = [] then Inl (HarnessError ''task.objective must be a non-empty string'')
      else if success_criteria task = []
        then Inl (HarnessError ''task.successCriteria must contain at least one criterion'')
      else if list_ex (\<lambda>item. js_trim item = []) (success_criteria task)
        then Inl (HarnessError ''task.successCriteria must be non-empty strings'')
      else case task_id task of
          Some i \<Rightarrow>
            if \<not> is_identifier i then Inl (HarnessError (''task.id is not a valid identifier: '' @ i))
            else bind_res (case task_budget task of None \<Rightarrow> Inr () | Some b \<Rightarrow> check_budget_entries b) (\<lambda>_. Inr task)
        | None \<Rightarrow>
            bind_res (case task_budget task of None \<Rightarrow> Inr () | Some b \<Rightarrow> check_budget_entries b) (\<lambda>_. Inr task))"

text \<open>
  \<open>stringifyOutput\<close>: a string is itself, everything else goes through \<open>JSON.stringify\<close>,
  whose answer for \<open>undefined\<close> is \<open>undefined\<close> and not a string (here \<open>None\<close>).
\<close>

fun stringify_output :: "jsval \<Rightarrow> string option" where
  "stringify_output (JStr s) = Some s"
| "stringify_output v = json_stringify v"

definition valid_budget :: "harness_budget \<Rightarrow> bool" where
  "valid_budget b \<longleftrightarrow> (\<forall>(key, value) \<in> set b. \<forall>n. value = Some n \<longrightarrow> is_positive_num n)"

definition valid_task :: "task_v1 \<Rightarrow> bool" where
  "valid_task task \<longleftrightarrow>
     js_trim (objective task) \<noteq> [] \<and> success_criteria task \<noteq> []
     \<and> (\<forall>c \<in> set (success_criteria task). js_trim c \<noteq> [])
     \<and> (\<forall>i. task_id task = Some i \<longrightarrow> is_identifier i)
     \<and> (\<forall>b. task_budget task = Some b \<longrightarrow> valid_budget b)"

lemma check_budget_entries_iff: "check_budget_entries b = Inr u \<longleftrightarrow> valid_budget b"
  by (induction b rule: check_budget_entries.induct) (auto simp: valid_budget_def split: option.splits)

lemma validate_task_Inr_iff: "validate_task task = Inr t \<longleftrightarrow> valid_task task \<and> t = task"
  by (auto simp: validate_task_def valid_task_def list_ex_iff bind_res_eq_Inr check_budget_entries_iff
      split: option.splits if_splits)

lemma stringify_output_None [simp]: "stringify_output v = None \<longleftrightarrow> v = JUndef"
  by (cases v) simp_all

end
