(* ===== verification/Lexical.thy ===== *)
theory Lexical
  imports JS_Value
begin

text \<open>
  \<open>context/lexical.ts\<close>: the tokeniser, the lexical score that ranks evidence, skills and
  memories, and the redundancy test of the context budget.

  The score is computed with exact integer arithmetic. The code divides in floating point
  before \<open>Math.round\<close>; the two agree as long as no quotient lies exactly between two
  integers without being representable, which needs at least 640 distinct query terms.
\<close>

definition token_char :: "char \<Rightarrow> bool" where
  "token_char c \<longleftrightarrow> (let n = (of_char c :: nat) in 97 \<le> n \<and> n \<le> 122 \<or> 48 \<le> n \<and> n \<le> 57)"

text \<open>The maximal runs of token characters; a match of \<open>/[a-z0-9]{2,}/g\<close> is a run of two or more.\<close>

function token_runs :: "string \<Rightarrow> string list" where
  "token_runs s = (case dropWhile (\<lambda>c. \<not> token_char c) s of
       [] \<Rightarrow> []
     | c # cs \<Rightarrow> (c # takeWhile token_char cs) # token_runs (dropWhile token_char cs))"
  by pat_completeness auto
termination
proof (relation "measure length")
  fix s c cs
  assume "dropWhile (\<lambda>c. \<not> token_char c) s = c # cs"
  then have "length (c # cs) \<le> length s" by (metis length_dropWhile_le)
  then show "(dropWhile token_char cs, s) \<in> measure length"
    using length_dropWhile_le [of token_char cs] by simp
qed simp

declare token_runs.simps [simp del]

definition tokenize :: "string \<Rightarrow> string list" where
  "tokenize text = filter (\<lambda>t. 2 \<le> length t) (token_runs (js_lower text))"

definition js_round_div :: "int \<Rightarrow> int \<Rightarrow> int" where
  "js_round_div a b = (2 * a + b) div (2 * b)"

definition lexical_hits :: "string \<Rightarrow> string \<Rightarrow> nat" where
  "lexical_hits query text =
     length (filter (\<lambda>term. term \<in> set (tokenize text)) (js_set (tokenize query)))"

definition lexical_score :: "string \<Rightarrow> string \<Rightarrow> int" where
  "lexical_score query text =
     (let terms = js_set (tokenize query) in
      if length terms = 0 then 0
      else js_round_div (int (lexical_hits query text) * 1000000) (int (length terms)))"

function collapse_ws :: "string \<Rightarrow> string" where
  "collapse_ws [] = []"
| "collapse_ws (c # cs) = (if js_ws c then CHR '' '' # collapse_ws (dropWhile js_ws cs) else c # collapse_ws cs)"
  by pat_completeness auto
termination
  by (relation "measure length") (auto simp: le_imp_less_Suc length_dropWhile_le)

definition normalize_text :: "string \<Rightarrow> string" where
  "normalize_text text = js_trim (collapse_ws (js_lower text))"

definition is_redundant :: "string \<Rightarrow> string list \<Rightarrow> bool" where
  "is_redundant candidate selected =
     (let needle = normalize_text candidate in
      if needle = [] then True
      else list_ex (\<lambda>item. let hay = normalize_text item in
             hay = needle \<or> js_includes hay needle \<or> js_includes needle hay) selected)"

section \<open>The tokens\<close>

lemma token_runs_tokens:
  "t \<in> set (token_runs s) \<Longrightarrow> t \<noteq> [] \<and> list_all token_char t"
proof (induction s rule: token_runs.induct)
  case (1 s)
  show ?case
  proof (cases "dropWhile (\<lambda>c. \<not> token_char c) s")
    case Nil
    with "1.prems" show ?thesis by (subst (asm) token_runs.simps) simp
  next
    case (Cons c cs)
    then have "token_char c"
      by (metis dropWhile_eq_Cons_conv)
    moreover have "list_all token_char (takeWhile token_char cs)"
      by (auto simp: list_all_iff dest: set_takeWhileD)
    ultimately show ?thesis
      using "1.prems" "1.IH" [OF Cons] Cons by (subst (asm) token_runs.simps) auto
  qed
qed

lemma token_runs_sublist: "t \<in> set (token_runs s) \<Longrightarrow> sublist t s"
proof (induction s rule: token_runs.induct)
  case (1 s)
  show ?case
  proof (cases "dropWhile (\<lambda>c. \<not> token_char c) s")
    case Nil
    with "1.prems" show ?thesis by (subst (asm) token_runs.simps) simp
  next
    case (Cons c cs)
    have cs: "sublist (c # cs) s"
      using Cons by (metis sublist_dropWhile)
    have "sublist (c # takeWhile token_char cs) (c # cs)"
      by (intro prefix_imp_sublist) (simp add: takeWhile_is_prefix)
    moreover have "sublist (dropWhile token_char cs) (c # cs)"
      by (meson sublist_dropWhile sublist_Cons_right sublist_order.order.trans)
    ultimately show ?thesis
      using "1.prems" "1.IH" [OF Cons] Cons cs sublist_order.order.trans
      by (subst (asm) token_runs.simps) fastforce
  qed
qed

lemma tokenize_tokens:
  assumes "t \<in> set (tokenize s)"
  shows "2 \<le> length t" "list_all token_char t" "js_includes (js_lower s) t"
  using assms token_runs_tokens token_runs_sublist by (auto simp: tokenize_def js_includes_def)

section \<open>The score\<close>

lemma lexical_hits_card:
  "lexical_hits query text = card (set (tokenize query) \<inter> set (tokenize text))"
proof -
  have "lexical_hits query text = card (set (filter (\<lambda>t. t \<in> set (tokenize text)) (js_set (tokenize query))))"
    unfolding lexical_hits_def by (rule distinct_card [symmetric]) simp
  also have "\<dots> = card (set (tokenize query) \<inter> set (tokenize text))"
    by (rule arg_cong [of _ _ card]) auto
  finally show ?thesis .
qed

lemma lexical_hits_le: "lexical_hits query text \<le> length (js_set (tokenize query))"
  by (simp add: lexical_hits_def)

lemma js_round_div_mono: "0 < b \<Longrightarrow> a \<le> a' \<Longrightarrow> js_round_div a b \<le> js_round_div a' b"
  unfolding js_round_div_def by (rule zdiv_mono1) auto

lemma js_round_div_exact [simp]: "0 < b \<Longrightarrow> js_round_div (b * k) b = k"
  unfolding js_round_div_def by (rule int_div_pos_eq [of _ _ _ b]) (auto simp: algebra_simps)

lemma js_round_div_strict:
  assumes "0 < b" "a + b \<le> a'"
  shows "js_round_div a b < js_round_div a' b"
proof -
  have "js_round_div a b < (2 * a + b + 2 * b) div (2 * b)"
    using assms(1) div_add_self2 [of "2 * b" "2 * a + b"] unfolding js_round_div_def by linarith
  also have "\<dots> \<le> js_round_div a' b"
    unfolding js_round_div_def using assms by (intro zdiv_mono1) auto
  finally show ?thesis .
qed

lemma lexical_score_nonneg: "0 \<le> lexical_score query text"
  by (simp add: lexical_score_def Let_def js_round_div_def pos_imp_zdiv_nonneg_iff)

lemma lexical_score_le: "lexical_score query text \<le> 1000000"
proof -
  let ?n = "int (length (js_set (tokenize query)))"
  have "?n > 0 \<Longrightarrow> js_round_div (int (lexical_hits query text) * 1000000) ?n \<le> js_round_div (?n * 1000000) ?n"
    using lexical_hits_le by (intro js_round_div_mono) auto
  then show ?thesis by (auto simp: lexical_score_def Let_def)
qed

lemma lexical_score_less_iff:
  assumes "length (js_set (tokenize query)) \<le> 1000000"
  shows "lexical_score query a < lexical_score query b \<longleftrightarrow> lexical_hits query a < lexical_hits query b"
proof (cases "length (js_set (tokenize query)) = 0")
  case True
  then have "lexical_hits query t = 0" for t using lexical_hits_le [of query t] by simp
  with True show ?thesis by (simp add: lexical_score_def)
next
  case False
  let ?n = "int (length (js_set (tokenize query)))"
  have score: "lexical_score query t = js_round_div (int (lexical_hits query t) * 1000000) ?n" for t
    using False by (simp add: lexical_score_def)
  show ?thesis
  proof (cases "lexical_hits query a < lexical_hits query b")
    case True
    then have "int (lexical_hits query a) * 1000000 + ?n \<le> int (lexical_hits query b) * 1000000"
      using assms by linarith
    then have "lexical_score query a < lexical_score query b"
      unfolding score using False by (intro js_round_div_strict) auto
    with True show ?thesis by simp
  next
    case not_less: False
    then have "lexical_score query b \<le> lexical_score query a"
      unfolding score using False by (intro js_round_div_mono) auto
    with not_less show ?thesis by simp
  qed
qed

lemma lexical_score_cong:
  "set (tokenize a) = set (tokenize b) \<Longrightarrow> lexical_score query a = lexical_score query b"
  by (simp add: lexical_score_def lexical_hits_def)

section \<open>Redundancy\<close>

lemma is_redundant_blank: "normalize_text s = [] \<Longrightarrow> is_redundant s xs"
  by (simp add: is_redundant_def)

lemma is_redundant_member: "s \<in> set xs \<Longrightarrow> is_redundant s xs"
  by (auto simp: is_redundant_def Let_def list_ex_iff)

lemma is_redundant_mono: "set xs \<subseteq> set ys \<Longrightarrow> is_redundant s xs \<Longrightarrow> is_redundant s ys"
  by (auto simp: is_redundant_def Let_def list_ex_iff split: if_splits dest!: subsetD intro: bexI)

end
