(* ===== verification/Context_Budget.thy ===== *)
theory Context_Budget
  imports Harness_Types Lexical
begin

text \<open>
  \<open>context/budget.ts\<close>: the character budget of the compiled context. \<open>applyBudget\<close> walks
  the ranked items once, drops the redundant ones and the optional ones that do not fit, and
  fails when a required item does not fit. The loop is a recursive function over the items with
  the loop's variables in a \<open>budget_plan\<close>.

  \<open>localeCompare\<close> depends on the host's locale; it is the parameter \<open>lc\<close> of every
  definition that sorts with it.
\<close>

datatype context_kind = Evidence | Constraint | Skill | Memory

fun kind_name :: "context_kind \<Rightarrow> string" where
  "kind_name Evidence = ''evidence''"
| "kind_name Constraint = ''constraint''"
| "kind_name Skill = ''skill''"
| "kind_name Memory = ''memory''"

record ranked_item =
  ri_kind :: context_kind
  ri_id :: string
  ri_text :: string
  ri_score :: int
  ri_required :: bool
  ri_source :: "string option"

record selection_entry =
  se_kind :: context_kind
  se_id :: string
  se_chars :: nat
  se_score :: int
  se_required :: bool

datatype drop_reason = ForBudget | Redundant

record context_drop =
  cd_kind :: context_kind
  cd_id :: string
  cd_reason :: drop_reason

record budget_plan =
  bp_selected :: "ranked_item list"
  bp_entries :: "selection_entry list"
  bp_dropped :: "context_drop list"
  bp_max_chars :: int
  bp_used_chars :: int

record context_budget =
  cb_max_chars :: "js_num option"
  cb_max_tokens :: "js_num option"

definition max_chars_from_budget :: "context_budget option \<Rightarrow> int result" where
  "max_chars_from_budget budget =
     (case budget of
        None \<Rightarrow> Inr max_safe_integer
      | Some b \<Rightarrow>
          (case cb_max_chars b of
             Some n \<Rightarrow>
               if \<not> is_positive_num n then Inl (HarnessError ''contextBudget.maxChars must be a positive integer'')
               else Inr (num_value n)
           | None \<Rightarrow>
               (case cb_max_tokens b of
                  Some n \<Rightarrow>
                    if \<not> is_positive_num n then Inl (HarnessError ''contextBudget.maxTokens must be a positive integer'')
                    else Inr (num_value n * 4)
                | None \<Rightarrow> Inr max_safe_integer)))"

definition chars_of :: "ranked_item \<Rightarrow> int" where
  "chars_of item = int (length (ri_text item))"

definition drop_item :: "drop_reason \<Rightarrow> ranked_item \<Rightarrow> budget_plan \<Rightarrow> budget_plan" where
  "drop_item reason item plan = plan\<lparr>bp_dropped := bp_dropped plan @
     [\<lparr>cd_kind = ri_kind item, cd_id = ri_id item, cd_reason = reason\<rparr>]\<rparr>"

definition select_item :: "ranked_item \<Rightarrow> budget_plan \<Rightarrow> budget_plan" where
  "select_item item plan = plan\<lparr>
     bp_selected := bp_selected plan @ [item],
     bp_used_chars := bp_used_chars plan + chars_of item,
     bp_entries := bp_entries plan @ [\<lparr>se_kind = ri_kind item, se_id = ri_id item,
       se_chars = length (ri_text item), se_score = ri_score item, se_required = ri_required item\<rparr>]\<rparr>"

definition overflow_error :: "ranked_item \<Rightarrow> budget_plan \<Rightarrow> js_error" where
  "overflow_error item plan = HarnessError (''required '' @ kind_name (ri_kind item) @ '' '' @ [char_of (39::nat)]
     @ ri_id item @ [char_of (39::nat)] @ '' exceeds context budget ('' @ dec_int (bp_used_chars plan + chars_of item)
     @ '' > '' @ dec_int (bp_max_chars plan) @ '' chars)'')"

definition budget_step :: "ranked_item \<Rightarrow> budget_plan \<Rightarrow> budget_plan result" where
  "budget_step item plan =
     (if is_redundant (ri_text item) (map ri_text (bp_selected plan)) then Inr (drop_item Redundant item plan)
      else if bp_max_chars plan < bp_used_chars plan + chars_of item then
        (if ri_required item then Inl (overflow_error item plan) else Inr (drop_item ForBudget item plan))
      else Inr (select_item item plan))"

fun budget_loop :: "ranked_item list \<Rightarrow> budget_plan \<Rightarrow> budget_plan result" where
  "budget_loop [] plan = Inr plan"
| "budget_loop (item # items) plan = bind_res (budget_step item plan) (budget_loop items)"

definition empty_plan :: "int \<Rightarrow> budget_plan" where
  "empty_plan m = \<lparr>bp_selected = [], bp_entries = [], bp_dropped = [], bp_max_chars = m, bp_used_chars = 0\<rparr>"

definition apply_budget :: "ranked_item list \<Rightarrow> context_budget option \<Rightarrow> budget_plan result" where
  "apply_budget items budget =
     bind_res (max_chars_from_budget budget) (\<lambda>m. budget_loop items (empty_plan m))"

type_synonym collation = "string \<Rightarrow> string \<Rightarrow> int"

definition compare_rank :: "collation \<Rightarrow> ranked_item \<Rightarrow> ranked_item \<Rightarrow> int" where
  "compare_rank lc left right =
     (if ri_score right \<noteq> ri_score left then ri_score right - ri_score left
      else lc (ri_id left) (ri_id right))"

section \<open>The invariant of the loop\<close>

text \<open>
  What the loop keeps true of its variables: the counter is the number of characters selected
  and within the budget, the receipt entries describe the selected items, no selected text is
  redundant with those before it, and a required item is never dropped for the budget.
\<close>

definition entry_of :: "ranked_item \<Rightarrow> selection_entry" where
  "entry_of item = \<lparr>se_kind = ri_kind item, se_id = ri_id item, se_chars = length (ri_text item),
     se_score = ri_score item, se_required = ri_required item\<rparr>"

definition plan_ok :: "budget_plan \<Rightarrow> bool" where
  "plan_ok plan \<longleftrightarrow>
     bp_used_chars plan = sum_list (map chars_of (bp_selected plan))
     \<and> bp_used_chars plan \<le> bp_max_chars plan
     \<and> bp_entries plan = map entry_of (bp_selected plan)
     \<and> (\<forall>xs y zs. bp_selected plan = xs @ y # zs \<longrightarrow> \<not> is_redundant (ri_text y) (map ri_text xs))"

lemma plan_ok_empty: "0 \<le> m \<Longrightarrow> plan_ok (empty_plan m)"
  by (simp add: plan_ok_def empty_plan_def)

lemma budget_step_cases:
  assumes "budget_step item plan = Inr plan'"
  obtains (redundant) "is_redundant (ri_text item) (map ri_text (bp_selected plan))" "plan' = drop_item Redundant item plan"
    | (budget) "\<not> ri_required item" "bp_max_chars plan < bp_used_chars plan + chars_of item" "plan' = drop_item ForBudget item plan"
    | (select) "\<not> is_redundant (ri_text item) (map ri_text (bp_selected plan))"
        "bp_used_chars plan + chars_of item \<le> bp_max_chars plan" "plan' = select_item item plan"
  using assms by (auto simp: budget_step_def split: if_splits)

lemma budget_step_ok:
  assumes "budget_step item plan = Inr plan'" "plan_ok plan"
  shows "plan_ok plan'"
  using assms(1)
proof (cases rule: budget_step_cases)
  case select
  have "\<not> is_redundant (ri_text y) (map ri_text xs)" if "bp_selected plan @ [item] = xs @ y # zs" for xs y zs
    using that assms(2) select(1) by (cases zs rule: rev_cases) (auto simp: plan_ok_def)
  with select assms(2) show ?thesis
    by (simp add: plan_ok_def select_item_def entry_of_def)
qed (use assms(2) in \<open>simp_all add: plan_ok_def drop_item_def\<close>)

lemma budget_step_max: "budget_step item plan = Inr plan' \<Longrightarrow> bp_max_chars plan' = bp_max_chars plan"
  by (auto elim!: budget_step_cases simp: drop_item_def select_item_def)

lemma budget_loop_ok: "budget_loop items plan = Inr plan' \<Longrightarrow> plan_ok plan \<Longrightarrow> plan_ok plan'"
  by (induction items arbitrary: plan) (auto simp: bind_res_eq_Inr intro: budget_step_ok)

lemma budget_loop_max: "budget_loop items plan = Inr plan' \<Longrightarrow> bp_max_chars plan' = bp_max_chars plan"
  by (induction items arbitrary: plan) (auto simp: bind_res_eq_Inr budget_step_max)

text \<open>The fate of every item: selected in order, or dropped with a reason, in order.\<close>

definition fate_ok :: "ranked_item list \<Rightarrow> budget_plan \<Rightarrow> bool" where
  "fate_ok items plan \<longleftrightarrow>
     subseq (bp_selected plan) items
     \<and> mset (map (\<lambda>i. (ri_kind i, ri_id i)) items)
         = mset (map (\<lambda>i. (ri_kind i, ri_id i)) (bp_selected plan)) + mset (map (\<lambda>d. (cd_kind d, cd_id d)) (bp_dropped plan))
     \<and> (\<forall>i \<in> set items. ri_required i \<longrightarrow>
          i \<in> set (bp_selected plan) \<or> is_redundant (ri_text i) (map ri_text (bp_selected plan)))"

lemma budget_step_fate:
  assumes "budget_step item plan = Inr plan'" "fate_ok items plan"
  shows "fate_ok (items @ [item]) plan'"
  using assms(1)
proof (cases rule: budget_step_cases)
  case redundant
  with assms(2) show ?thesis
    by (auto simp: fate_ok_def drop_item_def intro: subseq_rev_drop_many)
next
  case budget
  with assms(2) show ?thesis
    by (auto simp: fate_ok_def drop_item_def intro: subseq_rev_drop_many)
next
  case select
  have mono: "is_redundant t (map ri_text (bp_selected plan)) \<Longrightarrow> is_redundant t (map ri_text (bp_selected plan) @ [ri_text item])" for t
    by (rule is_redundant_mono [rotated]) auto
  with select assms(2) show ?thesis
    by (auto simp: fate_ok_def select_item_def)
qed

lemma budget_loop_fate:
  "budget_loop items plan = Inr plan' \<Longrightarrow> fate_ok done plan \<Longrightarrow> fate_ok (done @ items) plan'"
proof (induction items arbitrary: plan "done")
  case Nil
  then show ?case by simp
next
  case (Cons item items)
  then show ?case
    using budget_step_fate Cons.IH [of _ "done @ [item]"] by (auto simp: bind_res_eq_Inr)
qed

lemma budget_loop_append:
  "budget_loop (xs @ ys) plan = bind_res (budget_loop xs plan) (budget_loop ys)"
  by (induction xs arbitrary: plan) (auto simp: bind_res_def split: sum.splits)

lemma budget_loop_Inl:
  "budget_loop items plan = Inl e \<Longrightarrow>
     \<exists>pre item post plan'. items = pre @ item # post \<and> budget_loop pre plan = Inr plan'
       \<and> budget_step item plan' = Inl e"
proof (induction items arbitrary: plan)
  case Nil
  then show ?case by simp
next
  case (Cons item items)
  show ?case
  proof (cases "budget_step item plan")
    case (Inl e')
    with Cons.prems have "budget_loop [] plan = Inr plan \<and> budget_step item plan = Inl e" by simp
    then show ?thesis by (metis append_Nil)
  next
    case (Inr plan')
    with Cons.prems obtain pre it post plan'' where
      "items = pre @ it # post" "budget_loop pre plan' = Inr plan''" "budget_step it plan'' = Inl e"
      using Cons.IH by fastforce
    with Inr have "item # items = (item # pre) @ it # post \<and> budget_loop (item # pre) plan = Inr plan''
        \<and> budget_step it plan'' = Inl e" by simp
    then show ?thesis by blast
  qed
qed

lemma budget_step_Inl_iff:
  "budget_step item plan = Inl e \<longleftrightarrow>
     \<not> is_redundant (ri_text item) (map ri_text (bp_selected plan)) \<and> ri_required item
     \<and> bp_max_chars plan < bp_used_chars plan + chars_of item \<and> e = overflow_error item plan"
  by (auto simp: budget_step_def)

lemma max_chars_positive: "max_chars_from_budget budget = Inr m \<Longrightarrow> 0 < m"
  by (auto simp: max_chars_from_budget_def is_positive_num_def max_safe_integer_def split: option.splits if_splits)

lemma apply_budget_Inr:
  assumes "apply_budget items budget = Inr plan"
  obtains m where "max_chars_from_budget budget = Inr m" "budget_loop items (empty_plan m) = Inr plan"
    "plan_ok plan" "fate_ok items plan" "bp_max_chars plan = m"
proof -
  from assms obtain m where m: "max_chars_from_budget budget = Inr m" "budget_loop items (empty_plan m) = Inr plan"
    by (auto simp: apply_budget_def bind_res_eq_Inr)
  moreover have "plan_ok plan"
    using m max_chars_positive plan_ok_empty budget_loop_ok by (metis order_less_imp_le)
  moreover have "fate_ok [] (empty_plan m)"
    by (simp add: fate_ok_def empty_plan_def)
  with m(2) have "fate_ok items plan"
    using budget_loop_fate [of items "empty_plan m" plan "[]"] by simp
  moreover have "bp_max_chars plan = m"
    using budget_loop_max [OF m(2)] by (simp add: empty_plan_def)
  ultimately show ?thesis using that by blast
qed

lemma comparator_compare_rank:
  assumes "comparator lc"
  shows "comparator (compare_rank lc)"
proof -
  have eq: "compare_rank lc = cmp_then (cmp_on ri_score cmp_desc) (cmp_on ri_id lc)"
    by (intro ext) (simp add: cmp_then_def cmp_on_def cmp_desc_def compare_rank_def)
  show ?thesis
    unfolding eq using assms by (intro comparator_then comparator_on comparator_desc)
qed

section \<open>Properties\<close>

text \<open>
  C1. A compiled selection never exceeds the budget: the counter of the receipt is exactly the
  number of characters of the selected texts, it is at most the configured maximum, the receipt
  entries are those of the selected items in order, and every item handed in is accounted for
  exactly once, as selected or as dropped.
\<close>

theorem apply_budget_accounts:
  assumes "apply_budget items budget = Inr plan"
  shows "bp_used_chars plan = sum_list (map chars_of (bp_selected plan))
    \<and> max_chars_from_budget budget = Inr (bp_max_chars plan)
    \<and> bp_used_chars plan \<le> bp_max_chars plan
    \<and> bp_entries plan = map entry_of (bp_selected plan)
    \<and> subseq (bp_selected plan) items
    \<and> mset (map (\<lambda>i. (ri_kind i, ri_id i)) items)
         = mset (map (\<lambda>i. (ri_kind i, ri_id i)) (bp_selected plan)) + mset (map (\<lambda>d. (cd_kind d, cd_id d)) (bp_dropped plan))"
  using assms by (auto elim!: apply_budget_Inr simp: plan_ok_def fate_ok_def)

text \<open>
  Required items are never dropped for the budget: if compilation succeeds, each required
  item is selected or repeats (in the sense of the redundancy test) text that is selected; and
  the call fails exactly when some required item, at its turn, is not redundant and does not fit.
\<close>

theorem apply_budget_required:
  assumes "max_chars_from_budget budget = Inr m"
  shows "(case apply_budget items budget of
      Inr plan \<Rightarrow> \<forall>i \<in> set items. ri_required i \<longrightarrow>
        i \<in> set (bp_selected plan) \<or> is_redundant (ri_text i) (map ri_text (bp_selected plan))
    | Inl e \<Rightarrow> \<exists>pre item post plan. items = pre @ item # post \<and> ri_required item
        \<and> apply_budget pre budget = Inr plan
        \<and> \<not> is_redundant (ri_text item) (map ri_text (bp_selected plan))
        \<and> m < bp_used_chars plan + chars_of item \<and> e = overflow_error item plan)"
proof (cases "apply_budget items budget")
  case (Inr plan)
  then show ?thesis by (auto elim!: apply_budget_Inr simp: fate_ok_def)
next
  case (Inl e)
  with assms have "budget_loop items (empty_plan m) = Inl e" by (simp add: apply_budget_def)
  then obtain pre item post plan where p: "items = pre @ item # post"
    "budget_loop pre (empty_plan m) = Inr plan" "budget_step item plan = Inl e"
    using budget_loop_Inl by blast
  have "bp_max_chars plan = m"
    using budget_loop_max [OF p(2)] by (simp add: empty_plan_def)
  moreover have "apply_budget pre budget = Inr plan"
    using assms p(2) by (simp add: apply_budget_def)
  ultimately show ?thesis using Inl p unfolding budget_step_Inl_iff by fastforce
qed

text \<open>
  No selected text repeats an earlier selected text: each one is non-blank after
  normalisation and neither contains nor is contained in the normalised text of an item selected
  before it.
\<close>

theorem apply_budget_no_repeats:
  assumes "apply_budget items budget = Inr plan" "bp_selected plan = xs @ x # ys @ y # zs"
  shows "normalize_text (ri_text y) \<noteq> []
    \<and> \<not> js_includes (normalize_text (ri_text x)) (normalize_text (ri_text y))
    \<and> \<not> js_includes (normalize_text (ri_text y)) (normalize_text (ri_text x))"
proof -
  have "plan_ok plan" using assms(1) by (rule apply_budget_Inr)
  moreover have "bp_selected plan = (xs @ x # ys) @ y # zs" using assms(2) by simp
  ultimately have "\<not> is_redundant (ri_text y) (map ri_text (xs @ x # ys))"
    unfolding plan_ok_def by blast
  then show ?thesis
    by (auto simp: is_redundant_def Let_def split: if_splits)
qed

definition demo_items :: "ranked_item list" where
  "demo_items =
     [\<lparr>ri_kind = Evidence, ri_id = ''e1'', ri_text = ''alpha'', ri_score = 7, ri_required = True, ri_source = None\<rparr>,
      \<lparr>ri_kind = Evidence, ri_id = ''e2'', ri_text = ''ALPHA '', ri_score = 6, ri_required = False, ri_source = None\<rparr>,
      \<lparr>ri_kind = Skill, ri_id = ''s1'', ri_text = ''much longer text'', ri_score = 5, ri_required = False, ri_source = None\<rparr>,
      \<lparr>ri_kind = Memory, ri_id = ''m1'', ri_text = ''beta'', ri_score = 1, ri_required = False, ri_source = None\<rparr>]"

definition demo_budget :: "context_budget option" where
  "demo_budget = Some \<lparr>cb_max_chars = None, cb_max_tokens = Some (Whole 3)\<rparr>"

lemma demo_plan:
  "apply_budget demo_items demo_budget = Inr \<lparr>
     bp_selected = [demo_items ! 0, demo_items ! 3],
     bp_entries = [entry_of (demo_items ! 0), entry_of (demo_items ! 3)],
     bp_dropped = [\<lparr>cd_kind = Evidence, cd_id = ''e2'', cd_reason = Redundant\<rparr>,
                   \<lparr>cd_kind = Skill, cd_id = ''s1'', cd_reason = ForBudget\<rparr>],
     bp_max_chars = 12, bp_used_chars = 9\<rparr>"
  by code_simp

theorem apply_budget_accounts_witness:
  "\<exists>plan. apply_budget demo_items demo_budget = Inr plan
     \<and> bp_used_chars plan \<le> bp_max_chars plan \<and> bp_used_chars plan = 9"
  using apply_budget_accounts [OF demo_plan] demo_plan by simp

theorem apply_budget_required_witness:
  "\<exists>plan. apply_budget demo_items demo_budget = Inr plan
     \<and> demo_items ! 0 \<in> set demo_items \<and> demo_items ! 0 \<in> set (bp_selected plan)"
proof -
  have "max_chars_from_budget demo_budget = Inr 12" by code_simp
  note apply_budget_required [OF this, of demo_items]
  then show ?thesis using demo_plan by (simp add: demo_items_def)
qed

theorem apply_budget_no_repeats_witness:
  "\<not> js_includes (normalize_text ''alpha'') (normalize_text ''beta'')"
  using apply_budget_no_repeats [OF demo_plan, of "[]" "demo_items ! 0" "[]" "demo_items ! 3" "[]"]
  by (simp add: demo_items_def)

end
