(* ===== verification/Context_Compiler.thy ===== *)
theory Context_Compiler
  imports Context_Budget
begin

text \<open>
  \<open>context/compiler.ts\<close>, \<open>context/sources.ts\<close> and the types of \<open>context/types.ts\<close>:
  from a task and its evidence, skills and memories to the context envelope and the selection
  receipt. A source the host supplies (\<open>EvidenceSourceV1\<close>, \<open>MemorySourceV1\<close>, the semantic
  reranker) is a function that may fail.
\<close>

record evidence_item =
  ev_id :: string
  ev_text :: string
  ev_source :: "string option"
  ev_required :: bool
  ev_score :: "int option"

record memory_item =
  mem_id :: string
  mem_text :: string
  mem_score :: "int option"

record skill_item =
  ski_id :: string
  ski_text :: string
  ski_required :: bool
  ski_score :: "int option"
  ski_source :: "string option"

datatype 'i source = NoSource | Rows "'i list" | External "string \<Rightarrow> 'i list result"

type_synonym rerank_fn = "evidence_item list \<Rightarrow> string \<Rightarrow> evidence_item list result"

record selection_receipt =
  sel_query :: string
  sel_selected :: "selection_entry list"
  sel_dropped :: "context_drop list"
  sel_max_chars :: int
  sel_used_chars :: int
  sel_rerank :: "string option option"

record compile_input =
  ci_task :: task_v1
  ci_capabilities :: agent_capabilities
  ci_capabilities_ref :: nat
  ci_budget :: harness_budget
  ci_dependency_root :: string
  ci_evidence :: "evidence_item source"
  ci_memories :: "memory_item source"
  ci_skills :: "skill_item list"
  ci_context_budget :: "context_budget option"
  ci_rerank :: "rerank_fn option"
  ci_rerank_model :: "string option"

record compiled_context =
  cc_envelope :: context_envelope
  cc_selection :: selection_receipt
  cc_root :: string

section \<open>Sources\<close>

definition default_score :: "string \<Rightarrow> string \<Rightarrow> int option \<Rightarrow> int" where
  "default_score query text score = (case score of Some n \<Rightarrow> n | None \<Rightarrow> lexical_score query text)"

definition score_evidence :: "string \<Rightarrow> evidence_item \<Rightarrow> evidence_item" where
  "score_evidence query item = item\<lparr>ev_score := Some (default_score query (ev_text item) (ev_score item))\<rparr>"

definition score_memory :: "string \<Rightarrow> memory_item \<Rightarrow> memory_item" where
  "score_memory query item = item\<lparr>mem_score := Some (default_score query (mem_text item) (mem_score item))\<rparr>"

definition or_zero :: "int option \<Rightarrow> int" where
  "or_zero n = (case n of Some i \<Rightarrow> i | None \<Rightarrow> 0)"

definition compare_evidence :: "collation \<Rightarrow> evidence_item \<Rightarrow> evidence_item \<Rightarrow> int" where
  "compare_evidence lc left right =
     (let d = or_zero (ev_score right) - or_zero (ev_score left) in
      if d \<noteq> 0 then d else lc (ev_id left) (ev_id right))"

definition compare_memory :: "collation \<Rightarrow> memory_item \<Rightarrow> memory_item \<Rightarrow> int" where
  "compare_memory lc left right =
     (let d = or_zero (mem_score right) - or_zero (mem_score left) in
      if d \<noteq> 0 then d else lc (mem_id left) (mem_id right))"

definition static_evidence :: "collation \<Rightarrow> evidence_item list \<Rightarrow> string \<Rightarrow> evidence_item list" where
  "static_evidence lc items query = js_sort (compare_evidence lc) (map (score_evidence query) items)"

definition static_memories :: "collation \<Rightarrow> memory_item list \<Rightarrow> string \<Rightarrow> memory_item list" where
  "static_memories lc items query = js_sort (compare_memory lc) (map (score_memory query) items)"

text \<open>The inner loop of \<open>composeMemories\<close>: the first row of each id wins.\<close>

fun compose_rows :: "string \<Rightarrow> memory_item list \<Rightarrow> string list \<times> memory_item list \<Rightarrow> string list \<times> memory_item list" where
  "compose_rows query [] acc = acc"
| "compose_rows query (row # rows) (seen, items) =
     compose_rows query rows
       (if mem_id row \<in> set seen then (seen, items)
        else (mem_id row # seen, items @ [score_memory query row]))"

fun source_rows :: "'i source \<Rightarrow> string \<Rightarrow> 'i list result" where
  "source_rows NoSource query = Inr []"
| "source_rows (Rows rows) query = Inr rows"
| "source_rows (External recall) query = recall query"

fun compose_sources :: "string \<Rightarrow> memory_item source list \<Rightarrow> string list \<times> memory_item list \<Rightarrow> memory_item list result" where
  "compose_sources query [] (seen, items) = Inr items"
| "compose_sources query (source # sources) acc =
     bind_res (source_rows source query) (\<lambda>rows. compose_sources query sources (compose_rows query rows acc))"

definition compose_memories :: "collation \<Rightarrow> memory_item source list \<Rightarrow> string \<Rightarrow> memory_item list result" where
  "compose_memories lc sources query =
     bind_res (compose_sources query sources ([], [])) (\<lambda>items. Inr (js_sort (compare_memory lc) items))"

definition resolve_evidence :: "evidence_item source \<Rightarrow> string \<Rightarrow> evidence_item list result" where
  "resolve_evidence source query =
     (case source of
        NoSource \<Rightarrow> Inr []
      | Rows rows \<Rightarrow> Inr (map (score_evidence query) rows)
      | External retrieve \<Rightarrow> retrieve query)"

definition resolve_memories :: "memory_item source \<Rightarrow> string \<Rightarrow> memory_item list result" where
  "resolve_memories source query =
     (case source of
        NoSource \<Rightarrow> Inr []
      | Rows rows \<Rightarrow> Inr (map (score_memory query) rows)
      | External recall \<Rightarrow> recall query)"

section \<open>Marking the required evidence\<close>

definition evidence_hay :: "evidence_item \<Rightarrow> string" where
  "evidence_hay item = js_lower (ev_id item @ '' '' @ (case ev_source item of Some s \<Rightarrow> s | None \<Rightarrow> '''') @ '' '' @ ev_text item)"

text \<open>
  The requirement a row claims: the first unclaimed one its text mentions. An empty requirement is
  falsy, so finding it counts as finding none.
\<close>

definition find_claim :: "string list \<Rightarrow> string list \<Rightarrow> string \<Rightarrow> string option" where
  "find_claim needed claimed hay =
     (case find (\<lambda>req. req \<notin> set claimed \<and> js_includes hay req) needed of
        Some req \<Rightarrow> if req = [] then None else Some req
      | None \<Rightarrow> None)"

fun mark_loop :: "string list \<Rightarrow> string list \<Rightarrow> evidence_item list \<Rightarrow> evidence_item list" where
  "mark_loop needed claimed [] = []"
| "mark_loop needed claimed (item # items) =
     (let hay = evidence_hay item in
      if ev_required item then
        item # mark_loop needed (claimed @ filter (js_includes hay) needed) items
      else case find_claim needed claimed hay of
          None \<Rightarrow> item # mark_loop needed claimed items
        | Some req \<Rightarrow> item\<lparr>ev_required := True\<rparr> # mark_loop needed (claimed @ [req]) items)"

definition mark_required :: "evidence_item list \<Rightarrow> string list \<Rightarrow> evidence_item list" where
  "mark_required items requirements =
     (if requirements = [] then items else mark_loop (map js_lower requirements) [] items)"

section \<open>Ranking\<close>

definition truthy_source :: "string option \<Rightarrow> string option" where
  "truthy_source s = (case s of Some t \<Rightarrow> if t = [] then None else Some t | None \<Rightarrow> None)"

definition ranked_evidence :: "string \<Rightarrow> evidence_item \<Rightarrow> ranked_item" where
  "ranked_evidence query item = \<lparr>ri_kind = Evidence, ri_id = ev_id item, ri_text = ev_text item,
     ri_score = default_score query (ev_text item) (ev_score item), ri_required = ev_required item,
     ri_source = truthy_source (ev_source item)\<rparr>"

definition ranked_constraint :: "constraint_v1 \<Rightarrow> ranked_item" where
  "ranked_constraint c = \<lparr>ri_kind = Constraint, ri_id = con_id c, ri_text = con_description c,
     ri_score = 0, ri_required = True, ri_source = None\<rparr>"

definition ranked_skill :: "string \<Rightarrow> skill_item \<Rightarrow> ranked_item" where
  "ranked_skill query skill = \<lparr>ri_kind = Skill, ri_id = ski_id skill, ri_text = ski_text skill,
     ri_score = default_score query (ski_text skill) (ski_score skill), ri_required = ski_required skill,
     ri_source = truthy_source (ski_source skill)\<rparr>"

definition ranked_memory :: "string \<Rightarrow> memory_item \<Rightarrow> ranked_item" where
  "ranked_memory query memory = \<lparr>ri_kind = Memory, ri_id = mem_id memory, ri_text = mem_text memory,
     ri_score = default_score query (mem_text memory) (mem_score memory), ri_required = False, ri_source = None\<rparr>"

definition split_evidence :: "collation \<Rightarrow> evidence_item list \<Rightarrow> string \<Rightarrow> bool \<Rightarrow> ranked_item list \<times> ranked_item list" where
  "split_evidence lc items query preserve_order =
     (let required = js_sort (cmp_on ri_id lc) (map (ranked_evidence query) (filter ev_required items));
          rest = map (ranked_evidence query) (filter (\<lambda>i. \<not> ev_required i) items)
      in (required, if preserve_order then rest else js_sort (compare_rank lc) rest))"

definition compare_skill :: "collation \<Rightarrow> ranked_item \<Rightarrow> ranked_item \<Rightarrow> int" where
  "compare_skill lc left right =
     (let d = (if ri_required right then 1 else 0) - (if ri_required left then 1 else 0) in
      if d \<noteq> 0 then d else compare_rank lc left right)"

text \<open>The items handed to the budget, in order.\<close>

definition context_items :: "collation \<Rightarrow> compile_input \<Rightarrow> evidence_item list \<Rightarrow> memory_item list \<Rightarrow> ranked_item list" where
  "context_items lc inp reranked memories =
     (let query = objective (ci_task inp);
          (required_evidence, extra_evidence) = split_evidence lc reranked query (\<not> Option.is_none (ci_rerank inp));
          constraints = map ranked_constraint (constraints (ci_task inp));
          skills = js_sort (compare_skill lc) (map (ranked_skill query) (ci_skills inp));
          mems = js_sort (compare_rank lc) (map (ranked_memory query) memories)
      in required_evidence @ constraints @ extra_evidence @ skills @ mems)"

section \<open>Receipt and envelope\<close>

definition as_json_item :: "ranked_item \<Rightarrow> jsval" where
  "as_json_item item = JObj ([(''id'', JStr (ri_id item)), (''text'', JStr (ri_text item))] @
     (case ri_source item of Some s \<Rightarrow> if s = [] then [] else [(''sourceId'', JStr s)] | None \<Rightarrow> []))"

definition entry_json :: "selection_entry \<Rightarrow> jsval" where
  "entry_json e = JObj [(''kind'', JStr (kind_name (se_kind e))), (''id'', JStr (se_id e)),
     (''chars'', JNum (int (se_chars e))), (''score'', JNum (se_score e)), (''required'', JBool (se_required e))]"

definition drop_json :: "context_drop \<Rightarrow> jsval" where
  "drop_json d = JObj [(''kind'', JStr (kind_name (cd_kind d))), (''id'', JStr (cd_id d)),
     (''reason'', JStr (case cd_reason d of ForBudget \<Rightarrow> ''budget'' | Redundant \<Rightarrow> ''redundant''))]"

definition rerank_json :: "string option option \<Rightarrow> jsval" where
  "rerank_json r = (case r of
       None \<Rightarrow> JNull
     | Some m \<Rightarrow> JObj ([(''kind'', JStr ''external-effect''), (''effect'', JStr ''semantic-rerank''), (''deterministic'', JBool False)]
         @ (case m of Some s \<Rightarrow> [(''model'', JStr s)] | None \<Rightarrow> [])))"

definition selection_json :: "selection_receipt \<Rightarrow> jsval" where
  "selection_json s = JObj [(''version'', JNum 1), (''query'', JStr (sel_query s)), (''lexical'', JBool True),
     (''selected'', JArr (map entry_json (sel_selected s))), (''dropped'', JArr (map drop_json (sel_dropped s))),
     (''budget'', JObj [(''maxChars'', JNum (sel_max_chars s)), (''usedChars'', JNum (sel_used_chars s))]),
     (''semanticRerank'', rerank_json (sel_rerank s))]"

definition of_kind :: "context_kind \<Rightarrow> ranked_item list \<Rightarrow> ranked_item list" where
  "of_kind k items = filter (\<lambda>i. ri_kind i = k) items"

definition assemble :: "sha256 \<Rightarrow> compile_input \<Rightarrow> budget_plan \<Rightarrow> compiled_context" where
  "assemble sha inp plan =
     (let selection = \<lparr>sel_query = objective (ci_task inp), sel_selected = bp_entries plan,
            sel_dropped = bp_dropped plan, sel_max_chars = bp_max_chars plan, sel_used_chars = bp_used_chars plan,
            sel_rerank = (case ci_rerank inp of None \<Rightarrow> None | Some f \<Rightarrow> Some (truthy_source (ci_rerank_model inp)))\<rparr>;
          root = digest_root sha ''context-selection'' (selection_json selection)
      in \<lparr>cc_envelope = \<lparr>env_task = ci_task inp,
             env_evidence = map as_json_item (of_kind Evidence (bp_selected plan)),
             env_memories = map as_json_item (of_kind Memory (bp_selected plan)),
             env_skills = map as_json_item (of_kind Skill (bp_selected plan)),
             env_constraints = map (\<lambda>i. \<lparr>con_id = ri_id i, con_description = ri_text i\<rparr>) (of_kind Constraint (bp_selected plan)),
             env_capabilities = ci_capabilities inp, env_capabilities_ref = ci_capabilities_ref inp,
             env_budget = ci_budget inp, env_dependency_root = ci_dependency_root inp, env_receipts = [root]\<rparr>,
          cc_selection = selection, cc_root = root\<rparr>)"

definition rerank_step :: "compile_input \<Rightarrow> evidence_item list \<Rightarrow> evidence_item list result" where
  "rerank_step inp evidence =
     (case ci_rerank inp of None \<Rightarrow> Inr evidence | Some f \<Rightarrow> f evidence (objective (ci_task inp)))"

definition compile_context :: "collation \<Rightarrow> sha256 \<Rightarrow> compile_input \<Rightarrow> compiled_context result" where
  "compile_context lc sha inp =
     (let query = objective (ci_task inp) in
      bind_res (resolve_evidence (ci_evidence inp) query) (\<lambda>rows.
      bind_res (rerank_step inp (mark_required rows (evidence_requirements (ci_task inp)))) (\<lambda>reranked.
      bind_res (resolve_memories (ci_memories inp) query) (\<lambda>memories.
      bind_res (apply_budget (context_items lc inp reranked memories) (ci_context_budget inp)) (\<lambda>plan.
      Inr (assemble sha inp plan))))))"

section \<open>Lemmas\<close>

lemma compile_context_Inr:
  assumes "compile_context lc sha inp = Inr c"
  obtains rows reranked memories plan where
    "resolve_evidence (ci_evidence inp) (objective (ci_task inp)) = Inr rows"
    "rerank_step inp (mark_required rows (evidence_requirements (ci_task inp))) = Inr reranked"
    "resolve_memories (ci_memories inp) (objective (ci_task inp)) = Inr memories"
    "apply_budget (context_items lc inp reranked memories) (ci_context_budget inp) = Inr plan"
    "c = assemble sha inp plan"
  using assms by (auto simp: compile_context_def Let_def bind_res_eq_Inr)

lemma assemble_selection [simp]:
  "sel_selected (cc_selection (assemble sha inp plan)) = bp_entries plan"
  "sel_dropped (cc_selection (assemble sha inp plan)) = bp_dropped plan"
  "sel_max_chars (cc_selection (assemble sha inp plan)) = bp_max_chars plan"
  "sel_used_chars (cc_selection (assemble sha inp plan)) = bp_used_chars plan"
  by (simp_all add: assemble_def Let_def)

lemma evidence_hay_required [simp]: "evidence_hay (item\<lparr>ev_required := b\<rparr>) = evidence_hay item"
  by (simp add: evidence_hay_def)

lemma evidence_hay_score [simp]: "evidence_hay (item\<lparr>ev_score := s\<rparr>) = evidence_hay item"
  by (simp add: evidence_hay_def)

lemma mark_loop_hay: "map evidence_hay (mark_loop needed claimed items) = map evidence_hay items"
  by (induction needed claimed items rule: mark_loop.induct) (auto simp: Let_def split: option.splits)

lemma mark_loop_keeps:
  "list_all2 (\<lambda>i i'. i' = i \<or> i' = i\<lparr>ev_required := True\<rparr>) items (mark_loop needed claimed items)"
  by (induction needed claimed items rule: mark_loop.induct) (auto simp: Let_def split: option.splits)

lemma find_claim_Some:
  "find_claim needed claimed hay = Some req \<Longrightarrow> req \<in> set needed \<and> js_includes hay req \<and> req \<noteq> []"
  by (auto simp: find_claim_def dest: find_in_set split: option.splits if_splits)

lemma find_claim_None:
  "find_claim needed claimed hay = None \<Longrightarrow> [] \<notin> set needed \<Longrightarrow> req \<in> set needed \<Longrightarrow> js_includes hay req \<Longrightarrow> req \<in> set claimed"
  by (auto simp: find_claim_def find_None_iff dest: find_in_set split: option.splits if_splits)

text \<open>
  A requirement that is already claimed is claimed by an earlier required row; one that is not is
  claimed, or its row becomes required for another requirement, when the loop reaches a row that
  mentions it.
\<close>

lemma mark_loop_covers:
  assumes "[] \<notin> set needed" "req \<in> set needed" "req \<notin> set claimed"
    and "item \<in> set items" "js_includes (evidence_hay item) req"
  shows "\<exists>i \<in> set (mark_loop needed claimed items). ev_required i \<and> js_includes (evidence_hay i) req"
  using assms
proof (induction needed claimed items rule: mark_loop.induct)
  case (1 needed claimed)
  then show ?case by simp
next
  case (2 needed claimed it items)
  show ?case
  proof (cases "ev_required it")
    case True
    show ?thesis
    proof (cases "js_includes (evidence_hay it) req")
      case True
      with \<open>ev_required it\<close> show ?thesis by (auto simp: Let_def)
    next
      case False
      then have "req \<notin> set (claimed @ filter (js_includes (evidence_hay it)) needed)" "item \<in> set items"
        using "2.prems" by auto
      then show ?thesis
        using "2.IH"(1) [OF refl True] "2.prems" True by (auto simp: Let_def)
    qed
  next
    case not_req: False
    show ?thesis
    proof (cases "find_claim needed claimed (evidence_hay it)")
      case None
      then have "item \<in> set items"
        using find_claim_None "2.prems" by fastforce
      then show ?thesis
        using "2.IH"(2) [OF refl not_req None] "2.prems" not_req None by (auto simp: Let_def)
    next
      case (Some r)
      show ?thesis
      proof (cases "js_includes (evidence_hay it) req")
        case True
        with not_req Some show ?thesis by (auto simp: Let_def)
      next
        case False
        then have "r \<noteq> req" using find_claim_Some [OF Some] by auto
        then show ?thesis
          using False "2.IH"(3) [OF refl not_req Some] "2.prems" not_req Some by (auto simp: Let_def)
      qed
    qed
  qed
qed

lemma comparator_compare_skill:
  assumes "comparator lc"
  shows "comparator (compare_skill lc)"
proof -
  have eq: "compare_skill lc = cmp_then (cmp_on (\<lambda>i. if ri_required i then 1 else 0) cmp_desc) (compare_rank lc)"
    by (intro ext) (simp add: compare_skill_def cmp_then_def cmp_on_def cmp_desc_def Let_def)
  show ?thesis
    unfolding eq using assms by (intro comparator_then comparator_on comparator_desc comparator_compare_rank)
qed

text \<open>Rankings that tell different ids apart do not depend on the order of the input rows.\<close>

text \<open>Ids that are all different and that the collation tells apart.\<close>

definition ids_apart :: "collation \<Rightarrow> string list \<Rightarrow> bool" where
  "ids_apart lc ids \<longleftrightarrow> distinct ids \<and> (\<forall>i \<in> set ids. \<forall>j \<in> set ids. lc i j = 0 \<longrightarrow> i = j)"

lemma ids_apart_filter: "ids_apart lc (map f xs) \<Longrightarrow> ids_apart lc (map f (filter P xs))"
  by (auto simp: ids_apart_def distinct_map inj_on_def)

lemma js_sort_ids_cong:
  assumes "comparator cmp" "\<And>x y. cmp x y = 0 \<Longrightarrow> lc (ri_id x) (ri_id y) = 0"
    and "ids_apart lc (map ri_id xs)" "mset xs = mset ys"
  shows "js_sort cmp xs = js_sort cmp ys"
  using assms(4)
proof (rule comparator.js_sort_cong_mset_on [OF assms(1)])
  show "x = y" if "x \<in> set xs" "y \<in> set xs" "cmp x y = 0" for x y
    using assms(2) [OF that(3)] assms(3) that(1,2) by (auto simp: ids_apart_def distinct_map inj_on_def)
qed

lemma rank_ids:
  "compare_rank lc x y = 0 \<Longrightarrow> lc (ri_id x) (ri_id y) = 0"
  "compare_skill lc x y = 0 \<Longrightarrow> lc (ri_id x) (ri_id y) = 0"
  "cmp_on ri_id lc x y = 0 \<Longrightarrow> lc (ri_id x) (ri_id y) = 0"
  by (auto simp: compare_rank_def compare_skill_def cmp_on_def Let_def split: if_splits)

lemma comparators_of:
  assumes "comparator lc"
  shows "comparator (compare_rank lc)" "comparator (compare_skill lc)" "comparator (cmp_on ri_id lc)"
  using assms by (simp_all add: comparator_compare_rank comparator_compare_skill comparator_on)

lemma ranked_ids [simp]:
  "map (ri_id \<circ> ranked_evidence q) = map ev_id" "map (ri_id \<circ> ranked_skill q) = map ski_id"
  "map (ri_id \<circ> ranked_memory q) = map mem_id"
  by (simp_all add: comp_def ranked_evidence_def ranked_skill_def ranked_memory_def)

lemma context_items_cong:
  assumes lc: "comparator lc" and "ci_rerank inp = None"
    and ev: "mset es = mset es'" "ids_apart lc (map ev_id es)"
    and mem: "mset ms = mset ms'" "ids_apart lc (map mem_id ms)"
    and sk: "mset (ci_skills inp) = mset sks" "ids_apart lc (map ski_id (ci_skills inp))"
  shows "context_items lc inp es ms = context_items lc (inp\<lparr>ci_skills := sks, ci_evidence := se, ci_memories := sm\<rparr>) es' ms'"
proof -
  let ?q = "objective (ci_task inp)"
  note filt = ids_apart_filter [OF ev(2)]
  have "js_sort (cmp_on ri_id lc) (map (ranked_evidence ?q) (filter ev_required es))
      = js_sort (cmp_on ri_id lc) (map (ranked_evidence ?q) (filter ev_required es'))"
    using lc ev filt by (intro js_sort_ids_cong [where lc = lc]) (auto simp: comparators_of dest: rank_ids)
  moreover have "js_sort (compare_rank lc) (map (ranked_evidence ?q) (filter (\<lambda>i. \<not> ev_required i) es))
      = js_sort (compare_rank lc) (map (ranked_evidence ?q) (filter (\<lambda>i. \<not> ev_required i) es'))"
    using lc ev filt by (intro js_sort_ids_cong [where lc = lc]) (auto simp: comparators_of dest: rank_ids)
  moreover have "js_sort (compare_skill lc) (map (ranked_skill ?q) (ci_skills inp))
      = js_sort (compare_skill lc) (map (ranked_skill ?q) sks)"
    using lc sk by (intro js_sort_ids_cong [where lc = lc]) (auto simp: comparators_of dest: rank_ids)
  moreover have "js_sort (compare_rank lc) (map (ranked_memory ?q) ms) = js_sort (compare_rank lc) (map (ranked_memory ?q) ms')"
    using lc mem by (intro js_sort_ids_cong [where lc = lc]) (auto simp: comparators_of dest: rank_ids)
  ultimately show ?thesis
    using assms(2) by (simp add: context_items_def split_evidence_def Let_def)
qed

lemma mset_context_items:
  "mset (context_items lc inp es ms) = mset (map (ranked_evidence (objective (ci_task inp))) (filter ev_required es))
     + (mset (map ranked_constraint (constraints (ci_task inp)))
     + (mset (map (ranked_evidence (objective (ci_task inp))) (filter (\<lambda>i. \<not> ev_required i) es))
     + (mset (map (ranked_skill (objective (ci_task inp))) (ci_skills inp))
     + mset (map (ranked_memory (objective (ci_task inp))) ms))))"
  by (simp add: context_items_def split_evidence_def Let_def)

lemma set_context_items:
  "set (context_items lc inp es ms) = ranked_evidence (objective (ci_task inp)) ` set es
     \<union> ranked_constraint ` set (constraints (ci_task inp))
     \<union> ranked_skill (objective (ci_task inp)) ` set (ci_skills inp)
     \<union> ranked_memory (objective (ci_task inp)) ` set ms"
  by (auto simp: context_items_def split_evidence_def Let_def)

lemma required_selected:
  assumes "apply_budget items budget = Inr plan" "i \<in> set items" "ri_required i"
  shows "i \<in> set (bp_selected plan) \<or> is_redundant (ri_text i) (map ri_text (bp_selected plan))"
  using assms by (auto elim!: apply_budget_Inr simp: fate_ok_def)

lemma default_score_scored [simp]:
  "default_score q (ev_text i) (ev_score (score_evidence q i)) = default_score q (ev_text i) (ev_score i)"
  by (simp add: score_evidence_def default_score_def)

text \<open>The texts an envelope holds, whatever list they are in.\<close>

definition item_text :: "jsval \<Rightarrow> string" where
  "item_text v = (case v of JObj es \<Rightarrow> (case js_get es ''text'' of JStr s \<Rightarrow> s | _ \<Rightarrow> []) | _ \<Rightarrow> [])"

definition envelope_texts :: "context_envelope \<Rightarrow> string list" where
  "envelope_texts env = map item_text (env_evidence env @ env_memories env @ env_skills env)
     @ map con_description (env_constraints env)"

lemma item_text_as_json_item [simp]: "item_text (as_json_item i) = ri_text i"
  by (simp add: item_text_def as_json_item_def js_get_def)

lemma set_envelope_texts:
  "set (envelope_texts (cc_envelope (assemble sha inp plan))) = set (map ri_text (bp_selected plan))"
proof -
  have "ri_text i \<in> ri_text ` {i \<in> set (bp_selected plan). ri_kind i = k}"
    if "i \<in> set (bp_selected plan)" "ri_kind i = k" for i k
    using that by blast
  then show ?thesis
    by (auto simp: envelope_texts_def assemble_def Let_def of_kind_def image_iff) (metis context_kind.exhaust)
qed

section \<open>Properties\<close>

text \<open>
  Compilation cannot change what the run was given: the envelope carries the caller's task,
  budget, capabilities (the same object) and frozen dependency root unchanged, its only receipt is
  the digest of the selection receipt returned with it, and the receipt's character count is within
  the budget it states.
\<close>

theorem compile_context_binds:
  assumes "compile_context lc sha inp = Inr c"
  shows "env_task (cc_envelope c) = ci_task inp \<and> env_budget (cc_envelope c) = ci_budget inp
    \<and> env_capabilities (cc_envelope c) = ci_capabilities inp
    \<and> env_capabilities_ref (cc_envelope c) = ci_capabilities_ref inp
    \<and> env_dependency_root (cc_envelope c) = ci_dependency_root inp
    \<and> env_receipts (cc_envelope c) = [cc_root c]
    \<and> cc_root c = digest_root sha ''context-selection'' (selection_json (cc_selection c))
    \<and> sel_used_chars (cc_selection c) \<le> sel_max_chars (cc_selection c)"
proof -
  obtain reranked memories plan where
    plan: "apply_budget (context_items lc inp reranked memories) (ci_context_budget inp) = Inr plan"
    and c: "c = assemble sha inp plan"
    using assms by (rule compile_context_Inr)
  have "bp_used_chars plan \<le> bp_max_chars plan"
    using plan by (auto elim!: apply_budget_Inr simp: plan_ok_def)
  then show ?thesis by (simp add: c assemble_def Let_def)
qed

text \<open>
  No constraint of the task is lost to the budget: in a compiled context each one is in the
  envelope, or its text repeats (in the sense of the redundancy test) a text the envelope holds.
\<close>

theorem compile_context_keeps_constraints:
  assumes "compile_context lc sha inp = Inr c" "con \<in> set (constraints (ci_task inp))"
  shows "\<lparr>con_id = con_id con, con_description = con_description con\<rparr> \<in> set (env_constraints (cc_envelope c))
    \<or> is_redundant (con_description con) (envelope_texts (cc_envelope c))"
proof -
  obtain reranked memories plan where
    plan: "apply_budget (context_items lc inp reranked memories) (ci_context_budget inp) = Inr plan"
    and c: "c = assemble sha inp plan"
    using assms(1) by (rule compile_context_Inr)
  have "ranked_constraint con \<in> set (context_items lc inp reranked memories)"
    using assms(2) by (simp add: set_context_items)
  then consider "ranked_constraint con \<in> set (bp_selected plan)"
    | "is_redundant (con_description con) (map ri_text (bp_selected plan))"
    using required_selected [OF plan] by (fastforce simp: ranked_constraint_def)
  then show ?thesis
  proof cases
    case 1
    then show ?thesis by (force simp: c assemble_def Let_def of_kind_def ranked_constraint_def)
  next
    case 2
    then show ?thesis
      using is_redundant_mono set_envelope_texts [of sha inp plan] by (metis c order_refl)
  qed
qed

text \<open>
  Evidence requirements are honoured: unless the empty string is among the requirements, every
  requirement that some row mentions ends up carried by a row that is marked required and mentions
  it; marking only ever turns the flag on.
\<close>

theorem mark_required_covers:
  assumes "[] \<notin> set requirements" "req \<in> set requirements"
    and "item \<in> set items" "js_includes (evidence_hay item) (js_lower req)"
  shows "(\<exists>i \<in> set (mark_required items requirements).
            ev_required i \<and> js_includes (evidence_hay i) (js_lower req))
    \<and> list_all2 (\<lambda>i i'. i' = i \<or> i' = i\<lparr>ev_required := True\<rparr>) items (mark_required items requirements)"
proof -
  have "[] \<notin> set (map js_lower requirements)" "js_lower req \<in> set (map js_lower requirements)"
    using assms(1,2) by (auto simp: js_lower_def)
  then have "\<exists>i \<in> set (mark_loop (map js_lower requirements) [] items).
      ev_required i \<and> js_includes (evidence_hay i) (js_lower req)"
    using assms(3,4) by (intro mark_loop_covers) auto
  with assms(2) show ?thesis
    by (auto simp: mark_required_def mark_loop_keeps)
qed

text \<open>
  A requirement marks the first row that mentions it. When no two rows mention the same requirement,
  what becomes of a row does not depend on the rows before it.
\<close>

definition mentions_at_most_one :: "evidence_item list \<Rightarrow> string \<Rightarrow> bool" where
  "mentions_at_most_one items req \<longleftrightarrow> length (filter (\<lambda>i. js_includes (evidence_hay i) (js_lower req)) items) \<le> 1"

definition mark_row :: "string list \<Rightarrow> evidence_item \<Rightarrow> evidence_item" where
  "mark_row needed item =
     (if ev_required item \<or> find_claim needed [] (evidence_hay item) = None then item else item\<lparr>ev_required := True\<rparr>)"

lemma find_claim_unclaimed:
  assumes "\<forall>req \<in> set claimed. req \<in> set needed \<longrightarrow> \<not> js_includes hay req"
  shows "find_claim needed claimed hay = find_claim needed [] hay"
proof -
  have "find (\<lambda>req. req \<notin> set claimed \<and> js_includes hay req) needed = find (js_includes hay) needed"
    using assms by (intro find_cong) auto
  then show ?thesis by (simp add: find_claim_def)
qed

lemma mark_loop_rows:
  assumes "\<forall>req \<in> set needed. length (filter (\<lambda>i. js_includes (evidence_hay i) req) items) \<le> 1"
    and "\<forall>req \<in> set claimed. req \<in> set needed \<longrightarrow> (\<forall>i \<in> set items. \<not> js_includes (evidence_hay i) req)"
  shows "mark_loop needed claimed items = map (mark_row needed) items"
  using assms
proof (induction items arbitrary: claimed)
  case (Cons item items)
  have here: "find_claim needed claimed (evidence_hay item) = find_claim needed [] (evidence_hay item)"
    using Cons.prems(2) by (intro find_claim_unclaimed) simp
  have later: "\<forall>i \<in> set items. \<not> js_includes (evidence_hay i) req"
    if "req \<in> set needed" "js_includes (evidence_hay item) req" for req
    using Cons.prems(1) that by (fastforce simp: filter_empty_conv)
  have rest: "mark_loop needed claimed' items = map (mark_row needed) items"
    if "set claimed' \<subseteq> set claimed \<union> {req \<in> set needed. js_includes (evidence_hay item) req}" for claimed'
  proof (rule Cons.IH)
    show "\<forall>req \<in> set needed. length (filter (\<lambda>i. js_includes (evidence_hay i) req) items) \<le> 1"
      using Cons.prems(1) by (fastforce split: if_splits)
    show "\<forall>req \<in> set claimed'. req \<in> set needed \<longrightarrow> (\<forall>i \<in> set items. \<not> js_includes (evidence_hay i) req)"
      using that Cons.prems(2) later by fastforce
  qed
  show ?case
  proof (cases "ev_required item")
    case True
    then show ?thesis by (auto simp: mark_row_def [of needed item] Let_def intro!: rest)
  next
    case False
    show ?thesis
    proof (cases "find_claim needed [] (evidence_hay item)")
      case None
      with False here show ?thesis by (auto simp: mark_row_def [of needed item] Let_def intro!: rest)
    next
      case (Some req)
      then have "req \<in> set needed" "js_includes (evidence_hay item) req" by (auto dest: find_claim_Some)
      with Some False here show ?thesis by (auto simp: mark_row_def [of needed item] Let_def intro!: rest)
    qed
  qed
qed simp

lemma mark_required_rows:
  assumes "\<forall>req \<in> set requirements. mentions_at_most_one items req"
  shows "mark_required items requirements = map (mark_row (map js_lower requirements)) items"
  using mark_loop_rows [of "map js_lower requirements" items "[]"] assms
  by (simp add: mark_required_def mentions_at_most_one_def mark_row_def find_claim_def map_idI)

lemma mentions_at_most_one_perm:
  "mset items' = mset items \<Longrightarrow> mentions_at_most_one items' req = mentions_at_most_one items req"
  unfolding mentions_at_most_one_def by (metis mset_filter size_mset)

text \<open>
  C2. Compilation does not depend on the order in which evidence, skills and memories are listed, be
  they rows of the host or the answers of its sources: when within each kind the ids are distinct and
  the collation tells them apart, no evidence requirement is mentioned by two rows, and there is no
  semantic reranker, permuted inputs give the same result (the same envelope, receipt and digest, or
  the same error). With two rows for a requirement the order decides which one becomes required, see
  \<open>requirement_takes_the_first_row\<close>.
\<close>

theorem compile_context_order_independent:
  assumes lc: "comparator lc"
    and plain: "ci_rerank inp = None"
    and rows: "resolve_evidence (ci_evidence inp) (objective (ci_task inp)) = Inr es"
      "resolve_memories (ci_memories inp) (objective (ci_task inp)) = Inr ms"
    and rows': "resolve_evidence src (objective (ci_task inp)) = Inr es'"
      "resolve_memories mem (objective (ci_task inp)) = Inr ms'"
    and ids: "ids_apart lc (map ev_id es)" "ids_apart lc (map mem_id ms)" "ids_apart lc (map ski_id (ci_skills inp))"
    and once: "\<forall>req \<in> set (evidence_requirements (ci_task inp)). mentions_at_most_one es req"
    and perm: "mset es' = mset es" "mset ms' = mset ms" "mset sks = mset (ci_skills inp)"
  shows "compile_context lc sha (inp\<lparr>ci_skills := sks, ci_evidence := src, ci_memories := mem\<rparr>)
    = compile_context lc sha inp"
proof -
  let ?req = "evidence_requirements (ci_task inp)" and ?inp' = "inp\<lparr>ci_skills := sks, ci_evidence := src, ci_memories := mem\<rparr>"
  let ?mark = "mark_row (map js_lower ?req)"
  have [simp]: "ev_id (?mark i) = ev_id i" for i by (simp add: mark_row_def)
  have marked: "mark_required es ?req = map ?mark es" "mark_required es' ?req = map ?mark es'"
    using once by (simp_all add: mark_required_rows mentions_at_most_one_perm [OF perm(1)])
  have "context_items lc inp (map ?mark es) ms = context_items lc ?inp' (map ?mark es') ms'"
    using ids perm by (intro context_items_cong lc plain) (simp_all add: comp_def)
  then show ?thesis
    using plain rows rows' marked by (simp add: compile_context_def rerank_step_def assemble_def Let_def)
qed

section \<open>Concrete runs\<close>

definition demo_task :: task_v1 where
  "demo_task = \<lparr>task_id = None, objective = ''review invoice totals'', inputs = JNull,
     constraints = [\<lparr>con_id = ''c1'', con_description = ''never pay''\<rparr>],
     success_criteria = [''cite invoice''], required_capabilities = [], preferred_skills = [],
     prohibited_actions = None, task_budget = None, output_schema = JUndef, evidence_requirements = []\<rparr>"

definition demo_capabilities :: agent_capabilities where
  "demo_capabilities = \<lparr>ac_level = L0, ac_tools = False, ac_resume = False, ac_observe = False,
     ac_interrupt = False, ac_limitations = []\<rparr>"

definition demo_row :: "string \<Rightarrow> string \<Rightarrow> evidence_item" where
  "demo_row i t = \<lparr>ev_id = i, ev_text = t, ev_source = None, ev_required = False, ev_score = None\<rparr>"

definition demo_input :: compile_input where
  "demo_input = \<lparr>ci_task = demo_task, ci_capabilities = demo_capabilities, ci_capabilities_ref = 0,
     ci_budget = [], ci_dependency_root = ''root'',
     ci_evidence = Rows [demo_row ''e1'' ''invoice 7'', demo_row ''e2'' ''totals''],
     ci_memories = Rows [\<lparr>mem_id = ''m1'', mem_text = ''old note'', mem_score = None\<rparr>],
     ci_skills = [], ci_context_budget = Some \<lparr>cb_max_chars = Some (Whole 16), cb_max_tokens = None\<rparr>,
     ci_rerank = None, ci_rerank_model = None\<rparr>"

definition demo_sha :: sha256 where
  "demo_sha bytes = dec_nat (length bytes)"

text \<open>A run ends in a context when its budgeted plan is accepted; the digest is not evaluated.\<close>

definition compile_plan :: "collation \<Rightarrow> compile_input \<Rightarrow> budget_plan result" where
  "compile_plan lc inp =
     (let query = objective (ci_task inp) in
      bind_res (resolve_evidence (ci_evidence inp) query) (\<lambda>rows.
      bind_res (rerank_step inp (mark_required rows (evidence_requirements (ci_task inp)))) (\<lambda>reranked.
      bind_res (resolve_memories (ci_memories inp) query) (\<lambda>memories.
      apply_budget (context_items lc inp reranked memories) (ci_context_budget inp)))))"

lemma compile_context_plan:
  "compile_context lc sha inp = bind_res (compile_plan lc inp) (\<lambda>plan. Inr (assemble sha inp plan))"
  by (simp add: compile_context_def compile_plan_def Let_def bind_res_def split: sum.splits)

lemma demo_plans: "\<not> isl (compile_plan code_unit_order demo_input)"
  by code_simp

lemma demo_compiles: "\<not> isl (compile_context code_unit_order demo_sha demo_input)"
  using demo_plans by (auto simp: compile_context_plan isl_def bind_res_def split: sum.splits)

lemmas demo_compiled = demo_compiles [THEN sum.collapse(2) [THEN sym]]

theorem compile_context_binds_witness:
  "\<exists>c. compile_context code_unit_order demo_sha demo_input = Inr c
     \<and> env_dependency_root (cc_envelope c) = ''root'' \<and> sel_used_chars (cc_selection c) \<le> sel_max_chars (cc_selection c)"
  using demo_compiled compile_context_binds [OF demo_compiled] by (auto simp: demo_input_def)

theorem compile_context_keeps_constraints_witness:
  "\<exists>c. compile_context code_unit_order demo_sha demo_input = Inr c
     \<and> (\<lparr>con_id = ''c1'', con_description = ''never pay''\<rparr> \<in> set (env_constraints (cc_envelope c))
        \<or> is_redundant ''never pay'' (envelope_texts (cc_envelope c)))"
  using demo_compiled compile_context_keeps_constraints [OF demo_compiled, of "\<lparr>con_id = ''c1'', con_description = ''never pay''\<rparr>"]
  by (auto simp: demo_input_def demo_task_def)

theorem mark_required_covers_witness:
  "\<exists>i \<in> set (mark_required [demo_row ''e1'' ''Audit trail'', demo_row ''e2'' ''x''] [''AUDIT'']).
     ev_required i \<and> js_includes (evidence_hay i) (js_lower ''AUDIT'')"
proof -
  have "js_includes (evidence_hay (demo_row ''e1'' ''Audit trail'')) (js_lower ''AUDIT'')" by code_simp
  then show ?thesis
    using mark_required_covers [of "[''AUDIT'']" "''AUDIT''" "demo_row ''e1'' ''Audit trail''"
        "[demo_row ''e1'' ''Audit trail'', demo_row ''e2'' ''x'']"] by simp
qed

definition audited_input :: compile_input where
  "audited_input = demo_input\<lparr>ci_task := demo_task\<lparr>evidence_requirements := [''Invoice'']\<rparr>\<rparr>"

definition demo_evidence :: "evidence_item list" where
  "demo_evidence = map (score_evidence (objective demo_task)) [demo_row ''e1'' ''invoice 7'', demo_row ''e2'' ''totals'']"

theorem compile_context_order_independent_witness:
  "compile_context code_unit_order demo_sha (audited_input\<lparr>ci_skills := [],
       ci_evidence := Rows [demo_row ''e2'' ''totals'', demo_row ''e1'' ''invoice 7''],
       ci_memories := Rows [\<lparr>mem_id = ''m1'', mem_text = ''old note'', mem_score = None\<rparr>]\<rparr>)
   = compile_context code_unit_order demo_sha audited_input"
proof (rule compile_context_order_independent [OF code_unit.comparator_axioms, where es = demo_evidence])
  have "mentions_at_most_one demo_evidence ''Invoice''" by code_simp
  then show "\<forall>req \<in> set (evidence_requirements (ci_task audited_input)). mentions_at_most_one demo_evidence req"
    by (simp add: audited_input_def)
qed (auto simp: audited_input_def demo_input_def demo_task_def demo_row_def demo_evidence_def ids_apart_def
    resolve_evidence_def resolve_memories_def score_evidence_def score_memory_def)

text \<open>
  The comment of \<open>applyBudget\<close> gives the order "required evidence, other evidence, constraints";
  the compiler hands the constraints over before the other evidence, so a constraint displaces
  optional evidence that the documented order would have kept.
\<close>

lemma constraints_displace_optional_evidence:
  "case compile_plan code_unit_order
       (demo_input\<lparr>ci_context_budget := Some \<lparr>cb_max_chars = Some (Whole 9), cb_max_tokens = None\<rparr>\<rparr>) of
      Inl e \<Rightarrow> False
    | Inr plan \<Rightarrow> of_kind Evidence (bp_selected plan) = [] \<and> length (of_kind Constraint (bp_selected plan)) = 1"
  by code_simp

text \<open>Of two rows that mention a requirement the first becomes required.\<close>

lemma requirement_takes_the_first_row:
  "map ev_required (mark_required [demo_row ''e1'' ''audit'', demo_row ''e2'' ''audit trail''] [''audit'']) = [True, False]"
  "map ev_required (mark_required [demo_row ''e2'' ''audit trail'', demo_row ''e1'' ''audit''] [''audit'']) = [True, False]"
  by code_simp+

text \<open>An empty evidence requirement hides every requirement listed after it.\<close>

lemma empty_requirement_masks_the_others:
  "mark_required [demo_row ''e1'' ''audit trail''] [[], ''audit''] = [demo_row ''e1'' ''audit trail'']"
  by code_simp

end
