(* ===== verification/Graph_Types.thy ===== *)
theory Graph_Types
  imports JS_Value
begin

text \<open>
  The portable contracts of \<open>contracts/index.ts\<close>: state schemas, graph definitions, events,
  snapshots, reports and checkpoints, with the constructors and fields of the interfaces. A field
  that the code compares with \<open>Number.isSafeInteger\<close> is a \<open>js_num\<close>, every other
  \<open>number\<close> field (amounts the handlers and limits count in) is an integer.
\<close>

datatype value_type = VNull | VBool | VNumber | VString | VArray | VObject

fun value_type_name :: "value_type \<Rightarrow> string" where
  "value_type_name VNull = ''Null''"
| "value_type_name VBool = ''Bool''"
| "value_type_name VNumber = ''Number''"
| "value_type_name VString = ''String''"
| "value_type_name VArray = ''Array''"
| "value_type_name VObject = ''Object''"

record state_schema =
  ss_id :: string
  ss_paths :: "(string, value_type) js_map"
  ss_required :: "string list"

record execution_limits =
  max_steps :: js_num
  max_tokens :: int
  max_cost_micros :: int
  timeout_ms :: js_num

record node_definition =
  nd_id :: string
  nd_terminal :: bool
  nd_reads :: "string list"
  nd_writes :: "string list"

record transition_definition =
  td_id :: string
  td_from :: string
  td_route :: string
  td_to :: string

record cycle_definition =
  cy_nodes :: "string list"
  cy_max_iterations :: int

record graph_definition =
  gd_version :: int
  gd_id :: string
  gd_state_schema :: string
  gd_entry :: string
  gd_nodes :: "node_definition list"
  gd_transitions :: "transition_definition list"
  gd_cycles :: "cycle_definition list"
  gd_limits :: execution_limits

section \<open>Execution\<close>

record provenance =
  pv_execution_id :: string
  pv_node_id :: string
  pv_event_sequence :: int

record state_snapshot =
  sn_schema_id :: string
  sn_revision :: int
  sn_value :: jsval
  sn_provenance :: "provenance option"

text \<open>A patch is an object, or a function of the state, which may throw.\<close>

datatype state_update = Update jsval | Updater "jsval \<Rightarrow> jsval result"

datatype node_outcome =
    OContinue "state_update option"
  | ORoute string "state_update option"
  | OSuspend string "state_update option"
  | OTerminate jsval "state_update option"
  | OFail string bool

fun outcome_patch :: "node_outcome \<Rightarrow> state_update option" where
  "outcome_patch (OContinue p) = p"
| "outcome_patch (ORoute r p) = p"
| "outcome_patch (OSuspend r p) = p"
| "outcome_patch (OTerminate v p) = p"
| "outcome_patch (OFail e r) = None"

record node_execution =
  ne_outcome :: node_outcome
  ne_tokens :: "int option"
  ne_cost_micros :: "int option"

record resource_usage =
  ru_calls :: int
  ru_units :: int
  ru_duration_ms :: int

record tool_call =
  tc_call_id :: string
  tc_tool_id :: string
  tc_arguments :: jsval

record tool_result =
  tr_call_id :: string
  tr_tool_id :: string
  tr_value :: jsval
  tr_usage :: resource_usage

datatype event_kind =
    ExecutionStarted
  | NodeStarted int
  | StatePatched int
  | Routed string string
  | Retrying int
  | EvSuspended string
  | EvTerminated
  | EvFailed string
  | EvCancelled
  | Checkpointed
  | ToolCall tool_call
  | ToolResult tool_result

record execution_event =
  ev_version :: int
  ev_sequence :: int
  ev_execution_id :: string
  ev_node_id :: "string option"
  ev_timestamp_ms :: int
  ev_kind :: event_kind

datatype execution_status = StSuspended string | StTerminated jsval | StFailed string | StCancelled

record execution_report =
  rp_status :: execution_status
  rp_state :: state_snapshot
  rp_events :: "execution_event list"
  rp_steps :: int
  rp_tokens :: int
  rp_cost_micros :: int
  rp_snapshots :: "state_snapshot list option"

record checkpoint =
  cp_execution_id :: string
  cp_graph_hash :: string
  cp_pack_hash :: string
  cp_policy_hash :: string
  cp_node_implementation_hash :: string
  cp_contract_hash :: string
  cp_state :: state_snapshot
  cp_pending_node :: string
  cp_event_cursor :: int
  cp_steps :: int
  cp_tokens :: int
  cp_cost_micros :: int

section \<open>The graph as JSON\<close>

text \<open>The object literal that \<open>defineAgent\<close> builds, in its member order.\<close>

definition strs_json :: "string list \<Rightarrow> jsval" where
  "strs_json ss = JArr (map JStr ss)"

fun num_json :: "js_num \<Rightarrow> jsval" where
  "num_json (Whole n) = JNum n"
| "num_json NotWhole = JNull"

definition node_json :: "node_definition \<Rightarrow> jsval" where
  "node_json n = JObj [(''id'', JStr (nd_id n)), (''terminal'', JBool (nd_terminal n)),
     (''reads'', strs_json (nd_reads n)), (''writes'', strs_json (nd_writes n))]"

definition transition_json :: "transition_definition \<Rightarrow> jsval" where
  "transition_json t = JObj [(''id'', JStr (td_id t)), (''from'', JStr (td_from t)),
     (''route'', JStr (td_route t)), (''to'', JStr (td_to t))]"

definition cycle_json :: "cycle_definition \<Rightarrow> jsval" where
  "cycle_json c = JObj [(''nodes'', strs_json (cy_nodes c)), (''max_iterations'', JNum (cy_max_iterations c))]"

definition limits_json :: "execution_limits \<Rightarrow> jsval" where
  "limits_json l = JObj [(''max_steps'', num_json (max_steps l)), (''max_tokens'', JNum (max_tokens l)),
     (''max_cost_micros'', JNum (max_cost_micros l)), (''timeout_ms'', num_json (timeout_ms l))]"

definition graph_json :: "graph_definition \<Rightarrow> jsval" where
  "graph_json g = JObj [(''version'', JNum (gd_version g)), (''id'', JStr (gd_id g)),
     (''state_schema'', JStr (gd_state_schema g)), (''entry'', JStr (gd_entry g)),
     (''nodes'', JArr (map node_json (gd_nodes g))), (''transitions'', JArr (map transition_json (gd_transitions g))),
     (''cycles'', JArr (map cycle_json (gd_cycles g))), (''limits'', limits_json (gd_limits g))]"

end
