(* ===== verification/Graph_Builder.thy ===== *)
theory Graph_Builder
  imports Graph_Types
begin

text \<open>
  \<open>builder/index.ts\<close>: state schemas, nodes, transitions and limits; the definition checks of
  \<open>defineAgent\<close> and \<open>compile\<close> with the reachability fixpoint; \<open>validateState\<close>. The
  digest \<open>stableHash\<close> is modelled in its own theory and is an argument of \<open>compile_agent\<close> here.

  Handlers are host code. A call of one returns an execution or the message of what it threw, and
  may change the host: its type threads a host state \<open>'w\<close>. Property reads are reads of own
  properties: path components and node ids that name members inherited from
  \<open>Object.prototype\<close> are outside the model.
\<close>

definition assert_identifier :: "string \<Rightarrow> string \<Rightarrow> unit result" where
  "assert_identifier value label =
     (if is_identifier value then Inr ()
      else Inl (DefinitionError (label @ '' is not a valid identifier: '' @ value)))"

section \<open>State schemas, nodes, transitions, limits\<close>

datatype shape_item = ShapeType value_type | ShapeItem value_type "bool option"

fun shape_type :: "shape_item \<Rightarrow> value_type" where
  "shape_type (ShapeType t) = t"
| "shape_type (ShapeItem t opt) = t"

fun shape_optional :: "shape_item \<Rightarrow> bool" where
  "shape_optional (ShapeType t) = False"
| "shape_optional (ShapeItem t opt) = (opt = Some True)"

definition slash_path :: "string \<Rightarrow> string" where
  "slash_path key = (if js_starts_with key ''/'' then key else ''/'' @ key)"

fun schema_entries :: "(string \<times> shape_item) list \<Rightarrow> (string, value_type) js_map \<times> string list \<Rightarrow> (string, value_type) js_map \<times> string list" where
  "schema_entries [] acc = acc"
| "schema_entries ((key, item) # shape) (paths, required) =
     schema_entries shape
       (map_put (slash_path key) (shape_type item) paths,
        if shape_optional item then required else required @ [slash_path key])"

definition make_state_schema :: "string \<Rightarrow> (string \<times> shape_item) list \<Rightarrow> state_schema result" where
  "make_state_schema sid shape =
     bind_res (assert_identifier sid ''state schema id'') (\<lambda>_.
       let (paths, required) = schema_entries shape ([], [])
       in Inr \<lparr>ss_id = sid, ss_paths = paths, ss_required = required\<rparr>)"

record node_context =
  nc_state :: jsval
  nc_attempt :: int
  nc_resume_input :: jsval

type_synonym 'w handler = "'w \<Rightarrow> node_context \<Rightarrow> (string + node_execution) \<times> 'w"

record 'w node_spec =
  ns_definition :: node_definition
  ns_handler :: "'w handler option"
  ns_capabilities :: "string list option"

definition or_nil :: "'a list option \<Rightarrow> 'a list" where
  "or_nil xs = (case xs of Some ys \<Rightarrow> ys | None \<Rightarrow> [])"

definition make_node :: "string \<Rightarrow> string list option \<Rightarrow> string list option \<Rightarrow> string list option \<Rightarrow> 'w handler \<Rightarrow> 'w node_spec result" where
  "make_node nid reads writes capabilities run =
     bind_res (assert_identifier nid ''node id'') (\<lambda>_.
       Inr \<lparr>ns_definition = \<lparr>nd_id = nid, nd_terminal = False,
               nd_reads = map (\<lambda>x. ''/'' @ x) (or_nil reads), nd_writes = map (\<lambda>x. ''/'' @ x) (or_nil writes)\<rparr>,
            ns_handler = Some run, ns_capabilities = capabilities\<rparr>)"

definition make_terminal :: "string \<Rightarrow> string list option \<Rightarrow> string list option \<Rightarrow> string list option \<Rightarrow> 'w handler \<Rightarrow> 'w node_spec result" where
  "make_terminal nid reads writes capabilities run =
     bind_res (make_node nid reads writes capabilities run) (\<lambda>n.
       Inr (n\<lparr>ns_definition := (ns_definition n)\<lparr>nd_terminal := True\<rparr>\<rparr>))"

definition make_transition :: "string \<Rightarrow> string \<Rightarrow> string \<Rightarrow> string option \<Rightarrow> transition_definition result" where
  "make_transition source route target tid =
     (let i = (case tid of Some i \<Rightarrow> i | None \<Rightarrow> source @ ''.'' @ route @ ''.'' @ target) in
      bind_res (assert_identifier i ''transition id'') (\<lambda>_.
        Inr \<lparr>td_id = i, td_from = source, td_route = route, td_to = target\<rparr>))"

definition make_limits :: "js_num option \<Rightarrow> int option \<Rightarrow> int option \<Rightarrow> js_num option \<Rightarrow> execution_limits" where
  "make_limits steps tokens cost timeout =
     \<lparr>max_steps = (case steps of Some n \<Rightarrow> n | None \<Rightarrow> Whole 100),
      max_tokens = (case tokens of Some n \<Rightarrow> n | None \<Rightarrow> max_safe_integer),
      max_cost_micros = (case cost of Some n \<Rightarrow> n | None \<Rightarrow> max_safe_integer),
      timeout_ms = (case timeout of Some n \<Rightarrow> n | None \<Rightarrow> Whole 30000)\<rparr>"

record pack_reference =
  pr_id :: string
  pr_hash :: "string option"
  pr_capabilities :: "string list option"

definition from_pack :: "string \<Rightarrow> string option \<Rightarrow> string list option \<Rightarrow> pack_reference result" where
  "from_pack pid hash capabilities =
     bind_res (assert_identifier pid ''pack id'') (\<lambda>_.
       Inr \<lparr>pr_id = pid, pr_hash = hash, pr_capabilities = capabilities\<rparr>)"

section \<open>validateDefinition\<close>

definition guard_def :: "bool \<Rightarrow> string \<Rightarrow> unit result" where
  "guard_def bad msg = (if bad then Inl (DefinitionError msg) else Inr ())"

definition route_key :: "transition_definition \<Rightarrow> string" where
  "route_key t = td_from t @ [char_of (0::nat)] @ td_route t"

fun check_transitions :: "string list \<Rightarrow> string list \<Rightarrow> transition_definition list \<Rightarrow> unit result" where
  "check_transitions ids routes [] = Inr ()"
| "check_transitions ids routes (t # ts) =
     (if td_from t \<notin> set ids \<or> td_to t \<notin> set ids then Inl (DefinitionError ''transition endpoint is not declared'')
      else if route_key t \<in> set routes then Inl (DefinitionError ''duplicate route from node'')
      else check_transitions ids (routes @ [route_key t]) ts)"

text \<open>One pass of the reachability loop: the set grows while the transitions are scanned.\<close>

fun reach_pass :: "transition_definition list \<Rightarrow> string list \<Rightarrow> string list" where
  "reach_pass [] reached = reached"
| "reach_pass (t # ts) reached =
     reach_pass ts (if td_from t \<in> set reached \<and> td_to t \<notin> set reached then reached @ [td_to t] else reached)"

lemma set_reach_pass_mono: "set reached \<subseteq> set (reach_pass ts reached)"
  by (induction ts arbitrary: reached) (auto, force)

lemma length_reach_pass: "length reached \<le> length (reach_pass ts reached)"
proof (induction ts arbitrary: reached)
  case (Cons t ts)
  have "length reached \<le> length (if td_from t \<in> set reached \<and> td_to t \<notin> set reached then reached @ [td_to t] else reached)"
    by simp
  also have "\<dots> \<le> length (reach_pass (t # ts) reached)"
    unfolding reach_pass.simps by (rule Cons.IH)
  finally show ?case .
qed simp

lemma set_reach_pass_le: "set (reach_pass ts reached) \<subseteq> set reached \<union> td_to ` set ts"
  by (induction ts arbitrary: reached) (auto, force)

lemma reach_pass_new: "length (reach_pass ts reached) \<noteq> length reached \<Longrightarrow>
    \<exists>x \<in> set (reach_pass ts reached). x \<notin> set reached"
proof (induction ts arbitrary: reached)
  case (Cons t ts)
  show ?case
  proof (cases "td_from t \<in> set reached \<and> td_to t \<notin> set reached")
    case True
    then have "td_to t \<in> set (reach_pass (t # ts) reached)"
      using set_reach_pass_mono [of "reached @ [td_to t]" ts] by auto
    with True show ?thesis by blast
  next
    case False
    then have "reach_pass (t # ts) reached = reach_pass ts reached" by auto
    with Cons show ?thesis by simp
  qed
qed simp

function reach_loop :: "transition_definition list \<Rightarrow> string list \<Rightarrow> string list" where
  "reach_loop ts reached =
     (let grown = reach_pass ts reached in
      if length grown = length reached then reached else reach_loop ts grown)"
  by pat_completeness auto
termination
proof (relation "measure (\<lambda>(ts, reached). card (td_to ` set ts - set reached))", goal_cases)
  case 1
  show ?case by simp
next
  case (2 ts reached grown)
  let ?U = "td_to ` set ts"
  obtain x where x: "x \<in> set grown" "x \<notin> set reached"
    using 2 reach_pass_new by metis
  have "x \<in> ?U" using x 2 set_reach_pass_le [of ts reached] by auto
  moreover have "?U - set grown \<subseteq> ?U - set reached"
    using 2 set_reach_pass_mono [of reached ts] by auto
  ultimately have "?U - set grown \<subset> ?U - set reached" using x by auto
  then show ?case by (auto intro: psubset_card_mono)
qed

declare reach_loop.simps [simp del]

definition validate_definition :: "graph_definition \<Rightarrow> unit result" where
  "validate_definition g =
     (let ids = js_set (map nd_id (gd_nodes g)); limits = gd_limits g in
      bind_res (assert_identifier (gd_id g) ''graph id'') (\<lambda>_.
      bind_res (guard_def (gd_version g \<noteq> 1) ''unsupported graph version'') (\<lambda>_.
      bind_res (guard_def (\<not> is_positive_num (max_steps limits) \<or> \<not> is_positive_num (timeout_ms limits))
                 ''limits must be positive integers'') (\<lambda>_.
      bind_res (guard_def (length ids \<noteq> length (gd_nodes g)) ''duplicate node id'') (\<lambda>_.
      bind_res (guard_def (gd_entry g \<notin> set ids) ''entry node is not declared'') (\<lambda>_.
      bind_res (guard_def (\<not> list_ex nd_terminal (gd_nodes g)) ''at least one terminal node is required'') (\<lambda>_.
      bind_res (check_transitions ids [] (gd_transitions g)) (\<lambda>_.
      guard_def (length (reach_loop (gd_transitions g) [gd_entry g]) \<noteq> length ids) ''unreachable node''))))))))"

section \<open>Values against the schema\<close>

fun split_slash :: "string \<Rightarrow> string list" where
  "split_slash [] = [[]]"
| "split_slash (c # cs) = (if c = CHR ''/'' then [] # split_slash cs
     else case split_slash cs of [] \<Rightarrow> [[c]] | s # ss \<Rightarrow> (c # s) # ss)"

text \<open>\<open>current == null ? undefined : current[key]\<close>, on own properties.\<close>

fun member_get :: "jsval \<Rightarrow> string \<Rightarrow> jsval" where
  "member_get (JObj es) key = js_get es key"
| "member_get (JArr xs) key =
     (if key = ''length'' then JNum (int (length xs))
      else if is_array_index key \<and> digits_value key < int (length xs) then xs ! nat (digits_value key)
      else JUndef)"
| "member_get (JStr s) key =
     (if key = ''length'' then JNum (int (length s))
      else if is_array_index key \<and> digits_value key < int (length s) then JStr [s ! nat (digits_value key)]
      else JUndef)"
| "member_get _ key = JUndef"

definition read_path :: "jsval \<Rightarrow> string \<Rightarrow> jsval" where
  "read_path value path = foldl member_get value (split_slash (drop 1 path))"

fun value_type_of :: "jsval \<Rightarrow> value_type option" where
  "value_type_of JUndef = None"
| "value_type_of JNull = Some VNull"
| "value_type_of (JBool b) = Some VBool"
| "value_type_of (JNum n) = Some VNumber"
| "value_type_of (JFrac s) = Some VNumber"
| "value_type_of (JStr s) = Some VString"
| "value_type_of (JArr xs) = Some VArray"
| "value_type_of (JObj es) = Some VObject"

fun check_required :: "jsval \<Rightarrow> string list \<Rightarrow> unit result" where
  "check_required value [] = Inr ()"
| "check_required value (path # paths) =
     (if read_path value path = JUndef then Inl (DefinitionError (''missing required state path '' @ path))
      else check_required value paths)"

fun check_types :: "jsval \<Rightarrow> (string \<times> value_type) list \<Rightarrow> unit result" where
  "check_types value [] = Inr ()"
| "check_types value ((path, type) # paths) =
     (let item = read_path value path in
      if item \<noteq> JUndef \<and> value_type_of item \<noteq> Some type then Inl (DefinitionError (''wrong state type at '' @ path))
      else check_types value paths)"

definition validate_state :: "state_schema \<Rightarrow> jsval \<Rightarrow> unit result" where
  "validate_state schema value =
     bind_res (check_required value (ss_required schema)) (\<lambda>_. check_types value (ss_paths schema))"

fun check_paths :: "string list \<Rightarrow> string \<Rightarrow> string list \<Rightarrow> unit result" where
  "check_paths declared nid [] = Inr ()"
| "check_paths declared nid (path # paths) =
     (if path \<notin> set declared
      then Inl (DefinitionError (''node '' @ nid @ '' references undeclared state path '' @ path))
      else check_paths declared nid paths)"

fun check_nodes :: "string list \<Rightarrow> node_definition list \<Rightarrow> unit result" where
  "check_nodes declared [] = Inr ()"
| "check_nodes declared (n # ns) =
     bind_res (check_paths declared (nd_id n) (nd_reads n @ nd_writes n)) (\<lambda>_. check_nodes declared ns)"

definition validate_graph_state_paths :: "graph_definition \<Rightarrow> state_schema \<Rightarrow> unit result" where
  "validate_graph_state_paths g schema = check_nodes (map fst (ss_paths schema)) (gd_nodes g)"

section \<open>defineAgent and compile\<close>

record 'w agent_config =
  ac_id :: string
  ac_state :: state_schema
  ac_nodes :: "'w node_spec list"
  ac_transitions :: "transition_definition list"
  ac_entry :: string
  ac_cycles :: "cycle_definition list option"
  ac_limits :: "execution_limits option"
  ac_pack :: "pack_reference option"

record 'w agent_definition =
  ad_graph :: graph_definition
  ad_schema :: state_schema
  ad_handlers :: "(string, 'w handler) js_map"
  ad_capabilities :: "string list"
  ad_pack :: "pack_reference option"

fun collect_handlers :: "'w node_spec list \<Rightarrow> (string, 'w handler) js_map \<Rightarrow> (string, 'w handler) js_map" where
  "collect_handlers [] handlers = handlers"
| "collect_handlers (n # ns) handlers =
     collect_handlers ns (case ns_handler n of None \<Rightarrow> handlers | Some h \<Rightarrow> map_put (nd_id (ns_definition n)) h handlers)"

definition config_graph :: "'w agent_config \<Rightarrow> graph_definition" where
  "config_graph c = \<lparr>gd_version = 1, gd_id = ac_id c, gd_state_schema = ss_id (ac_state c), gd_entry = ac_entry c,
     gd_nodes = map ns_definition (ac_nodes c), gd_transitions = ac_transitions c,
     gd_cycles = or_nil (ac_cycles c),
     gd_limits = (case ac_limits c of Some l \<Rightarrow> l | None \<Rightarrow> make_limits None None None None)\<rparr>"

definition check_pack :: "pack_reference option \<Rightarrow> string list \<Rightarrow> unit result" where
  "check_pack pack capabilities =
     (case pack of
        None \<Rightarrow> Inr ()
      | Some p \<Rightarrow> (case pr_capabilities p of
            None \<Rightarrow> Inr ()
          | Some granted \<Rightarrow> guard_def (list_ex (\<lambda>c. c \<notin> set granted) capabilities) ''graph capability is not granted by pack''))"

definition define_agent :: "'w agent_config \<Rightarrow> 'w agent_definition result" where
  "define_agent c =
     (let graph = config_graph c;
          capabilities = js_set (concat (map (\<lambda>n. or_nil (ns_capabilities n)) (ac_nodes c))) in
      bind_res (validate_definition graph) (\<lambda>_.
      bind_res (validate_graph_state_paths graph (ac_state c)) (\<lambda>_.
      bind_res (check_pack (ac_pack c) capabilities) (\<lambda>_.
      Inr \<lparr>ad_graph = graph, ad_schema = ac_state c, ad_handlers = collect_handlers (ac_nodes c) [],
           ad_capabilities = capabilities, ad_pack = ac_pack c\<rparr>))))"

record 'w compiled_agent =
  ca_definition :: "'w agent_definition"
  ca_hash :: string

definition compile_agent :: "(string \<Rightarrow> string) \<Rightarrow> 'w agent_definition \<Rightarrow> 'w compiled_agent result" where
  "compile_agent stable_hash d =
     bind_res (validate_definition (ad_graph d)) (\<lambda>_.
     bind_res (validate_graph_state_paths (ad_graph d) (ad_schema d)) (\<lambda>_.
     bind_res (check_pack (ad_pack d) (ad_capabilities d)) (\<lambda>_.
     Inr \<lparr>ca_definition = d,
          ca_hash = stable_hash (case json_stringify (graph_json (ad_graph d)) of Some s \<Rightarrow> s | None \<Rightarrow> [])\<rparr>)))"


section \<open>Lemmas\<close>

lemma guard_def_Inr [simp]: "guard_def bad msg = Inr u \<longleftrightarrow> \<not> bad"
  by (simp add: guard_def_def)

lemma assert_identifier_Inr [simp]: "assert_identifier v label = Inr u \<longleftrightarrow> is_identifier v"
  by (simp add: assert_identifier_def)

lemma check_transitions_Inr:
  "check_transitions ids routes ts = Inr u \<longleftrightarrow>
     (\<forall>t \<in> set ts. td_from t \<in> set ids \<and> td_to t \<in> set ids)
     \<and> distinct (map route_key ts) \<and> set (map route_key ts) \<inter> set routes = {}"
  by (induction ts arbitrary: routes) auto

definition edges :: "transition_definition list \<Rightarrow> (string \<times> string) set" where
  "edges ts = (\<lambda>t. (td_from t, td_to t)) ` set ts"

definition reachable :: "transition_definition list \<Rightarrow> string set \<Rightarrow> string set" where
  "reachable ts A = (edges ts)\<^sup>* `` A"

lemma reachable_extend: "A \<subseteq> reachable ts A"
  by (auto simp: reachable_def)

lemma reachable_step: "x \<in> reachable ts A \<Longrightarrow> (x, y) \<in> edges ts \<Longrightarrow> y \<in> reachable ts A"
  by (auto simp: reachable_def intro: rtrancl_into_rtrancl)

lemma reachable_least:
  assumes "A \<subseteq> B" "\<And>x y. x \<in> B \<Longrightarrow> (x, y) \<in> edges ts \<Longrightarrow> y \<in> B"
  shows "reachable ts A \<subseteq> B"
proof
  fix y assume "y \<in> reachable ts A"
  then obtain x where "x \<in> A" "(x, y) \<in> (edges ts)\<^sup>*" by (auto simp: reachable_def)
  from this(2,1) show "y \<in> B"
    by (induction rule: rtrancl_induct) (use assms in auto)
qed

lemma reach_pass_reachable:
  "set ts' \<subseteq> set ts \<Longrightarrow> set reached \<subseteq> reachable ts A \<Longrightarrow> set (reach_pass ts' reached) \<subseteq> reachable ts A"
proof (induction ts' arbitrary: reached)
  case (Cons t ts')
  have "td_to t \<in> reachable ts A" if "td_from t \<in> set reached"
    using Cons.prems that by (auto intro: reachable_step simp: edges_def)
  with Cons show ?case by auto
qed simp

lemma reach_pass_fixed:
  "length (reach_pass ts reached) = length reached \<Longrightarrow> t \<in> set ts \<Longrightarrow> td_from t \<in> set reached \<Longrightarrow> td_to t \<in> set reached"
proof (induction ts arbitrary: reached)
  case (Cons u ts)
  show ?case
  proof (cases "td_from u \<in> set reached \<and> td_to u \<notin> set reached")
    case True
    then have "length (reach_pass (u # ts) reached) \<ge> Suc (length reached)"
      using length_reach_pass [of "reached @ [td_to u]" ts] by simp
    with Cons.prems show ?thesis by simp
  next
    case False
    then have "reach_pass (u # ts) reached = reach_pass ts reached" by auto
    with Cons False show ?thesis by auto
  qed
qed simp

lemma distinct_reach_pass [simp]: "distinct reached \<Longrightarrow> distinct (reach_pass ts reached)"
  by (induction ts arbitrary: reached) auto

text \<open>The fixpoint loop computes exactly the nodes reachable from its start.\<close>

lemma set_reach_loop: "set (reach_loop ts reached) = reachable ts (set reached)"
proof (induction ts reached rule: reach_loop.induct)
  case (1 ts reached)
  let ?next = "reach_pass ts reached"
  show ?case
  proof (cases "length ?next = length reached")
    case True
    have "reachable ts (set reached) \<subseteq> set reached"
      using reach_pass_fixed [OF True] by (intro reachable_least) (auto simp: edges_def)
    with True show ?thesis
      using reachable_extend by (auto simp: reach_loop.simps [of ts reached])
  next
    case False
    have sub: "set ?next \<subseteq> reachable ts (set reached)"
      by (intro reach_pass_reachable) (simp_all add: reachable_extend)
    have "reachable ts (set ?next) = reachable ts (set reached)"
    proof
      show "reachable ts (set ?next) \<subseteq> reachable ts (set reached)"
        using sub by (intro reachable_least) (auto intro: reachable_step)
      show "reachable ts (set reached) \<subseteq> reachable ts (set ?next)"
        using set_reach_pass_mono [of reached ts]
        by (intro reachable_least) (auto intro: reachable_step subsetD [OF reachable_extend])
    qed
    with 1 False show ?thesis by (simp add: reach_loop.simps [of ts reached] Let_def)
  qed
qed

lemma distinct_reach_loop [simp]: "distinct reached \<Longrightarrow> distinct (reach_loop ts reached)"
proof (induction ts reached rule: reach_loop.induct)
  case (1 ts reached)
  then show ?case by (subst reach_loop.simps) (simp add: Let_def)
qed

section \<open>What the checks accept\<close>

lemma distinct_length_js_set: "length (js_set xs) = length xs \<longleftrightarrow> distinct xs"
  by (simp add: length_js_set_card card_distinct distinct_card [of xs] iffI)

lemma reachable_declared:
  assumes "a \<in> I" "\<forall>t \<in> set ts. td_from t \<in> I \<and> td_to t \<in> I"
  shows "reachable ts {a} \<subseteq> I"
  using assms by (intro reachable_least) (auto simp: edges_def)

lemma reach_loop_covers_iff:
  assumes "a \<in> set ids" "\<forall>t \<in> set ts. td_from t \<in> set ids \<and> td_to t \<in> set ids" "distinct ids"
  shows "length (reach_loop ts [a]) = length ids \<longleftrightarrow> set ids \<subseteq> reachable ts {a}"
proof -
  have "length (reach_loop ts [a]) = card (reachable ts {a})"
    using distinct_card [of "reach_loop ts [a]"] by (simp add: set_reach_loop)
  moreover have "length ids = card (set ids)" using assms(3) by (simp add: distinct_card)
  moreover have "reachable ts {a} \<subseteq> set ids" using assms(1,2) by (rule reachable_declared)
  ultimately show ?thesis
    by (metis List.finite_set card_subset_eq subset_antisym subset_refl)
qed

text \<open>The checks of \<open>validateDefinition\<close> all together, with reachability as the closure of the edges.\<close>

lemma validate_definition_iff:
  "validate_definition g = Inr u \<longleftrightarrow>
     is_identifier (gd_id g) \<and> gd_version g = 1
     \<and> is_positive_num (max_steps (gd_limits g)) \<and> is_positive_num (timeout_ms (gd_limits g))
     \<and> distinct (map nd_id (gd_nodes g)) \<and> gd_entry g \<in> nd_id ` set (gd_nodes g)
     \<and> list_ex nd_terminal (gd_nodes g)
     \<and> td_from ` set (gd_transitions g) \<union> td_to ` set (gd_transitions g) \<subseteq> nd_id ` set (gd_nodes g)
     \<and> distinct (map route_key (gd_transitions g))
     \<and> nd_id ` set (gd_nodes g) \<subseteq> {n. (gd_entry g, n) \<in> {(td_from t, td_to t) | t. t \<in> set (gd_transitions g)}\<^sup>*}"
proof -
  let ?ts = "gd_transitions g" and ?ids = "js_set (map nd_id (gd_nodes g))"
  have edges_eq: "{(td_from t, td_to t) | t. t \<in> set ?ts} = edges ?ts" by (auto simp: edges_def)
  have reach_eq: "{n. (gd_entry g, n) \<in> (edges ?ts)\<^sup>*} = reachable ?ts {gd_entry g}"
    by (auto simp: reachable_def)
  have distinct_eq: "length ?ids = length (gd_nodes g) \<longleftrightarrow> distinct (map nd_id (gd_nodes g))"
    using distinct_length_js_set [of "map nd_id (gd_nodes g)"] by simp
  have ends_eq: "td_from ` set ?ts \<union> td_to ` set ?ts \<subseteq> nd_id ` set (gd_nodes g) \<longleftrightarrow>
      (\<forall>t \<in> set ?ts. td_from t \<in> set ?ids \<and> td_to t \<in> set ?ids)" by auto
  have cover_eq: "length (reach_loop ?ts [gd_entry g]) = length ?ids \<longleftrightarrow> nd_id ` set (gd_nodes g) \<subseteq> reachable ?ts {gd_entry g}"
    if "gd_entry g \<in> set ?ids" "\<forall>t \<in> set ?ts. td_from t \<in> set ?ids \<and> td_to t \<in> set ?ids"
    using reach_loop_covers_iff [OF that] by simp
  show ?thesis
    unfolding edges_eq reach_eq validate_definition_def Let_def bind_res_eq_Inr ends_eq distinct_eq [symmetric]
    using cover_eq by (auto simp: check_transitions_Inr)
qed

section \<open>What a defined agent is\<close>

lemma check_paths_Inr: "check_paths declared nid paths = Inr u \<longleftrightarrow> set paths \<subseteq> set declared"
  by (induction paths) auto

lemma check_nodes_Inr:
  "check_nodes declared ns = Inr u \<longleftrightarrow> (\<forall>n \<in> set ns. set (nd_reads n) \<union> set (nd_writes n) \<subseteq> set declared)"
  by (induction ns) (auto simp: check_paths_Inr bind_res_eq_Inr)

lemma check_pack_Inr:
  "check_pack pack capabilities = Inr u \<longleftrightarrow>
     (\<forall>p granted. pack = Some p \<longrightarrow> pr_capabilities p = Some granted \<longrightarrow> set capabilities \<subseteq> set granted)"
  by (auto simp: check_pack_def list_ex_iff split: option.splits)

text \<open>
  C3. What \<open>compile\<close> checks, exactly. It accepts a definition when and only when the id of the graph
  is an identifier, its version is 1, its step and time limits are positive safe integers, node ids are
  unique, the entry is a node, some node is terminal, every transition joins declared nodes, no node has
  two transitions for one route key, every node is reachable from the entry along the transitions (the
  reflexive transitive closure of the edge relation, which the code computes by a fixpoint loop), nodes
  read and write declared state paths only, and the pack, when it lists capabilities, grants those of the
  nodes; the compiled agent is then the definition itself with the hash of its graph. Nothing else is
  checked: the bounds of cycles, the token and cost limits and the identifiers of nodes and transitions,
  which the documentation of the repository lists among the checks, are not, see
  \<open>unchecked_by_compile\<close>.
\<close>

theorem compile_agent_iff:
  "compile_agent hash d = Inr c \<longleftrightarrow>
     c = \<lparr>ca_definition = d, ca_hash = hash (given_or [] (json_stringify (graph_json (ad_graph d))))\<rparr>
     \<and> is_identifier (gd_id (ad_graph d)) \<and> gd_version (ad_graph d) = 1
     \<and> is_positive_num (max_steps (gd_limits (ad_graph d))) \<and> is_positive_num (timeout_ms (gd_limits (ad_graph d)))
     \<and> distinct (map nd_id (gd_nodes (ad_graph d))) \<and> gd_entry (ad_graph d) \<in> nd_id ` set (gd_nodes (ad_graph d))
     \<and> list_ex nd_terminal (gd_nodes (ad_graph d))
     \<and> (\<forall>t \<in> set (gd_transitions (ad_graph d)). {td_from t, td_to t} \<subseteq> nd_id ` set (gd_nodes (ad_graph d)))
     \<and> distinct (map route_key (gd_transitions (ad_graph d)))
     \<and> (\<forall>n \<in> set (gd_nodes (ad_graph d)).
          (gd_entry (ad_graph d), nd_id n) \<in> {(td_from t, td_to t) | t. t \<in> set (gd_transitions (ad_graph d))}\<^sup>*
          \<and> set (nd_reads n) \<union> set (nd_writes n) \<subseteq> fst ` set (ss_paths (ad_schema d)))
     \<and> (\<forall>p granted. ad_pack d = Some p \<longrightarrow> pr_capabilities p = Some granted \<longrightarrow> set (ad_capabilities d) \<subseteq> set granted)"
proof -
  let ?g = "ad_graph d" and ?ids = "nd_id ` set (gd_nodes (ad_graph d))"
  let ?E = "{(td_from t, td_to t) | t. t \<in> set (gd_transitions (ad_graph d))}"
  have ends: "td_from ` set (gd_transitions ?g) \<union> td_to ` set (gd_transitions ?g) \<subseteq> ?ids
      \<longleftrightarrow> (\<forall>t \<in> set (gd_transitions ?g). {td_from t, td_to t} \<subseteq> ?ids)" by auto
  have reach: "?ids \<subseteq> {n. (gd_entry ?g, n) \<in> ?E\<^sup>*} \<longleftrightarrow> (\<forall>n \<in> set (gd_nodes ?g). (gd_entry ?g, nd_id n) \<in> ?E\<^sup>*)" by blast
  show ?thesis
    unfolding compile_agent_def bind_res_eq_Inr validate_definition_iff ends reach validate_graph_state_paths_def
      check_nodes_Inr check_pack_Inr given_or_def [symmetric] set_map
    by (auto simp: given_or_def split: option.splits)
qed

text \<open>
  Acceptance does not depend on the cycles and on the token and cost limits: a definition with
  unbounded cycles or a negative limit is accepted like any other.
\<close>

lemma unchecked_by_compile:
  "compile_agent hash d = Inr c \<Longrightarrow>
     \<exists>c'. compile_agent hash (d\<lparr>ad_graph := (ad_graph d)\<lparr>gd_cycles := cycles,
       gd_limits := (gd_limits (ad_graph d))\<lparr>max_tokens := tokens, max_cost_micros := cost\<rparr>\<rparr>\<rparr>) = Inr c'"
  by (simp add: compile_agent_def bind_res_eq_Inr validate_definition_iff validate_graph_state_paths_def)

lemma map_of_collect_handlers:
  "map_of (collect_handlers ns handlers) i =
     (case find (\<lambda>n. nd_id (ns_definition n) = i \<and> ns_handler n \<noteq> None) (rev ns) of
        Some n \<Rightarrow> ns_handler n
      | None \<Rightarrow> map_of handlers i)"
proof (induction ns arbitrary: handlers)
  case (Cons n ns)
  then show ?case
    by (cases "ns_handler n"; cases "find (\<lambda>n. nd_id (ns_definition n) = i \<and> ns_handler n \<noteq> None) (rev ns)")
       (simp_all add: find_snoc)
qed simp

text \<open>
  C4. A definition that \<open>defineAgent\<close> returns compiles, to itself with the digest of its graph;
  its nodes read and write declared state paths only, its pack grants every capability its nodes
  ask for, and each node that came with a handler is dispatched to that handler.
\<close>

theorem define_agent_sound:
  assumes "define_agent c = Inr d"
  shows "(\<exists>h. compile_agent stable_hash d = Inr \<lparr>ca_definition = d, ca_hash = h\<rparr>)
    \<and> (\<forall>n \<in> set (ac_nodes c). \<forall>path \<in> set (nd_reads (ns_definition n)) \<union> set (nd_writes (ns_definition n)).
          map_of (ss_paths (ad_schema d)) path \<noteq> None)
    \<and> (\<forall>n \<in> set (ac_nodes c). \<forall>cap \<in> set (or_nil (ns_capabilities n)).
          cap \<in> set (ad_capabilities d)
          \<and> (\<forall>p granted. ac_pack c = Some p \<longrightarrow> pr_capabilities p = Some granted \<longrightarrow> cap \<in> set granted))
    \<and> (\<forall>n \<in> set (ac_nodes c). map_of (ad_handlers d) (nd_id (ns_definition n)) = ns_handler n)"
proof -
  have d: "d = \<lparr>ad_graph = config_graph c, ad_schema = ac_state c, ad_handlers = collect_handlers (ac_nodes c) [],
      ad_capabilities = js_set (concat (map (\<lambda>n. or_nil (ns_capabilities n)) (ac_nodes c))), ad_pack = ac_pack c\<rparr>"
    and ok: "validate_definition (config_graph c) = Inr ()"
      "validate_graph_state_paths (config_graph c) (ac_state c) = Inr ()"
      "check_pack (ac_pack c) (ad_capabilities d) = Inr ()"
    using assms by (auto simp: define_agent_def Let_def bind_res_eq_Inr)
  have "distinct (map nd_id (map ns_definition (ac_nodes c)))"
    using ok(1) by (simp add: validate_definition_iff config_graph_def)
  then have inj: "inj_on (nd_id \<circ> ns_definition) (set (ac_nodes c))"
    by (simp add: distinct_map)
  have handlers: "map_of (ad_handlers d) (nd_id (ns_definition n)) = ns_handler n" if n: "n \<in> set (ac_nodes c)" for n
  proof (cases "ns_handler n = None")
    case True
    then have "find (\<lambda>m. nd_id (ns_definition m) = nd_id (ns_definition n) \<and> ns_handler m \<noteq> None) (rev (ac_nodes c)) = None"
      using inj n by (auto simp: find_None_iff inj_on_def)
    with True show ?thesis by (simp add: d map_of_collect_handlers)
  next
    case False
    then have "find (\<lambda>m. nd_id (ns_definition m) = nd_id (ns_definition n) \<and> ns_handler m \<noteq> None) (rev (ac_nodes c)) = Some n"
      using inj n by (intro find_unique) (auto simp: inj_on_def)
    then show ?thesis by (simp add: d map_of_collect_handlers)
  qed
  have paths: "\<forall>n \<in> set (ac_nodes c). set (nd_reads (ns_definition n)) \<union> set (nd_writes (ns_definition n)) \<subseteq> fst ` set (ss_paths (ac_state c))"
    using ok(2) by (auto simp: validate_graph_state_paths_def check_nodes_Inr config_graph_def)
  have caps: "\<forall>p granted. ac_pack c = Some p \<longrightarrow> pr_capabilities p = Some granted \<longrightarrow> set (ad_capabilities d) \<subseteq> set granted"
    using ok(3) by (simp add: check_pack_Inr)
  have compiled: "\<exists>h. compile_agent stable_hash d = Inr \<lparr>ca_definition = d, ca_hash = h\<rparr>"
    using ok by (simp add: compile_agent_def d)
  have declared: "\<forall>n \<in> set (ac_nodes c). \<forall>path \<in> set (nd_reads (ns_definition n)) \<union> set (nd_writes (ns_definition n)).
      map_of (ss_paths (ad_schema d)) path \<noteq> None"
    using paths by (auto simp: d map_of_eq_None_iff)
  have granted: "\<forall>n \<in> set (ac_nodes c). \<forall>cap \<in> set (or_nil (ns_capabilities n)).
      cap \<in> set (ad_capabilities d)
      \<and> (\<forall>p granted. ac_pack c = Some p \<longrightarrow> pr_capabilities p = Some granted \<longrightarrow> cap \<in> set granted)"
  proof (intro ballI)
    fix n cap assume "n \<in> set (ac_nodes c)" "cap \<in> set (or_nil (ns_capabilities n))"
    then have "cap \<in> set (ad_capabilities d)" by (auto simp: d)
    with caps show "cap \<in> set (ad_capabilities d)
      \<and> (\<forall>p granted. ac_pack c = Some p \<longrightarrow> pr_capabilities p = Some granted \<longrightarrow> cap \<in> set granted)" by blast
  qed
  show ?thesis
    using compiled declared granted handlers by (intro conjI) simp_all
qed

lemma check_required_Inr: "check_required value paths = Inr u \<longleftrightarrow> (\<forall>p \<in> set paths. read_path value p \<noteq> JUndef)"
  by (induction paths) auto

lemma check_types_Inr:
  "check_types v paths = Inr u \<longleftrightarrow>
     (\<forall>(p, t) \<in> set paths. read_path v p = JUndef \<or> value_type_of (read_path v p) = Some t)"
  by (induction v paths rule: check_types.induct) (auto simp: Let_def)

section \<open>States of a declared shape\<close>

text \<open>
  What the type of a shape, \<open>InferState\<close>, promises of an object: every key that is not optional is
  there, and what is there has the type of its key.
\<close>

inductive of_type :: "value_type \<Rightarrow> jsval \<Rightarrow> bool" where
  of_string: "of_type VString (JStr s)"
| of_integer: "of_type VNumber (JNum n)"
| of_fraction: "of_type VNumber (JFrac q)"
| of_bool: "of_type VBool (JBool b)"
| of_array: "of_type VArray (JArr xs)"
| of_object: "of_type VObject (JObj es)"
| of_null: "of_type VNull JNull"

inductive_simps of_type_simps:
  "of_type t JUndef" "of_type t JNull" "of_type t (JBool b)" "of_type t (JNum n)" "of_type t (JFrac q)" "of_type t (JStr s)"
  "of_type t (JArr xs)" "of_type t (JObj es)"

lemma value_type_of_type: "value_type_of v = Some t \<longleftrightarrow> of_type t v"
  by (cases v) (auto simp: of_type_simps)

definition fits :: "(string \<times> jsval) list \<Rightarrow> string \<Rightarrow> shape_item \<Rightarrow> bool" where
  "fits members key item =
     (case map_of members key of
        Some JUndef \<Rightarrow> shape_optional item
      | Some v \<Rightarrow> of_type (shape_type item) v
      | None \<Rightarrow> shape_optional item)"

definition plain_keys :: "(string \<times> shape_item) list \<Rightarrow> bool" where
  "plain_keys shape \<longleftrightarrow> distinct (map fst shape) \<and> (\<forall>key \<in> fst ` set shape. CHR ''/'' \<notin> set key)"

lemma split_slash_plain: "CHR ''/'' \<notin> set s \<Longrightarrow> split_slash s = [s]"
  by (induction s) auto

lemma slash_path_plain: "CHR ''/'' \<notin> set key \<Longrightarrow> slash_path key = CHR ''/'' # key"
  by (cases key) (auto simp: slash_path_def js_starts_with_def)

lemma read_path_plain: "CHR ''/'' \<notin> set key \<Longrightarrow> read_path (JObj es) (CHR ''/'' # key) = js_get es key"
  by (simp add: read_path_def split_slash_plain)

lemma map_put_new: "k \<notin> fst ` set m \<Longrightarrow> map_put k v m = m @ [(k, v)]"
  unfolding map_put_def by (induction m) auto

lemma schema_entries_plain:
  assumes "plain_keys shape" "\<forall>key \<in> fst ` set shape. (''/'' @ key) \<notin> fst ` set ps"
  shows "schema_entries shape (ps, rs) =
    (ps @ map (\<lambda>(key, item). (''/'' @ key, shape_type item)) shape,
     rs @ map (\<lambda>(key, item). ''/'' @ key) (filter (\<lambda>(key, item). \<not> shape_optional item) shape))"
  using assms
proof (induction shape arbitrary: ps rs)
  case (Cons entry shape)
  obtain key item where entry: "entry = (key, item)" by fastforce
  have key: "slash_path key = CHR ''/'' # key" "(''/'' @ key) \<notin> fst ` set ps" "key \<notin> fst ` set shape"
    using Cons.prems by (auto simp: entry plain_keys_def intro!: slash_path_plain)
  have "plain_keys shape" "\<forall>k \<in> fst ` set shape. (''/'' @ k) \<notin> fst ` set (ps @ [(''/'' @ key, shape_type item)])"
    using Cons.prems key(3) by (auto simp: entry plain_keys_def)
  from Cons.IH [OF this] show ?case using key by (simp add: entry map_put_new)
qed simp

lemma schema_of_shape:
  assumes "make_state_schema sid shape = Inr schema" "plain_keys shape"
  shows "ss_paths schema = map (\<lambda>(key, item). (''/'' @ key, shape_type item)) shape"
    "ss_required schema = map (\<lambda>(key, item). ''/'' @ key) (filter (\<lambda>(key, item). \<not> shape_optional item) shape)"
  using assms by (auto simp: make_state_schema_def bind_res_eq_Inr schema_entries_plain)

lemma fits_iff:
  assumes "CHR ''/'' \<notin> set key"
  shows "fits es key item \<longleftrightarrow> (shape_optional item \<or> read_path (JObj es) (''/'' @ key) \<noteq> JUndef)
    \<and> (read_path (JObj es) (''/'' @ key) = JUndef \<or> value_type_of (read_path (JObj es) (''/'' @ key)) = Some (shape_type item))"
  by (simp add: fits_def read_path_plain [OF assms] js_get_def value_type_of_type split: option.split jsval.split)

lemma check_required_Inl:
  "check_required v paths = Inl e
    \<Longrightarrow> \<exists>p \<in> set paths. read_path v p = JUndef \<and> e = DefinitionError (''missing required state path '' @ p)"
  by (induction paths) (auto split: if_splits)

lemma check_types_Inl:
  "check_types v paths = Inl e
    \<Longrightarrow> \<exists>(p, t) \<in> set paths. read_path v p \<noteq> JUndef \<and> value_type_of (read_path v p) \<noteq> Some t
      \<and> e = DefinitionError (''wrong state type at '' @ p)"
  by (induction v paths rule: check_types.induct) (auto simp: Let_def split: if_splits)

text \<open>
  C5. \<open>stateSchema\<close> and \<open>validateState\<close> together keep the promise of the shape: with keys that
  are distinct and have no slash, the schema built from a shape accepts an object exactly when it has
  every key that is not optional and each declared key that is there holds a value of its type; a
  refused object is refused with an error that names a declared key it breaks.
\<close>

theorem validate_shape_iff:
  assumes "make_state_schema sid shape = Inr schema" "plain_keys shape"
  shows "(validate_state schema (JObj es) = Inr () \<longleftrightarrow> (\<forall>(key, item) \<in> set shape. fits es key item))
    \<and> (\<forall>e. validate_state schema (JObj es) = Inl e \<longrightarrow>
        (\<exists>(key, item) \<in> set shape. \<not> fits es key item
          \<and> e \<in> {DefinitionError (''missing required state path /'' @ key), DefinitionError (''wrong state type at /'' @ key)}))"
proof -
  note parts = schema_of_shape [OF assms]
  have key: "fits es key item \<longleftrightarrow> (shape_optional item \<or> read_path (JObj es) (''/'' @ key) \<noteq> JUndef)
      \<and> (read_path (JObj es) (''/'' @ key) = JUndef \<or> value_type_of (read_path (JObj es) (''/'' @ key)) = Some (shape_type item))"
    if "(key, item) \<in> set shape" for key item
    using that assms(2) by (intro fits_iff) (force simp: plain_keys_def)
  have "validate_state schema (JObj es) = Inr () \<longleftrightarrow> (\<forall>(key, item) \<in> set shape. fits es key item)"
    using key by (fastforce simp: validate_state_def bind_res_eq_Inr check_required_Inr check_types_Inr parts)
  moreover have "\<exists>(key, item) \<in> set shape. \<not> fits es key item
      \<and> e \<in> {DefinitionError (''missing required state path /'' @ key), DefinitionError (''wrong state type at /'' @ key)}"
    if "validate_state schema (JObj es) = Inl e" for e
  proof -
    from that consider "check_required (JObj es) (ss_required schema) = Inl e" | "check_types (JObj es) (ss_paths schema) = Inl e"
      by (auto simp: validate_state_def bind_res_def split: sum.splits)
    then show ?thesis
    proof cases
      case 1
      then show ?thesis using key by (fastforce simp: parts dest!: check_required_Inl)
    next
      case 2
      then show ?thesis using key by (fastforce simp: parts dest!: check_types_Inl)
    qed
  qed
  ultimately show ?thesis by blast
qed

section \<open>Concrete runs\<close>

definition echo_handler :: "nat handler" where
  "echo_handler w ctx =
     (Inr \<lparr>ne_outcome = OTerminate (nc_state ctx) None, ne_tokens = None, ne_cost_micros = None\<rparr>, Suc w)"

definition demo_spec :: "string \<Rightarrow> bool \<Rightarrow> string list \<Rightarrow> nat node_spec" where
  "demo_spec i term writes = \<lparr>ns_definition = \<lparr>nd_id = i, nd_terminal = term, nd_reads = [''/count''], nd_writes = writes\<rparr>,
     ns_handler = Some echo_handler, ns_capabilities = Some [''state'']\<rparr>"

definition demo_schema :: state_schema where
  "demo_schema = \<lparr>ss_id = ''counter'', ss_paths = [(''/count'', VNumber), (''/note'', VString)], ss_required = [''/count'']\<rparr>"

definition demo_config :: "nat agent_config" where
  "demo_config = \<lparr>ac_id = ''demo'', ac_state = demo_schema,
     ac_nodes = [demo_spec ''start'' False [''/count''], demo_spec ''done'' True []],
     ac_transitions = [\<lparr>td_id = ''t'', td_from = ''start'', td_route = ''continue'', td_to = ''done''\<rparr>],
     ac_entry = ''start'', ac_cycles = None, ac_limits = None,
     ac_pack = Some \<lparr>pr_id = ''p'', pr_hash = None, pr_capabilities = Some [''state'', ''routing'']\<rparr>\<rparr>"

lemma demo_defined: "\<not> isl (define_agent demo_config)"
  by code_simp

theorem define_agent_sound_witness:
  "\<exists>d. define_agent demo_config = Inr d
     \<and> (\<exists>h. compile_agent (\<lambda>s. s) d = Inr \<lparr>ca_definition = d, ca_hash = h\<rparr>)
     \<and> map_of (ad_handlers d) ''start'' = Some echo_handler"
proof -
  obtain d where d: "define_agent demo_config = Inr d"
    using demo_defined by (cases "define_agent demo_config") auto
  have mem: "demo_spec ''start'' False [''/count''] \<in> set (ac_nodes demo_config)"
    by (simp add: demo_config_def)
  note sound = define_agent_sound [OF d, of "\<lambda>s. s"]
  have "map_of (ad_handlers d) ''start'' = Some echo_handler"
    using bspec [OF sound [THEN conjunct2, THEN conjunct2, THEN conjunct2] mem] by (simp add: demo_spec_def)
  with d sound [THEN conjunct1] show ?thesis by blast
qed

text \<open>The same definition compiles, with its last node reachable, and is refused under another version.\<close>

theorem compile_agent_iff_witness:
  "\<exists>d c. define_agent demo_config = Inr d \<and> compile_agent (\<lambda>s. s) d = Inr c
     \<and> (gd_entry (ad_graph d), ''done'') \<in> {(td_from t, td_to t) | t. t \<in> set (gd_transitions (ad_graph d))}\<^sup>*
     \<and> compile_agent (\<lambda>s. s) (d\<lparr>ad_graph := (ad_graph d)\<lparr>gd_version := 2\<rparr>\<rparr>) \<noteq> Inr c"
proof -
  obtain d where d: "define_agent demo_config = Inr d"
    using demo_defined by (cases "define_agent demo_config") auto
  then obtain c where c: "compile_agent (\<lambda>s. s) d = Inr c"
    by (auto simp: define_agent_def Let_def bind_res_eq_Inr compile_agent_def)
  have "case define_agent demo_config of Inr d \<Rightarrow> ''done'' \<in> set (map nd_id (gd_nodes (ad_graph d))) | Inl e \<Rightarrow> False"
    by code_simp
  with d obtain n where n: "n \<in> set (gd_nodes (ad_graph d))" "nd_id n = ''done''" by auto
  have "(gd_entry (ad_graph d), nd_id n) \<in> {(td_from t, td_to t) | t. t \<in> set (gd_transitions (ad_graph d))}\<^sup>*"
    using compile_agent_iff [THEN iffD1, OF c] n(1) by (elim conjE) (drule (1) bspec, erule conjunct1)
  then have "(gd_entry (ad_graph d), ''done'') \<in> {(td_from t, td_to t) | t. t \<in> set (gd_transitions (ad_graph d))}\<^sup>*"
    unfolding n(2) .
  moreover have "compile_agent (\<lambda>s. s) (d\<lparr>ad_graph := (ad_graph d)\<lparr>gd_version := 2\<rparr>\<rparr>) \<noteq> Inr c"
    by (simp add: compile_agent_iff)
  ultimately show ?thesis using d c by blast
qed

definition demo_shape :: "(string \<times> shape_item) list" where
  "demo_shape = [(''count'', ShapeType VNumber), (''note'', ShapeItem VString (Some True))]"

theorem validate_shape_iff_witness:
  "\<exists>schema. make_state_schema ''counter'' demo_shape = Inr schema
     \<and> validate_state schema (JObj [(''count'', JNum 3)]) = Inr ()
     \<and> validate_state schema (JObj [(''note'', JStr ''n'')]) \<noteq> Inr ()"
proof -
  have "\<not> isl (make_state_schema ''counter'' demo_shape)" by code_simp
  then obtain schema where m: "make_state_schema ''counter'' demo_shape = Inr schema" by (cases "make_state_schema ''counter'' demo_shape") auto
  have "plain_keys demo_shape" by (simp add: plain_keys_def demo_shape_def)
  note iff = validate_shape_iff [OF m this, THEN conjunct1]
  from m show ?thesis
    by (auto simp: iff demo_shape_def fits_def of_type_simps split: prod.splits)
qed

end
