(* ===== verification/Step_Machine.thy ===== *)
theory Step_Machine
  imports Knolo_Prelude
begin

text \<open>
  The shape of every loop of the program that may run long: a step on the loop's state that either
  continues or stops with a result, and the function that iterates it. A loop is an instance of the
  locale once its step is shown to decrease a rank; the client lemmas are the rules by which the
  loops' invariants and simulations are proved.
\<close>

datatype ('s, 'r) outcome = Next 's | Stop 'r

inductive reaches :: "('s \<Rightarrow> ('s, 'r) outcome) \<Rightarrow> 's \<Rightarrow> nat \<Rightarrow> 's \<Rightarrow> bool" for step where
  reaches_refl: "reaches step s 0 s"
| reaches_step: "step s = Next t \<Longrightarrow> reaches step t n u \<Longrightarrow> reaches step s (Suc n) u"

inductive_cases reaches_0E: "reaches step s 0 t"
inductive_cases reaches_SucE: "reaches step s (Suc n) t"

lemma reaches_invariant:
  assumes "reaches step s n t" "P s" "\<And>s s'. P s \<Longrightarrow> step s = Next s' \<Longrightarrow> P s'"
  shows "P t"
  using assms by (induction rule: reaches.induct) auto

locale step_machine =
  fixes step :: "'s \<Rightarrow> ('s, 'r) outcome"
    and run :: "'s \<Rightarrow> 'r"
    and rank :: "'s \<Rightarrow> nat"
  assumes run_unfold: "run s = (case step s of Next s' \<Rightarrow> run s' | Stop r \<Rightarrow> r)"
    and rank_step: "step s = Next s' \<Longrightarrow> rank s' < rank s"
begin

lemma run_Next: "step s = Next s' \<Longrightarrow> run s = run s'"
  by (simp add: run_unfold [of s])

lemma run_Stop: "step s = Stop r \<Longrightarrow> run s = r"
  by (simp add: run_unfold [of s])

lemma run_last_step: "\<exists>n t. reaches step s n t \<and> n \<le> rank s \<and> step t = Stop (run s)"
proof (induction "rank s" arbitrary: s rule: less_induct)
  case less
  show ?case
  proof (cases "step s")
    case (Next s')
    then obtain n t where "reaches step s' n t" "n \<le> rank s'" "step t = Stop (run s')"
      using less rank_step by blast
    with Next have "reaches step s (Suc n) t" "Suc n \<le> rank s" "step t = Stop (run s)"
      using rank_step [OF Next] by (auto intro: reaches_step simp: run_Next)
    then show ?thesis by blast
  next
    case (Stop r)
    then have "reaches step s 0 s" "step s = Stop (run s)"
      by (auto intro: reaches_refl simp: run_Stop)
    then show ?thesis by blast
  qed
qed

lemma run_invariant:
  assumes "P s" "\<And>s s'. P s \<Longrightarrow> step s = Next s' \<Longrightarrow> P s'" "\<And>s r. P s \<Longrightarrow> step s = Stop r \<Longrightarrow> Q r"
  shows "Q (run s)"
  using run_last_step [of s] reaches_invariant [of step s _ _ P] assms by blast

end

text \<open>Two loops in lock step.\<close>

locale step_simulation = left: step_machine step run rank + right: step_machine step' run' rank'
  for step :: "'s \<Rightarrow> ('s, 'r) outcome" and run rank
    and step' :: "'t \<Rightarrow> ('t, 'q) outcome" and run' rank' +
  fixes R :: "'s \<Rightarrow> 't \<Rightarrow> bool" and Q :: "'r \<Rightarrow> 'q \<Rightarrow> bool"
  assumes simulate: "R s t \<Longrightarrow> rel_outcome R Q (step s) (step' t)"
begin

lemma run_related: "R s t \<Longrightarrow> Q (run s) (run' t)"
proof (induction "rank s" arbitrary: s t rule: less_induct)
  case less
  then show ?case
    using simulate [OF less.prems] left.rank_step [of s]
    by (cases "step s"; cases "step' t") (auto simp: left.run_Next right.run_Next left.run_Stop right.run_Stop)
qed

end

end
