(* ===== verification/Graph_Engine.thy ===== *)
theory Graph_Engine
  imports Graph_Builder Step_Machine
begin

text \<open>
  The TypeScript engine, \<open>engine/typescript/index.ts\<close>: one turn of the \<open>while (true)\<close> of
  \<open>runFrom\<close> is \<open>engine_step\<close>, in the order of the source's guards and \<open>emit\<close> calls,
  on a record of the generator's local variables; \<open>run_loop\<close> iterates it. The node handlers and
  the clock are the host's: they act on a host state \<open>'w\<close> that the engine threads through, so
  that a handler may answer differently on every call. A report carries the yielded events; an
  exception that leaves the generator carries those yielded before it.

  Handlers treat the state they are given as read-only, as its type says, so \<open>structuredClone\<close>
  is the identity on the values here. The constructor has validated the limits, so that their
  numeric value (\<open>num_value\<close>) is the number compared.
\<close>

record 'w host =
  h_now :: "'w \<Rightarrow> int \<times> 'w"
  h_aborted :: "'w \<Rightarrow> bool"

record 'w run_context =
  rc_agent :: "'w compiled_agent"
  rc_host :: "'w host"
  rc_execution_id :: string
  rc_resume_input :: jsval
  rc_started_at :: int

record 'w engine_state =
  en_state :: state_snapshot
  en_current :: string
  en_sequence :: int
  en_steps :: int
  en_tokens :: int
  en_cost :: int
  en_events :: "execution_event list"
  en_snapshots :: "state_snapshot list"
  en_visits :: "(string, int) js_map"
  en_world :: 'w

datatype 'w run_result =
    Finished execution_status "'w engine_state"
  | Thrown js_error "'w engine_state"

abbreviation rc_graph :: "'w run_context \<Rightarrow> graph_definition" where
  "rc_graph rc \<equiv> ad_graph (ca_definition (rc_agent rc))"

abbreviation rc_schema :: "'w run_context \<Rightarrow> state_schema" where
  "rc_schema rc \<equiv> ad_schema (ca_definition (rc_agent rc))"

abbreviation rc_limits :: "'w run_context \<Rightarrow> execution_limits" where
  "rc_limits rc \<equiv> gd_limits (rc_graph rc)"

section \<open>Construction and inspection\<close>

definition supported :: "string list" where
  "supported = [''state'', ''routing'', ''suspension'']"

definition make_engine :: "'w compiled_agent \<Rightarrow> 'w compiled_agent result" where
  "make_engine agent =
     bind_res (validate_definition (ad_graph (ca_definition agent))) (\<lambda>_.
       let missing = filter (\<lambda>x. x \<notin> set supported) (ad_capabilities (ca_definition agent)) in
       if missing \<noteq> [] then Inl (DefinitionError (''typescript engine does not support capabilities: '' @ js_join '', '' missing))
       else Inr agent)"

record inspection =
  in_engine :: string
  in_graph :: graph_definition
  in_capabilities :: "string list"
  in_limitations :: "string list"

definition inspect_engine :: "'w compiled_agent \<Rightarrow> inspection" where
  "inspect_engine agent = \<lparr>in_engine = ''typescript'', in_graph = ad_graph (ca_definition agent),
     in_capabilities = supported,
     in_limitations = [''tool execution is host-provided'', ''durable checkpoints require a host store'']\<rparr>"

section \<open>One turn of the loop\<close>

definition emit :: "'w run_context \<Rightarrow> event_kind \<Rightarrow> string option \<Rightarrow> 'w engine_state \<Rightarrow> 'w engine_state" where
  "emit rc kind node s =
     (let (now, w) = h_now (rc_host rc) (en_world s) in
      s\<lparr>en_sequence := en_sequence s + 1, en_world := w,
        en_events := en_events s @ [\<lparr>ev_version = 1, ev_sequence = en_sequence s + 1,
          ev_execution_id = rc_execution_id rc, ev_node_id = node, ev_timestamp_ms = now, ev_kind = kind\<rparr>]\<rparr>)"

definition stop_with :: "'w run_context \<Rightarrow> execution_status \<Rightarrow> event_kind \<Rightarrow> 'w engine_state \<Rightarrow> ('w engine_state, 'w run_result) outcome" where
  "stop_with rc status kind s = Stop (Finished status (emit rc kind (Some (en_current s)) s))"

definition fail_with :: "'w run_context \<Rightarrow> string \<Rightarrow> 'w engine_state \<Rightarrow> ('w engine_state, 'w run_result) outcome" where
  "fail_with rc error s = stop_with rc (StFailed error) (EvFailed error) s"

fun own_entries :: "jsval \<Rightarrow> (string \<times> jsval) list" where
  "own_entries (JObj es) = es"
| "own_entries (JArr xs) = map (\<lambda>i. (dec_nat i, xs ! i)) [0..<length xs]"
| "own_entries (JStr s) = map (\<lambda>i. (dec_nat i, JStr [s ! i])) [0..<length s]"
| "own_entries _ = []"

fun put_all :: "(string \<times> jsval) list \<Rightarrow> (string \<times> jsval) list \<Rightarrow> (string \<times> jsval) list" where
  "put_all [] m = m"
| "put_all ((k, v) # es) m = put_all es (map_put k v m)"

definition spread :: "jsval \<Rightarrow> jsval \<Rightarrow> jsval" where
  "spread base update = JObj (own_order (put_all (own_entries base @ own_entries update) []))"

definition find_node :: "graph_definition \<Rightarrow> string \<Rightarrow> node_definition option" where
  "find_node g i = find (\<lambda>n. nd_id n = i) (gd_nodes g)"

fun check_writes :: "string \<Rightarrow> node_definition option \<Rightarrow> string list \<Rightarrow> unit result" where
  "check_writes current node [] = Inr ()"
| "check_writes current node (key # keys) =
     (case node of
        None \<Rightarrow> Inl (TypeError ''Cannot read properties of undefined'')
      | Some n \<Rightarrow>
          if ''/'' @ key \<notin> set (nd_writes n)
          then Inl (DefinitionError (''node '' @ current @ '' wrote undeclared state key '' @ key))
          else check_writes current node keys)"

definition apply_update :: "'w run_context \<Rightarrow> jsval \<Rightarrow> 'w engine_state \<Rightarrow> 'w engine_state result" where
  "apply_update rc update s =
     (if update = JUndef \<or> update = JNull then Inl (TypeError ''Cannot convert undefined or null to object'')
      else
        bind_res (check_writes (en_current s) (find_node (rc_graph rc) (en_current s)) (map fst (own_entries update))) (\<lambda>_.
          let next_value = spread (sn_value (en_state s)) update in
          bind_res (validate_state (rc_schema rc) next_value) (\<lambda>_.
            let state = \<lparr>sn_schema_id = sn_schema_id (en_state s), sn_revision = sn_revision (en_state s) + 1,
                  sn_value = next_value,
                  sn_provenance = Some \<lparr>pv_execution_id = rc_execution_id rc, pv_node_id = en_current s,
                    pv_event_sequence = en_sequence s + 1\<rparr>\<rparr>
            in Inr (emit rc (StatePatched (sn_revision state)) (Some (en_current s))
                      (s\<lparr>en_state := state, en_snapshots := en_snapshots s @ [state]\<rparr>)))))"

definition patch_step :: "'w run_context \<Rightarrow> node_outcome \<Rightarrow> 'w engine_state \<Rightarrow> 'w engine_state result" where
  "patch_step rc result s =
     (case outcome_patch result of
        None \<Rightarrow> Inr s
      | Some (Update v) \<Rightarrow> if js_truthy v then apply_update rc v s else Inr s
      | Some (Updater f) \<Rightarrow> bind_res (f (sn_value (en_state s))) (\<lambda>v. apply_update rc v s))"

definition find_edge :: "graph_definition \<Rightarrow> string \<Rightarrow> string \<Rightarrow> transition_definition option" where
  "find_edge g source route = find (\<lambda>t. td_from t = source \<and> td_route t = route) (gd_transitions g)"

definition follow :: "'w run_context \<Rightarrow> string \<Rightarrow> bool \<Rightarrow> 'w engine_state \<Rightarrow> ('w engine_state, 'w run_result) outcome" where
  "follow rc route explicit s =
     (case find_edge (rc_graph rc) (en_current s) route of
        None \<Rightarrow> Stop (Thrown (DefinitionError (''undeclared route '' @ route @ '' from '' @ en_current s)) s)
      | Some edge \<Rightarrow>
          let s1 = (if explicit then emit rc (Routed route (td_to edge)) (Some (en_current s)) s else s);
              s2 = emit rc Checkpointed (Some (en_current s)) s1
          in Next (s2\<lparr>en_current := td_to edge\<rparr>))"

fun outcome_step :: "'w run_context \<Rightarrow> node_outcome \<Rightarrow> 'w engine_state \<Rightarrow> ('w engine_state, 'w run_result) outcome" where
  "outcome_step rc (OTerminate result p) s = stop_with rc (StTerminated result) EvTerminated s"
| "outcome_step rc (OSuspend reason p) s = stop_with rc (StSuspended reason) (EvSuspended reason) s"
| "outcome_step rc (OFail error retryable) s = fail_with rc error s"
| "outcome_step rc (ORoute route p) s = follow rc route True s"
| "outcome_step rc (OContinue p) s = follow rc ''continue'' False s"

definition charge :: "node_execution \<Rightarrow> 'w engine_state \<Rightarrow> 'w engine_state" where
  "charge ex s = s\<lparr>en_steps := en_steps s + 1,
     en_tokens := en_tokens s + (case ne_tokens ex of Some n \<Rightarrow> n | None \<Rightarrow> 0),
     en_cost := en_cost s + (case ne_cost_micros ex of Some n \<Rightarrow> n | None \<Rightarrow> 0)\<rparr>"

definition settle :: "'w run_context \<Rightarrow> node_execution \<Rightarrow> 'w engine_state \<Rightarrow> ('w engine_state, 'w run_result) outcome" where
  "settle rc ex s =
     (let s1 = charge ex s; l = rc_limits rc in
      if max_tokens l < en_tokens s1 \<or> max_cost_micros l < en_cost s1
      then fail_with rc (if max_tokens l < en_tokens s1 then ''token budget exceeded'' else ''cost budget exceeded'') s1
      else case patch_step rc (ne_outcome ex) s1 of
          Inl e \<Rightarrow> Stop (Thrown e s1)
        | Inr s2 \<Rightarrow> outcome_step rc (ne_outcome ex) s2)"

definition dispatch :: "'w run_context \<Rightarrow> 'w engine_state \<Rightarrow> ('w engine_state, 'w run_result) outcome" where
  "dispatch rc s =
     (case map_of (ad_handlers (ca_definition (rc_agent rc))) (en_current s) of
        None \<Rightarrow> Stop (Thrown (DefinitionError (''node '' @ en_current s @ '' has no handler'')) s)
      | Some handler \<Rightarrow>
          let s1 = emit rc (NodeStarted 1) (Some (en_current s)) s;
              (answer, w) = handler (en_world s1)
                \<lparr>nc_state = sn_value (en_state s1), nc_attempt = 1, nc_resume_input = rc_resume_input rc\<rparr>;
              s2 = s1\<lparr>en_world := w\<rparr>
          in case answer of
              Inl message \<Rightarrow> fail_with rc message s2
            | Inr ex \<Rightarrow> settle rc ex s2)"

definition engine_step :: "'w run_context \<Rightarrow> 'w engine_state \<Rightarrow> ('w engine_state, 'w run_result) outcome" where
  "engine_step rc s =
     (if h_aborted (rc_host rc) (en_world s) then stop_with rc StCancelled EvCancelled s
      else if num_value (max_steps (rc_limits rc)) \<le> en_steps s then fail_with rc ''step budget exceeded'' s
      else let (now, w) = h_now (rc_host rc) (en_world s); s1 = s\<lparr>en_world := w\<rparr> in
        if num_value (timeout_ms (rc_limits rc)) < now - rc_started_at rc then fail_with rc ''timeout budget exceeded'' s1
        else let count = (case map_of (en_visits s1) (en_current s1) of Some n \<Rightarrow> n | None \<Rightarrow> 0) + 1;
                 s2 = s1\<lparr>en_visits := map_put (en_current s1) count (en_visits s1)\<rparr>;
                 over = (case find (\<lambda>c. en_current s2 \<in> set (cy_nodes c)) (gd_cycles (rc_graph rc)) of
                           None \<Rightarrow> False | Some c \<Rightarrow> cy_max_iterations c < count)
          in if over then fail_with rc ''cycle limit exceeded'' s2 else dispatch rc s2)"

section \<open>The loop ends\<close>

lemma emit_simps [simp]:
  "en_state (emit rc k n s) = en_state s" "en_current (emit rc k n s) = en_current s"
  "en_sequence (emit rc k n s) = en_sequence s + 1"
  "en_steps (emit rc k n s) = en_steps s" "en_tokens (emit rc k n s) = en_tokens s"
  "en_cost (emit rc k n s) = en_cost s" "en_snapshots (emit rc k n s) = en_snapshots s"
  "en_visits (emit rc k n s) = en_visits s"
  by (simp_all add: emit_def split: prod.splits)

lemma charge_simps [simp]:
  "en_state (charge ex s) = en_state s" "en_current (charge ex s) = en_current s"
  "en_sequence (charge ex s) = en_sequence s" "en_steps (charge ex s) = en_steps s + 1"
  "en_events (charge ex s) = en_events s" "en_snapshots (charge ex s) = en_snapshots s"
  "en_visits (charge ex s) = en_visits s" "en_world (charge ex s) = en_world s"
  by (simp_all add: charge_def)

lemma apply_update_frame:
  "apply_update rc v s = Inr s' \<Longrightarrow> en_current s' = en_current s \<and> en_steps s' = en_steps s
     \<and> en_tokens s' = en_tokens s \<and> en_cost s' = en_cost s"
  by (auto simp: apply_update_def bind_res_eq_Inr Let_def split: if_splits)

lemma patch_step_frame:
  "patch_step rc x s = Inr s' \<Longrightarrow> en_current s' = en_current s \<and> en_steps s' = en_steps s
     \<and> en_tokens s' = en_tokens s \<and> en_cost s' = en_cost s"
  by (auto simp: patch_step_def bind_res_eq_Inr split: option.splits state_update.splits if_splits dest: apply_update_frame)

text \<open>A turn that continues: the handler ran and its answer was charged, patched and routed.\<close>

lemma engine_step_Next:
  assumes "engine_step rc s = Next s'"
  obtains now w handler ex w2 s1 s2 s3 route explicit where
    "\<not> h_aborted (rc_host rc) (en_world s)"
    "en_steps s < num_value (max_steps (rc_limits rc))"
    "s1 = emit rc (NodeStarted 1) (Some (en_current s)) (s\<lparr>en_world := w,
        en_visits := map_put (en_current s) ((case map_of (en_visits s) (en_current s) of Some n \<Rightarrow> n | None \<Rightarrow> 0) + 1) (en_visits s)\<rparr>)"
    "map_of (ad_handlers (ca_definition (rc_agent rc))) (en_current s) = Some handler"
    "handler (en_world s1) \<lparr>nc_state = sn_value (en_state s), nc_attempt = 1, nc_resume_input = rc_resume_input rc\<rparr> = (Inr ex, w2)"
    "s2 = charge ex (s1\<lparr>en_world := w2\<rparr>)"
    "en_tokens s2 \<le> max_tokens (rc_limits rc)" "en_cost s2 \<le> max_cost_micros (rc_limits rc)"
    "patch_step rc (ne_outcome ex) s2 = Inr s3" "follow rc route explicit s3 = Next s'"
    "explicit \<longleftrightarrow> (\<exists>p. ne_outcome ex = ORoute route p)"
proof -
  obtain now w where now: "h_now (rc_host rc) (en_world s) = (now, w)" by fastforce
  let ?v = "map_put (en_current s) ((case map_of (en_visits s) (en_current s) of Some n \<Rightarrow> n | None \<Rightarrow> 0) + 1) (en_visits s)"
  let ?s0 = "s\<lparr>en_world := w, en_visits := ?v\<rparr>"
  have go: "\<not> h_aborted (rc_host rc) (en_world s)" "en_steps s < num_value (max_steps (rc_limits rc))"
    and d: "dispatch rc ?s0 = Next s'"
    using assms now by (auto simp: engine_step_def Let_def fail_with_def stop_with_def split: if_splits)
  let ?s1 = "emit rc (NodeStarted 1) (Some (en_current s)) ?s0"
  obtain handler ex w2 where h: "map_of (ad_handlers (ca_definition (rc_agent rc))) (en_current s) = Some handler"
    "handler (en_world ?s1) \<lparr>nc_state = sn_value (en_state s), nc_attempt = 1, nc_resume_input = rc_resume_input rc\<rparr> = (Inr ex, w2)"
    and st: "settle rc ex (?s1\<lparr>en_world := w2\<rparr>) = Next s'"
    using d by (auto simp: dispatch_def Let_def fail_with_def stop_with_def split: option.splits prod.splits sum.splits)
  let ?s2 = "charge ex (?s1\<lparr>en_world := w2\<rparr>)"
  obtain s3 where b: "en_tokens ?s2 \<le> max_tokens (rc_limits rc)" "en_cost ?s2 \<le> max_cost_micros (rc_limits rc)"
    and s3: "patch_step rc (ne_outcome ex) ?s2 = Inr s3" and o: "outcome_step rc (ne_outcome ex) s3 = Next s'"
    using st by (auto simp: settle_def Let_def fail_with_def stop_with_def not_less split: if_splits sum.splits)
  from o consider (route) r p where "ne_outcome ex = ORoute r p" "follow rc r True s3 = Next s'"
    | (continue) p where "ne_outcome ex = OContinue p" "follow rc ''continue'' False s3 = Next s'"
    by (cases "ne_outcome ex") (auto simp: fail_with_def stop_with_def)
  then show ?thesis
  proof cases
    case route
    show ?thesis using that [OF go refl h refl b s3 route(2)] route(1) by simp
  next
    case continue
    show ?thesis using that [OF go refl h refl b s3 continue(2)] continue(1) by simp
  qed
qed

lemma follow_Next:
  "follow rc route explicit s = Next s' \<longleftrightarrow>
     (\<exists>edge. find_edge (rc_graph rc) (en_current s) route = Some edge \<and>
       s' = (emit rc Checkpointed (Some (en_current s))
              (if explicit then emit rc (Routed route (td_to edge)) (Some (en_current s)) s else s))\<lparr>en_current := td_to edge\<rparr>)"
  by (auto simp: follow_def Let_def split: option.splits)

lemma engine_step_counts:
  assumes "engine_step rc s = Next s'"
  shows "en_steps s < num_value (max_steps (rc_limits rc)) \<and> en_steps s' = en_steps s + 1
    \<and> en_tokens s' \<le> max_tokens (rc_limits rc) \<and> en_cost s' \<le> max_cost_micros (rc_limits rc)"
  using assms by (elim engine_step_Next) (auto simp: follow_Next dest!: patch_step_frame)

definition steps_left :: "'w run_context \<Rightarrow> 'w engine_state \<Rightarrow> nat" where
  "steps_left rc s = nat (num_value (max_steps (rc_limits rc)) - en_steps s)"

lemma steps_left_less: "engine_step rc s = Next s' \<Longrightarrow> steps_left rc s' < steps_left rc s"
  using engine_step_counts [of rc s s'] by (simp add: steps_left_def)

function run_loop :: "'w run_context \<Rightarrow> 'w engine_state \<Rightarrow> 'w run_result" where
  "run_loop rc s = (case engine_step rc s of Next s' \<Rightarrow> run_loop rc s' | Stop r \<Rightarrow> r)"
  by pat_completeness auto
termination
  by (relation "measure (\<lambda>(rc, s). steps_left rc s)") (simp_all add: steps_left_less)

declare run_loop.simps [simp del]

interpretation engine: step_machine "engine_step rc" "run_loop rc" "steps_left rc" for rc :: "'w run_context"
  by unfold_locales (rule run_loop.simps, rule steps_left_less)

section \<open>execute and resume\<close>

text \<open>The local variables of \<open>runFrom\<close> when its loop begins.\<close>

definition begin_run :: "'w compiled_agent \<Rightarrow> 'w host \<Rightarrow> state_snapshot \<Rightarrow> string \<Rightarrow> int \<Rightarrow> int \<Rightarrow> int \<Rightarrow> string \<Rightarrow> jsval \<Rightarrow> 'w
    \<Rightarrow> 'w run_context \<times> 'w engine_state" where
  "begin_run agent host state start cursor steps tokens execution_id resume_input w =
     (let (started, w1) = h_now host w;
          rc = \<lparr>rc_agent = agent, rc_host = host, rc_execution_id = execution_id,
                rc_resume_input = resume_input, rc_started_at = started\<rparr>;
          s = \<lparr>en_state = state, en_current = start, en_sequence = cursor, en_steps = steps, en_tokens = tokens,
               en_cost = 0, en_events = [], en_snapshots = [state], en_visits = [], en_world = w1\<rparr>
      in (rc, if cursor = 0 then emit rc ExecutionStarted None s else s))"

definition run_from :: "'w compiled_agent \<Rightarrow> 'w host \<Rightarrow> state_snapshot \<Rightarrow> string \<Rightarrow> int \<Rightarrow> int \<Rightarrow> int \<Rightarrow> string \<Rightarrow> jsval \<Rightarrow> 'w \<Rightarrow> 'w run_result" where
  "run_from agent host state start cursor steps tokens execution_id resume_input w =
     (case begin_run agent host state start cursor steps tokens execution_id resume_input w of (rc, s) \<Rightarrow> run_loop rc s)"

definition initial_snapshot :: "'w compiled_agent \<Rightarrow> jsval \<Rightarrow> state_snapshot" where
  "initial_snapshot agent initial = \<lparr>sn_schema_id = ss_id (ad_schema (ca_definition agent)), sn_revision = 0,
     sn_value = initial, sn_provenance = None\<rparr>"

definition execute :: "'w compiled_agent \<Rightarrow> 'w host \<Rightarrow> jsval \<Rightarrow> string \<Rightarrow> jsval \<Rightarrow> 'w \<Rightarrow> 'w run_result result" where
  "execute agent host initial execution_id resume_input w =
     bind_res (validate_state (ad_schema (ca_definition agent)) initial) (\<lambda>_.
       Inr (run_from agent host (initial_snapshot agent initial) (gd_entry (ad_graph (ca_definition agent)))
              0 0 0 execution_id resume_input w))"

definition resume :: "'w compiled_agent \<Rightarrow> 'w host \<Rightarrow> checkpoint \<Rightarrow> jsval \<Rightarrow> 'w \<Rightarrow> 'w run_result result" where
  "resume agent host cp inp w =
     (if cp_graph_hash cp \<noteq> ca_hash agent then Inl (DefinitionError ''checkpoint graph hash mismatch'')
      else Inr (run_from agent host (cp_state cp) (cp_pending_node cp) (cp_event_cursor cp) (cp_steps cp)
                  (cp_tokens cp) (cp_execution_id cp) inp w))"

definition make_report :: "execution_status \<Rightarrow> 'w engine_state \<Rightarrow> execution_report" where
  "make_report status s = \<lparr>rp_status = status, rp_state = en_state s, rp_events = en_events s, rp_steps = en_steps s,
     rp_tokens = en_tokens s, rp_cost_micros = en_cost s, rp_snapshots = Some (en_snapshots s)\<rparr>"

end
