(* ===== verification/Graph_Runs.thy ===== *)
theory Graph_Runs
  imports Graph_Engine
begin

text \<open>
  What every run of the TypeScript engine satisfies: its events are numbered without gaps, its
  limits hold, its snapshots form a chain of declared and well-typed writes, its nodes follow the
  declared transitions, and its last event tells its status.
\<close>

section \<open>Invariants of a run\<close>

fun result_state :: "'w run_result \<Rightarrow> 'w engine_state" where
  "result_state (Finished status s) = s"
| "result_state (Thrown e s) = s"

text \<open>
  What holds of every state of a run is closed under the elementary actions of a turn: the host
  moves, a visit is counted, an event is emitted, an answer is charged, a patch is applied, the
  current node changes.
\<close>

locale engine_invariant =
  fixes rc :: "'w run_context" and P :: "'w engine_state \<Rightarrow> bool"
  assumes world: "P s \<Longrightarrow> P (s\<lparr>en_world := w\<rparr>)"
    and visits: "P s \<Longrightarrow> P (s\<lparr>en_visits := v\<rparr>)"
    and current: "P s \<Longrightarrow> P (s\<lparr>en_current := c\<rparr>)"
    and emitted: "P s \<Longrightarrow> P (emit rc k (Some n) s)"
    and charged: "P s \<Longrightarrow> P (charge ex s)"
    and patched: "P s \<Longrightarrow> patch_step rc x s = Inr s' \<Longrightarrow> P s'"
begin

lemma stop_with_keeps: "P s \<Longrightarrow> stop_with rc status k s = Stop r \<Longrightarrow> P (result_state r)"
  by (auto simp: stop_with_def emitted)

lemma follow_keeps_Stop: "P s \<Longrightarrow> follow rc route explicit s = Stop r \<Longrightarrow> P (result_state r)"
  by (auto simp: follow_def Let_def split: option.splits)

lemma follow_keeps_Next: "P s \<Longrightarrow> follow rc route explicit s = Next s' \<Longrightarrow> P s'"
  by (auto simp: follow_Next intro!: current emitted)

lemma outcome_keeps_Stop: "P s \<Longrightarrow> outcome_step rc x s = Stop r \<Longrightarrow> P (result_state r)"
  by (cases x) (auto simp: fail_with_def elim: stop_with_keeps follow_keeps_Stop)

lemma outcome_keeps_Next: "P s \<Longrightarrow> outcome_step rc x s = Next s' \<Longrightarrow> P s'"
  by (cases x) (auto simp: fail_with_def stop_with_def elim: follow_keeps_Next)

lemma settle_keeps_Stop: "P s \<Longrightarrow> settle rc ex s = Stop r \<Longrightarrow> P (result_state r)"
  by (auto simp: settle_def Let_def fail_with_def split: if_splits sum.splits
      elim!: stop_with_keeps [rotated] outcome_keeps_Stop [rotated] intro: charged patched)

lemma settle_keeps_Next: "P s \<Longrightarrow> settle rc ex s = Next s' \<Longrightarrow> P s'"
  by (auto simp: settle_def Let_def fail_with_def stop_with_def split: if_splits sum.splits
      elim!: outcome_keeps_Next [rotated] intro: charged patched)

lemma dispatch_keeps_Stop: "P s \<Longrightarrow> dispatch rc s = Stop r \<Longrightarrow> P (result_state r)"
  by (auto simp: dispatch_def Let_def fail_with_def split: option.splits prod.splits sum.splits
      elim!: stop_with_keeps [rotated] settle_keeps_Stop [rotated] intro: world emitted)

lemma dispatch_keeps_Next: "P s \<Longrightarrow> dispatch rc s = Next s' \<Longrightarrow> P s'"
  by (auto simp: dispatch_def Let_def fail_with_def stop_with_def split: option.splits prod.splits sum.splits
      elim!: settle_keeps_Next [rotated] intro: world emitted)

lemma step_keeps_Next: "P s \<Longrightarrow> engine_step rc s = Next s' \<Longrightarrow> P s'"
  by (auto simp: engine_step_def Let_def fail_with_def stop_with_def split: if_splits prod.splits
      elim!: dispatch_keeps_Next [rotated] intro: world visits)

lemma step_keeps_Stop: "P s \<Longrightarrow> engine_step rc s = Stop r \<Longrightarrow> P (result_state r)"
  by (auto simp: engine_step_def Let_def fail_with_def split: if_splits prod.splits
      elim!: stop_with_keeps [rotated] dispatch_keeps_Stop [rotated] intro: world visits)

lemma run_keeps: "P s \<Longrightarrow> P (result_state (run_loop rc s))"
  by (rule engine.run_invariant [where P = P and Q = "\<lambda>r. P (result_state r)"])
     (blast intro: step_keeps_Next step_keeps_Stop)+

end

subsection \<open>Events are numbered from the cursor\<close>

fun number_events :: "string \<Rightarrow> int \<Rightarrow> (event_kind \<times> string option \<times> int) list \<Rightarrow> execution_event list" where
  "number_events i c [] = []"
| "number_events i c ((k, n, t) # rest) =
     \<lparr>ev_version = 1, ev_sequence = c + 1, ev_execution_id = i, ev_node_id = n, ev_timestamp_ms = t, ev_kind = k\<rparr>
       # number_events i (c + 1) rest"

definition numbered :: "'w run_context \<Rightarrow> int \<Rightarrow> 'w engine_state \<Rightarrow> bool" where
  "numbered rc c s \<longleftrightarrow> (\<exists>kts. en_events s = number_events (rc_execution_id rc) c kts \<and> en_sequence s = c + int (length kts))"

lemma number_events_snoc:
  "number_events i c (kts @ [(k, n, t)]) = number_events i c kts @
     [\<lparr>ev_version = 1, ev_sequence = c + int (length kts) + 1, ev_execution_id = i, ev_node_id = n,
       ev_timestamp_ms = t, ev_kind = k\<rparr>]"
  by (induction i c kts rule: number_events.induct) (simp_all add: algebra_simps)

lemma length_number_events [simp]: "length (number_events i c kts) = length kts"
  by (induction i c kts rule: number_events.induct) simp_all

lemma nth_number_events:
  "j < length kts \<Longrightarrow> ev_sequence (number_events i c kts ! j) = c + 1 + int j
     \<and> ev_version (number_events i c kts ! j) = 1 \<and> ev_execution_id (number_events i c kts ! j) = i"
  by (induction i c kts arbitrary: j rule: number_events.induct) (auto simp: nth_Cons split: nat.split)

lemma numbered_emit: "numbered rc c s \<Longrightarrow> numbered rc c (emit rc k n s)"
proof -
  assume "numbered rc c s"
  then obtain kts where "en_events s = number_events (rc_execution_id rc) c kts" "en_sequence s = c + int (length kts)"
    by (auto simp: numbered_def)
  then show ?thesis
    unfolding numbered_def
    by (intro exI [of _ "kts @ [(k, n, fst (h_now (rc_host rc) (en_world s)))]"])
       (auto simp: emit_def number_events_snoc split: prod.splits)
qed

lemma numbered_cong:
  "numbered rc c s \<Longrightarrow> en_events s' = en_events s \<Longrightarrow> en_sequence s' = en_sequence s \<Longrightarrow> numbered rc c s'"
  by (simp add: numbered_def)

lemma apply_update_Inr:
  assumes "apply_update rc v s = Inr s'"
  obtains st where
    "check_writes (en_current s) (find_node (rc_graph rc) (en_current s)) (map fst (own_entries v)) = Inr ()"
    "validate_state (rc_schema rc) (spread (sn_value (en_state s)) v) = Inr ()"
    "st = \<lparr>sn_schema_id = sn_schema_id (en_state s), sn_revision = sn_revision (en_state s) + 1,
        sn_value = spread (sn_value (en_state s)) v,
        sn_provenance = Some \<lparr>pv_execution_id = rc_execution_id rc, pv_node_id = en_current s,
          pv_event_sequence = en_sequence s + 1\<rparr>\<rparr>"
    "s' = emit rc (StatePatched (sn_revision st)) (Some (en_current s)) (s\<lparr>en_state := st, en_snapshots := en_snapshots s @ [st]\<rparr>)"
  using assms by (auto simp: apply_update_def bind_res_eq_Inr Let_def split: if_splits)

lemma patch_step_Inr:
  "patch_step rc x s = Inr s' \<Longrightarrow> s' = s \<or> (\<exists>v. apply_update rc v s = Inr s')"
  by (auto simp: patch_step_def bind_res_eq_Inr split: option.splits state_update.splits if_splits)

interpretation numbering: engine_invariant rc "numbered rc c" for rc :: "'w run_context" and c
proof
  fix s x s'
  assume s: "numbered rc c s" and p: "patch_step rc x s = Inr s'"
  from patch_step_Inr [OF p] show "numbered rc c s'"
  proof (elim disjE exE)
    fix v assume "apply_update rc v s = Inr s'"
    then show ?thesis
      by (elim apply_update_Inr) (auto intro!: numbered_emit intro: numbered_cong [OF s])
  qed (simp add: s)
qed ((erule numbered_emit) | (erule numbered_cong; simp))+

subsection \<open>Snapshots form a chain of declared writes\<close>

lemma map_of_sorted_keys: "mset m = mset m' \<Longrightarrow> distinct (map fst m) \<Longrightarrow> map_of m = map_of m'"
proof
  fix k
  assume m: "mset m = mset m'" and d: "distinct (map fst m)"
  have "distinct (map fst m')" using m d by (metis mset_eq_imp_distinct_iff mset_map)
  moreover have "set m = set m'" using m by (rule mset_eq_setD)
  ultimately have "map_of m k = Some v \<longleftrightarrow> map_of m' k = Some v" for v
    using d by (simp add: map_of_eq_Some_iff)
  then show "map_of m k = map_of m' k" by (metis not_Some_eq)
qed

lemma map_of_own_order [simp]: "distinct (map fst m) \<Longrightarrow> map_of (own_order m) = map_of m"
  by (metis map_of_sorted_keys mset_own_order)

lemma distinct_own_order [simp]: "distinct (map fst (own_order m)) = distinct (map fst m)"
  by (metis mset_map mset_own_order mset_eq_imp_distinct_iff)

lemma distinct_put_all [simp]: "distinct (map fst m) \<Longrightarrow> distinct (map fst (put_all es m))"
  by (induction es m rule: put_all.induct) auto

lemma map_of_put_all: "map_of (put_all es m) k = (case map_of (rev es) k of Some v \<Rightarrow> Some v | None \<Rightarrow> map_of m k)"
  by (induction es m rule: put_all.induct) (auto simp: map_of_append map_add_def split: option.splits)

definition plain_object :: "jsval \<Rightarrow> bool" where
  "plain_object v \<longleftrightarrow> (\<exists>es. v = JObj es \<and> distinct (map fst es))"

lemma plain_object_spread [simp]: "plain_object (spread b u)"
  by (simp add: spread_def plain_object_def)

lemma map_of_rev_distinct: "distinct (map fst es) \<Longrightarrow> map_of (rev es) = map_of es"
  by (rule map_of_sorted_keys) (simp_all add: rev_map [symmetric])

text \<open>The spread of an update over an object changes no key the update does not name.\<close>

lemma member_get_spread:
  assumes "plain_object b" "k \<notin> fst ` set (own_entries u)"
  shows "member_get (spread b u) k = member_get b k"
proof -
  obtain es where b: "b = JObj es" "distinct (map fst es)" using assms(1) by (auto simp: plain_object_def)
  have "map_of (rev (own_entries u)) k = None" using assms(2) by (simp add: map_of_eq_None_iff)
  then show ?thesis
    by (simp add: b spread_def js_get_def map_of_put_all map_of_append map_add_def map_of_rev_distinct split: option.splits)
qed

lemma check_writes_Inr:
  "check_writes c n keys = Inr u \<longleftrightarrow> keys = [] \<or> (\<exists>d. n = Some d \<and> (\<forall>k \<in> set keys. ''/'' @ k \<in> set (nd_writes d)))"
  by (induction keys) (auto split: option.splits)

text \<open>One snapshot follows another by a patch of one node.\<close>

definition patched_by :: "'w compiled_agent \<Rightarrow> string \<Rightarrow> state_snapshot \<Rightarrow> state_snapshot \<Rightarrow> bool" where
  "patched_by agent eid a b \<longleftrightarrow> sn_schema_id b = sn_schema_id a \<and> sn_revision b = sn_revision a + 1
     \<and> validate_state (ad_schema (ca_definition agent)) (sn_value b) = Inr ()
     \<and> (\<exists>node seq. sn_provenance b = Some \<lparr>pv_execution_id = eid, pv_node_id = node, pv_event_sequence = seq\<rparr>
         \<and> (\<forall>k. member_get (sn_value b) k \<noteq> member_get (sn_value a) k \<longrightarrow>
               (\<exists>n \<in> set (gd_nodes (ad_graph (ca_definition agent))). nd_id n = node \<and> ''/'' @ k \<in> set (nd_writes n))))"

text \<open>A snapshot names the event that reports it.\<close>

definition announced :: "execution_event list \<Rightarrow> state_snapshot \<Rightarrow> bool" where
  "announced events b \<longleftrightarrow> (\<exists>p. sn_provenance b = Some p \<and> (\<exists>e \<in> set events. ev_kind e = StatePatched (sn_revision b)
     \<and> ev_sequence e = pv_event_sequence p \<and> ev_node_id e = Some (pv_node_id p)))"

definition history_ok :: "'w run_context \<Rightarrow> state_snapshot \<Rightarrow> 'w engine_state \<Rightarrow> bool" where
  "history_ok rc first s \<longleftrightarrow> (\<exists>rest. en_snapshots s = first # rest \<and> en_state s = last (first # rest)
     \<and> plain_object (sn_value (en_state s)) \<and> successively (patched_by (rc_agent rc) (rc_execution_id rc)) (first # rest)
     \<and> (\<forall>b \<in> set rest. announced (en_events s) b))"

lemma announced_mono: "announced es b \<Longrightarrow> set es \<subseteq> set es' \<Longrightarrow> announced es' b"
  by (auto simp: announced_def)

lemma history_cong:
  "history_ok rc a s \<Longrightarrow> en_snapshots s' = en_snapshots s \<Longrightarrow> en_state s' = en_state s \<Longrightarrow>
   set (en_events s) \<subseteq> set (en_events s') \<Longrightarrow> history_ok rc a s'"
  unfolding history_ok_def by (metis announced_mono)

lemma events_emit: "set (en_events s) \<subseteq> set (en_events (emit rc k n s))"
  by (auto simp: emit_def split: prod.splits)

lemma patched_by_update:
  assumes "plain_object (sn_value a)"
    "check_writes c (find_node (rc_graph rc) c) (map fst (own_entries v)) = Inr ()"
    "validate_state (rc_schema rc) (spread (sn_value a) v) = Inr ()"
  shows "patched_by (rc_agent rc) (rc_execution_id rc) a \<lparr>sn_schema_id = sn_schema_id a, sn_revision = sn_revision a + 1, sn_value = spread (sn_value a) v,
        sn_provenance = Some \<lparr>pv_execution_id = rc_execution_id rc, pv_node_id = c, pv_event_sequence = i\<rparr>\<rparr>"
proof -
  have "\<exists>n \<in> set (gd_nodes (rc_graph rc)). nd_id n = c \<and> ''/'' @ k \<in> set (nd_writes n)"
    if "member_get (spread (sn_value a) v) k \<noteq> member_get (sn_value a) k" for k
  proof -
    have "k \<in> fst ` set (own_entries v)" using that member_get_spread [OF assms(1)] by blast
    with assms(2) show ?thesis
      by (auto simp: check_writes_Inr find_node_def dest!: find_in_set)
  qed
  with assms(3) show ?thesis by (simp add: patched_by_def)
qed

lemma history_update:
  assumes "history_ok rc first s" "apply_update rc v s = Inr s'"
  shows "history_ok rc first s'"
proof -
  obtain rest where h: "en_snapshots s = first # rest" "en_state s = last (first # rest)"
    "plain_object (sn_value (en_state s))" "successively (patched_by (rc_agent rc) (rc_execution_id rc)) (first # rest)"
    "\<forall>b \<in> set rest. announced (en_events s) b"
    using assms(1) by (auto simp: history_ok_def)
  from assms(2) obtain st where u:
    "check_writes (en_current s) (find_node (rc_graph rc) (en_current s)) (map fst (own_entries v)) = Inr ()"
    "validate_state (rc_schema rc) (spread (sn_value (en_state s)) v) = Inr ()"
    and st: "st = \<lparr>sn_schema_id = sn_schema_id (en_state s), sn_revision = sn_revision (en_state s) + 1,
        sn_value = spread (sn_value (en_state s)) v,
        sn_provenance = Some \<lparr>pv_execution_id = rc_execution_id rc, pv_node_id = en_current s,
          pv_event_sequence = en_sequence s + 1\<rparr>\<rparr>"
    and s': "s' = emit rc (StatePatched (sn_revision st)) (Some (en_current s)) (s\<lparr>en_state := st, en_snapshots := en_snapshots s @ [st]\<rparr>)"
    by (rule apply_update_Inr)
  have "patched_by (rc_agent rc) (rc_execution_id rc) (en_state s) st" unfolding st by (rule patched_by_update [OF h(3) u])
  then have "successively (patched_by (rc_agent rc) (rc_execution_id rc)) ((first # rest) @ [st])"
    using h(2,4) by (simp only: successively_append_iff) simp
  moreover have "announced (en_events s') st"
    by (auto simp: announced_def s' st emit_def split: prod.splits)
  moreover have "set (en_events s) \<subseteq> set (en_events s')"
    unfolding s' using events_emit [of "s\<lparr>en_state := st, en_snapshots := en_snapshots s @ [st]\<rparr>"] by simp
  moreover have "plain_object (sn_value st)" by (simp add: st)
  ultimately show ?thesis
    using h(1,5) by (auto simp: history_ok_def s' intro!: exI [of _ "rest @ [st]"] intro: announced_mono)
qed

interpretation history: engine_invariant rc "history_ok rc first" for rc :: "'w run_context" and first
proof
  fix s x s'
  assume s: "history_ok rc first s" and p: "patch_step rc x s = Inr s'"
  from patch_step_Inr [OF p] s show "history_ok rc first s'" by (blast intro: history_update)
qed (erule history_cong; simp add: events_emit)+

subsection \<open>Nodes follow the transitions; the last event tells the status\<close>

definition started_node :: "execution_event \<Rightarrow> string list" where
  "started_node e = (case ev_kind e of NodeStarted a \<Rightarrow> (case ev_node_id e of Some n \<Rightarrow> [n] | None \<Rightarrow> []) | _ \<Rightarrow> [])"

definition starts :: "execution_event list \<Rightarrow> string list" where
  "starts es = concat (map started_node es)"

fun is_closing :: "event_kind \<Rightarrow> bool" where
  "is_closing (EvSuspended r) = True"
| "is_closing EvTerminated = True"
| "is_closing (EvFailed e) = True"
| "is_closing EvCancelled = True"
| "is_closing _ = False"

fun closes :: "execution_status \<Rightarrow> event_kind \<Rightarrow> bool" where
  "closes (StSuspended r) k = (k = EvSuspended r)"
| "closes (StTerminated v) k = (k = EvTerminated)"
| "closes (StFailed e) k = (k = EvFailed e)"
| "closes StCancelled k = (k = EvCancelled)"

definition still_open :: "execution_event list \<Rightarrow> bool" where
  "still_open es \<longleftrightarrow> list_all (\<lambda>e. \<not> is_closing (ev_kind e)) es"

lemma starts_emit [simp]:
  "starts (en_events (emit rc k n s)) =
     starts (en_events s) @ (case k of NodeStarted a \<Rightarrow> (case n of Some i \<Rightarrow> [i] | None \<Rightarrow> []) | _ \<Rightarrow> [])"
  by (cases k) (simp_all add: starts_def started_node_def emit_def split: prod.splits)

lemma still_open_emit [simp]:
  "still_open (en_events (emit rc k n s)) \<longleftrightarrow> still_open (en_events s) \<and> \<not> is_closing k"
  by (simp add: still_open_def emit_def split: prod.splits)

text \<open>The states in which a run may stop, before its last event.\<close>

definition ends :: "'w run_context \<Rightarrow> 'w engine_state \<Rightarrow> 'w run_result \<Rightarrow> bool" where
  "ends rc t r \<longleftrightarrow> (\<exists>status k. r = Finished status (emit rc k (Some (en_current t)) t) \<and> closes status k) \<or> (\<exists>e. r = Thrown e t)"

fun completed :: "'w run_result \<Rightarrow> bool" where
  "completed (Finished (StTerminated v) s) = True"
| "completed (Finished (StSuspended r) s) = True"
| "completed _ = False"

definition same_flow :: "'w engine_state \<Rightarrow> 'w engine_state \<Rightarrow> bool" where
  "same_flow s t \<longleftrightarrow> en_current t = en_current s \<and> starts (en_events t) = starts (en_events s)
     \<and> still_open (en_events t) = still_open (en_events s)"

lemma same_flow_refl [simp]: "same_flow s s"
  by (simp add: same_flow_def)

lemma patch_step_flow: "patch_step rc x s = Inr t \<Longrightarrow> same_flow s t"
  by (auto dest!: patch_step_Inr elim!: apply_update_Inr simp: same_flow_def)

lemma outcome_step_Stop:
  assumes "outcome_step rc x s = Stop r"
  shows "ends rc s r"
  using assms by (cases x) (auto simp: ends_def stop_with_def fail_with_def follow_def Let_def split: option.splits)

lemma stop_with_ends: "stop_with rc status k s = Stop r \<Longrightarrow> closes status k \<Longrightarrow> ends rc s r"
  by (auto simp: stop_with_def ends_def)

lemma settle_Stop:
  assumes "settle rc ex s = Stop r"
  obtains t where "same_flow s t" "en_steps t = en_steps s + 1" "ends rc t r"
    "completed r \<longrightarrow> en_tokens t \<le> max_tokens (rc_limits rc) \<and> en_cost t \<le> max_cost_micros (rc_limits rc)"
proof (cases "max_tokens (rc_limits rc) < en_tokens (charge ex s) \<or> max_cost_micros (rc_limits rc) < en_cost (charge ex s)")
  case True
  with assms have "fail_with rc (if max_tokens (rc_limits rc) < en_tokens (charge ex s) then ''token budget exceeded'' else ''cost budget exceeded'') (charge ex s) = Stop r"
    by (simp add: settle_def Let_def)
  then show ?thesis
    by (intro that [of "charge ex s"]) (auto simp: same_flow_def ends_def fail_with_def stop_with_def)
next
  case False
  show ?thesis
  proof (cases "patch_step rc (ne_outcome ex) (charge ex s)")
    case (Inl e)
    with False assms show ?thesis
      by (intro that [of "charge ex s"]) (auto simp: same_flow_def ends_def settle_def Let_def)
  next
    case (Inr t)
    with False assms have "outcome_step rc (ne_outcome ex) t = Stop r" by (simp add: settle_def Let_def)
    then have "ends rc t r" by (rule outcome_step_Stop)
    moreover have "same_flow s t" using patch_step_flow [OF Inr] by (simp add: same_flow_def)
    ultimately show ?thesis using patch_step_frame [OF Inr] False by (intro that [of t]) auto
  qed
qed

definition in_cycle_bounds :: "graph_definition \<Rightarrow> string \<Rightarrow> int \<Rightarrow> bool" where
  "in_cycle_bounds g n visit \<longleftrightarrow>
     (case find (\<lambda>c. n \<in> set (cy_nodes c)) (gd_cycles g) of None \<Rightarrow> True | Some c \<Rightarrow> visit \<le> cy_max_iterations c)"

definition visit_count :: "'w engine_state \<Rightarrow> string \<Rightarrow> int" where
  "visit_count s n = (case map_of (en_visits s) n of Some i \<Rightarrow> i | None \<Rightarrow> 0)"

text \<open>A turn that stops has not entered the current node, or it has, within every bound.\<close>

lemma engine_step_Stop:
  assumes "engine_step rc s = Stop r"
  obtains (refused) t where "same_flow s t" "en_steps t = en_steps s" "ends rc t r" "\<not> completed r"
  | (entered) t where "en_current t = en_current s" "starts (en_events t) = starts (en_events s) @ [en_current s]"
      "still_open (en_events t) = still_open (en_events s)"
      "en_steps s < num_value (max_steps (rc_limits rc))" "en_steps t \<le> en_steps s + 1"
      "in_cycle_bounds (rc_graph rc) (en_current s) (visit_count s (en_current s) + 1)" "ends rc t r"
      "completed r \<longrightarrow> en_tokens t \<le> max_tokens (rc_limits rc) \<and> en_cost t \<le> max_cost_micros (rc_limits rc)"
proof -
  obtain now w where now: "h_now (rc_host rc) (en_world s) = (now, w)" by fastforce
  let ?count = "visit_count s (en_current s) + 1"
  let ?s0 = "s\<lparr>en_world := w, en_visits := map_put (en_current s) ?count (en_visits s)\<rparr>"
  have flow0: "same_flow s ?s0" "same_flow s (s\<lparr>en_world := w\<rparr>)" by (simp_all add: same_flow_def)
  note unfold = engine_step_def Let_def now visit_count_def fail_with_def stop_with_def in_cycle_bounds_def
  consider "stop_with rc StCancelled EvCancelled s = Stop r"
    | "fail_with rc ''step budget exceeded'' s = Stop r"
    | "fail_with rc ''timeout budget exceeded'' (s\<lparr>en_world := w\<rparr>) = Stop r"
    | "fail_with rc ''cycle limit exceeded'' ?s0 = Stop r"
    | "en_steps s < num_value (max_steps (rc_limits rc))" "in_cycle_bounds (rc_graph rc) (en_current s) ?count" "dispatch rc ?s0 = Stop r"
    using assms by (auto simp: unfold not_less split: if_splits option.splits)
  then show ?thesis
  proof cases
    case 5
    show ?thesis
    proof (cases "map_of (ad_handlers (ca_definition (rc_agent rc))) (en_current s)")
      case None
      with 5 flow0 show ?thesis
        by (intro refused [of ?s0]) (auto simp: dispatch_def ends_def)
    next
      case (Some handler)
      let ?s1 = "emit rc (NodeStarted 1) (Some (en_current s)) ?s0"
      obtain answer w2 where h: "handler (en_world ?s1) \<lparr>nc_state = sn_value (en_state s), nc_attempt = 1, nc_resume_input = rc_resume_input rc\<rparr> = (answer, w2)"
        by fastforce
      let ?s2 = "?s1\<lparr>en_world := w2\<rparr>"
      show ?thesis
      proof (cases answer)
        case (Inl message)
        with 5 Some h have "fail_with rc message ?s2 = Stop r" by (simp add: dispatch_def)
        with 5(1,2) show ?thesis
          by (intro entered [of ?s2]) (auto simp: fail_with_def stop_with_def ends_def)
      next
        case (Inr ex)
        with 5 Some h have "settle rc ex ?s2 = Stop r" by (simp add: dispatch_def)
        then obtain t where t: "same_flow ?s2 t" "en_steps t = en_steps ?s2 + 1" "ends rc t r"
          "completed r \<longrightarrow> en_tokens t \<le> max_tokens (rc_limits rc) \<and> en_cost t \<le> max_cost_micros (rc_limits rc)"
          by (rule settle_Stop)
        with 5(1,2) show ?thesis
          by (intro entered [of t]) (auto simp: same_flow_def)
      qed
    qed
  next
    case 1 then show ?thesis by (intro refused [of s]) (auto simp: stop_with_def ends_def)
  next
    case 2 then show ?thesis by (intro refused [of s]) (auto simp: stop_with_def fail_with_def ends_def)
  next
    case 3 with flow0 show ?thesis
      by (intro refused [of "s\<lparr>en_world := w\<rparr>"]) (auto simp: stop_with_def fail_with_def ends_def)
  next
    case 4 with flow0 show ?thesis
      by (intro refused [of ?s0]) (auto simp: stop_with_def fail_with_def ends_def)
  qed
qed

definition declared_edge :: "graph_definition \<Rightarrow> string \<Rightarrow> string \<Rightarrow> bool" where
  "declared_edge g a b \<longleftrightarrow> (\<exists>t \<in> set (gd_transitions g). td_from t = a \<and> td_to t = b)"

definition visits_in_bounds :: "graph_definition \<Rightarrow> string list \<Rightarrow> bool" where
  "visits_in_bounds g ns \<longleftrightarrow> (\<forall>n \<in> set ns. in_cycle_bounds g n (int (count_list ns n)))"

definition flow_ok :: "'w run_context \<Rightarrow> string \<Rightarrow> int \<Rightarrow> 'w engine_state \<Rightarrow> bool" where
  "flow_ok rc start steps0 s \<longleftrightarrow> (let ns = starts (en_events s) in
     successively (declared_edge (rc_graph rc)) (ns @ [en_current s]) \<and> hd (ns @ [en_current s]) = start
     \<and> still_open (en_events s) \<and> visit_count s = (\<lambda>n. int (count_list ns n)) \<and> visits_in_bounds (rc_graph rc) ns
     \<and> en_steps s = steps0 + int (length ns)
     \<and> en_steps s \<le> max steps0 (num_value (max_steps (rc_limits rc))))"

definition closed_by :: "'w run_result \<Rightarrow> bool" where
  "closed_by r = (case r of
       Finished status s \<Rightarrow> (\<exists>es e. en_events s = es @ [e] \<and> still_open es \<and> closes status (ev_kind e))
     | Thrown e s \<Rightarrow> still_open (en_events s))"

definition flow_done :: "'w run_context \<Rightarrow> string \<Rightarrow> int \<Rightarrow> 'w run_result \<Rightarrow> bool" where
  "flow_done rc start steps0 r \<longleftrightarrow> (let s = result_state r; ns = starts (en_events s) in
     successively (declared_edge (rc_graph rc)) ns \<and> (ns \<noteq> [] \<longrightarrow> hd ns = start) \<and> visits_in_bounds (rc_graph rc) ns
     \<and> steps0 + int (length ns) \<le> max steps0 (num_value (max_steps (rc_limits rc)))
     \<and> en_steps s \<le> steps0 + int (length ns) \<and> closed_by r)"

lemma visits_in_bounds_snoc:
  "visits_in_bounds g ns \<Longrightarrow> in_cycle_bounds g c (int (count_list ns c) + 1) \<Longrightarrow> visits_in_bounds g (ns @ [c])"
  by (auto simp: visits_in_bounds_def)

lemma find_edge_declared: "find_edge g a route = Some t \<Longrightarrow> declared_edge g a (td_to t)"
  by (auto simp: find_edge_def declared_edge_def dest: find_in_set)

lemma in_cycle_bounds_Next:
  assumes "engine_step rc s = Next s'"
  shows "in_cycle_bounds (rc_graph rc) (en_current s) (visit_count s (en_current s) + 1)"
  using assms
  by (auto simp: engine_step_def Let_def fail_with_def stop_with_def in_cycle_bounds_def visit_count_def not_less
      split: if_splits prod.splits option.splits)

lemma patch_step_visits: "patch_step rc x s = Inr t \<Longrightarrow> en_visits t = en_visits s"
  by (auto dest!: patch_step_Inr elim!: apply_update_Inr)

lemma engine_step_flow:
  assumes "engine_step rc s = Next s'"
  shows "starts (en_events s') = starts (en_events s) @ [en_current s]"
    "declared_edge (rc_graph rc) (en_current s) (en_current s')"
    "still_open (en_events s') = still_open (en_events s)"
    "visit_count s' = (visit_count s)(en_current s := visit_count s (en_current s) + 1)"
proof -
  from assms obtain w handler ex w2 s1 s2 s3 route explicit where
    s1: "s1 = emit rc (NodeStarted 1) (Some (en_current s)) (s\<lparr>en_world := w,
        en_visits := map_put (en_current s) ((case map_of (en_visits s) (en_current s) of Some n \<Rightarrow> n | None \<Rightarrow> 0) + 1) (en_visits s)\<rparr>)"
    and s2: "s2 = charge ex (s1\<lparr>en_world := w2\<rparr>)"
    and s3: "patch_step rc (ne_outcome ex) s2 = Inr s3" and f: "follow rc route explicit s3 = Next s'"
    by (elim engine_step_Next) blast
  have flow: "en_current s3 = en_current s" "starts (en_events s3) = starts (en_events s) @ [en_current s]"
    "still_open (en_events s3) = still_open (en_events s)"
    using patch_step_flow [OF s3] by (simp_all add: same_flow_def s2 s1)
  from f obtain edge where edge: "find_edge (rc_graph rc) (en_current s3) route = Some edge"
    and s': "s' = (emit rc Checkpointed (Some (en_current s3))
              (if explicit then emit rc (Routed route (td_to edge)) (Some (en_current s3)) s3 else s3))\<lparr>en_current := td_to edge\<rparr>"
    by (auto simp: follow_Next)
  show "starts (en_events s') = starts (en_events s) @ [en_current s]"
    "still_open (en_events s') = still_open (en_events s)"
    by (simp_all add: s' flow)
  show "declared_edge (rc_graph rc) (en_current s) (en_current s')"
    using find_edge_declared [OF edge] by (simp add: s' flow)
  show "visit_count s' = (visit_count s)(en_current s := visit_count s (en_current s) + 1)"
    using patch_step_visits [OF s3] by (auto simp: fun_eq_iff visit_count_def s' s2 s1)
qed

lemma flow_ok_Next:
  assumes "flow_ok rc start steps0 s" "engine_step rc s = Next s'"
  shows "flow_ok rc start steps0 s'"
proof -
  let ?ns = "starts (en_events s)"
  note step = engine_step_flow [OF assms(2)] engine_step_counts [OF assms(2)] in_cycle_bounds_Next [OF assms(2)]
  have ok: "successively (declared_edge (rc_graph rc)) (?ns @ [en_current s])" "hd (?ns @ [en_current s]) = start"
    "still_open (en_events s)" "visit_count s = (\<lambda>n. int (count_list ?ns n))" "visits_in_bounds (rc_graph rc) ?ns"
    "en_steps s = steps0 + int (length ?ns)" "en_steps s \<le> max steps0 (num_value (max_steps (rc_limits rc)))"
    using assms(1) by (auto simp: flow_ok_def Let_def)
  have "successively (declared_edge (rc_graph rc)) ((?ns @ [en_current s]) @ [en_current s'])"
    using ok(1) step(2) by (simp only: successively_append_iff) simp
  moreover have "hd ((?ns @ [en_current s]) @ [en_current s']) = start"
    using ok(2) by (cases ?ns) simp_all
  moreover have "visits_in_bounds (rc_graph rc) (?ns @ [en_current s])"
    using ok(4,5) step(6) by (simp add: visits_in_bounds_snoc)
  ultimately show ?thesis
    using ok step by (auto simp: flow_ok_def Let_def)
qed

lemma ends_result:
  assumes "ends rc t r"
  shows "starts (en_events (result_state r)) = starts (en_events t)" "en_steps (result_state r) = en_steps t"
    "still_open (en_events t) \<Longrightarrow> closed_by r"
proof -
  show "starts (en_events (result_state r)) = starts (en_events t)" "en_steps (result_state r) = en_steps t"
    using assms by (auto simp: ends_def split: event_kind.splits elim: closes.elims)
  assume "still_open (en_events t)"
  moreover have "\<exists>e. en_events (emit rc k n t) = en_events t @ [e] \<and> ev_kind e = k" for k n
    by (simp add: emit_def split: prod.splits)
  ultimately show "closed_by r"
    using assms by (fastforce simp: ends_def closed_by_def)
qed

lemma flow_done_Stop:
  assumes "flow_ok rc start steps0 s" "engine_step rc s = Stop r"
  shows "flow_done rc start steps0 r"
proof -
  let ?ns = "starts (en_events s)"
  have ok: "successively (declared_edge (rc_graph rc)) (?ns @ [en_current s])" "hd (?ns @ [en_current s]) = start"
    "still_open (en_events s)" "visit_count s = (\<lambda>n. int (count_list ?ns n))" "visits_in_bounds (rc_graph rc) ?ns"
    "en_steps s = steps0 + int (length ?ns)" "en_steps s \<le> max steps0 (num_value (max_steps (rc_limits rc)))"
    using assms(1) by (auto simp: flow_ok_def Let_def)
  have prefix: "successively (declared_edge (rc_graph rc)) ?ns"
    using ok(1) by (simp only: successively_append_iff)
  have first: "hd ?ns = start" if "?ns \<noteq> []"
    using ok(2) that by simp
  from assms(2) show ?thesis
  proof (cases rule: engine_step_Stop)
    case (refused t)
    then have "starts (en_events t) = ?ns" "still_open (en_events t)" using ok(3) by (auto simp: same_flow_def)
    with ok prefix first refused(2) ends_result [OF refused(3)] show ?thesis
      by (auto simp: flow_done_def Let_def)
  next
    case (entered t)
    have "visits_in_bounds (rc_graph rc) (?ns @ [en_current s])" using ok(4,5) entered(6) by (simp add: visits_in_bounds_snoc)
    with ok entered ends_result [OF entered(7)] show ?thesis
      by (auto simp: flow_done_def Let_def)
  qed
qed

lemma run_flow: "flow_ok rc start steps0 s \<Longrightarrow> flow_done rc start steps0 (run_loop rc s)"
  by (rule engine.run_invariant [where P = "flow_ok rc start steps0"]) (blast intro: flow_ok_Next flow_done_Stop)+

section \<open>Properties of every run\<close>

lemma run_from_run_loop:
  "\<exists>rc s. run_from agent host state start cursor steps tokens eid inp w = run_loop rc s
     \<and> rc_agent rc = agent \<and> rc_execution_id rc = eid \<and> rc_host rc = host
     \<and> en_state s = state \<and> en_snapshots s = [state] \<and> en_current s = start \<and> en_steps s = steps \<and> en_tokens s = tokens
     \<and> en_cost s = 0 \<and> en_visits s = [] \<and> numbered rc cursor s \<and> starts (en_events s) = [] \<and> still_open (en_events s)"
proof -
  obtain started w1 where now: "h_now host w = (started, w1)" by fastforce
  let ?rc = "\<lparr>rc_agent = agent, rc_host = host, rc_execution_id = eid, rc_resume_input = inp, rc_started_at = started\<rparr>"
  let ?s = "\<lparr>en_state = state, en_current = start, en_sequence = cursor, en_steps = steps, en_tokens = tokens,
      en_cost = 0, en_events = [], en_snapshots = [state], en_visits = [], en_world = w1\<rparr>"
  have base: "numbered ?rc cursor ?s" "starts (en_events ?s) = []" "still_open (en_events ?s)"
    by (auto simp: numbered_def starts_def still_open_def intro: exI [of _ "[]"])
  show ?thesis
    using base numbered_emit [OF base(1), of ExecutionStarted None]
    by (intro exI [of _ ?rc] exI [of _ "if cursor = 0 then emit ?rc ExecutionStarted None ?s else ?s"])
       (auto simp: run_from_def begin_run_def now Let_def)
qed

lemma run_from_history:
  assumes "plain_object (sn_value state)"
    and "result_state (run_from agent host state start cursor steps tokens eid inp w) = s"
  shows "\<exists>rest. en_snapshots s = state # rest \<and> en_state s = last (state # rest) \<and> plain_object (sn_value (en_state s))
    \<and> successively (patched_by agent eid) (state # rest) \<and> (\<forall>b \<in> set rest. announced (en_events s) b)"
proof -
  obtain rc s0 where r: "run_from agent host state start cursor steps tokens eid inp w = run_loop rc s0"
    "rc_agent rc = agent" "rc_execution_id rc = eid" and s0: "en_state s0 = state" "en_snapshots s0 = [state]"
    using run_from_run_loop by metis
  have "history_ok rc state s0" using assms(1) s0 by (simp add: history_ok_def)
  then have "history_ok rc state (result_state (run_loop rc s0))" by (rule history.run_keeps)
  then show ?thesis using assms(2) r by (auto simp: history_ok_def)
qed

lemma run_from_flow:
  assumes "run_from agent host state start cursor steps tokens eid inp w = r"
  shows "\<exists>rc. rc_agent rc = agent \<and> flow_done rc start steps r"
proof -
  obtain rc s0 where rc: "run_from agent host state start cursor steps tokens eid inp w = run_loop rc s0"
    "rc_agent rc = agent" and s0: "en_current s0 = start" "en_steps s0 = steps" "en_visits s0 = []"
    "starts (en_events s0) = []" "still_open (en_events s0)"
    using run_from_run_loop by metis
  have "flow_ok rc start steps s0"
    using s0 by (simp add: flow_ok_def Let_def visits_in_bounds_def visit_count_def fun_eq_iff)
  then show ?thesis using run_flow assms rc by metis
qed

text \<open>
  C7. Every snapshot a run records, from \<open>execute\<close> or \<open>resume\<close>, follows the one before
  it by one patch: the revision grows by one, the value satisfies the state schema, the provenance
  names the execution and a node, a top-level key whose value changed is among that node's declared
  writes, and the events hold the \<open>state_patched\<close> event the provenance points to. The reported
  state is the last snapshot.
\<close>

theorem run_snapshots_declared:
  assumes "plain_object (sn_value state)"
    and "result_state (run_from agent host state start cursor steps tokens eid inp w) = s"
  shows "\<exists>rest. en_snapshots s = state # rest \<and> en_state s = last (state # rest)
    \<and> successively (patched_by agent eid) (state # rest) \<and> (\<forall>b \<in> set rest. announced (en_events s) b)"
  using run_from_history [OF assms] by blast

text \<open>
  C8. The nodes a run starts form a path of the graph: the first is the start node, each next one is
  the target of a declared transition of the one before, and no node of a declared cycle is started
  more often than the cycle's limit. The run starts at most as many nodes as \<open>max_steps\<close> leaves.
\<close>

theorem run_follows_graph:
  assumes "result_state (run_from agent host state start cursor steps tokens eid inp w) = s" "starts (en_events s) = ns"
  shows "successively (declared_edge (ad_graph (ca_definition agent))) ns \<and> (ns \<noteq> [] \<longrightarrow> hd ns = start)
    \<and> visits_in_bounds (ad_graph (ca_definition agent)) ns
    \<and> steps + int (length ns) \<le> max steps (num_value (max_steps (gd_limits (ad_graph (ca_definition agent)))))
    \<and> en_steps s \<le> steps + int (length ns)"
  using run_from_flow [where agent = agent and host = host and state = state and start = start and cursor = cursor
      and steps = steps and tokens = tokens and eid = eid and inp = inp and w = w, OF refl] assms
  by (auto simp: flow_done_def Let_def)

text \<open>
  The last event of a run that reports a status is the closing event of that status (suspended,
  terminated, failed with the same message, cancelled), and no earlier event closes a run; a run
  that ends in an exception has no closing event.
\<close>

theorem run_closes_once:
  "case run_from agent host state start cursor steps tokens eid inp w of
     Finished status s \<Rightarrow> \<exists>es e. en_events s = es @ [e] \<and> list_all (\<lambda>e. \<not> is_closing (ev_kind e)) es \<and> closes status (ev_kind e)
   | Thrown e s \<Rightarrow> list_all (\<lambda>e. \<not> is_closing (ev_kind e)) (en_events s)"
  using run_from_flow [where agent = agent and host = host and state = state and start = start and cursor = cursor
      and steps = steps and tokens = tokens and eid = eid and inp = inp and w = w, OF refl]
  by (auto simp: flow_done_def Let_def closed_by_def still_open_def split: run_result.splits)

lemma ends_counts:
  "ends rc t r \<Longrightarrow> en_steps (result_state r) = en_steps t \<and> en_tokens (result_state r) = en_tokens t \<and> en_cost (result_state r) = en_cost t"
  by (auto simp: ends_def)

section \<open>Concrete runs\<close>

text \<open>A clock that ticks once per reading, and an agent of two nodes that counts to one.\<close>

definition tick_host :: "nat host" where
  "tick_host = \<lparr>h_now = (\<lambda>w. (int w, Suc w)), h_aborted = (\<lambda>w. False)\<rparr>"

definition count_handler :: "nat handler" where
  "count_handler w ctx =
     (Inr \<lparr>ne_outcome = OContinue (Some (Update (JObj [(''count'', JNum 1)]))), ne_tokens = Some 5, ne_cost_micros = Some 2\<rparr>, w)"

definition count_nodes :: "nat node_spec list" where
  "count_nodes = [(demo_spec ''start'' False [''/count''])\<lparr>ns_handler := Some count_handler\<rparr>, demo_spec ''done'' True []]"

definition count_agent :: "nat compiled_agent" where
  "count_agent = (case define_agent (demo_config\<lparr>ac_nodes := count_nodes\<rparr>) of
     Inr d \<Rightarrow> \<lparr>ca_definition = d, ca_hash = ''h''\<rparr>
   | Inl e \<Rightarrow> \<lparr>ca_definition = \<lparr>ad_graph = config_graph demo_config, ad_schema = demo_schema, ad_handlers = [],
        ad_capabilities = [], ad_pack = None\<rparr>, ca_hash = []\<rparr>)"

definition zero_state :: state_snapshot where
  "zero_state = \<lparr>sn_schema_id = ''counter'', sn_revision = 0, sn_value = JObj [(''count'', JNum 0)], sn_provenance = None\<rparr>"

definition count_run :: "nat run_result" where
  "count_run = run_from count_agent tick_host zero_state ''start'' 0 0 0 ''run-1'' JUndef 0"

lemma count_run_events:
  "map ev_kind (en_events (result_state count_run)) =
     [ExecutionStarted, NodeStarted 1, StatePatched 1, Checkpointed, NodeStarted 1, EvTerminated]"
  by code_simp

lemma count_run_state:
  "map sn_value (en_snapshots (result_state count_run)) = [JObj [(''count'', JNum 0)], JObj [(''count'', JNum 1)]]"
  by code_simp

lemma count_run_starts: "starts (en_events (result_state count_run)) = [''start'', ''done'']"
  by code_simp

fun final_status :: "'w run_result \<Rightarrow> execution_status option" where
  "final_status (Finished status s) = Some status"
| "final_status (Thrown e s) = None"

lemma final_status_Some [simp]: "final_status r = Some st \<longleftrightarrow> (\<exists>s. r = Finished st s)"
  by (cases r) auto

lemma count_run_status: "final_status count_run = Some (StTerminated (JObj [(''count'', JNum 1)]))"
  by code_simp

lemma zero_plain: "plain_object (sn_value zero_state)"
  by (simp add: zero_state_def plain_object_def)

theorem run_snapshots_declared_witness:
  "\<exists>rest. en_snapshots (result_state count_run) = zero_state # rest
     \<and> successively (patched_by count_agent ''run-1'') (zero_state # rest)"
  using run_snapshots_declared [OF zero_plain count_run_def [THEN arg_cong, of result_state, THEN sym]] by blast

theorem run_follows_graph_witness:
  "successively (declared_edge (ad_graph (ca_definition count_agent))) [''start'', ''done'']"
  using run_follows_graph [OF count_run_def [THEN arg_cong, of result_state, THEN sym] count_run_starts] by blast

end
