(* ===== verification/Graph_Replay.thy ===== *)
theory Graph_Replay
  imports Graph_Runs
begin

text \<open>
  \<open>replay/index.ts\<close> and \<open>hitl/index.ts\<close>: replay requests, the recorded trace of a report,
  the contiguity check of events, the comparison of a replayed run with its recording, and the
  check of a human's resume input.
\<close>

datatype replay_mode = VerifyOnly | MockedEffects | LiveEffects

record artifact_hashes =
  ah_graph :: string
  ah_pack :: string
  ah_policy :: string
  ah_node_implementation :: string
  ah_contract :: string

record replay_request =
  rr_mode :: replay_mode
  rr_artifacts :: artifact_hashes
  rr_live_effect_authorization :: "string option"

record replay_trace =
  rt_events :: "execution_event list"
  rt_snapshots :: "state_snapshot list option"

definition artifact_keys :: "(string \<times> (artifact_hashes \<Rightarrow> string)) list" where
  "artifact_keys = [(''graph'', ah_graph), (''pack'', ah_pack), (''policy'', ah_policy),
     (''nodeImplementation'', ah_node_implementation), (''contract'', ah_contract)]"

fun check_artifacts :: "(string \<times> (artifact_hashes \<Rightarrow> string)) list \<Rightarrow> artifact_hashes \<Rightarrow> artifact_hashes \<Rightarrow> unit result" where
  "check_artifacts [] expected actual = Inr ()"
| "check_artifacts ((key, field) # keys) expected actual =
     (if field expected \<noteq> field actual then Inl (PlainError (''incompatible '' @ key @ '' hash''))
      else check_artifacts keys expected actual)"

definition falsy_string :: "string option \<Rightarrow> bool" where
  "falsy_string s \<longleftrightarrow> s = None \<or> s = Some []"

definition validate_replay :: "replay_request \<Rightarrow> artifact_hashes \<Rightarrow> unit result" where
  "validate_replay request actual =
     bind_res (check_artifacts artifact_keys (rr_artifacts request) actual) (\<lambda>_.
       if rr_mode request = LiveEffects \<and> falsy_string (rr_live_effect_authorization request)
       then Inl (PlainError ''live-effect replay requires explicit authorization'') else Inr ())"

fun is_replay_trace :: "jsval \<Rightarrow> bool" where
  "is_replay_trace (JObj es) = (js_get es ''version'' = JNum 1 \<and> (case js_get es ''events'' of JArr xs \<Rightarrow> True | _ \<Rightarrow> False))"
| "is_replay_trace _ = False"

definition record_replay_trace :: "execution_report \<Rightarrow> replay_trace" where
  "record_replay_trace report = \<lparr>rt_events = rp_events report,
     rt_snapshots = Some (case rp_snapshots report of Some ss \<Rightarrow> ss | None \<Rightarrow> [rp_state report])\<rparr>"

fun check_contiguous :: "int \<Rightarrow> string option \<Rightarrow> execution_event list \<Rightarrow> unit result" where
  "check_contiguous previous eid [] = Inr ()"
| "check_contiguous previous eid (e # es) =
     (if ev_version e \<noteq> 1 \<or> ev_sequence e \<noteq> previous + 1
      then Inl (DefinitionError ''replay events must be version 1 and contiguous'')
      else if \<not> falsy_string eid \<and> Some (ev_execution_id e) \<noteq> eid
      then Inl (DefinitionError ''replay events must belong to one execution'')
      else check_contiguous (ev_sequence e) (Some (ev_execution_id e)) es)"

definition validate_replay_events :: "execution_event list \<Rightarrow> unit result" where
  "validate_replay_events events = check_contiguous 0 None events"

section \<open>Traces as JSON\<close>

definition usage_json :: "resource_usage \<Rightarrow> jsval" where
  "usage_json u = JObj [(''calls'', JNum (ru_calls u)), (''units'', JNum (ru_units u)), (''duration_ms'', JNum (ru_duration_ms u))]"

definition tool_call_json :: "tool_call \<Rightarrow> jsval" where
  "tool_call_json c = JObj [(''version'', JNum 1), (''call_id'', JStr (tc_call_id c)), (''tool_id'', JStr (tc_tool_id c)),
     (''arguments'', tc_arguments c)]"

definition tool_result_json :: "tool_result \<Rightarrow> jsval" where
  "tool_result_json r = JObj [(''version'', JNum 1), (''call_id'', JStr (tr_call_id r)), (''tool_id'', JStr (tr_tool_id r)),
     (''value'', tr_value r), (''usage'', usage_json (tr_usage r))]"

fun kind_json :: "event_kind \<Rightarrow> jsval" where
  "kind_json ExecutionStarted = JObj [(''type'', JStr ''execution_started'')]"
| "kind_json (NodeStarted a) = JObj [(''type'', JStr ''node_started''), (''attempt'', JNum a)]"
| "kind_json (StatePatched r) = JObj [(''type'', JStr ''state_patched''), (''revision'', JNum r)]"
| "kind_json (Routed r t) = JObj [(''type'', JStr ''routed''), (''route'', JStr r), (''to'', JStr t)]"
| "kind_json (Retrying a) = JObj [(''type'', JStr ''retrying''), (''attempt'', JNum a)]"
| "kind_json (EvSuspended r) = JObj [(''type'', JStr ''suspended''), (''reason'', JStr r)]"
| "kind_json EvTerminated = JObj [(''type'', JStr ''terminated'')]"
| "kind_json (EvFailed e) = JObj [(''type'', JStr ''failed''), (''error'', JStr e)]"
| "kind_json EvCancelled = JObj [(''type'', JStr ''cancelled'')]"
| "kind_json Checkpointed = JObj [(''type'', JStr ''checkpointed'')]"
| "kind_json (ToolCall c) = JObj [(''type'', JStr ''tool_call''), (''call'', tool_call_json c)]"
| "kind_json (ToolResult r) = JObj [(''type'', JStr ''tool_result''), (''result'', tool_result_json r)]"

definition control_event :: "execution_event \<Rightarrow> jsval" where
  "control_event e = JObj [(''version'', JNum (ev_version e)), (''sequence'', JNum (ev_sequence e)),
     (''execution_id'', JStr (ev_execution_id e)),
     (''node_id'', case ev_node_id e of Some n \<Rightarrow> JStr n | None \<Rightarrow> JNull), (''kind'', kind_json (ev_kind e))]"

definition control_trace :: "execution_event list \<Rightarrow> jsval" where
  "control_trace events = JArr (map control_event events)"

definition provenance_json :: "provenance option \<Rightarrow> jsval" where
  "provenance_json p = (case p of None \<Rightarrow> JNull | Some q \<Rightarrow>
     JObj [(''execution_id'', JStr (pv_execution_id q)), (''node_id'', JStr (pv_node_id q)),
       (''event_sequence'', JNum (pv_event_sequence q))])"

definition snapshot_json :: "state_snapshot \<Rightarrow> jsval" where
  "snapshot_json s = JObj [(''schema_id'', JStr (sn_schema_id s)), (''revision'', JNum (sn_revision s)),
     (''value'', canonicalize (sn_value s)), (''provenance'', provenance_json (sn_provenance s))]"

definition snapshot_trace :: "state_snapshot list \<Rightarrow> jsval" where
  "snapshot_trace snapshots = JArr (map snapshot_json snapshots)"

fun is_terminated :: "execution_status \<Rightarrow> bool" where
  "is_terminated (StTerminated v) = True"
| "is_terminated _ = False"

definition assert_replay_match :: "execution_report \<Rightarrow> replay_trace \<Rightarrow> unit result" where
  "assert_replay_match actual expected =
     (if json_stringify (control_trace (rp_events actual)) \<noteq> json_stringify (control_trace (rt_events expected))
        \<or> list_ex (\<lambda>e. ev_kind e = EvTerminated) (rt_events expected) \<and> \<not> is_terminated (rp_status actual)
      then Inl (DefinitionError ''deterministic replay diverged from recorded control-plane events'')
      else case rt_snapshots expected of
          None \<Rightarrow> Inr ()
        | Some snapshots \<Rightarrow>
            if json_stringify (snapshot_trace (case rp_snapshots actual of Some ss \<Rightarrow> ss | None \<Rightarrow> []))
                 \<noteq> json_stringify (snapshot_trace snapshots)
            then Inl (DefinitionError ''deterministic replay diverged from recorded state snapshots'') else Inr ())"

section \<open>Human resume input\<close>

record hitl_suspension =
  hs_execution_id :: string
  hs_reason :: string
  hs_requested_action :: string
  hs_review_context :: jsval
  hs_expires_at_ms :: int
  hs_resume_schema_hash :: string
  hs_artifact_hashes :: artifact_hashes
  hs_token :: string

fun is_object_value :: "jsval \<Rightarrow> bool" where
  "is_object_value (JObj es) = True"
| "is_object_value _ = False"

definition validate_resume :: "hitl_suspension \<Rightarrow> jsval \<Rightarrow> string \<Rightarrow> int \<Rightarrow> jsval result" where
  "validate_resume suspension inp schema_hash now =
     (if hs_expires_at_ms suspension \<le> now then Inl (PlainError ''stale resume token'')
      else if schema_hash \<noteq> hs_resume_schema_hash suspension \<or> \<not> is_object_value inp
      then Inl (PlainError ''invalid resume input'')
      else Inr inp)"

section \<open>Contiguity across suspension\<close>

lemma check_artifacts_Inr:
  "check_artifacts keys a b = Inr u \<longleftrightarrow> (\<forall>(k, f) \<in> set keys. f a = f b)"
  by (induction keys a b rule: check_artifacts.induct) auto

text \<open>
  A replay request is accepted exactly when all five artifact hashes agree with the actual ones
  and, for live effects, an authorization is given that is not the empty string.
\<close>

theorem validate_replay_iff:
  "validate_replay request actual = Inr () \<longleftrightarrow>
     rr_artifacts request = actual
     \<and> \<not> (rr_mode request = LiveEffects \<and> rr_live_effect_authorization request \<in> {None, Some []})"
  by (cases request; cases actual; cases "rr_artifacts request")
     (auto simp: validate_replay_def bind_res_eq_Inr check_artifacts_Inr artifact_keys_def falsy_string_def)

lemma check_contiguous_numbered:
  "eid = None \<or> eid = Some i \<Longrightarrow> check_contiguous c eid (number_events i c kts) = Inr ()"
  by (induction i c kts arbitrary: eid rule: number_events.induct) (auto simp: falsy_string_def)

lemma check_contiguous_append:
  "check_contiguous c eid (xs @ ys) =
     bind_res (check_contiguous c eid xs) (\<lambda>_. if xs = [] then check_contiguous c eid ys
       else check_contiguous (ev_sequence (last xs)) (Some (ev_execution_id (last xs))) ys)"
  by (induction c eid xs rule: check_contiguous.induct) auto

lemma check_contiguous_last:
  "check_contiguous c eid xs = Inr u \<Longrightarrow> xs \<noteq> [] \<Longrightarrow> ev_sequence (last xs) = c + int (length xs)"
  by (induction c eid xs rule: check_contiguous.induct) (auto split: if_splits)

lemma run_events_valid:
  assumes "validate_replay_events earlier = Inr ()" "\<forall>e \<in> set earlier. ev_execution_id e = eid"
    and "result_state (run_from agent host state start (int (length earlier)) steps tokens eid inp w) = s"
  shows "validate_replay_events (earlier @ en_events s) = Inr ()"
proof -
  obtain rc s0 where r: "run_from agent host state start (int (length earlier)) steps tokens eid inp w = run_loop rc s0"
    "rc_execution_id rc = eid" "numbered rc (int (length earlier)) s0"
    using run_from_run_loop by metis
  have "numbered rc (int (length earlier)) s"
    using numbering.run_keeps [OF r(3)] r(1) assms(3) by simp
  then obtain kts where kts: "en_events s = number_events eid (int (length earlier)) kts"
    using r(2) by (auto simp: numbered_def)
  show ?thesis
  proof (cases "earlier = []")
    case True
    with kts show ?thesis by (simp add: validate_replay_events_def check_contiguous_numbered)
  next
    case False
    then have "ev_execution_id (last earlier) = eid" using assms(2) by simp
    moreover have "ev_sequence (last earlier) = int (length earlier)"
      using check_contiguous_last [OF assms(1) [unfolded validate_replay_events_def] False] by simp
    ultimately show ?thesis
      using False assms(1) kts
      by (simp add: validate_replay_events_def check_contiguous_append check_contiguous_numbered)
  qed
qed

text \<open>
  C10. Event continuity over suspend and resume: the events of a run that starts at the cursor left
  by valid earlier events of the same execution (none, for a fresh run) extend them to a sequence
  that \<open>validateReplayEvents\<close> accepts, whatever the handlers do.
\<close>

theorem run_events_contiguous:
  assumes "validate_replay_events earlier = Inr ()" "\<forall>e \<in> set earlier. ev_execution_id e = eid"
    and "result_state (run_from agent host state start (int (length earlier)) steps tokens eid inp w) = s"
  shows "validate_replay_events (earlier @ en_events s) = Inr ()"
  using assms by (rule run_events_valid)

section \<open>A replay under another clock\<close>

text \<open>
  Two environments agree, over a relation of their host states, when the agents have the same graph
  and schema, the clocks agree on whether the time budget is spent, the abort signals agree, and
  the handlers of a node give equal answers in related states.
\<close>

definition handlers_agree :: "('w \<Rightarrow> 'v \<Rightarrow> bool) \<Rightarrow> 'w handler \<Rightarrow> 'v handler \<Rightarrow> bool" where
  "handlers_agree W h1 h2 \<longleftrightarrow>
     (\<forall>w1 w2 c. W w1 w2 \<longrightarrow> fst (h1 w1 c) = fst (h2 w2 c) \<and> W (snd (h1 w1 c)) (snd (h2 w2 c)))"

definition runs_agree :: "('w \<Rightarrow> 'v \<Rightarrow> bool) \<Rightarrow> 'w run_context \<Rightarrow> 'v run_context \<Rightarrow> bool" where
  "runs_agree W rc1 rc2 \<longleftrightarrow> rc_graph rc1 = rc_graph rc2 \<and> rc_schema rc1 = rc_schema rc2
     \<and> rc_execution_id rc1 = rc_execution_id rc2 \<and> rc_resume_input rc1 = rc_resume_input rc2
     \<and> (\<forall>n. rel_option (handlers_agree W) (map_of (ad_handlers (ca_definition (rc_agent rc1))) n)
              (map_of (ad_handlers (ca_definition (rc_agent rc2))) n))
     \<and> (\<forall>w1 w2. W w1 w2 \<longrightarrow> h_aborted (rc_host rc1) w1 = h_aborted (rc_host rc2) w2
          \<and> W (snd (h_now (rc_host rc1) w1)) (snd (h_now (rc_host rc2) w2))
          \<and> (num_value (timeout_ms (rc_limits rc1)) < fst (h_now (rc_host rc1) w1) - rc_started_at rc1)
            = (num_value (timeout_ms (rc_limits rc1)) < fst (h_now (rc_host rc2) w2) - rc_started_at rc2))"

definition untimed :: "execution_event \<Rightarrow> execution_event" where
  "untimed e = e\<lparr>ev_timestamp_ms := 0\<rparr>"

definition same_run :: "('w \<Rightarrow> 'v \<Rightarrow> bool) \<Rightarrow> 'w engine_state \<Rightarrow> 'v engine_state \<Rightarrow> bool" where
  "same_run W s t \<longleftrightarrow> en_state s = en_state t \<and> en_current s = en_current t \<and> en_sequence s = en_sequence t
     \<and> en_steps s = en_steps t \<and> en_tokens s = en_tokens t \<and> en_cost s = en_cost t
     \<and> map untimed (en_events s) = map untimed (en_events t) \<and> en_snapshots s = en_snapshots t
     \<and> en_visits s = en_visits t \<and> W (en_world s) (en_world t)"

fun same_result :: "('w \<Rightarrow> 'v \<Rightarrow> bool) \<Rightarrow> 'w run_result \<Rightarrow> 'v run_result \<Rightarrow> bool" where
  "same_result W (Finished a s) (Finished b t) = (a = b \<and> same_run W s t)"
| "same_result W (Thrown a s) (Thrown b t) = (a = b \<and> same_run W s t)"
| "same_result W _ _ = False"

lemma same_run_world: "same_run W s t \<Longrightarrow> W w1 w2 \<Longrightarrow> same_run W (s\<lparr>en_world := w1\<rparr>) (t\<lparr>en_world := w2\<rparr>)"
  by (simp add: same_run_def)

locale replay_pair =
  fixes W :: "'w \<Rightarrow> 'v \<Rightarrow> bool" and rc1 :: "'w run_context" and rc2 :: "'v run_context"
  assumes agree: "runs_agree W rc1 rc2"
begin

abbreviation same_outcome :: "('w engine_state, 'w run_result) outcome \<Rightarrow> ('v engine_state, 'v run_result) outcome \<Rightarrow> bool" where
  "same_outcome \<equiv> rel_outcome (same_run W) (same_result W)"

lemma static: "rc_graph rc2 = rc_graph rc1" "rc_schema rc2 = rc_schema rc1"
  "rc_execution_id rc2 = rc_execution_id rc1" "rc_resume_input rc2 = rc_resume_input rc1"
  using agree by (simp_all add: runs_agree_def)

lemma clocks: "W w1 w2 \<Longrightarrow> h_aborted (rc_host rc2) w2 = h_aborted (rc_host rc1) w1"
  "W w1 w2 \<Longrightarrow> W (snd (h_now (rc_host rc1) w1)) (snd (h_now (rc_host rc2) w2))"
  "W w1 w2 \<Longrightarrow> (num_value (timeout_ms (rc_limits rc1)) < fst (h_now (rc_host rc2) w2) - rc_started_at rc2)
     = (num_value (timeout_ms (rc_limits rc1)) < fst (h_now (rc_host rc1) w1) - rc_started_at rc1)"
  using agree unfolding runs_agree_def by blast+

lemma handlers: "rel_option (handlers_agree W) (map_of (ad_handlers (ca_definition (rc_agent rc1))) n)
    (map_of (ad_handlers (ca_definition (rc_agent rc2))) n)"
  using agree by (simp add: runs_agree_def)

lemma emit_same: "same_run W s t \<Longrightarrow> same_run W (emit rc1 k n s) (emit rc2 k n t)"
  using clocks(2) [of "en_world s" "en_world t"] static(3)
  by (auto simp: same_run_def emit_def untimed_def split: prod.splits)

lemma stop_with_same:
  "same_run W s t \<Longrightarrow> same_outcome (stop_with rc1 status k s) (stop_with rc2 status k t)"
  using emit_same [of s t k "Some (en_current s)"] by (simp add: stop_with_def same_run_def)

lemma apply_update_same:
  assumes "same_run W s t"
  shows "rel_sum (=) (same_run W) (apply_update rc1 v s) (apply_update rc2 v t)"
proof -
  let ?st = "\<lparr>sn_schema_id = sn_schema_id (en_state s), sn_revision = sn_revision (en_state s) + 1,
      sn_value = spread (sn_value (en_state s)) v,
      sn_provenance = Some \<lparr>pv_execution_id = rc_execution_id rc1, pv_node_id = en_current s,
        pv_event_sequence = en_sequence s + 1\<rparr>\<rparr>"
  have eqs: "en_state t = en_state s" "en_current t = en_current s" "en_sequence t = en_sequence s"
    "en_snapshots t = en_snapshots s" using assms by (simp_all add: same_run_def)
  have "same_run W (s\<lparr>en_state := ?st, en_snapshots := en_snapshots s @ [?st]\<rparr>)
      (t\<lparr>en_state := ?st, en_snapshots := en_snapshots t @ [?st]\<rparr>)"
    using assms by (simp add: same_run_def)
  from emit_same [OF this] show ?thesis
    by (cases "check_writes (en_current s) (find_node (rc_graph rc1) (en_current s)) (map fst (own_entries v))";
        cases "validate_state (rc_schema rc1) (spread (sn_value (en_state s)) v)")
       (simp_all add: apply_update_def static eqs Let_def)
qed

lemma patch_step_same:
  assumes "same_run W s t"
  shows "rel_sum (=) (same_run W) (patch_step rc1 x s) (patch_step rc2 x t)"
proof -
  have eq: "en_state t = en_state s" using assms by (simp add: same_run_def)
  show ?thesis
  proof (cases "outcome_patch x")
    case (Some u)
    then show ?thesis
      using assms apply_update_same [OF assms]
      by (cases u) (auto simp: patch_step_def eq bind_res_def split: sum.splits)
  qed (use assms in \<open>simp add: patch_step_def\<close>)
qed

lemma follow_same:
  assumes "same_run W s t"
  shows "same_outcome (follow rc1 route explicit s) (follow rc2 route explicit t)"
proof (cases "find_edge (rc_graph rc1) (en_current s) route")
  case None
  then show ?thesis using assms by (simp add: follow_def static same_run_def)
next
  case (Some edge)
  have cur: "en_current t = en_current s" using assms by (simp add: same_run_def)
  have moved: "same_run W s' t' \<Longrightarrow> same_run W (s'\<lparr>en_current := c\<rparr>) (t'\<lparr>en_current := c\<rparr>)" for s' t' c
    by (simp add: same_run_def)
  show ?thesis
    using assms emit_same by (auto simp: follow_def static cur Some Let_def intro!: moved emit_same)
qed

lemma outcome_step_same:
  "same_run W s t \<Longrightarrow> same_outcome (outcome_step rc1 x s) (outcome_step rc2 x t)"
  by (cases x) (auto simp: fail_with_def intro!: stop_with_same follow_same)

lemma settle_same:
  assumes "same_run W s t"
  shows "same_outcome (settle rc1 ex s) (settle rc2 ex t)"
proof -
  have c: "same_run W (charge ex s) (charge ex t)" using assms by (auto simp: same_run_def charge_def)
  then have eqs: "en_tokens (charge ex t) = en_tokens (charge ex s)" "en_cost (charge ex t) = en_cost (charge ex s)"
    by (simp_all add: same_run_def)
  have fail: "same_outcome (fail_with rc1 e (charge ex s)) (fail_with rc2 e (charge ex t))" for e
    using c by (simp add: fail_with_def stop_with_same)
  show ?thesis
    using patch_step_same [OF c, of "ne_outcome ex"] c
    by (cases "patch_step rc1 (ne_outcome ex) (charge ex s)"; cases "patch_step rc2 (ne_outcome ex) (charge ex t)")
       (auto simp: settle_def Let_def static eqs intro: fail outcome_step_same)
qed

lemma dispatch_same:
  assumes "same_run W s t"
  shows "same_outcome (dispatch rc1 s) (dispatch rc2 t)"
proof -
  have cur: "en_current t = en_current s" "en_state t = en_state s" using assms by (simp_all add: same_run_def)
  show ?thesis
  proof (cases "map_of (ad_handlers (ca_definition (rc_agent rc1))) (en_current s)")
    case None
    with handlers [of "en_current s"] assms show ?thesis by (simp add: dispatch_def cur)
  next
    case (Some h1)
    with handlers [of "en_current s"] obtain h2 where
      h2: "map_of (ad_handlers (ca_definition (rc_agent rc2))) (en_current s) = Some h2" and h: "handlers_agree W h1 h2"
      by (auto simp: option_rel_Some1)
    let ?s1 = "emit rc1 (NodeStarted 1) (Some (en_current s)) s"
    let ?t1 = "emit rc2 (NodeStarted 1) (Some (en_current s)) t"
    let ?ctx = "\<lparr>nc_state = sn_value (en_state s), nc_attempt = 1, nc_resume_input = rc_resume_input rc1\<rparr>"
    have e: "same_run W ?s1 ?t1" using assms by (rule emit_same)
    obtain a w1 where a1: "h1 (en_world ?s1) ?ctx = (a, w1)" by fastforce
    have "W (en_world ?s1) (en_world ?t1)" using e by (simp only: same_run_def)
    with h have "fst (h1 (en_world ?s1) ?ctx) = fst (h2 (en_world ?t1) ?ctx)
        \<and> W (snd (h1 (en_world ?s1) ?ctx)) (snd (h2 (en_world ?t1) ?ctx))"
      unfolding handlers_agree_def by blast
    with a1 obtain w2 where a2: "h2 (en_world ?t1) ?ctx = (a, w2)" and w: "W w1 w2"
      by (cases "h2 (en_world ?t1) ?ctx") auto
    have both: "same_run W (?s1\<lparr>en_world := w1\<rparr>) (?t1\<lparr>en_world := w2\<rparr>)"
      using e w by (rule same_run_world)
    show ?thesis
    proof (cases a)
      case (Inl m)
      show ?thesis
        using stop_with_same [OF both, of "StFailed m" "EvFailed m"]
        by (simp add: dispatch_def cur static(4) Let_def Some h2 a1 a2 Inl fail_with_def)
    next
      case (Inr ex)
      show ?thesis
        using settle_same [OF both, of ex] by (simp add: dispatch_def cur static(4) Let_def Some h2 a1 a2 Inr)
    qed
  qed
qed

lemma engine_step_same:
  assumes "same_run W s t"
  shows "same_outcome (engine_step rc1 s) (engine_step rc2 t)"
proof -
  have w: "W (en_world s) (en_world t)" and eqs: "en_current t = en_current s" "en_steps t = en_steps s" "en_visits t = en_visits s"
    using assms by (simp_all add: same_run_def)
  obtain n1 v1 where n1: "h_now (rc_host rc1) (en_world s) = (n1, v1)" by fastforce
  obtain n2 v2 where n2: "h_now (rc_host rc2) (en_world t) = (n2, v2)" by fastforce
  have v: "W v1 v2" using clocks(2) [OF w] n1 n2 by simp
  have over: "(num_value (timeout_ms (rc_limits rc1)) < n2 - rc_started_at rc2)
     = (num_value (timeout_ms (rc_limits rc1)) < n1 - rc_started_at rc1)"
    using clocks(3) [OF w] n1 n2 by simp
  have fail: "same_run W s' t' \<Longrightarrow> same_outcome (fail_with rc1 e s') (fail_with rc2 e t')" for s' t' e
    by (simp add: fail_with_def stop_with_same)
  have s1: "same_run W (s\<lparr>en_world := v1\<rparr>) (t\<lparr>en_world := v2\<rparr>)" using assms v by (simp add: same_run_def)
  have s2: "same_run W (s\<lparr>en_world := v1, en_visits := m\<rparr>) (t\<lparr>en_world := v2, en_visits := m\<rparr>)" for m
    using assms v by (simp add: same_run_def)
  show ?thesis
    by (simp add: engine_step_def Let_def n1 n2 static eqs over clocks(1) [OF w]
        stop_with_same [OF assms] fail [OF assms] fail [OF s1] fail [OF s2] dispatch_same [OF s2])
qed

end

sublocale replay_pair \<subseteq> lockstep: step_simulation
  "engine_step rc1" "run_loop rc1" "steps_left rc1" "engine_step rc2" "run_loop rc2" "steps_left rc2"
  "same_run W" "same_result W"
  by (unfold_locales, rule engine_step_same)

context replay_pair begin

lemma run_same: "same_run W s t \<Longrightarrow> same_result W (run_loop rc1 s) (run_loop rc2 t)"
  by (rule lockstep.run_related)

end

text \<open>
  Shifting the clock and the start of a run by the same amount gives an environment that agrees with
  the original: the engine observes time only through differences.
\<close>

definition shift_clock :: "int \<Rightarrow> 'w run_context \<Rightarrow> 'w run_context" where
  "shift_clock d rc = rc\<lparr>rc_host := \<lparr>h_now = (\<lambda>w. map_prod (\<lambda>t. t + d) id (h_now (rc_host rc) w)),
       h_aborted = h_aborted (rc_host rc)\<rparr>, rc_started_at := rc_started_at rc + d\<rparr>"

interpretation clock_shift: replay_pair "(=)" rc "shift_clock d rc" for rc :: "'w run_context" and d
  by unfold_locales
     (auto simp: runs_agree_def shift_clock_def handlers_agree_def option.rel_refl_strong split: option.splits)

lemma clock_shift_run: "same_result (=) (run_loop rc s) (run_loop (shift_clock d rc) s)"
  by (rule clock_shift.run_same) (simp add: same_run_def)

lemma control_event_untimed: "control_event (untimed e) = control_event e"
  by (simp add: control_event_def untimed_def)

lemma control_trace_untimed: "map untimed es = map untimed fs \<Longrightarrow> control_trace es = control_trace fs"
  by (metis (no_types, lifting) control_event_untimed control_trace_def map_map map_eq_conv comp_apply)

lemma same_run_match:
  assumes "same_run W s t" "is_terminated status \<or> \<not> list_ex (\<lambda>e. ev_kind e = EvTerminated) (en_events s)"
  shows "assert_replay_match (make_report status t) (record_replay_trace (make_report status s)) = Inr ()"
  using assms control_trace_untimed [of "en_events s" "en_events t"]
  by (auto simp: assert_replay_match_def make_report_def record_replay_trace_def same_run_def)

lemma unclosed_not_terminated:
  assumes "en_events s = es @ [e]" "list_all (\<lambda>e. \<not> is_closing (ev_kind e)) es" "closes status (ev_kind e)"
  shows "is_terminated status \<or> \<not> list_ex (\<lambda>e. ev_kind e = EvTerminated) (en_events s)"
proof -
  have "\<not> list_ex (\<lambda>e. ev_kind e = EvTerminated) es"
    using assms(2) by (auto simp: list_ex_iff list_all_iff)
  moreover have "is_terminated status \<or> ev_kind e \<noteq> EvTerminated"
    using assms(3) by (cases status) auto
  ultimately show ?thesis using assms(1) by auto
qed

definition start_context :: "'w compiled_agent \<Rightarrow> 'w host \<Rightarrow> string \<Rightarrow> jsval \<Rightarrow> 'w \<Rightarrow> 'w run_context" where
  "start_context agent host eid inp w = \<lparr>rc_agent = agent, rc_host = host, rc_execution_id = eid,
     rc_resume_input = inp, rc_started_at = fst (h_now host w)\<rparr>"

lemma run_from_same:
  assumes "runs_agree W (start_context agent1 host1 eid inp w1) (start_context agent2 host2 eid inp w2)" "W w1 w2"
  shows "same_result W (run_from agent1 host1 state start cursor steps tokens eid inp w1)
           (run_from agent2 host2 state start cursor steps tokens eid inp w2)"
proof -
  let ?rc1 = "start_context agent1 host1 eid inp w1" and ?rc2 = "start_context agent2 host2 eid inp w2"
  have pair: "replay_pair W ?rc1 ?rc2" by (rule replay_pair.intro) (rule assms(1))
  obtain t1 v1 where v1: "h_now host1 w1 = (t1, v1)" by fastforce
  obtain t2 v2 where v2: "h_now host2 w2 = (t2, v2)" by fastforce
  have "W v1 v2"
    using replay_pair.clocks(2) [OF pair assms(2)] by (simp add: start_context_def v1 v2)
  let ?s = "\<lambda>v. \<lparr>en_state = state, en_current = start, en_sequence = cursor, en_steps = steps, en_tokens = tokens,
      en_cost = 0, en_events = [], en_snapshots = [state], en_visits = [], en_world = v\<rparr>"
  have s: "same_run W (?s v1) (?s v2)" using \<open>W v1 v2\<close> by (simp add: same_run_def)
  have "run_from agent1 host1 state start cursor steps tokens eid inp w1
      = run_loop ?rc1 (if cursor = 0 then emit ?rc1 ExecutionStarted None (?s v1) else ?s v1)"
    "run_from agent2 host2 state start cursor steps tokens eid inp w2
      = run_loop ?rc2 (if cursor = 0 then emit ?rc2 ExecutionStarted None (?s v2) else ?s v2)"
    by (simp_all add: run_from_def begin_run_def start_context_def v1 v2 Let_def)
  then show ?thesis
    using replay_pair.emit_same [OF pair s] s
    by (cases "cursor = 0") (simp_all add: replay_pair.run_same [OF pair])
qed

text \<open>
  Deterministic replay: if a run finishes, then a second run of the same graph and execution
  from the same state, in an environment that agrees with the first one (same answers of the
  handlers and abort signal in related states, a clock that agrees on when the time is up, other
  timestamps and host states allowed), finishes with the same status, and \<open>assertReplayMatch\<close>
  accepts its report against the trace recorded from the first.
\<close>

theorem replay_matches_recording:
  assumes "runs_agree W (start_context agent1 host1 eid inp w1) (start_context agent2 host2 eid inp w2)" "W w1 w2"
    and "run_from agent1 host1 state start cursor steps tokens eid inp w1 = Finished status s1"
  shows "\<exists>s2. run_from agent2 host2 state start cursor steps tokens eid inp w2 = Finished status s2
    \<and> assert_replay_match (make_report status s2) (record_replay_trace (make_report status s1)) = Inr ()"
proof -
  have "same_result W (Finished status s1) (run_from agent2 host2 state start cursor steps tokens eid inp w2)"
    using run_from_same [OF assms(1,2)] assms(3) by metis
  then obtain s2 where s2: "run_from agent2 host2 state start cursor steps tokens eid inp w2 = Finished status s2" "same_run W s1 s2"
    by (cases "run_from agent2 host2 state start cursor steps tokens eid inp w2") auto
  have "closed_by (Finished status s1)"
    using run_from_flow [OF assms(3)] by (auto simp: flow_done_def Let_def)
  then obtain es e where "en_events s1 = es @ [e]" "list_all (\<lambda>e. \<not> is_closing (ev_kind e)) es" "closes status (ev_kind e)"
    by (auto simp: closed_by_def still_open_def)
  then have "is_terminated status \<or> \<not> list_ex (\<lambda>e. ev_kind e = EvTerminated) (en_events s1)"
    by (rule unclosed_not_terminated)
  with s2 show ?thesis by (blast intro: same_run_match)
qed

section \<open>Concrete runs\<close>

text \<open>A recording clock that starts at 1000, and a replay clock that stands still.\<close>

definition late_host :: "nat host" where
  "late_host = \<lparr>h_now = (\<lambda>w. (1000 + int w, Suc w)), h_aborted = (\<lambda>w. False)\<rparr>"

lemma late_agrees:
  "runs_agree (=) (start_context count_agent tick_host ''run-1'' JUndef 0) (start_context count_agent late_host ''run-1'' JUndef 0)"
  by (auto simp: runs_agree_def start_context_def tick_host_def late_host_def handlers_agree_def
      intro!: option.rel_refl_strong)

theorem replay_matches_recording_witness:
  "\<exists>s1 s2. count_run = Finished (StTerminated (JObj [(''count'', JNum 1)])) s1
     \<and> run_from count_agent late_host zero_state ''start'' 0 0 0 ''run-1'' JUndef 0
         = Finished (StTerminated (JObj [(''count'', JNum 1)])) s2
     \<and> assert_replay_match (make_report (StTerminated (JObj [(''count'', JNum 1)])) s2)
         (record_replay_trace (make_report (StTerminated (JObj [(''count'', JNum 1)])) s1)) = Inr ()"
proof -
  obtain s1 where s1: "count_run = Finished (StTerminated (JObj [(''count'', JNum 1)])) s1"
    using count_run_status by (auto simp only: final_status_Some)
  with replay_matches_recording [OF late_agrees refl s1 [unfolded count_run_def]] show ?thesis by blast
qed

theorem run_events_contiguous_witness:
  "validate_replay_events ([] @ en_events (result_state count_run)) = Inr ()"
  by (rule run_events_contiguous [where eid = "''run-1''" and agent = count_agent and host = tick_host])
     (simp_all add: validate_replay_events_def count_run_def)

text \<open>
  A resumed run starts its cost count from zero: the checkpoint's \<open>cost_micros\<close> is not carried
  over, so a run that has spent its cost limit before the checkpoint may spend it again.
\<close>

definition spent_checkpoint :: checkpoint where
  "spent_checkpoint = \<lparr>cp_execution_id = ''run-1'', cp_graph_hash = ''h'', cp_pack_hash = [], cp_policy_hash = [],
     cp_node_implementation_hash = [], cp_contract_hash = [], cp_state = zero_state, cp_pending_node = ''start'',
     cp_event_cursor = 4, cp_steps = 1, cp_tokens = 5, cp_cost_micros = max_safe_integer\<rparr>"

lemma resume_forgets_cost:
  "\<exists>s. resume count_agent tick_host spent_checkpoint JNull 0 = Inr (Finished (StTerminated (JObj [(''count'', JNum 1)])) s)
     \<and> en_cost s = 2 \<and> en_tokens s = 10"
proof -
  let ?r = "run_from count_agent tick_host zero_state ''start'' 4 1 5 ''run-1'' JNull 0"
  have h: "ca_hash count_agent = ''h''" by code_simp
  have "final_status ?r = Some (StTerminated (JObj [(''count'', JNum 1)]))
      \<and> en_cost (result_state ?r) = 2 \<and> en_tokens (result_state ?r) = 10" by code_simp
  then obtain s where "?r = Finished (StTerminated (JObj [(''count'', JNum 1)])) s" "en_cost s = 2" "en_tokens s = 10"
    by (auto simp only: final_status_Some) simp
  then show ?thesis by (simp add: resume_def spent_checkpoint_def h)
qed

end
