(* ===== verification/Graph_Budgets.thy ===== *)
theory Graph_Budgets
  imports Graph_Runs
begin

text \<open>
  The budgets of an execution that is suspended and resumed: what the answers of its handlers add up to,
  counted beside the engine's own counters.
\<close>

section \<open>The answers a run charges\<close>

definition answer_tokens :: "node_execution \<Rightarrow> int" where
  "answer_tokens ex = given_or 0 (ne_tokens ex)"

definition answer_cost :: "node_execution \<Rightarrow> int" where
  "answer_cost ex = given_or 0 (ne_cost_micros ex)"

text \<open>The answer of the handler that a turn calls, when it calls one and it does not throw.\<close>

definition turn_answer :: "'w run_context \<Rightarrow> 'w engine_state \<Rightarrow> node_execution option" where
  "turn_answer rc s =
     (if h_aborted (rc_host rc) (en_world s) \<or> num_value (max_steps (rc_limits rc)) \<le> en_steps s then None
      else let (now, w) = h_now (rc_host rc) (en_world s) in
        if num_value (timeout_ms (rc_limits rc)) < now - rc_started_at rc
          \<or> \<not> in_cycle_bounds (rc_graph rc) (en_current s) (visit_count s (en_current s) + 1) then None
        else (case map_of (ad_handlers (ca_definition (rc_agent rc))) (en_current s) of
            None \<Rightarrow> None
          | Some handler \<Rightarrow>
              (case fst (handler (en_world (emit rc (NodeStarted 1) (Some (en_current s)) (s\<lparr>en_world := w\<rparr>)))
                  \<lparr>nc_state = sn_value (en_state s), nc_attempt = 1, nc_resume_input = rc_resume_input rc\<rparr>) of
                 Inl message \<Rightarrow> None
               | Inr ex \<Rightarrow> Some ex)))"

function run_answers :: "'w run_context \<Rightarrow> 'w engine_state \<Rightarrow> node_execution list" where
  "run_answers rc s =
     (case turn_answer rc s of
        None \<Rightarrow> []
      | Some ex \<Rightarrow> ex # (case engine_step rc s of Next s' \<Rightarrow> run_answers rc s' | Stop r \<Rightarrow> []))"
  by pat_completeness auto
termination
  by (relation "measure (\<lambda>(rc, s). steps_left rc s)") (simp_all add: steps_left_less)

declare run_answers.simps [simp del]

text \<open>From \<open>s\<close> to \<open>t\<close> the counters grew by exactly these answers.\<close>

definition spent :: "node_execution list \<Rightarrow> 'w engine_state \<Rightarrow> 'w engine_state \<Rightarrow> bool" where
  "spent exs s t \<longleftrightarrow> en_steps t = en_steps s + int (length exs)
     \<and> en_tokens t = en_tokens s + sum_list (map answer_tokens exs) \<and> en_cost t = en_cost s + sum_list (map answer_cost exs)"

fun outcome_state :: "('w engine_state, 'w run_result) outcome \<Rightarrow> 'w engine_state" where
  "outcome_state (Next s) = s"
| "outcome_state (Stop r) = result_state r"

lemma spent_trans: "spent xs s t \<Longrightarrow> spent ys t u \<Longrightarrow> spent (xs @ ys) s u"
  by (simp add: spent_def)

lemma stop_spends [simp]:
  "spent exs s (outcome_state (stop_with rc status k t)) = spent exs s t"
  "spent exs s (outcome_state (fail_with rc e t)) = spent exs s t"
  by (simp_all add: spent_def stop_with_def fail_with_def)

lemma charge_spends: "spent [ex] s (charge ex s)"
  by (simp add: spent_def charge_def answer_tokens_def answer_cost_def given_or_def split: option.split)

lemma outcome_spends: "spent exs s t \<Longrightarrow> spent exs s (outcome_state (outcome_step rc x t))"
  by (cases x; simp) (simp_all add: follow_def Let_def spent_def split: option.split)

lemma settle_spends: "spent [ex] s (outcome_state (settle rc ex s))"
proof (cases "patch_step rc (ne_outcome ex) (charge ex s)")
  case (Inl e)
  then show ?thesis using charge_spends [of ex s] by (simp add: settle_def Let_def)
next
  case (Inr t)
  then have "spent [ex] s t" using charge_spends [of ex s] patch_step_frame [OF Inr] by (simp add: spent_def)
  then show ?thesis using charge_spends [of ex s] by (simp add: settle_def Let_def Inr outcome_spends)
qed

lemma turn_spends:
  "spent (case turn_answer rc s of None \<Rightarrow> [] | Some ex \<Rightarrow> [ex]) s (outcome_state (engine_step rc s))"
proof -
  obtain now w where now: "h_now (rc_host rc) (en_world s) = (now, w)" by fastforce
  let ?s0 = "s\<lparr>en_world := w, en_visits := map_put (en_current s) (visit_count s (en_current s) + 1) (en_visits s)\<rparr>"
  let ?over = "\<not> in_cycle_bounds (rc_graph rc) (en_current s) (visit_count s (en_current s) + 1)"
  let ?go = "\<not> h_aborted (rc_host rc) (en_world s) \<and> en_steps s < num_value (max_steps (rc_limits rc))
      \<and> \<not> num_value (timeout_ms (rc_limits rc)) < now - rc_started_at rc \<and> \<not> ?over"
  have same: "spent [] s s" "spent [] s (s\<lparr>en_world := w\<rparr>)" "spent [] s ?s0" by (simp_all add: spent_def)
  show ?thesis
  proof (cases ?go)
    case False
    then have "turn_answer rc s = None" by (auto simp: turn_answer_def now Let_def)
    moreover have "spent [] s (outcome_state (engine_step rc s))"
      using False same by (auto simp: engine_step_def now Let_def visit_count_def in_cycle_bounds_def split: option.splits)
    ultimately show ?thesis by simp
  next
    case True
    then have step: "engine_step rc s = dispatch rc ?s0"
      by (auto simp: engine_step_def now Let_def visit_count_def in_cycle_bounds_def split: option.splits)
    show ?thesis
    proof (cases "map_of (ad_handlers (ca_definition (rc_agent rc))) (en_current s)")
      case None
      with True step same show ?thesis by (simp add: turn_answer_def now dispatch_def)
    next
      case (Some handler)
      let ?s1 = "emit rc (NodeStarted 1) (Some (en_current s)) ?s0"
      have world: "en_world (emit rc (NodeStarted 1) (Some (en_current s)) (s\<lparr>en_world := w\<rparr>)) = en_world ?s1"
        by (simp add: emit_def split: prod.split)
      obtain a w2 where h: "handler (en_world ?s1) \<lparr>nc_state = sn_value (en_state s), nc_attempt = 1, nc_resume_input = rc_resume_input rc\<rparr> = (a, w2)"
        by fastforce
      have called: "spent [] s (?s1\<lparr>en_world := w2\<rparr>)" by (simp add: spent_def)
      from spent_trans [OF called settle_spends]
      have "spent [ex] s (outcome_state (settle rc ex (?s1\<lparr>en_world := w2\<rparr>)))" for ex by simp
      with called True step Some h world show ?thesis
        by (cases a) (simp_all add: turn_answer_def now dispatch_def)
    qed
  qed
qed

lemma turn_answered: "engine_step rc s = Next s' \<Longrightarrow> turn_answer rc s \<noteq> None"
  using turn_spends [of rc s] engine_step_counts [of rc s s'] by (auto simp: spent_def split: option.splits)

lemma run_spends: "spent (run_answers rc s) s (result_state (run_loop rc s))"
proof (induction rc s rule: run_loop.induct)
  case (1 rc s)
  show ?case
  proof (cases "engine_step rc s")
    case (Next s')
    then obtain ex where ex: "turn_answer rc s = Some ex" using turn_answered by blast
    have "spent [ex] s s'" using turn_spends [of rc s] by (simp add: ex Next)
    from spent_trans [OF this 1 [OF Next]] show ?thesis
      by (simp add: run_answers.simps [of rc s] run_loop.simps [of rc s] ex Next)
  next
    case (Stop r)
    with turn_spends [of rc s] show ?thesis
      by (simp add: run_answers.simps [of rc s] run_loop.simps [of rc s] split: option.splits)
  qed
qed

lemma run_loop_budgets:
  "completed (run_loop rc s) \<longrightarrow> en_steps (result_state (run_loop rc s)) \<le> num_value (max_steps (rc_limits rc))
     \<and> en_tokens (result_state (run_loop rc s)) \<le> max_tokens (rc_limits rc)
     \<and> en_cost (result_state (run_loop rc s)) \<le> max_cost_micros (rc_limits rc)"
  by (rule engine.run_invariant [where P = "\<lambda>s. True"]) (auto elim!: engine_step_Stop dest!: ends_counts)

section \<open>Suspension and resumption\<close>

text \<open>The checkpoint a host takes of a suspended run, as far as \<open>resume\<close> reads it.\<close>

definition checkpoint_of :: "'w engine_state \<Rightarrow> checkpoint \<Rightarrow> bool" where
  "checkpoint_of s cp \<longleftrightarrow> cp_state cp = en_state s \<and> cp_pending_node cp = en_current s \<and> cp_event_cursor cp = en_sequence s
     \<and> cp_steps cp = en_steps s \<and> cp_tokens cp = en_tokens s"

definition begun_answers :: "'w run_context \<times> 'w engine_state \<Rightarrow> node_execution list" where
  "begun_answers begun = (case begun of (rc, s) \<Rightarrow> run_answers rc s)"

text \<open>
  An execution, resumed after each of its suspensions: the answers its handlers gave, run by run, and
  the status and state it has come to.
\<close>

inductive execution_of :: "'w compiled_agent \<Rightarrow> 'w host \<Rightarrow> node_execution list list \<Rightarrow> execution_status \<Rightarrow> 'w engine_state \<Rightarrow> bool"
  for agent host where
  executed: "execute agent host initial eid inp w = Inr (Finished status s) \<Longrightarrow>
     execution_of agent host [begun_answers (begin_run agent host (initial_snapshot agent initial)
       (gd_entry (ad_graph (ca_definition agent))) 0 0 0 eid inp w)] status s"
| resumed: "execution_of agent host runs (StSuspended reason) s \<Longrightarrow> checkpoint_of s cp \<Longrightarrow>
     resume agent host cp inp w = Inr (Finished status s') \<Longrightarrow>
     execution_of agent host (runs @ [begun_answers (begin_run agent host (cp_state cp) (cp_pending_node cp) (cp_event_cursor cp)
       (cp_steps cp) (cp_tokens cp) (cp_execution_id cp) inp w)]) status s'"

lemma begin_run_counts:
  assumes "begin_run agent host state start cursor steps tokens eid inp w = (rc, s)"
  shows "rc_agent rc = agent" "en_steps s = steps" "en_tokens s = tokens" "en_cost s = 0"
  using assms by (auto simp: begin_run_def Let_def split: prod.splits if_splits)

lemma run_from_spends:
  assumes "run_from agent host state start cursor steps tokens eid inp w = Finished status t"
    and "begun_answers (begin_run agent host state start cursor steps tokens eid inp w) = exs"
  shows "en_steps t = steps + int (length exs) \<and> en_tokens t = tokens + sum_list (map answer_tokens exs)
    \<and> en_cost t = sum_list (map answer_cost exs)
    \<and> (completed (Finished status t) \<longrightarrow> en_steps t \<le> num_value (max_steps (gd_limits (ad_graph (ca_definition agent))))
        \<and> en_tokens t \<le> max_tokens (gd_limits (ad_graph (ca_definition agent)))
        \<and> en_cost t \<le> max_cost_micros (gd_limits (ad_graph (ca_definition agent))))"
proof -
  obtain rc s where b: "begin_run agent host state start cursor steps tokens eid inp w = (rc, s)" by fastforce
  note counts = begin_run_counts [OF b]
  from assms b have run: "run_loop rc s = Finished status t" "run_answers rc s = exs"
    by (simp_all add: run_from_def begun_answers_def)
  from run_spends [of rc s] run_loop_budgets [of rc s] counts show ?thesis
    by (simp add: run spent_def)
qed

lemma execution_spends:
  assumes "execution_of agent host runs status s"
  shows "en_steps s = int (length (concat runs)) \<and> en_tokens s = sum_list (map answer_tokens (concat runs))
    \<and> (completed (Finished status s) \<longrightarrow>
        en_steps s \<le> num_value (max_steps (gd_limits (ad_graph (ca_definition agent))))
        \<and> en_tokens s \<le> max_tokens (gd_limits (ad_graph (ca_definition agent)))
        \<and> (\<forall>run \<in> set runs. sum_list (map answer_cost run) \<le> max_cost_micros (gd_limits (ad_graph (ca_definition agent)))))"
  using assms
proof (induction rule: execution_of.induct)
  case (executed initial eid inp w status s)
  then have "run_from agent host (initial_snapshot agent initial) (gd_entry (ad_graph (ca_definition agent))) 0 0 0 eid inp w
      = Finished status s" by (auto simp: execute_def bind_res_eq_Inr)
  from run_from_spends [OF this refl] show ?case by auto
next
  case (resumed runs reason s cp inp w status s')
  then have "run_from agent host (cp_state cp) (cp_pending_node cp) (cp_event_cursor cp) (cp_steps cp) (cp_tokens cp)
      (cp_execution_id cp) inp w = Finished status s'" by (auto simp: resume_def split: if_splits)
  from run_from_spends [OF this refl] resumed show ?case by (auto simp: checkpoint_of_def)
qed

text \<open>
  C9. However often an execution is suspended and resumed, when it suspends or terminates, the answers
  of all its handlers together number at most \<open>max_steps\<close> and have used at most \<open>max_tokens\<close>, and
  the engine's counts are these sums. The cost is bounded run by run only: the answers since the start, or
  since the last resumption, have cost at most \<open>max_cost_micros\<close>. Over a resumption the code does
  not carry the cost, against what its documentation says of checkpoints, see
  \<open>cost_restarts_on_resume\<close>.
\<close>

theorem execution_within_budgets:
  assumes "execution_of agent host runs status s" "status = StTerminated v \<or> status = StSuspended reason"
  defines "bounds \<equiv> gd_limits (ad_graph (ca_definition agent))"
  shows "en_steps s = int (length (concat runs)) \<and> int (length (concat runs)) \<le> num_value (max_steps bounds)
    \<and> en_tokens s = sum_list (map answer_tokens (concat runs)) \<and> sum_list (map answer_tokens (concat runs)) \<le> max_tokens bounds
    \<and> (\<forall>run \<in> set runs. sum_list (map answer_cost run) \<le> max_cost_micros bounds)"
  using execution_spends [OF assms(1)] assms(2) by (auto simp: bounds_def)

section \<open>A concrete execution\<close>

text \<open>An agent that asks at its first node, at a cost of 2 of 3, each time it gets there.\<close>

definition ask_handler :: "nat handler" where
  "ask_handler w ctx = (Inr \<lparr>ne_outcome = OSuspend ''ask'' None, ne_tokens = Some 5, ne_cost_micros = Some 2\<rparr>, w)"

definition ask_agent :: "nat compiled_agent" where
  "ask_agent = count_agent\<lparr>ca_definition := (ca_definition count_agent)\<lparr>ad_handlers := [(''start'', ask_handler)],
     ad_graph := (ad_graph (ca_definition count_agent))\<lparr>gd_limits := make_limits None (Some 20) (Some 3) None\<rparr>\<rparr>\<rparr>"

definition ask_checkpoint :: "nat engine_state \<Rightarrow> checkpoint" where
  "ask_checkpoint s = \<lparr>cp_execution_id = ''run-1'', cp_graph_hash = ''h'', cp_pack_hash = [], cp_policy_hash = [],
     cp_node_implementation_hash = [], cp_contract_hash = [], cp_state = en_state s, cp_pending_node = en_current s,
     cp_event_cursor = en_sequence s, cp_steps = en_steps s, cp_tokens = en_tokens s, cp_cost_micros = en_cost s\<rparr>"

definition ask_first :: "nat run_context \<times> nat engine_state" where
  "ask_first = begin_run ask_agent tick_host (initial_snapshot ask_agent (JObj [(''count'', JNum 0)])) ''start'' 0 0 0 ''run-1'' JUndef 0"

definition ask_again :: "nat run_context \<times> nat engine_state" where
  "ask_again = (case ask_checkpoint (result_state (run_loop (fst ask_first) (snd ask_first))) of cp \<Rightarrow>
     begin_run ask_agent tick_host (cp_state cp) (cp_pending_node cp) (cp_event_cursor cp) (cp_steps cp) (cp_tokens cp)
       (cp_execution_id cp) (JStr ''answer'') 0)"

lemma ask_runs:
  "final_status (run_loop (fst ask_first) (snd ask_first)) = Some (StSuspended ''ask'')"
  "final_status (run_loop (fst ask_again) (snd ask_again)) = Some (StSuspended ''ask'')"
  "map answer_cost (begun_answers ask_first) = [2]" "map answer_cost (begun_answers ask_again) = [2]"
  by code_simp+

lemma ask_valid:
  "validate_state (ad_schema (ca_definition ask_agent)) (JObj [(''count'', JNum 0)]) = Inr ()"
  "gd_entry (ad_graph (ca_definition ask_agent)) = ''start''" "ca_hash ask_agent = ''h''"
  "max_cost_micros (gd_limits (ad_graph (ca_definition ask_agent))) = 3"
  by code_simp+

lemma ask_executed:
  obtains s where "execution_of ask_agent tick_host [begun_answers ask_first, begun_answers ask_again] (StSuspended ''ask'') s"
proof -
  obtain s where s: "run_loop (fst ask_first) (snd ask_first) = Finished (StSuspended ''ask'') s"
    using ask_runs(1) by (auto simp only: final_status_Some)
  obtain t where t: "run_loop (fst ask_again) (snd ask_again) = Finished (StSuspended ''ask'') t"
    using ask_runs(2) by (auto simp only: final_status_Some)
  have "execute ask_agent tick_host (JObj [(''count'', JNum 0)]) ''run-1'' JUndef 0 = Inr (Finished (StSuspended ''ask'') s)"
    using s by (simp add: execute_def ask_valid run_from_def ask_first_def case_prod_beta)
  from executed [OF this] have first: "execution_of ask_agent tick_host [begun_answers ask_first] (StSuspended ''ask'') s"
    by (simp add: ask_valid ask_first_def)
  have cp: "checkpoint_of s (ask_checkpoint s)" by (simp add: checkpoint_of_def ask_checkpoint_def)
  have again: "ask_again = begin_run ask_agent tick_host (cp_state (ask_checkpoint s)) (cp_pending_node (ask_checkpoint s))
      (cp_event_cursor (ask_checkpoint s)) (cp_steps (ask_checkpoint s)) (cp_tokens (ask_checkpoint s))
      (cp_execution_id (ask_checkpoint s)) (JStr ''answer'') 0"
    by (simp add: ask_again_def s)
  have "resume ask_agent tick_host (ask_checkpoint s) (JStr ''answer'') 0 = Inr (Finished (StSuspended ''ask'') t)"
    using t by (simp add: resume_def ask_valid run_from_def again case_prod_beta) (simp add: ask_checkpoint_def)
  from resumed [OF first cp this] that show ?thesis by (simp add: again)
qed

text \<open>Suspended once, the execution has cost 4 micros within a limit of 3.\<close>

lemma cost_restarts_on_resume:
  "\<exists>runs s. execution_of ask_agent tick_host runs (StSuspended ''ask'') s
     \<and> max_cost_micros (gd_limits (ad_graph (ca_definition ask_agent))) < sum_list (map answer_cost (concat runs))"
proof -
  obtain s where "execution_of ask_agent tick_host [begun_answers ask_first, begun_answers ask_again] (StSuspended ''ask'') s"
    by (rule ask_executed)
  moreover have "sum_list (map answer_cost (concat [begun_answers ask_first, begun_answers ask_again])) = 4"
    by (simp add: ask_runs)
  ultimately show ?thesis unfolding ask_valid by (metis less_numeral_extra(1) numeral_less_iff semiring_norm(76,81))
qed

theorem execution_within_budgets_witness:
  "\<exists>s. execution_of ask_agent tick_host [begun_answers ask_first, begun_answers ask_again] (StSuspended ''ask'') s
     \<and> sum_list (map answer_cost (begun_answers ask_again)) \<le> 3"
proof -
  obtain s where s: "execution_of ask_agent tick_host [begun_answers ask_first, begun_answers ask_again] (StSuspended ''ask'') s"
    by (rule ask_executed)
  with execution_within_budgets [OF s, of JNull "''ask''"] show ?thesis by (auto simp: ask_valid)
qed

end
