(* ===== verification/Cbor.thy ===== *)
theory Cbor
  imports JS_Value "HOL-Library.Word"
begin

unbundle bit_operations_syntax

text \<open>
  \<open>dependencies/cbor.ts\<close>: the canonical CBOR subset whose bytes the dependency root hashes.
  Object members are written in the byte order of their UTF-8 keys. The lemmas show that the
  encoding determines the value up to member order, and that no member order is observable.
\<close>

datatype cbor =
    CNull
  | CBool bool
  | CStr string
  | CNum int
  | CArr "cbor list"
  | CObj "(string \<times> cbor) list"

lemma map_res_cong [fundef_cong]:
  "xs = ys \<Longrightarrow> (\<And>x. x \<in> set ys \<Longrightarrow> f x = g x) \<Longrightarrow> map_res f xs = map_res g ys"
  by (induction ys arbitrary: xs) auto

lemma bind_res_cong [fundef_cong]:
  "r = s \<Longrightarrow> (\<And>x. s = Inr x \<Longrightarrow> f x = g x) \<Longrightarrow> bind_res r f = bind_res s g"
  by (cases s) auto

text \<open>Members that hold \<open>undefined\<close> are skipped; elsewhere \<open>undefined\<close> is an error.\<close>

fun as_cbor :: "jsval \<Rightarrow> cbor result" where
  "as_cbor JUndef = Inl (PlainError ''canonical CBOR cannot encode undefined'')"
| "as_cbor JNull = Inr CNull"
| "as_cbor (JBool b) = Inr (CBool b)"
| "as_cbor (JStr s) = Inr (CStr s)"
| "as_cbor (JNum n) = (if is_safe_integer n then Inr (CNum n) else Inl (PlainError ''canonical CBOR numbers must be safe integers''))"
| "as_cbor (JFrac s) = Inl (PlainError ''canonical CBOR numbers must be safe integers'')"
| "as_cbor (JArr xs) = bind_res (map_res as_cbor xs) (\<lambda>ys. Inr (CArr ys))"
| "as_cbor (JObj es) =
     bind_res (map_res (\<lambda>e. bind_res (as_cbor (snd e)) (\<lambda>v. Inr (fst e, v))) (filter (\<lambda>e. snd e \<noteq> JUndef) es))
       (\<lambda>fs. Inr (CObj fs))"

definition encode_length :: "nat \<Rightarrow> nat \<Rightarrow> nat list result" where
  "encode_length major len =
     (let tag = push_bit 5 major in
      if len < 24 then Inr [tag OR len]
      else if len \<le> 255 then Inr [tag OR 24, len]
      else if len \<le> 65535 then Inr [tag OR 25, drop_bit 8 len, len AND 255]
      else if len \<le> 4294967295 then
        Inr [tag OR 26, drop_bit 24 len AND 255, drop_bit 16 len AND 255, drop_bit 8 len AND 255, len AND 255]
      else Inl (PlainError ''canonical CBOR length exceeds 32-bit encoding''))"

definition compare_utf8 :: "string \<Rightarrow> string \<Rightarrow> int" where
  "compare_utf8 left right = compare_seq (utf8 left) (utf8 right)"

definition encode_text :: "string \<Rightarrow> nat list result" where
  "encode_text s = bind_res (encode_length 3 (length (utf8 s))) (\<lambda>h. Inr (h @ utf8 s))"

fun cbor_weight :: "cbor \<Rightarrow> nat" where
  "cbor_weight (CArr xs) = 1 + sum_list (map cbor_weight xs)"
| "cbor_weight (CObj es) = 1 + sum_list (map (\<lambda>e. cbor_weight (snd e)) es)"
| "cbor_weight _ = 1"

function encode :: "cbor \<Rightarrow> nat list result" where
  "encode CNull = Inr [246]"
| "encode (CBool b) = Inr [if b then 245 else 244]"
| "encode (CStr s) = encode_text s"
| "encode (CNum n) = (if 0 \<le> n then encode_length 0 (nat n) else encode_length 1 (nat (- 1 - n)))"
| "encode (CArr xs) = bind_res (encode_length 4 (length xs)) (\<lambda>h. bind_res (map_res encode xs) (\<lambda>bs. Inr (h @ concat bs)))"
| "encode (CObj es) =
     bind_res (encode_length 5 (length es)) (\<lambda>h.
     bind_res (map_res (\<lambda>e. bind_res (encode_text (fst e)) (\<lambda>k. bind_res (encode (snd e)) (\<lambda>v. Inr (k @ v))))
                 (js_sort (cmp_on fst compare_utf8) es)) (\<lambda>bs. Inr (h @ concat bs)))"
  by pat_completeness auto

lemma cbor_weight_less: "x \<in> set xs \<Longrightarrow> cbor_weight (f x) < Suc (sum_list (map (\<lambda>x. cbor_weight (f x)) xs))"
  by (induction xs) auto

termination encode
  by (relation "measure cbor_weight") (auto simp: cbor_weight_less cbor_weight_less [of _ _ id, simplified])

definition canonical_cbor :: "jsval \<Rightarrow> nat list result" where
  "canonical_cbor value = bind_res (as_cbor value) encode"

section \<open>Lengths\<close>

lemma push_or: "k < 32 \<Longrightarrow> push_bit 5 m OR k = 32 * m + k" for m k :: nat
proof -
  assume "k < 32"
  then have k: "take_bit 5 k = k" by (simp add: take_bit_nat_eq_self_iff)
  have "push_bit 5 m AND k = 0"
    by (rule bit_eqI) (metis bit_0_eq bit_and_iff bit_push_bit_iff_nat bit_take_bit_iff bot_apply bot_bool_def k linorder_not_le)
  then have "push_bit 5 m + k = push_bit 5 m OR k" by (rule disjunctive_add_eq_or)
  then show ?thesis by (simp add: push_bit_eq_mult)
qed

lemma and_255: "n AND 255 = n mod 256" for n :: nat
proof -
  have "n AND 255 = take_bit 8 n" by (simp add: take_bit_eq_mask mask_numeral)
  then show ?thesis by (simp add: take_bit_eq_mod)
qed

lemma encode_length_arith:
  "encode_length m len =
     (if len < 24 then Inr [32 * m + len]
      else if len \<le> 255 then Inr [32 * m + 24, len]
      else if len \<le> 65535 then Inr [32 * m + 25, len div 256, len mod 256]
      else if len \<le> 4294967295 then
        Inr [32 * m + 26, len div 16777216, len div 65536 mod 256, len div 256 mod 256, len mod 256]
      else Inl (PlainError ''canonical CBOR length exceeds 32-bit encoding''))"
proof -
  have "len div 16777216 mod 256 = len div 16777216" if "len \<le> 4294967295"
    using that by (intro mod_less) (simp add: less_mult_imp_div_less)
  then show ?thesis
    by (simp add: encode_length_def Let_def push_or and_255 drop_bit_eq_div)
qed

text \<open>A reader of length headers, the left inverse of \<open>encodeLength\<close>.\<close>

fun read_length :: "nat list \<Rightarrow> nat \<times> nat \<times> nat list" where
  "read_length [] = (0, 0, [])"
| "read_length (b # bs) =
     (let m = b div 32; a = b mod 32 in
      if a < 24 then (m, a, bs)
      else if a = 24 then (m, bs ! 0, drop 1 bs)
      else if a = 25 then (m, 256 * bs ! 0 + bs ! 1, drop 2 bs)
      else (m, 16777216 * bs ! 0 + 65536 * bs ! 1 + 256 * bs ! 2 + bs ! 3, drop 4 bs))"

lemma four_bytes:
  "16777216 * (n div 16777216) + 65536 * (n div 65536 mod 256) + 256 * (n div 256 mod 256) + n mod 256 = n" for n :: nat
proof -
  have "n div 65536 = 256 * (n div 16777216) + n div 65536 mod 256"
    using div_mult_mod_eq [of "n div 65536" 256] by (simp add: div_mult2_eq [symmetric])
  moreover have "n div 256 = 256 * (n div 65536) + n div 256 mod 256"
    using div_mult_mod_eq [of "n div 256" 256] by (simp add: div_mult2_eq [symmetric])
  moreover have "n = 256 * (n div 256) + n mod 256" by simp
  ultimately show ?thesis by linarith
qed

lemma two_bytes: "256 * (n div 256) + n mod 256 = n" for n :: nat
  by simp

lemma read_length_encode: "encode_length m len = Inr h \<Longrightarrow> read_length (h @ rest) = (m, len, rest)"
  using four_bytes [of len] by (auto simp: encode_length_arith Let_def numeral_2_eq_2 numeral_3_eq_3 split: if_splits)

lemma encode_length_prefix:
  assumes "encode_length m len = Inr h" "encode_length m' len' = Inr h'" "h @ r = h' @ s"
  shows "m = m' \<and> len = len' \<and> r = s"
  using read_length_encode [OF assms(1), of r] read_length_encode [OF assms(2), of s] assms(3) by simp

lemma encode_length_bytes: "encode_length m len = Inr h \<Longrightarrow> m < 8 \<Longrightarrow> b \<in> set h \<Longrightarrow> b < 256"
  by (auto simp: encode_length_arith split: if_splits)

section \<open>UTF-8\<close>

lemma utf8_char_prefix:
  assumes "utf8_char c @ r = utf8_char d @ s"
  shows "c = d \<and> r = s"
proof -
  let ?m = "of_char c :: nat" and ?n = "of_char d :: nat"
  have "?m = ?n"
  proof (cases "?m < 128 \<longleftrightarrow> ?n < 128")
    case True
    have "?m div 64 = ?n div 64 \<Longrightarrow> ?m mod 64 = ?n mod 64 \<Longrightarrow> ?m = ?n"
      by (metis div_mult_mod_eq)
    with True assms show ?thesis by (auto simp: utf8_char_def Let_def split: if_splits)
  next
    case False
    with assms show ?thesis by (auto simp: utf8_char_def Let_def split: if_splits)
  qed
  then have "c = d" by simp
  with assms show ?thesis by simp
qed

lemma utf8_char_not_Nil [simp]: "utf8_char c \<noteq> []"
  by (simp add: utf8_char_def Let_def)

lemma utf8_inject [simp]: "utf8 s = utf8 t \<longleftrightarrow> s = t"
proof
  show "utf8 s = utf8 t \<Longrightarrow> s = t"
  proof (induction s arbitrary: t)
    case Nil
    then show ?case by (cases t) (auto simp: utf8_def)
  next
    case (Cons c s)
    then obtain d t' where t: "t = d # t'" by (cases t) (auto simp: utf8_def)
    with Cons.prems have "utf8_char c @ utf8 s = utf8_char d @ utf8 t'" by (simp add: utf8_def)
    from utf8_char_prefix [OF this] Cons.IH t show ?case by simp
  qed
qed simp

interpretation utf8_order: total_comparator compare_utf8
proof unfold_locales
  show "compare_utf8 x y < 0 \<longleftrightarrow> 0 < compare_utf8 y x" for x y
    unfolding compare_utf8_def by (rule compare_seq_antisym)
  show "compare_utf8 x z \<le> 0" if "compare_utf8 x y \<le> 0" "compare_utf8 y z \<le> 0" for x y z
    using that unfolding compare_utf8_def by (rule compare_seq_trans)
  show "x = y" if "compare_utf8 x y = 0" for x y
    using that compare_seq_eq [of "utf8 x" "utf8 y"] by (simp add: compare_utf8_def)
qed

section \<open>The encoding determines the value\<close>

text \<open>The form of a value with every object's members in key order.\<close>

fun canon :: "cbor \<Rightarrow> cbor" where
  "canon (CArr xs) = CArr (map canon xs)"
| "canon (CObj es) = CObj (js_sort (cmp_on fst compare_utf8) (map (\<lambda>e. (fst e, canon (snd e))) es))"
| "canon v = v"

definition encode_member :: "string \<times> cbor \<Rightarrow> nat list result" where
  "encode_member e = bind_res (encode_text (fst e)) (\<lambda>k. bind_res (encode (snd e)) (\<lambda>v. Inr (k @ v)))"

lemma insort_cmp_map:
  "(\<And>x y. c (g x) (g y) = d x y) \<Longrightarrow> insort_cmp c (g x) (map g xs) = map g (insort_cmp d x xs)"
  by (induction xs) auto

lemma js_sort_map: "(\<And>x y. c (g x) (g y) = d x y) \<Longrightarrow> js_sort c (map g xs) = map g (js_sort d xs)"
  by (induction xs) (simp_all add: insort_cmp_map)

lemma canon_obj:
  "canon (CObj es) = CObj (map (\<lambda>e. (fst e, canon (snd e))) (js_sort (cmp_on fst compare_utf8) es))"
  by (simp, rule js_sort_map) (simp add: cmp_on_def)

definition prefix_free :: "('a \<Rightarrow> nat list result) \<Rightarrow> ('a \<Rightarrow> 'b) \<Rightarrow> 'a \<Rightarrow> bool" where
  "prefix_free f g x \<longleftrightarrow> (\<forall>y a b r s. f x = Inr a \<longrightarrow> f y = Inr b \<longrightarrow> a @ r = b @ s \<longrightarrow> g x = g y \<and> r = s)"

lemma prefix_freeD:
  "prefix_free f g x \<Longrightarrow> f x = Inr a \<Longrightarrow> f y = Inr b \<Longrightarrow> a @ r = b @ s \<Longrightarrow> g x = g y \<and> r = s"
  unfolding prefix_free_def by blast

lemma prefix_freeI:
  assumes "\<And>y a b r s. f x = Inr a \<Longrightarrow> f y = Inr b \<Longrightarrow> a @ r = b @ s \<Longrightarrow> g x = g y \<and> r = s"
  shows "prefix_free f g x"
  unfolding prefix_free_def using assms by blast

lemma prefix_free_chunks:
  assumes "length xs = length ys" "list_all2 (\<lambda>x b. f x = Inr b) xs bs" "list_all2 (\<lambda>y c. f y = Inr c) ys cs"
    and "concat bs @ r = concat cs @ s" "\<And>x. x \<in> set xs \<Longrightarrow> prefix_free f g x"
  shows "map g xs = map g ys \<and> r = s"
  using assms
proof (induction xs ys arbitrary: bs cs rule: list_induct2)
  case (Cons x xs y ys)
  from Cons.prems(1,2) obtain b bs' c cs' where
    b: "bs = b # bs'" "f x = Inr b" "list_all2 (\<lambda>x b. f x = Inr b) xs bs'"
    and c: "cs = c # cs'" "f y = Inr c" "list_all2 (\<lambda>y c. f y = Inr c) ys cs'"
    by (auto simp: list_all2_Cons1)
  have "b @ (concat bs' @ r) = c @ (concat cs' @ s)" using Cons.prems(3) b(1) c(1) by simp
  with prefix_freeD [OF Cons.prems(4) b(2) c(2)] have "g x = g y" "concat bs' @ r = concat cs' @ s" by auto
  with Cons.IH [OF b(3) c(3)] Cons.prems(4) show ?case by simp
qed simp

lemma encode_text_prefix: "prefix_free encode_text id s"
proof (rule prefix_freeI)
  fix t a b r r'
  assume st: "encode_text s = Inr a" "encode_text t = Inr b" "a @ r = b @ r'"
  from st(1) obtain h where h: "encode_length 3 (length (utf8 s)) = Inr h" "a = h @ utf8 s"
    by (auto simp: encode_text_def bind_res_eq_Inr)
  from st(2) obtain h' where h': "encode_length 3 (length (utf8 t)) = Inr h'" "b = h' @ utf8 t"
    by (auto simp: encode_text_def bind_res_eq_Inr)
  have "h @ utf8 s @ r = h' @ utf8 t @ r'" using st(3) h(2) h'(2) by simp
  from encode_length_prefix [OF h(1) h'(1) this]
  have len: "length (utf8 s) = length (utf8 t)" and eq: "utf8 s @ r = utf8 t @ r'" by blast+
  from eq have "utf8 s = utf8 t \<and> r = r'" by (simp only: append_eq_append_conv [OF disjI1 [OF len]])
  then show "id s = id t \<and> r = r'" by simp
qed

text \<open>The first bytes of an encoding: its major type and argument.\<close>

fun major :: "cbor \<Rightarrow> nat" where
  "major CNull = 7"
| "major (CBool b) = 7"
| "major (CStr s) = 3"
| "major (CNum n) = (if 0 \<le> n then 0 else 1)"
| "major (CArr xs) = 4"
| "major (CObj es) = 5"

fun argument :: "cbor \<Rightarrow> nat" where
  "argument CNull = 22"
| "argument (CBool b) = (if b then 21 else 20)"
| "argument (CStr s) = length (utf8 s)"
| "argument (CNum n) = (if 0 \<le> n then nat n else nat (- 1 - n))"
| "argument (CArr xs) = length xs"
| "argument (CObj es) = length es"

fun payload :: "cbor \<Rightarrow> nat list result" where
  "payload (CStr s) = Inr (utf8 s)"
| "payload (CArr xs) = bind_res (map_res encode xs) (\<lambda>bs. Inr (concat bs))"
| "payload (CObj es) = bind_res (map_res encode_member (js_sort (cmp_on fst compare_utf8) es)) (\<lambda>bs. Inr (concat bs))"
| "payload v = Inr []"

lemma encode_obj: "encode (CObj es) = bind_res (encode_length 5 (length es)) (\<lambda>h.
     bind_res (map_res encode_member (js_sort (cmp_on fst compare_utf8) es)) (\<lambda>bs. Inr (h @ concat bs)))"
  by (simp add: encode_member_def [abs_def])

lemma encode_shape:
  assumes "encode v = Inr a"
  shows "\<exists>h p. a = h @ p \<and> payload v = Inr p \<and> (\<forall>r. read_length (h @ r) = (major v, argument v, r))"
proof (cases v)
  case (CStr s)
  with assms obtain h where "encode_length 3 (length (utf8 s)) = Inr h" "a = h @ utf8 s"
    by (auto simp: encode_text_def bind_res_eq_Inr)
  with CStr show ?thesis using read_length_encode by (intro exI [of _ h] exI [of _ "utf8 s"]) simp
next
  case (CNum n)
  with assms have "encode_length (major v) (argument v) = Inr a" by (simp split: if_splits)
  with CNum show ?thesis using read_length_encode by (intro exI [of _ a] exI [of _ "[]"]) (simp del: major.simps argument.simps)
next
  case (CArr xs)
  with assms obtain h bs where "encode_length 4 (length xs) = Inr h" "map_res encode xs = Inr bs" "a = h @ concat bs"
    by (auto simp: bind_res_eq_Inr)
  with CArr show ?thesis using read_length_encode by (intro exI [of _ h] exI [of _ "concat bs"]) simp
next
  case (CObj es)
  with assms obtain h bs where "encode_length 5 (length es) = Inr h"
    "map_res encode_member (js_sort (cmp_on fst compare_utf8) es) = Inr bs" "a = h @ concat bs"
    by (auto simp: encode_obj bind_res_eq_Inr simp del: encode.simps)
  with CObj show ?thesis using read_length_encode by (intro exI [of _ h] exI [of _ "concat bs"]) simp
qed (use assms in \<open>auto simp: Let_def intro!: exI [of _ "[]"]\<close>)

lemma encode_head:
  assumes "encode v = Inr a" "encode w = Inr b" "a @ r = b @ s"
  shows "major v = major w \<and> argument v = argument w \<and> (\<exists>p q. payload v = Inr p \<and> payload w = Inr q \<and> p @ r = q @ s)"
proof -
  obtain h p where v: "a = h @ p" "payload v = Inr p" "\<And>r. read_length (h @ r) = (major v, argument v, r)"
    using encode_shape [OF assms(1)] by blast
  obtain k q where w: "b = k @ q" "payload w = Inr q" "\<And>r. read_length (k @ r) = (major w, argument w, r)"
    using encode_shape [OF assms(2)] by blast
  have "read_length (h @ p @ r) = read_length (k @ q @ s)" using assms(3) v(1) w(1) by simp
  with v w show ?thesis by simp
qed

lemma encode_leaf_prefix:
  assumes "\<And>xs. v \<noteq> CArr xs" "\<And>es. v \<noteq> CObj es"
  shows "prefix_free encode canon v"
proof (rule prefix_freeI)
  fix y a b r s assume e: "encode v = Inr a" "encode y = Inr b" "a @ r = b @ s"
  from encode_head [OF e] assms show "canon v = canon y \<and> r = s"
    by (cases v; cases y) (auto split: if_splits)
qed

lemma encode_array_prefix:
  assumes "\<And>x. x \<in> set xs \<Longrightarrow> prefix_free encode canon x"
  shows "prefix_free encode canon (CArr xs)"
proof (rule prefix_freeI)
  fix y a b r s assume e: "encode (CArr xs) = Inr a" "encode y = Inr b" "a @ r = b @ s"
  note head = encode_head [OF e]
  from head obtain ys where y: "y = CArr ys" "length xs = length ys"
    by (cases y) (auto split: if_splits)
  with head obtain bs cs where c: "map_res encode xs = Inr bs" "map_res encode ys = Inr cs"
    "concat bs @ r = concat cs @ s" by (auto simp: bind_res_eq_Inr)
  from prefix_free_chunks [OF y(2) c(1,2) [unfolded map_res_Inr_iff] c(3) assms] y
  show "canon (CArr xs) = canon y \<and> r = s" by simp
qed

lemma encode_member_prefix:
  assumes "prefix_free encode canon (snd e)"
  shows "prefix_free encode_member (\<lambda>e. (fst e, canon (snd e))) e"
proof (rule prefix_freeI)
  fix f a b r s assume m: "encode_member e = Inr a" "encode_member f = Inr b" "a @ r = b @ s"
  from m(1) obtain k u where k: "encode_text (fst e) = Inr k" "encode (snd e) = Inr u" "a = k @ u"
    by (auto simp: encode_member_def bind_res_eq_Inr)
  from m(2) obtain l w where l: "encode_text (fst f) = Inr l" "encode (snd f) = Inr w" "b = l @ w"
    by (auto simp: encode_member_def bind_res_eq_Inr)
  have "k @ (u @ r) = l @ (w @ s)" using m(3) k(3) l(3) by simp
  from prefix_freeD [OF encode_text_prefix k(1) l(1) this]
  have key: "fst e = fst f" and rest: "u @ r = w @ s" by auto
  from prefix_freeD [OF assms k(2) l(2) rest] key
  show "(fst e, canon (snd e)) = (fst f, canon (snd f)) \<and> r = s" by simp
qed

lemma encode_object_prefix:
  assumes "\<And>e. e \<in> set es \<Longrightarrow> prefix_free encode canon (snd e)"
  shows "prefix_free encode canon (CObj es)"
proof (rule prefix_freeI)
  fix y a b r s assume e: "encode (CObj es) = Inr a" "encode y = Inr b" "a @ r = b @ s"
  note head = encode_head [OF e]
  from head obtain fs where y: "y = CObj fs" "length es = length fs"
    by (cases y) (auto split: if_splits)
  let ?sort = "js_sort (cmp_on fst compare_utf8)"
  from y head obtain bs cs where c: "map_res encode_member (?sort es) = Inr bs"
    "map_res encode_member (?sort fs) = Inr cs" "concat bs @ r = concat cs @ s" by (auto simp: bind_res_eq_Inr)
  have "length (?sort es) = length (?sort fs)" using y by simp
  from prefix_free_chunks [OF this c(1,2) [unfolded map_res_Inr_iff] c(3) encode_member_prefix] assms
  have "map (\<lambda>e. (fst e, canon (snd e))) (?sort es) = map (\<lambda>e. (fst e, canon (snd e))) (?sort fs) \<and> r = s" by simp
  then show "canon (CObj es) = canon y \<and> r = s" unfolding y(1) canon_obj by simp
qed

lemma encode_prefix_free: "prefix_free encode canon v"
proof (induction v rule: cbor.induct)
  case (CArr xs)
  then show ?case by (rule encode_array_prefix)
next
  case (CObj es)
  then show ?case by (intro encode_object_prefix) (metis prod.collapse snds.intros)
qed (rule encode_leaf_prefix; simp)+

text \<open>
  C12. Canonical CBOR is injective and self-delimiting: when the encodings of two values agree up to
  what follows them, the values are equal up to the order of their objects' members, and what
  follows is equal too. In particular no encoding is a proper prefix of another.
\<close>

theorem canonical_cbor_injective:
  assumes "canonical_cbor v = Inr a" "canonical_cbor w = Inr b" "a @ r = b @ s"
  shows "r = s \<and> (\<exists>x y. as_cbor v = Inr x \<and> as_cbor w = Inr y \<and> canon x = canon y)"
proof -
  from assms obtain x y where "as_cbor v = Inr x" "encode x = Inr a" "as_cbor w = Inr y" "encode y = Inr b"
    by (auto simp: canonical_cbor_def bind_res_eq_Inr)
  with prefix_freeD [OF encode_prefix_free] assms(3) show ?thesis by blast
qed

section \<open>Member order is not observable\<close>

lemma sort_sorted: "js_sort (cmp_on fst compare_utf8) (js_sort (cmp_on fst compare_utf8) es) = js_sort (cmp_on fst compare_utf8) es"
  by (rule comparator.js_sort_idem [OF comparator_on [OF utf8_order.comparator_axioms]])

lemma map_res_map: "map_res f (map g xs) = map_res (f \<circ> g) xs"
  by (induction xs) simp_all

lemma encode_canon: "encode (canon v) = encode v"
proof (induction v rule: cbor.induct)
  case (CArr xs)
  then have "map_res encode (map canon xs) = map_res encode xs"
    by (simp add: map_res_map comp_def cong: map_res_cong)
  then show ?case by simp
next
  case (CObj es)
  let ?sort = "js_sort (cmp_on fst compare_utf8)" and ?c = "\<lambda>e. (fst e, canon (snd e))"
  have "(encode_member \<circ> ?c) e = encode_member e" if "e \<in> set (?sort es)" for e
    using CObj that by (simp add: encode_member_def) (metis prod.collapse snds.intros)
  then have "map_res encode_member (map ?c (?sort es)) = map_res encode_member (?sort es)"
    unfolding map_res_map by (rule map_res_cong [OF refl])
  moreover have "?sort (map ?c (?sort es)) = map ?c (?sort es)"
    using js_sort_map [of "cmp_on fst compare_utf8" ?c "cmp_on fst compare_utf8" "?sort es"]
    by (simp add: cmp_on_def sort_sorted)
  ultimately show ?case
    unfolding canon_obj encode_obj by simp
qed simp_all

lemma same_json_undef: "same_json v w \<Longrightarrow> v = JUndef \<longleftrightarrow> w = JUndef"
  by (cases rule: same_json.cases) auto

definition as_member :: "string \<times> jsval \<Rightarrow> (string \<times> cbor) result" where
  "as_member e = bind_res (as_cbor (snd e)) (\<lambda>v. Inr (fst e, v))"

lemma as_member_Inr: "as_member e = Inr m \<longleftrightarrow> (\<exists>v. as_cbor (snd e) = Inr v \<and> m = (fst e, v))"
  by (auto simp: as_member_def bind_res_eq_Inr)

lemma as_cbor_obj:
  "as_cbor (JObj es) = bind_res (map_res as_member (filter (\<lambda>e. snd e \<noteq> JUndef) es)) (\<lambda>fs. Inr (CObj fs))"
  by (simp add: as_member_def [abs_def])

lemma map_res_projr: "map_res f xs = Inr ys \<longleftrightarrow> ys = map (projr \<circ> f) xs \<and> (\<forall>x \<in> set xs. \<not> isl (f x))"
proof (induction xs arbitrary: ys)
  case (Cons x xs)
  then show ?case by (cases "f x") (auto simp: bind_res_eq_Inr)
qed auto

lemma as_member_keys: "map_res as_member es = Inr fs \<Longrightarrow> map fst fs = map fst es"
  by (induction es arbitrary: fs) (auto simp: bind_res_eq_Inr as_member_def)

lemma as_cbor_same:
  "same_json v w \<Longrightarrow> as_cbor v = Inr x \<Longrightarrow> \<exists>y. as_cbor w = Inr y \<and> canon x = canon y"
proof (induction arbitrary: x rule: same_json.induct)
  case (same_arr vs ws)
  then obtain xs where xs: "map_res as_cbor vs = Inr xs" "x = CArr xs" by (auto simp: bind_res_eq_Inr)
  have "\<exists>ys. map_res as_cbor ws = Inr ys \<and> map canon xs = map canon ys"
    using same_arr(1) xs(1)
  proof (induction arbitrary: xs rule: list_all2_induct)
    case (Cons v vs w ws)
    from Cons.prems obtain x xs' where x: "xs = x # xs'" "as_cbor v = Inr x" "map_res as_cbor vs = Inr xs'"
      by (auto simp: bind_res_eq_Inr)
    from Cons.IH [OF x(3)] Cons.hyps(1) x show ?case by fastforce
  qed simp
  with xs show ?case by auto
next
  case (same_obj es fs gs)
  let ?def = "filter (\<lambda>e. snd e \<noteq> JUndef)" and ?c = "\<lambda>e. (fst e, canon (snd e))"
  from same_obj obtain xs where xs: "map_res as_member (?def es) = Inr xs" "x = CObj xs"
    by (auto simp: as_cbor_obj bind_res_eq_Inr simp del: as_cbor.simps)
  have pair: "\<exists>ys. map_res as_member (?def fs) = Inr ys \<and> map ?c xs = map ?c ys"
    using same_obj(3) xs(1)
  proof (induction arbitrary: xs rule: list_all2_induct)
    case (Cons e es f fs)
    then have undef: "snd e = JUndef \<longleftrightarrow> snd f = JUndef" and key: "fst f = fst e" by (auto dest: same_json_undef)
    show ?case
    proof (cases "snd e = JUndef")
      case False
      with Cons.prems obtain v xs' where v: "as_cbor (snd e) = Inr v" "xs = (fst e, v) # xs'" "map_res as_member (?def es) = Inr xs'"
        by (auto simp: as_member_Inr bind_res_eq_Inr)
      from Cons.hyps(1) v(1) obtain w where w: "as_cbor (snd f) = Inr w" "canon v = canon w" by blast
      from Cons.IH [OF v(3)] obtain ys' where "map_res as_member (?def fs) = Inr ys'" "map ?c xs' = map ?c ys'" by blast
      have "as_member f = Inr (fst e, w)" using key w(1) by (simp add: as_member_def)
      with False undef v(2) w(2) \<open>map_res as_member (?def fs) = Inr ys'\<close> \<open>map ?c xs' = map ?c ys'\<close> show ?thesis
        by (intro exI [of _ "(fst e, w) # ys'"]) simp
    qed (use Cons undef in auto)
  qed simp
  then obtain ys where ys: "map_res as_member (?def fs) = Inr ys" "map ?c xs = map ?c ys" by blast
  have defs: "mset (?def fs) = mset (?def gs)" using same_obj(2) by (simp add: mset_filter)
  then have set_eq: "set (?def fs) = set (?def gs)" by (rule mset_eq_setD)
  have "\<forall>e \<in> set (?def fs). \<not> isl (as_member e)" using ys(1) unfolding map_res_projr by blast
  then have zs: "map_res as_member (?def gs) = Inr (map (projr \<circ> as_member) (?def gs))"
    unfolding map_res_projr set_eq by blast
  have "mset ys = mset (map (projr \<circ> as_member) (?def gs))"
    using ys(1) defs by (simp add: map_res_projr)
  moreover have "map fst fs = map fst es" using same_obj(3) by (intro list_all2_same_fst [symmetric]) auto
  then have "distinct (map fst fs)" using same_obj(1) by simp
  then have "distinct (map fst ys)" using as_member_keys [OF ys(1)] by (simp add: distinct_map_filter)
  ultimately have "js_sort (cmp_on fst compare_utf8) (map ?c ys) = js_sort (cmp_on fst compare_utf8) (map ?c (map (projr \<circ> as_member) (?def gs)))"
    by (intro js_sort_keys_cong utf8_order.total_comparator_axioms) (simp_all add: comp_def image_mset.compositionality)
  with xs ys zs show ?case
    by (simp add: as_cbor_obj del: as_cbor.simps)
qed auto

text \<open>
  The bytes do not depend on the order in which an object's members were written, at any depth:
  values equal up to member order have the same canonical encoding.
\<close>

theorem canonical_cbor_member_order:
  assumes "same_json v w" "canonical_cbor v = Inr bytes"
  shows "canonical_cbor w = Inr bytes"
proof -
  from assms(2) obtain x where x: "as_cbor v = Inr x" "encode x = Inr bytes"
    by (auto simp: canonical_cbor_def bind_res_eq_Inr)
  from as_cbor_same [OF assms(1) x(1)] obtain y where y: "as_cbor w = Inr y" "canon x = canon y" by blast
  have "encode y = encode x" by (metis encode_canon y(2))
  with x y show ?thesis by (simp add: canonical_cbor_def)
qed

section \<open>Concrete runs\<close>

definition demo_pack :: jsval where
  "demo_pack = JObj [(''role'', JStr ''skill''), (''name'', JStr ''a''), (''stateRoot'', JUndef), (''n'', JNum 300)]"

lemma demo_pack_bytes:
  "canonical_cbor demo_pack = Inr [163, 97, 110, 25, 1, 44, 100, 110, 97, 109, 101, 97, 97, 100, 114, 111, 108, 101, 101, 115, 107, 105, 108, 108]"
  by (simp add: demo_pack_def canonical_cbor_def is_safe_integer_def max_safe_integer_def encode_text_def
      encode_length_arith utf8_def utf8_char_def cmp_on_def compare_utf8_def Let_def)

theorem canonical_cbor_injective_witness:
  "\<exists>x y. as_cbor demo_pack = Inr x \<and> as_cbor demo_pack = Inr y \<and> canon x = canon y"
  using canonical_cbor_injective [OF demo_pack_bytes demo_pack_bytes refl] by blast

theorem canonical_cbor_member_order_witness:
  "canonical_cbor (JObj [(''name'', JStr ''a''), (''n'', JNum 300), (''role'', JStr ''skill''), (''stateRoot'', JUndef)])
     = Inr [163, 97, 110, 25, 1, 44, 100, 110, 97, 109, 101, 97, 97, 100, 114, 111, 108, 101, 101, 115, 107, 105, 108, 108]"
proof (rule canonical_cbor_member_order [OF _ demo_pack_bytes])
  show "same_json demo_pack (JObj [(''name'', JStr ''a''), (''n'', JNum 300), (''role'', JStr ''skill''), (''stateRoot'', JUndef)])"
    unfolding demo_pack_def
    by (rule same_json.same_obj [where fs = "[(''role'', JStr ''skill''), (''name'', JStr ''a''), (''stateRoot'', JUndef), (''n'', JNum 300)]"])
       (auto intro: same_json.same_refl)
qed

end
