(* ===== verification/Dependency_Root.thy ===== *)
theory Dependency_Root
  imports Cbor
begin

text \<open>
  \<open>dependencies/lockfile.ts\<close>, \<open>dependencies/types.ts\<close> and \<open>dependencies/root.ts\<close>: the
  lockfile's pins and the dependency root, the digest over the canonical CBOR of the sorted
  dependencies. \<open>localeCompare\<close> and SHA-256 are the host's and are arguments. The text form of
  the lockfile (\<open>parseLockfileText\<close>) is not modelled.
\<close>

section \<open>Lockfile\<close>

record lock_pack =
  lp_version :: string
  lp_sha256 :: string
  lp_state_root :: "string option"
  lp_license :: "string option"

record lockfile =
  lf_registry :: "string option"
  lf_packs :: "(string, lock_pack) js_map"

definition harness_fail :: "string \<Rightarrow> 'a result" where
  "harness_fail msg = Inl (HarnessError msg)"

text \<open>A member that must be a string when it is present.\<close>

fun optional_string :: "string \<Rightarrow> jsval \<Rightarrow> string option result" where
  "optional_string msg JUndef = Inr None"
| "optional_string msg (JStr s) = Inr (Some s)"
| "optional_string msg _ = harness_fail msg"

definition quoted :: "string \<Rightarrow> string" where
  "quoted s = char_of (39 :: nat) # s @ [char_of (39 :: nat)]"

fun validate_lock_pack :: "string \<Rightarrow> jsval \<Rightarrow> lock_pack result" where
  "validate_lock_pack name (JObj es) =
     (let label = ''knolo.lock.json pack '' @ quoted name in
      case js_get es ''version'' of
        JStr version \<Rightarrow>
          if version = [] then harness_fail (label @ '' is missing version'')
          else (case js_get es ''sha256'' of
            JStr sha \<Rightarrow>
              if \<not> is_sha256 sha then harness_fail (label @ '' sha256 must be 64 lowercase hex characters'')
              else bind_res (optional_string (label @ '' stateRoot must be a string'') (js_get es ''stateRoot'')) (\<lambda>root.
                   bind_res (optional_string (label @ '' license must be a string'') (js_get es ''license'')) (\<lambda>license.
                   Inr \<lparr>lp_version = version, lp_sha256 = sha, lp_state_root = root, lp_license = license\<rparr>))
          | _ \<Rightarrow> harness_fail (label @ '' sha256 must be 64 lowercase hex characters''))
      | _ \<Rightarrow> harness_fail (label @ '' is missing version''))"
| "validate_lock_pack name _ = harness_fail (''knolo.lock.json pack '' @ quoted name @ '' must be an object'')"

fun lock_packs :: "(string \<times> jsval) list \<Rightarrow> (string, lock_pack) js_map \<Rightarrow> (string, lock_pack) js_map result" where
  "lock_packs [] acc = Inr acc"
| "lock_packs ((name, entry) # rest) acc =
     bind_res (validate_lock_pack name entry) (\<lambda>pack. lock_packs rest (map_put name pack acc))"

text \<open>\<open>record.packs\<close>: absent, an object, or refused; \<open>null\<close> is refused with the other non-objects.\<close>

fun packs_entries :: "jsval \<Rightarrow> (string \<times> jsval) list result" where
  "packs_entries JUndef = Inr []"
| "packs_entries (JObj es) = Inr es"
| "packs_entries _ = harness_fail ''knolo.lock.json packs must be an object''"

definition nonempty_string :: "string option \<Rightarrow> string option" where
  "nonempty_string s = (case s of Some t \<Rightarrow> if t = [] then None else Some t | None \<Rightarrow> None)"

fun validate_lockfile :: "jsval \<Rightarrow> lockfile result" where
  "validate_lockfile (JObj es) =
     bind_res (optional_string ''knolo.lock.json registry must be a string'' (js_get es ''registry'')) (\<lambda>registry.
     bind_res (packs_entries (js_get es ''packs'')) (\<lambda>entries.
     bind_res (lock_packs entries []) (\<lambda>packs.
     Inr \<lparr>lf_registry = nonempty_string registry, lf_packs = packs\<rparr>)))"
| "validate_lockfile _ = harness_fail ''knolo.lock.json must be a JSON object''"

definition normalize_registry_url :: "string \<Rightarrow> string" where
  "normalize_registry_url url = rev (dropWhile (\<lambda>c. c = CHR ''/'') (rev (js_trim url)))"

definition assert_lockfile_registry :: "lockfile \<Rightarrow> string \<Rightarrow> bool \<Rightarrow> unit result" where
  "assert_lockfile_registry lock registry force =
     (case nonempty_string (lf_registry lock) of
        None \<Rightarrow> Inr ()
      | Some pinned \<Rightarrow>
          if normalize_registry_url pinned = normalize_registry_url registry \<or> force then Inr ()
          else harness_fail (''Lockfile registry is '' @ pinned @ ''; refusing to mix registries without force''))"

definition lockfile_pin :: "lockfile \<Rightarrow> string \<Rightarrow> lock_pack option" where
  "lockfile_pin lock name = map_of (lf_packs lock) name"

definition assert_lockfile_pin :: "lockfile option \<Rightarrow> string \<Rightarrow> string \<Rightarrow> bool \<Rightarrow> unit result" where
  "assert_lockfile_pin lock name sha force =
     (case Option.bind lock (\<lambda>l. lockfile_pin l name) of
        None \<Rightarrow> Inr ()
      | Some existing \<Rightarrow>
          if lp_sha256 existing = [] \<or> lp_sha256 existing = sha \<or> force then Inr ()
          else harness_fail (''Lockfile already pins '' @ name @ '' to a different digest; use force to replace it''))"

definition lockfile_pack_digests :: "lockfile option \<Rightarrow> string list" where
  "lockfile_pack_digests lock =
     (case lock of None \<Rightarrow> [] | Some l \<Rightarrow> js_sort code_unit_order (map (\<lambda>e. lp_sha256 (snd e)) (lf_packs l)))"

section \<open>Dependencies\<close>

record pack_dependency =
  pd_name :: string
  pd_version :: string
  pd_sha256 :: string
  pd_state_root :: "string option"
  pd_role :: string

record dependency_root =
  dr_algorithm :: string
  dr_dependencies :: "pack_dependency list"
  dr_root :: string

definition dependency_root_label :: string where
  "dependency_root_label = ''knolo.harness.dependencies.v1''"

definition dependency_roles :: "string list" where
  "dependency_roles = [''knowledge'', ''skill'', ''policy'', ''evaluation'', ''workflow'']"

definition normalize_pack_dependency :: "pack_dependency \<Rightarrow> pack_dependency result" where
  "normalize_pack_dependency d =
     (let label = ''pack dependency '' @ quoted (pd_name d) in
      if js_trim (pd_name d) = [] then harness_fail ''pack dependency name is required''
      else if js_trim (pd_version d) = [] then harness_fail (label @ '' is missing version'')
      else if \<not> is_sha256 (pd_sha256 d) then harness_fail (label @ '' sha256 must be 64 lowercase hex characters'')
      else if pd_role d \<notin> set dependency_roles then harness_fail (label @ '' has an unknown role'')
      else Inr (d\<lparr>pd_state_root := nonempty_string (pd_state_root d)\<rparr>))"

type_synonym locale_compare = "string \<Rightarrow> string \<Rightarrow> int"

definition compare_dependency :: "locale_compare \<Rightarrow> pack_dependency \<Rightarrow> pack_dependency \<Rightarrow> int" where
  "compare_dependency lc = cmp_then (cmp_on pd_name lc) (cmp_then (cmp_on pd_role lc)
     (cmp_then (cmp_on pd_sha256 lc) (cmp_on pd_version lc)))"

definition sort_pack_dependencies :: "locale_compare \<Rightarrow> pack_dependency list \<Rightarrow> pack_dependency list result" where
  "sort_pack_dependencies lc deps =
     bind_res (map_res normalize_pack_dependency deps) (\<lambda>ds. Inr (js_sort (compare_dependency lc) ds))"

definition dependency_key :: "pack_dependency \<Rightarrow> string" where
  "dependency_key d = pd_role d @ '':'' @ pd_name d"

fun merge_into :: "pack_dependency list \<Rightarrow> (string, pack_dependency) js_map \<Rightarrow> (string, pack_dependency) js_map" where
  "merge_into [] m = m"
| "merge_into (d # ds) m = merge_into ds (map_put (dependency_key d) d m)"

definition merge_pack_dependencies :: "locale_compare \<Rightarrow> pack_dependency list \<Rightarrow> pack_dependency list \<Rightarrow> pack_dependency list result" where
  "merge_pack_dependencies lc base extra =
     bind_res (map_res normalize_pack_dependency (base @ extra)) (\<lambda>ds.
       sort_pack_dependencies lc (map snd (merge_into ds [])))"

definition pack_dependencies_from_lockfile :: "locale_compare \<Rightarrow> lockfile option \<Rightarrow> string \<Rightarrow> pack_dependency list result" where
  "pack_dependencies_from_lockfile lc lock role =
     (case lock of
        None \<Rightarrow> Inr []
      | Some l \<Rightarrow> sort_pack_dependencies lc (map (\<lambda>(name, pin). \<lparr>pd_name = name, pd_version = lp_version pin,
            pd_sha256 = lp_sha256 pin, pd_state_root = nonempty_string (lp_state_root pin), pd_role = role\<rparr>) (lf_packs l)))"

definition dependency_json :: "pack_dependency \<Rightarrow> jsval" where
  "dependency_json d = JObj ([(''name'', JStr (pd_name d)), (''role'', JStr (pd_role d)), (''sha256'', JStr (pd_sha256 d))]
     @ (case nonempty_string (pd_state_root d) of Some s \<Rightarrow> [(''stateRoot'', JStr s)] | None \<Rightarrow> [])
     @ [(''version'', JStr (pd_version d))])"

definition dependency_payload :: "locale_compare \<Rightarrow> pack_dependency list \<Rightarrow> jsval result" where
  "dependency_payload lc deps =
     bind_res (sort_pack_dependencies lc deps) (\<lambda>ds. Inr (JArr (map dependency_json ds)))"

definition framed_bytes :: "nat list \<Rightarrow> nat list" where
  "framed_bytes cbor = utf8 dependency_root_label @ [0] @ cbor"

definition compute_dependency_root ::
  "locale_compare \<Rightarrow> sha256 \<Rightarrow> (jsval \<Rightarrow> nat list result) option \<Rightarrow> pack_dependency list \<Rightarrow> dependency_root result" where
  "compute_dependency_root lc sha codec deps =
     bind_res (sort_pack_dependencies lc deps) (\<lambda>sorted.
     bind_res (dependency_payload lc sorted) (\<lambda>payload.
     bind_res ((case codec of Some f \<Rightarrow> f | None \<Rightarrow> canonical_cbor) payload) (\<lambda>cbor.
     Inr \<lparr>dr_algorithm = dependency_root_label, dr_dependencies = sorted,
          dr_root = dependency_root_label @ '':'' @ sha (framed_bytes cbor)\<rparr>)))"

section \<open>Normalising and sorting\<close>

lemma nonempty_string_idem [simp]: "nonempty_string (nonempty_string s) = nonempty_string s"
  by (simp add: nonempty_string_def split: option.splits)

definition normal :: "pack_dependency \<Rightarrow> bool" where
  "normal d \<longleftrightarrow> normalize_pack_dependency d = Inr d"

lemma normalize_Inr:
  "normalize_pack_dependency d = Inr e \<Longrightarrow> normal e \<and> e = d\<lparr>pd_state_root := nonempty_string (pd_state_root d)\<rparr>"
  by (auto simp: normalize_pack_dependency_def normal_def harness_fail_def Let_def split: if_splits)

lemma normal_state_root: "normal d \<Longrightarrow> nonempty_string (pd_state_root d) = pd_state_root d"
  using normalize_Inr [of d d] unfolding normal_def by (metis pack_dependency.select_convs(4) pack_dependency.surjective pack_dependency.update_convs(4))

lemma dependency_key_normalize:
  "normalize_pack_dependency d = Inr e \<Longrightarrow> dependency_key e = dependency_key d"
  using normalize_Inr [of d e] by (simp add: dependency_key_def)

lemma normalize_list:
  "map_res normalize_pack_dependency ds = Inr es \<Longrightarrow> list_all normal es \<and> map dependency_key es = map dependency_key ds"
  unfolding map_res_Inr_iff
  by (induction rule: list_all2_induct) (auto simp: dependency_key_normalize dest: normalize_Inr)

lemma normal_list [simp]: "list_all normal ds \<Longrightarrow> map_res normalize_pack_dependency ds = Inr ds"
  by (induction ds) (simp_all add: normal_def)

lemma list_all_js_sort [simp]: "list_all P (js_sort c xs) = list_all P xs"
  by (simp add: list_all_iff)

lemma sort_pack_dependencies_Inr:
  assumes "sort_pack_dependencies lc ds = Inr es"
  shows "list_all normal es" "mset (map dependency_key es) = mset (map dependency_key ds)"
    "\<exists>ns. map_res normalize_pack_dependency ds = Inr ns \<and> es = js_sort (compare_dependency lc) ns"
proof -
  from assms obtain ns where ns: "map_res normalize_pack_dependency ds = Inr ns" "es = js_sort (compare_dependency lc) ns"
    by (auto simp: sort_pack_dependencies_def bind_res_eq_Inr)
  with normalize_list [OF ns(1)] show "list_all normal es" by simp
  have "mset (map dependency_key es) = mset (map dependency_key ns)" by (simp add: ns(2))
  then show "mset (map dependency_key es) = mset (map dependency_key ds)"
    using normalize_list [OF ns(1)] by (metis mset_map)
  show "\<exists>ns. map_res normalize_pack_dependency ds = Inr ns \<and> es = js_sort (compare_dependency lc) ns" using ns by blast
qed

lemma comparator_dependency: "comparator lc \<Longrightarrow> comparator (compare_dependency lc)"
  unfolding compare_dependency_def by (intro comparator_then comparator_on)

lemma compare_normalized:
  "normalize_pack_dependency d = Inr d' \<Longrightarrow> normalize_pack_dependency e = Inr e'
    \<Longrightarrow> compare_dependency lc d' e' = compare_dependency lc d e"
  by (auto simp: compare_dependency_def cmp_then_def cmp_on_def dest!: normalize_Inr)

text \<open>Dependencies that the comparison of the sort does not tell apart are the same.\<close>

definition told_apart :: "locale_compare \<Rightarrow> pack_dependency list \<Rightarrow> bool" where
  "told_apart lc ds \<longleftrightarrow> (\<forall>d \<in> set ds. \<forall>e \<in> set ds. compare_dependency lc d e = 0 \<longrightarrow> d = e)"

text \<open>One entry per role and name, with names and roles the collation tells apart, is enough.\<close>

lemma told_apart_by_key:
  assumes "distinct (map dependency_key ds)"
    and "\<And>d e. d \<in> set ds \<Longrightarrow> e \<in> set ds \<Longrightarrow> lc (pd_name d) (pd_name e) = 0 \<Longrightarrow> pd_name d = pd_name e"
    and "\<And>d e. d \<in> set ds \<Longrightarrow> e \<in> set ds \<Longrightarrow> lc (pd_role d) (pd_role e) = 0 \<Longrightarrow> pd_role d = pd_role e"
  shows "told_apart lc ds"
  unfolding told_apart_def
proof (intro ballI impI)
  fix d e assume in_ds: "d \<in> set ds" "e \<in> set ds" and "compare_dependency lc d e = 0"
  then have "lc (pd_name d) (pd_name e) = 0" "lc (pd_role d) (pd_role e) = 0"
    by (auto simp: compare_dependency_def cmp_then_def cmp_on_def split: if_splits)
  then have "dependency_key d = dependency_key e"
    using assms(2) [OF in_ds] assms(3) [OF in_ds] by (simp add: dependency_key_def)
  with assms(1) in_ds show "d = e" by (auto simp: distinct_map dest: inj_onD)
qed

lemma sort_perm:
  assumes "comparator lc" "mset ds = mset es" "told_apart lc ds" "sort_pack_dependencies lc ds = Inr s"
  shows "sort_pack_dependencies lc es = Inr s"
proof -
  obtain ns where ns: "map_res normalize_pack_dependency ds = Inr ns" "s = js_sort (compare_dependency lc) ns"
    using sort_pack_dependencies_Inr(3) [OF assms(4)] by blast
  let ?n = "projr \<circ> normalize_pack_dependency"
  have ok: "ns = map ?n ds" "\<forall>d \<in> set ds. \<not> isl (normalize_pack_dependency d)"
    using ns(1) by (simp_all add: map_res_projr)
  then have es: "map_res normalize_pack_dependency es = Inr (map ?n es)"
    using mset_eq_setD [OF assms(2)] by (simp add: map_res_projr)
  have "js_sort (compare_dependency lc) ns = js_sort (compare_dependency lc) (map ?n es)"
  proof (rule comparator.js_sort_cong_mset_on [OF comparator_dependency])
    show "comparator lc" by (rule assms(1))
    show "mset ns = mset (map ?n es)" using ok(1) assms(2) by simp
    show "x = y" if xy: "x \<in> set ns" "y \<in> set ns" "compare_dependency lc x y = 0" for x y
    proof -
      from xy(1,2) ok obtain d e where de: "d \<in> set ds" "e \<in> set ds"
        "normalize_pack_dependency d = Inr x" "normalize_pack_dependency e = Inr y"
        by (fastforce simp: isl_def comp_def split: sum.splits)
      with xy(3) assms(3) have "d = e" by (simp add: told_apart_def compare_normalized)
      with de show ?thesis by simp
    qed
  qed
  with ns(2) es show ?thesis by (simp add: sort_pack_dependencies_def)
qed

text \<open>
  C13. The dependency root does not depend on the order in which dependencies are listed that the
  comparison of the sort tells apart (two that agree in name, role, digest and version under
  \<open>localeCompare\<close> are the same): two listings of them have the same sorted dependencies and the same
  root. The hypothesis is needed: \<open>stateRoot\<close> is not compared, see \<open>state_root_keeps_its_place\<close>.
\<close>

theorem dependency_root_order_independent:
  assumes "comparator lc" "mset ds = mset es" "told_apart lc ds"
    and "compute_dependency_root lc sha codec ds = Inr r"
  shows "compute_dependency_root lc sha codec es = Inr r"
proof -
  from assms(4) obtain s where s: "sort_pack_dependencies lc ds = Inr s"
    by (auto simp: compute_dependency_root_def bind_res_eq_Inr)
  with sort_perm [OF assms(1,2,3)] assms(4) show ?thesis
    by (simp add: compute_dependency_root_def)
qed

section \<open>The root determines the dependencies\<close>

definition members :: "pack_dependency \<Rightarrow> (string \<times> cbor) list" where
  "members d = [(''name'', CStr (pd_name d)), (''role'', CStr (pd_role d)), (''sha256'', CStr (pd_sha256 d))]
     @ (case nonempty_string (pd_state_root d) of Some s \<Rightarrow> [(''stateRoot'', CStr s)] | None \<Rightarrow> [])
     @ [(''version'', CStr (pd_version d))]"

lemma as_cbor_dependency: "as_cbor (dependency_json d) = Inr (CObj (members d))"
  by (simp add: dependency_json_def members_def split: option.splits)

lemma canon_members: "canon (CObj (members d)) = CObj (js_sort (cmp_on fst compare_utf8) (members d))"
proof -
  have "map (\<lambda>e. (fst e, canon (snd e))) (members d) = members d"
    by (simp add: members_def split: option.splits)
  then show ?thesis by simp
qed

lemma members_iff:
  "(k, v) \<in> set (members d) \<longleftrightarrow> k = ''name'' \<and> v = CStr (pd_name d) \<or> k = ''role'' \<and> v = CStr (pd_role d)
     \<or> k = ''sha256'' \<and> v = CStr (pd_sha256 d) \<or> k = ''version'' \<and> v = CStr (pd_version d)
     \<or> k = ''stateRoot'' \<and> (\<exists>s. nonempty_string (pd_state_root d) = Some s \<and> v = CStr s)"
  by (cases "nonempty_string (pd_state_root d)") (auto simp: members_def)

lemma members_inject:
  assumes "canon (CObj (members d)) = canon (CObj (members e))" "normal d" "normal e"
  shows "d = e"
proof -
  have "set (members d) = set (members e)"
    using assms(1) unfolding canon_members by (metis cbor.inject(5) set_js_sort)
  then have same: "(k, v) \<in> set (members d) \<longleftrightarrow> (k, v) \<in> set (members e)" for k v by simp
  have fields: "pd_name d = pd_name e" "pd_role d = pd_role e" "pd_sha256 d = pd_sha256 e" "pd_version d = pd_version e"
    using same [of "''name''" "CStr (pd_name d)"] same [of "''role''" "CStr (pd_role d)"]
      same [of "''sha256''" "CStr (pd_sha256 d)"] same [of "''version''" "CStr (pd_version d)"]
    unfolding members_iff by simp_all
  have "nonempty_string (pd_state_root d) = Some s \<longleftrightarrow> nonempty_string (pd_state_root e) = Some s" for s
    using same [of "''stateRoot''" "CStr s"] unfolding members_iff by auto
  then have "nonempty_string (pd_state_root d) = nonempty_string (pd_state_root e)"
    by (metis not_Some_eq)
  then show ?thesis using fields normal_state_root [OF assms(2)] normal_state_root [OF assms(3)]
    by (intro pack_dependency.equality) simp_all
qed

lemma dependency_payload_normal:
  assumes "comparator lc" "sort_pack_dependencies lc ds = Inr s"
  shows "dependency_payload lc s = Inr (JArr (map dependency_json s))"
proof -
  obtain ns where ns: "s = js_sort (compare_dependency lc) ns"
    using sort_pack_dependencies_Inr(3) [OF assms(2)] by blast
  then have "js_sort (compare_dependency lc) s = s"
    by (simp add: comparator.js_sort_idem [OF comparator_dependency [OF assms(1)]])
  then show ?thesis
    using sort_pack_dependencies_Inr(1) [OF assms(2)]
    by (simp add: dependency_payload_def sort_pack_dependencies_def)
qed

lemma as_cbor_dependencies: "as_cbor (JArr (map dependency_json ds)) = Inr (CArr (map (\<lambda>d. CObj (members d)) ds))"
  by (simp add: map_res_map comp_def as_cbor_dependency)

lemma members_list_inject:
  assumes "map (\<lambda>d. canon (CObj (members d))) ds = map (\<lambda>d. canon (CObj (members d))) es" "list_all normal ds" "list_all normal es"
  shows "ds = es"
  using assms
proof (induction ds arbitrary: es)
  case (Cons d ds)
  then obtain e es' where es: "es = e # es'" "canon (CObj (members d)) = canon (CObj (members e))"
    "map (\<lambda>d. canon (CObj (members d))) ds = map (\<lambda>d. canon (CObj (members d))) es'"
    by (cases es) (auto simp del: canon.simps)
  with Cons.prems members_inject [OF es(2)] Cons.IH [OF es(3)] show ?case by simp
qed simp

lemma compute_dependency_root_Inr:
  assumes "comparator lc" "compute_dependency_root lc sha None ds = Inr r"
  obtains bytes where "list_all normal (dr_dependencies r)"
    "canonical_cbor (JArr (map dependency_json (dr_dependencies r))) = Inr bytes"
    "encode (CArr (map (\<lambda>d. CObj (members d)) (dr_dependencies r))) = Inr bytes"
    "dr_root r = dependency_root_label @ '':'' @ sha (framed_bytes bytes)"
proof -
  from assms(2) obtain s where s: "sort_pack_dependencies lc ds = Inr s"
    by (auto simp: compute_dependency_root_def bind_res_eq_Inr)
  with assms(2) dependency_payload_normal [OF assms(1) s] obtain bytes where
    "canonical_cbor (JArr (map dependency_json s)) = Inr bytes"
    "r = \<lparr>dr_algorithm = dependency_root_label, dr_dependencies = s,
          dr_root = dependency_root_label @ '':'' @ sha (framed_bytes bytes)\<rparr>"
    by (auto simp: compute_dependency_root_def bind_res_eq_Inr)
  with that sort_pack_dependencies_Inr(1) [OF s] show ?thesis
    by (simp add: canonical_cbor_def as_cbor_dependencies del: encode.simps as_cbor.simps)
qed

text \<open>
  C14. The dependency root binds the dependencies: two computations with the same root have the same
  dependency list, field by field, unless the framed encodings of their two lists are different
  inputs with the same SHA-256.
\<close>

theorem dependency_root_binds:
  assumes "comparator lc" "compute_dependency_root lc sha None ds = Inr r" "compute_dependency_root lc sha None es = Inr s"
    and "dr_root r = dr_root s"
  shows "dr_dependencies r = dr_dependencies s
    \<or> (\<exists>a b. canonical_cbor (JArr (map dependency_json (dr_dependencies r))) = Inr a
          \<and> canonical_cbor (JArr (map dependency_json (dr_dependencies s))) = Inr b
          \<and> framed_bytes a \<noteq> framed_bytes b \<and> sha (framed_bytes a) = sha (framed_bytes b))"
proof -
  obtain a where a: "list_all normal (dr_dependencies r)"
    "canonical_cbor (JArr (map dependency_json (dr_dependencies r))) = Inr a"
    "encode (CArr (map (\<lambda>d. CObj (members d)) (dr_dependencies r))) = Inr a"
    "dr_root r = dependency_root_label @ '':'' @ sha (framed_bytes a)"
    using compute_dependency_root_Inr [OF assms(1,2)] by blast
  obtain b where b: "list_all normal (dr_dependencies s)"
    "canonical_cbor (JArr (map dependency_json (dr_dependencies s))) = Inr b"
    "encode (CArr (map (\<lambda>d. CObj (members d)) (dr_dependencies s))) = Inr b"
    "dr_root s = dependency_root_label @ '':'' @ sha (framed_bytes b)"
    using compute_dependency_root_Inr [OF assms(1,3)] by blast
  have sha: "sha (framed_bytes a) = sha (framed_bytes b)" using assms(4) a(4) b(4) by simp
  show ?thesis
  proof (cases "framed_bytes a = framed_bytes b")
    case True
    then have "a = b" by (simp add: framed_bytes_def)
    then have "canon (CArr (map (\<lambda>d. CObj (members d)) (dr_dependencies r)))
        = canon (CArr (map (\<lambda>d. CObj (members d)) (dr_dependencies s)))"
      using prefix_freeD [OF encode_prefix_free a(3) b(3), of "[]" "[]"] by blast
    then show ?thesis
      using a(1) b(1) by (intro disjI1 members_list_inject) (simp_all add: comp_def)
  next
    case False
    with a(2) b(2) sha show ?thesis by blast
  qed
qed

section \<open>Merging\<close>

lemma map_of_merge_into:
  "map_of (merge_into ds m) k = (case find (\<lambda>d. dependency_key d = k) (rev ds) of Some d \<Rightarrow> Some d | None \<Rightarrow> map_of m k)"
  by (induction ds arbitrary: m) (auto simp: find_snoc split: option.splits)

lemma merge_into_invariant:
  "distinct (map fst m) \<Longrightarrow> \<forall>e \<in> set m. fst e = dependency_key (snd e) \<Longrightarrow>
   distinct (map fst (merge_into ds m)) \<and> (\<forall>e \<in> set (merge_into ds m). fst e = dependency_key (snd e))"
proof (induction ds arbitrary: m)
  case (Cons d ds)
  have "\<forall>e \<in> set (map_put (dependency_key d) d m). fst e = dependency_key (snd e)"
    using Cons.prems set_map_put_subset [of "dependency_key d" d m] by fastforce
  from Cons.IH [OF _ this] Cons.prems(1) show ?case by simp
qed simp

lemma values_distinct_keys:
  assumes "\<forall>e \<in> set m. fst e = f (snd e)"
  shows "map f (map snd m) = map fst m"
  using assms by (induction m) auto

lemma merge_Inr:
  assumes "merge_pack_dependencies lc base extra = Inr merged"
    and "map_res normalize_pack_dependency (base @ extra) = Inr ns"
  shows "mset merged = mset (map snd (merge_into ns []))"
proof -
  have "list_all normal (map snd (merge_into ns []))"
  proof (unfold list_all_iff, intro ballI)
    fix d assume "d \<in> set (map snd (merge_into ns []))"
    then obtain k where "map_of (merge_into ns []) k = Some d"
      using merge_into_invariant [of "[]" ns] by auto
    then show "normal d"
      using normalize_list [OF assms(2)] by (auto simp: map_of_merge_into list_all_iff split: option.splits dest!: find_in_set)
  qed
  with assms show ?thesis by (auto simp: merge_pack_dependencies_def sort_pack_dependencies_def simp del: map_map)
qed

lemma merge_members:
  assumes "merge_pack_dependencies lc base extra = Inr merged"
    and "map_res normalize_pack_dependency (base @ extra) = Inr ns"
  shows "d \<in> set merged \<longleftrightarrow> find (\<lambda>e. dependency_key e = dependency_key d) (rev ns) = Some d"
proof -
  let ?m = "merge_into ns []"
  have inv: "distinct (map fst ?m)" "\<forall>e \<in> set ?m. fst e = dependency_key (snd e)"
    using merge_into_invariant [of "[]" ns] by simp_all
  have "d \<in> set merged \<longleftrightarrow> d \<in> snd ` set ?m" using mset_eq_setD [OF merge_Inr [OF assms]] by simp
  also have "\<dots> \<longleftrightarrow> (dependency_key d, d) \<in> set ?m" using inv(2) by (force intro: rev_image_eqI)
  also have "\<dots> \<longleftrightarrow> map_of ?m (dependency_key d) = Some d" using inv(1) by simp
  also have "\<dots> \<longleftrightarrow> find (\<lambda>e. dependency_key e = dependency_key d) (rev ns) = Some d"
    by (simp add: map_of_merge_into split: option.splits)
  finally show ?thesis .
qed

lemma merge_distinct:
  assumes "merge_pack_dependencies lc base extra = Inr merged"
  shows "distinct (map dependency_key merged)"
proof -
  from assms obtain ns where ns: "map_res normalize_pack_dependency (base @ extra) = Inr ns"
    by (auto simp: merge_pack_dependencies_def bind_res_eq_Inr)
  have "distinct (map dependency_key (map snd (merge_into ns [])))"
    using merge_into_invariant [of "[]" ns] values_distinct_keys [of "merge_into ns []" dependency_key]
    by (simp del: map_map)
  then show ?thesis using merge_Inr [OF assms ns] by (metis mset_eq_imp_distinct_iff mset_map)
qed

text \<open>
  Merging keeps, for each role and name, exactly the last dependency listed (the extra ones over
  the base), normalised, and nothing else: the result has one entry per key.
\<close>

theorem merge_last_wins:
  assumes "merge_pack_dependencies lc base extra = Inr merged"
    and "map_res normalize_pack_dependency (base @ extra) = Inr ns"
  shows "distinct (map dependency_key merged)
    \<and> (\<forall>d. d \<in> set merged \<longleftrightarrow> find (\<lambda>e. dependency_key e = dependency_key d) (rev ns) = Some d)"
  using merge_distinct [OF assms(1)] merge_members [OF assms] by blast

section \<open>Concrete runs\<close>

definition demo_dependency :: "string \<Rightarrow> string \<Rightarrow> pack_dependency" where
  "demo_dependency name role = \<lparr>pd_name = name, pd_version = ''1'', pd_sha256 = replicate 64 CHR ''a'',
     pd_state_root = None, pd_role = role\<rparr>"

lemma demo_normal: "role \<in> set dependency_roles \<Longrightarrow> js_trim name \<noteq> [] \<Longrightarrow> normalize_pack_dependency (demo_dependency name role) = Inr (demo_dependency name role)"
proof -
  have "is_sha256 (replicate 64 CHR ''a'')" "js_trim ''1'' \<noteq> []" by code_simp+
  then show "role \<in> set dependency_roles \<Longrightarrow> js_trim name \<noteq> [] \<Longrightarrow> ?thesis"
    by (simp add: normalize_pack_dependency_def demo_dependency_def nonempty_string_def)
qed

lemma demo_pair_normal:
  "map_res normalize_pack_dependency [demo_dependency ''b'' ''skill'', demo_dependency ''a'' ''knowledge'']
     = Inr [demo_dependency ''b'' ''skill'', demo_dependency ''a'' ''knowledge'']"
proof -
  have "js_trim ''a'' \<noteq> []" "js_trim ''b'' \<noteq> []" by code_simp+
  then show ?thesis by (simp add: demo_normal dependency_roles_def)
qed

definition unit_codec :: "jsval \<Rightarrow> nat list result" where
  "unit_codec v = Inr [1]"

lemma demo_root: "\<exists>r. compute_dependency_root code_unit_order (\<lambda>b. ''digest'') (Some unit_codec)
    [demo_dependency ''b'' ''skill'', demo_dependency ''a'' ''knowledge''] = Inr r"
proof -
  obtain s where s: "sort_pack_dependencies code_unit_order [demo_dependency ''b'' ''skill'', demo_dependency ''a'' ''knowledge''] = Inr s"
    by (simp only: sort_pack_dependencies_def demo_pair_normal bind_res_simps)
  from dependency_payload_normal [OF code_unit.comparator_axioms s] s show ?thesis
    by (simp add: compute_dependency_root_def unit_codec_def)
qed

theorem dependency_root_order_independent_witness:
  "\<exists>r. compute_dependency_root code_unit_order (\<lambda>b. ''digest'') (Some unit_codec)
     [demo_dependency ''a'' ''knowledge'', demo_dependency ''b'' ''skill''] = Inr r"
proof -
  obtain r where r: "compute_dependency_root code_unit_order (\<lambda>b. ''digest'') (Some unit_codec)
    [demo_dependency ''b'' ''skill'', demo_dependency ''a'' ''knowledge''] = Inr r" using demo_root by blast
  have "compute_dependency_root code_unit_order (\<lambda>b. ''digest'') (Some unit_codec)
     [demo_dependency ''a'' ''knowledge'', demo_dependency ''b'' ''skill''] = Inr r"
    by (rule dependency_root_order_independent [OF code_unit.comparator_axioms _ _ r])
       (simp_all add: told_apart_def compare_dependency_def cmp_then_def cmp_on_def demo_dependency_def add_mset_commute)
  then show ?thesis by blast
qed

text \<open>Entries that differ in their \<open>stateRoot\<close> only keep the order in which they are listed.\<close>

lemma state_root_keeps_its_place:
  assumes "comparator lc"
  defines "plain \<equiv> demo_dependency ''a'' ''knowledge''"
  defines "rooted \<equiv> plain\<lparr>pd_state_root := Some ''s''\<rparr>"
  shows "sort_pack_dependencies lc [plain, rooted] = Inr [plain, rooted]"
    "sort_pack_dependencies lc [rooted, plain] = Inr [rooted, plain]"
proof -
  have "is_sha256 (replicate 64 CHR ''a'')" "js_trim ''1'' \<noteq> []" "js_trim ''a'' \<noteq> []" by code_simp+
  then have "normalize_pack_dependency plain = Inr plain" "normalize_pack_dependency rooted = Inr rooted"
    by (simp_all add: normalize_pack_dependency_def plain_def rooted_def demo_dependency_def nonempty_string_def dependency_roles_def)
  moreover have "lc s s = 0" for s by (rule comparator.cmp_refl [OF assms(1)])
  then have "compare_dependency lc plain rooted = 0" "compare_dependency lc rooted plain = 0"
    by (simp_all add: compare_dependency_def cmp_then_def cmp_on_def plain_def rooted_def)
  ultimately show "sort_pack_dependencies lc [plain, rooted] = Inr [plain, rooted]"
    "sort_pack_dependencies lc [rooted, plain] = Inr [rooted, plain]"
    by (simp_all add: sort_pack_dependencies_def)
qed

theorem dependency_root_binds_witness:
  "\<exists>r. compute_dependency_root code_unit_order (\<lambda>b. ''digest'') None [] = Inr r
     \<and> (dr_dependencies r = dr_dependencies r
        \<or> (\<exists>a b. canonical_cbor (JArr (map dependency_json (dr_dependencies r))) = Inr a
          \<and> canonical_cbor (JArr (map dependency_json (dr_dependencies r))) = Inr b
          \<and> framed_bytes a \<noteq> framed_bytes b \<and> (\<lambda>b. ''digest'') (framed_bytes a) = (\<lambda>b. ''digest'') (framed_bytes b)))"
proof -
  have "\<not> isl (compute_dependency_root code_unit_order (\<lambda>b. ''digest'') None [])"
    by (simp add: compute_dependency_root_def sort_pack_dependencies_def dependency_payload_def canonical_cbor_def encode_length_arith)
  then obtain r where r: "compute_dependency_root code_unit_order (\<lambda>b. ''digest'') None [] = Inr r"
    by (cases "compute_dependency_root code_unit_order (\<lambda>b. ''digest'') None []") simp_all
  from dependency_root_binds [OF code_unit.comparator_axioms r r refl] r show ?thesis by blast
qed

theorem merge_last_wins_witness:
  "\<exists>merged. merge_pack_dependencies code_unit_order [demo_dependency ''b'' ''skill''] [demo_dependency ''a'' ''knowledge''] = Inr merged
     \<and> demo_dependency ''a'' ''knowledge'' \<in> set merged"
proof -
  have ns: "map_res normalize_pack_dependency ([demo_dependency ''b'' ''skill''] @ [demo_dependency ''a'' ''knowledge''])
      = Inr [demo_dependency ''b'' ''skill'', demo_dependency ''a'' ''knowledge'']"
    using demo_pair_normal by simp
  have keys: "dependency_key (demo_dependency ''b'' ''skill'') = ''skill:b''" "dependency_key (demo_dependency ''a'' ''knowledge'') = ''knowledge:a''"
    by (simp_all add: dependency_key_def demo_dependency_def)
  then have vals: "map snd (merge_into [demo_dependency ''b'' ''skill'', demo_dependency ''a'' ''knowledge''] [])
      = [demo_dependency ''b'' ''skill'', demo_dependency ''a'' ''knowledge'']"
    by (simp add: map_put_def)
  obtain merged where m: "merge_pack_dependencies code_unit_order [demo_dependency ''b'' ''skill''] [demo_dependency ''a'' ''knowledge''] = Inr merged"
    by (simp only: merge_pack_dependencies_def ns bind_res_simps vals sort_pack_dependencies_def demo_pair_normal)
  from merge_last_wins [OF m ns, THEN conjunct2, THEN spec, of "demo_dependency ''a'' ''knowledge''"] m keys
  show ?thesis by simp
qed

end
