(* ===== verification/Pack_Registry.thy ===== *)
theory Pack_Registry
  imports Dependency_Root
begin

text \<open>
  \<open>registry/types.ts\<close>, \<open>registry/spec.ts\<close>, \<open>registry/cache.ts\<close>,
  \<open>registry/fake.ts\<close> (the in-memory registry) and \<open>registry/offline.ts\<close>: pack specs and
  manifests, the pack cache, and the two registries as state machines whose operations return a
  result together with the next state, since an operation that fails may already have touched the
  cache. The interfaces \<open>PackCacheV1\<close> and \<open>PackRegistryCapabilityV1\<close> are the locales
  \<open>pack_cache_laws\<close> and \<open>verified_registry\<close>.
\<close>

section \<open>Pack specs\<close>

record pack_spec =
  ps_publisher :: string
  ps_slug :: string
  ps_version :: string
  ps_name :: string

datatype spec_input = SpecText string | SpecObject pack_spec

definition slug_char :: "char \<Rightarrow> bool" where
  "slug_char c \<longleftrightarrow> (let n = (of_char c :: nat) in 97 \<le> n \<and> n \<le> 122 \<or> 48 \<le> n \<and> n \<le> 57 \<or> n = 45)"

definition or_default :: "string \<Rightarrow> string \<Rightarrow> string" where
  "or_default s d = (if s = [] then d else s)"

text \<open>The match of \<open>/^([a-z0-9-]+)\/([a-z0-9-]+)(?:@([^@]+))?$/\<close>.\<close>

definition match_version :: "string \<Rightarrow> string option option" where
  "match_version s = (case s of
       [] \<Rightarrow> Some None
     | c # v \<Rightarrow> if c = CHR ''@'' \<and> v \<noteq> [] \<and> CHR ''@'' \<notin> set v then Some (Some v) else None)"

definition match_pack_spec :: "string \<Rightarrow> (string \<times> string \<times> string option) option" where
  "match_pack_spec s =
     (let publisher = takeWhile slug_char s in
      case dropWhile slug_char s of
        [] \<Rightarrow> None
      | c # rest \<Rightarrow>
          (let slug = takeWhile slug_char rest in
           if publisher = [] \<or> c \<noteq> CHR ''/'' \<or> slug = [] then None
           else map_option (\<lambda>v. (publisher, slug, v)) (match_version (dropWhile slug_char rest))))"

fun parse_pack_spec :: "spec_input \<Rightarrow> pack_spec result" where
  "parse_pack_spec (SpecObject s) =
     (if ps_publisher s = [] \<or> ps_slug s = [] then harness_fail ''pack spec must be publisher/slug[@version]''
      else Inr \<lparr>ps_publisher = ps_publisher s, ps_slug = ps_slug s, ps_version = or_default (ps_version s) ''latest'',
             ps_name = or_default (ps_name s) (ps_publisher s @ ''/'' @ ps_slug s)\<rparr>)"
| "parse_pack_spec (SpecText s) =
     (case match_pack_spec (js_trim s) of
        None \<Rightarrow> harness_fail (''Invalid pack spec: '' @ s @ ''. Expected publisher/slug[@version].'')
      | Some (publisher, slug, version) \<Rightarrow>
          Inr \<lparr>ps_publisher = publisher, ps_slug = slug,
               ps_version = (case version of Some v \<Rightarrow> v | None \<Rightarrow> ''latest''), ps_name = publisher @ ''/'' @ slug\<rparr>)"

section \<open>Manifests\<close>

datatype pack_format = V4 | V5

record pack_manifest =
  pm_name :: string
  pm_version :: string
  pm_sha256 :: string
  pm_state_root :: "string option"
  pm_url :: string
  pm_license :: "string option"
  pm_size_bytes :: int
  pm_yanked :: bool
  pm_format :: "pack_format option"

fun optional_bool :: "string \<Rightarrow> jsval \<Rightarrow> bool option result" where
  "optional_bool msg JUndef = Inr None"
| "optional_bool msg (JBool b) = Inr (Some b)"
| "optional_bool msg _ = harness_fail msg"

definition optional_format :: "string \<Rightarrow> jsval \<Rightarrow> pack_format option result" where
  "optional_format msg v =
     (if v = JUndef then Inr None else if v = JStr ''V4'' then Inr (Some V4)
      else if v = JStr ''V5'' then Inr (Some V5) else harness_fail msg)"

definition guard_harness :: "bool \<Rightarrow> string \<Rightarrow> unit result" where
  "guard_harness bad msg = (if bad then harness_fail msg else Inr ())"

definition required_string :: "string \<Rightarrow> jsval \<Rightarrow> string result" where
  "required_string msg v = (case v of JStr s \<Rightarrow> if s = [] then harness_fail msg else Inr s | _ \<Rightarrow> harness_fail msg)"

definition any_string :: "string \<Rightarrow> jsval \<Rightarrow> string result" where
  "any_string msg v = (case v of JStr s \<Rightarrow> Inr s | _ \<Rightarrow> harness_fail msg)"

definition sha_string :: "string \<Rightarrow> jsval \<Rightarrow> string result" where
  "sha_string msg v = (case v of JStr s \<Rightarrow> if is_sha256 s then Inr s else harness_fail msg | _ \<Rightarrow> harness_fail msg)"

definition size_number :: "string \<Rightarrow> jsval \<Rightarrow> int result" where
  "size_number msg v = (case v of JNum n \<Rightarrow> if is_safe_integer n \<and> 0 \<le> n then Inr n else harness_fail msg | _ \<Rightarrow> harness_fail msg)"

definition validate_manifest_entries :: "(string \<times> jsval) list \<Rightarrow> string option \<Rightarrow> string option \<Rightarrow> pack_manifest result" where
  "validate_manifest_entries es expected_name expected_version =
     bind_res (required_string ''Registry manifest is missing name'' (js_get es ''name'')) (\<lambda>name.
     bind_res (case nonempty_string expected_name of
         Some e \<Rightarrow> guard_harness (name \<noteq> e) (''Registry manifest name mismatch: expected '' @ e @ '', got '' @ name)
       | None \<Rightarrow> Inr ()) (\<lambda>_.
     bind_res (required_string ''Registry manifest is missing version'' (js_get es ''version'')) (\<lambda>version.
     bind_res (case nonempty_string expected_version of
         Some e \<Rightarrow> guard_harness (e \<noteq> ''latest'' \<and> version \<noteq> e) (''Registry manifest version mismatch: expected '' @ e @ '', got '' @ version)
       | None \<Rightarrow> Inr ()) (\<lambda>_.
     bind_res (sha_string ''Registry manifest sha256 must be 64 lowercase hexadecimal characters'' (js_get es ''sha256'')) (\<lambda>sha.
     bind_res (any_string ''Registry manifest is missing url'' (js_get es ''url'')) (\<lambda>url.
     bind_res (size_number ''Registry manifest sizeBytes must be a non-negative integer'' (js_get es ''sizeBytes'')) (\<lambda>size.
     bind_res (optional_string ''Registry manifest stateRoot must be a string when present'' (js_get es ''stateRoot'')) (\<lambda>root.
     bind_res (optional_string ''Registry manifest license must be a string when present'' (js_get es ''license'')) (\<lambda>license.
     bind_res (optional_bool ''Registry manifest yanked must be a boolean when present'' (js_get es ''yanked'')) (\<lambda>yanked.
     bind_res (optional_format ''Registry manifest format must be V4 or V5 when present'' (js_get es ''format'')) (\<lambda>format.
     Inr \<lparr>pm_name = name, pm_version = version, pm_sha256 = sha, pm_state_root = root, pm_url = url, pm_license = license,
          pm_size_bytes = size, pm_yanked = (yanked = Some True), pm_format = format\<rparr>)))))))))))"

fun validate_pack_manifest :: "jsval \<Rightarrow> string option \<Rightarrow> string option \<Rightarrow> pack_manifest result" where
  "validate_pack_manifest (JObj es) expected_name expected_version = validate_manifest_entries es expected_name expected_version"
| "validate_pack_manifest _ expected_name expected_version = harness_fail ''Registry returned an invalid pack manifest''"

definition string_member :: "string \<Rightarrow> string option \<Rightarrow> (string \<times> jsval) list" where
  "string_member k v = (case v of Some s \<Rightarrow> [(k, JStr s)] | None \<Rightarrow> [])"

fun format_json :: "pack_format \<Rightarrow> jsval" where
  "format_json V4 = JStr ''V4''"
| "format_json V5 = JStr ''V5''"

definition manifest_json :: "pack_manifest \<Rightarrow> jsval" where
  "manifest_json m = JObj ([(''name'', JStr (pm_name m)), (''version'', JStr (pm_version m)), (''sha256'', JStr (pm_sha256 m))]
     @ string_member ''stateRoot'' (pm_state_root m) @ [(''url'', JStr (pm_url m))]
     @ string_member ''license'' (pm_license m)
     @ [(''sizeBytes'', JNum (pm_size_bytes m)), (''yanked'', JBool (pm_yanked m))]
     @ (case pm_format m of Some f \<Rightarrow> [(''format'', format_json f)] | None \<Rightarrow> []))"

definition valid_manifest :: "pack_manifest \<Rightarrow> bool" where
  "valid_manifest m \<longleftrightarrow> pm_name m \<noteq> [] \<and> pm_version m \<noteq> [] \<and> is_sha256 (pm_sha256 m)
     \<and> is_safe_integer (pm_size_bytes m) \<and> 0 \<le> pm_size_bytes m"

definition check_manifest :: "pack_manifest \<Rightarrow> pack_manifest result" where
  "check_manifest m = validate_pack_manifest (manifest_json m) None None"

lemma harness_fail_Inr [simp]: "harness_fail msg \<noteq> Inr x"
  by (simp add: harness_fail_def)

lemma required_string_Inr: "required_string msg v = Inr s \<longleftrightarrow> v = JStr s \<and> s \<noteq> []"
  by (cases v) (auto simp: required_string_def)

lemma sha_string_Inr: "sha_string msg v = Inr s \<longleftrightarrow> v = JStr s \<and> is_sha256 s"
  by (cases v) (auto simp: sha_string_def)

lemma size_number_Inr: "size_number msg v = Inr n \<longleftrightarrow> v = JNum n \<and> is_safe_integer n \<and> 0 \<le> n"
  by (cases v) (auto simp: size_number_def)

lemma bind_res_InrE: "bind_res r f = Inr y \<Longrightarrow> (\<And>x. r = Inr x \<Longrightarrow> f x = Inr y \<Longrightarrow> thesis) \<Longrightarrow> thesis"
  by (cases r) simp_all

lemma validate_pack_manifest_valid:
  assumes "validate_pack_manifest v name version = Inr m"
  shows "valid_manifest m"
proof (cases v)
  case (JObj es)
  with assms have "validate_manifest_entries es name version = Inr m" by simp
  then show ?thesis
    unfolding validate_manifest_entries_def
    by (elim bind_res_InrE) (auto simp only: required_string_Inr sha_string_Inr size_number_Inr valid_manifest_def
        sum.inject pack_manifest.select_convs simp_thms)
qed (use assms in simp_all)

lemma optional_format_json: "optional_format msg (format_json f) = Inr (Some f)"
  by (cases f) (simp_all add: optional_format_def)

lemma js_get_Cons: "js_get ((k, v) # es) j = (if j = k then v else js_get es j)"
  by (simp add: js_get_def)

lemma js_get_Nil: "js_get [] j = JUndef"
  by (simp add: js_get_def)

lemma js_get_string_member:
  "js_get (string_member k v @ es) j = (if j = k then (case v of Some s \<Rightarrow> JStr s | None \<Rightarrow> js_get es j) else js_get es j)"
  by (cases v) (simp_all add: string_member_def js_get_Cons)

lemmas js_get_rules = js_get_Cons js_get_Nil js_get_string_member append_Cons append_Nil append_assoc

lemma check_manifest_valid: "valid_manifest m \<Longrightarrow> check_manifest m = Inr m"
proof -
  assume v: "valid_manifest m"
  have "optional_format msg (js_get (case pm_format m of Some f \<Rightarrow> [(''format'', format_json f)] | None \<Rightarrow> []) ''format'') = Inr (pm_format m)" for msg
    by (cases "pm_format m") (simp_all add: optional_format_json js_get_rules, simp add: optional_format_def)
  moreover have "js_get (case pm_format m of Some f \<Rightarrow> [(''format'', format_json f)] | None \<Rightarrow> []) k = JUndef" if "k \<noteq> ''format''" for k
    using that by (cases "pm_format m") (simp_all add: js_get_rules)
  ultimately show ?thesis
    using v by (cases "pm_state_root m"; cases "pm_license m") (simp_all add: check_manifest_def manifest_json_def validate_manifest_entries_def js_get_rules required_string_def
        any_string_def sha_string_def size_number_def valid_manifest_def nonempty_string_def)
qed

section \<open>The cache\<close>

record pack_cache =
  pc_bytes :: "(string, nat list) js_map"
  pc_manifests :: "(string, pack_manifest) js_map"

definition empty_cache :: pack_cache where
  "empty_cache = \<lparr>pc_bytes = [], pc_manifests = []\<rparr>"

definition pack_key :: "string \<Rightarrow> string \<Rightarrow> string" where
  "pack_key name version = name @ ''@'' @ version"

definition get_bytes :: "pack_cache \<Rightarrow> string \<Rightarrow> nat list option" where
  "get_bytes c sha = map_of (pc_bytes c) sha"

definition set_bytes :: "pack_cache \<Rightarrow> string \<Rightarrow> nat list \<Rightarrow> pack_cache" where
  "set_bytes c sha bytes = c\<lparr>pc_bytes := map_put sha bytes (pc_bytes c)\<rparr>"

definition get_manifest :: "pack_cache \<Rightarrow> string \<Rightarrow> string \<Rightarrow> pack_manifest option" where
  "get_manifest c name version =
     (if version = ''latest'' then
        (case map_of (pc_manifests c) (pack_key name ''latest'') of Some m \<Rightarrow> Some m | None \<Rightarrow> map_of (pc_manifests c) name)
      else map_of (pc_manifests c) (pack_key name version))"

definition set_manifest :: "pack_cache \<Rightarrow> pack_manifest \<Rightarrow> pack_cache" where
  "set_manifest c m = c\<lparr>pc_manifests := map_put (pm_name m) m (map_put (pack_key (pm_name m) ''latest'') m
     (map_put (pack_key (pm_name m) (pm_version m)) m (pc_manifests c)))\<rparr>"

text \<open>
  What the registries rely on in \<open>PackCacheV1\<close>. The client's invariant is \<open>intact\<close>: bytes
  are stored under their own digest.
\<close>

locale pack_cache_laws =
  fixes bytes_of :: "'c \<Rightarrow> string \<Rightarrow> nat list option"
    and put_bytes :: "'c \<Rightarrow> string \<Rightarrow> nat list \<Rightarrow> 'c"
    and manifest_of :: "'c \<Rightarrow> string \<Rightarrow> string \<Rightarrow> pack_manifest option"
    and put_manifest :: "'c \<Rightarrow> pack_manifest \<Rightarrow> 'c"
  assumes bytes_put: "bytes_of (put_bytes c d b) e = (if e = d then Some b else bytes_of c e)"
    and bytes_put_manifest: "bytes_of (put_manifest c m) e = bytes_of c e"
    and manifest_put: "manifest_of (put_manifest c m) (pm_name m) ''latest'' = Some m"
      "manifest_of (put_manifest c m) (pm_name m) (pm_version m) = Some m"
    and manifest_put_bytes: "manifest_of (put_bytes c d b) name version = manifest_of c name version"
begin

definition intact :: "sha256 \<Rightarrow> 'c \<Rightarrow> bool" where
  "intact sha c \<longleftrightarrow> (\<forall>d b. bytes_of c d = Some b \<longrightarrow> sha b = d)"

lemma intact_put_bytes: "intact sha c \<Longrightarrow> sha b = d \<Longrightarrow> intact sha (put_bytes c d b)"
  by (simp add: intact_def bytes_put)

lemma intact_put_manifest: "intact sha c \<Longrightarrow> intact sha (put_manifest c m)"
  by (simp add: intact_def bytes_put_manifest)

lemma intactD: "intact sha c \<Longrightarrow> bytes_of c d = Some b \<Longrightarrow> sha b = d"
  by (simp add: intact_def)

end

lemma pack_key_neq [simp]: "pack_key name version \<noteq> name" "name \<noteq> pack_key name version"
  by (simp_all add: pack_key_def)

interpretation memory_cache: pack_cache_laws get_bytes set_bytes get_manifest set_manifest
  by unfold_locales (auto simp: get_bytes_def set_bytes_def get_manifest_def set_manifest_def split: option.split)

section \<open>The in-memory registry\<close>

record pack_record =
  mp_manifest :: pack_manifest
  mp_bytes :: "nat list"
  mp_description :: "string option"

record mem_registry =
  mr_origin :: string
  mr_force :: bool
  mr_lockfile :: "lockfile option"
  mr_cache :: pack_cache
  mr_records :: "(string, pack_record) js_map"
  mr_latest :: "(string, string) js_map"

datatype pull_input = PullSpec spec_input | PullManifest pack_manifest

type_synonym pack_bytes = "pack_manifest \<times> nat list"

definition registry_add :: "mem_registry \<Rightarrow> pack_record \<Rightarrow> mem_registry result" where
  "registry_add r record =
     bind_res (check_manifest (mp_manifest record)) (\<lambda>m.
       Inr (r\<lparr>mr_records := map_put (pack_key (pm_name m) (pm_version m)) (record\<lparr>mp_manifest := m\<rparr>) (mr_records r),
              mr_latest := map_put (pm_name m) (pm_version m) (mr_latest r),
              mr_cache := set_bytes (set_manifest (mr_cache r) m) (pm_sha256 m) (mp_bytes record)\<rparr>))"

fun add_all :: "mem_registry \<Rightarrow> pack_record list \<Rightarrow> mem_registry result" where
  "add_all r [] = Inr r"
| "add_all r (p # ps) = bind_res (registry_add r p) (\<lambda>r'. add_all r' ps)"

definition make_registry :: "string option \<Rightarrow> bool \<Rightarrow> lockfile option \<Rightarrow> pack_cache option \<Rightarrow> pack_record list \<Rightarrow> mem_registry result" where
  "make_registry origin force lock cache packs =
     add_all \<lparr>mr_origin = (case origin of Some u \<Rightarrow> u | None \<Rightarrow> ''memory://packs''), mr_force = force, mr_lockfile = lock,
       mr_cache = (case cache of Some c \<Rightarrow> c | None \<Rightarrow> empty_cache), mr_records = [], mr_latest = []\<rparr> packs"

definition version_of :: "mem_registry \<Rightarrow> pack_spec \<Rightarrow> string option" where
  "version_of r s = (if ps_version s = ''latest'' then nonempty_string (map_of (mr_latest r) (ps_name s)) else Some (ps_version s))"

definition at_version :: "string \<Rightarrow> string \<Rightarrow> string" where
  "at_version name version = ''('' @ name @ ''@'' @ version @ '')''"

definition not_found :: "string \<Rightarrow> string \<Rightarrow> 'a result" where
  "not_found name version = harness_fail (''registry 404 not_found: pack version not found '' @ at_version name version)"

definition yanked_error :: "pack_manifest \<Rightarrow> 'a result" where
  "yanked_error m = harness_fail (''registry 410 yanked: Version yanked. '' @ at_version (pm_name m) (pm_version m))"

definition find_record :: "mem_registry \<Rightarrow> pack_spec \<Rightarrow> pack_record result" where
  "find_record r s =
     (case version_of r s of
        None \<Rightarrow> not_found (ps_name s) (ps_version s)
      | Some v \<Rightarrow> (case map_of (mr_records r) (pack_key (ps_name s) v) of
            None \<Rightarrow> not_found (ps_name s) (ps_version s)
          | Some record \<Rightarrow> Inr record))"

definition registry_resolve :: "mem_registry \<Rightarrow> spec_input \<Rightarrow> pack_manifest result \<times> mem_registry" where
  "registry_resolve r spec =
     (case bind_res (parse_pack_spec spec) (find_record r) of
        Inl e \<Rightarrow> (Inl e, r)
      | Inr record \<Rightarrow>
          if pm_yanked (mp_manifest record) \<and> \<not> mr_force r then (yanked_error (mp_manifest record), r)
          else (Inr (mp_manifest record), r\<lparr>mr_cache := set_manifest (mr_cache r) (mp_manifest record)\<rparr>))"

definition pull_manifest :: "mem_registry \<Rightarrow> pull_input \<Rightarrow> pack_manifest result \<times> mem_registry" where
  "pull_manifest r i = (case i of PullManifest m \<Rightarrow> (check_manifest m, r) | PullSpec s \<Rightarrow> registry_resolve r s)"

definition digest_mismatch :: "pack_manifest \<Rightarrow> string \<Rightarrow> 'a result" where
  "digest_mismatch m digest = harness_fail (''registry digest_mismatch: expected '' @ pm_sha256 m @ '', got '' @ digest)"

definition verify_record :: "sha256 \<Rightarrow> mem_registry \<Rightarrow> pack_manifest \<Rightarrow> nat list result" where
  "verify_record sha r m =
     (if pm_yanked m \<and> \<not> mr_force r then yanked_error m
      else case map_of (mr_records r) (pack_key (pm_name m) (pm_version m)) of
          None \<Rightarrow> not_found (pm_name m) (pm_version m)
        | Some record \<Rightarrow>
            if sha (mp_bytes record) \<noteq> pm_sha256 m then digest_mismatch m (sha (mp_bytes record))
            else bind_res (assert_lockfile_pin (mr_lockfile r) (pm_name m) (pm_sha256 m) (mr_force r)) (\<lambda>_. Inr (mp_bytes record)))"

definition registry_pull :: "sha256 \<Rightarrow> mem_registry \<Rightarrow> pull_input \<Rightarrow> pack_bytes result \<times> mem_registry" where
  "registry_pull sha r i =
     (case pull_manifest r i of
        (Inl e, r') \<Rightarrow> (Inl e, r')
      | (Inr m, r') \<Rightarrow>
          (case verify_record sha r' m of
             Inl e \<Rightarrow> (Inl e, r')
           | Inr bytes \<Rightarrow> (Inr (m, bytes), r'\<lparr>mr_cache := set_manifest (set_bytes (mr_cache r') (pm_sha256 m) bytes) m\<rparr>)))"

record publish_input =
  pi_manifest :: pack_manifest
  pi_bytes :: "nat list"
  pi_description :: "string option"

definition registry_publish :: "sha256 \<Rightarrow> mem_registry \<Rightarrow> publish_input \<Rightarrow> pack_manifest result \<times> mem_registry" where
  "registry_publish sha r inp =
     (let digest = sha (pi_bytes inp) in
      case check_manifest ((pi_manifest inp)\<lparr>pm_sha256 := or_default (pm_sha256 (pi_manifest inp)) digest, pm_yanked := False\<rparr>) of
        Inl e \<Rightarrow> (Inl e, r)
      | Inr m \<Rightarrow>
          if digest \<noteq> pm_sha256 m then (digest_mismatch m digest, r)
          else case registry_add r \<lparr>mp_manifest = m, mp_bytes = pi_bytes inp, mp_description = pi_description inp\<rparr> of
              Inl e \<Rightarrow> (Inl e, r)
            | Inr r' \<Rightarrow> (Inr m, r'))"

definition registry_yank :: "mem_registry \<Rightarrow> spec_input \<Rightarrow> pack_manifest result \<times> mem_registry" where
  "registry_yank r spec =
     (case bind_res (parse_pack_spec spec) (\<lambda>s. bind_res (find_record r s) (\<lambda>record. Inr (s, record))) of
        Inl e \<Rightarrow> (Inl e, r)
      | Inr (s, record) \<Rightarrow>
          let yanked = (mp_manifest record)\<lparr>pm_yanked := True\<rparr>;
              version = (case version_of r s of Some v \<Rightarrow> v | None \<Rightarrow> [])
          in (Inr yanked, r\<lparr>mr_records := map_put (pack_key (ps_name s) version) (record\<lparr>mp_manifest := yanked\<rparr>) (mr_records r),
                mr_cache := set_manifest (mr_cache r) yanked\<rparr>))"

record search_query =
  sq_q :: "string option"
  sq_license :: "string option"

record search_hit =
  sh_name :: string
  sh_publisher :: string
  sh_slug :: string
  sh_version :: string
  sh_sha256 :: string
  sh_state_root :: "string option"
  sh_license :: "string option"
  sh_description :: "string option"
  sh_yanked :: bool

definition search_matches :: "mem_registry \<Rightarrow> search_query \<Rightarrow> pack_record \<Rightarrow> string \<Rightarrow> bool" where
  "search_matches r query record publisher =
     (let m = mp_manifest record;
          needle = (case sq_q query of Some q \<Rightarrow> js_trim (js_lower q) | None \<Rightarrow> []);
          hay = js_lower (pm_name m @ '' '' @ publisher @ '' '' @ (case mp_description record of Some d \<Rightarrow> d | None \<Rightarrow> []))
      in (needle = [] \<or> js_includes hay needle)
         \<and> (case (nonempty_string (sq_license query), nonempty_string (pm_license m)) of
              (Some wanted, Some have) \<Rightarrow> js_includes have wanted | _ \<Rightarrow> True)
         \<and> (\<not> pm_yanked m \<or> mr_force r))"

definition hit_of :: "pack_record \<Rightarrow> pack_spec \<Rightarrow> search_hit" where
  "hit_of record s = (let m = mp_manifest record in
     \<lparr>sh_name = pm_name m, sh_publisher = ps_publisher s, sh_slug = ps_slug s, sh_version = pm_version m,
      sh_sha256 = pm_sha256 m, sh_state_root = nonempty_string (pm_state_root m), sh_license = nonempty_string (pm_license m),
      sh_description = nonempty_string (mp_description record), sh_yanked = pm_yanked m\<rparr>)"

fun search_loop :: "mem_registry \<Rightarrow> search_query \<Rightarrow> (string \<times> string) list \<Rightarrow> search_hit list result" where
  "search_loop r query [] = Inr []"
| "search_loop r query ((name, version) # rest) =
     (case map_of (mr_records r) (pack_key name version) of
        None \<Rightarrow> search_loop r query rest
      | Some record \<Rightarrow>
          bind_res (parse_pack_spec (SpecText name)) (\<lambda>s.
          bind_res (search_loop r query rest) (\<lambda>hits.
          Inr (if search_matches r query record (ps_publisher s) then hit_of record s # hits else hits))))"

definition registry_search :: "locale_compare \<Rightarrow> mem_registry \<Rightarrow> search_query \<Rightarrow> search_hit list result" where
  "registry_search lc r query = search_loop r query (js_sort (cmp_on fst lc) (mr_latest r))"

section \<open>The registry interface\<close>

text \<open>
  What the harness relies on in \<open>PackRegistryCapabilityV1\<close>: pulled bytes have the digest their
  manifest names.
\<close>

locale verified_registry =
  fixes pull :: "'r \<Rightarrow> pull_input \<Rightarrow> pack_bytes result \<times> 'r" and sha :: sha256 and ok :: "'r \<Rightarrow> bool"
  assumes pull_digest: "ok r \<Longrightarrow> pull r i = (Inr (m, bytes), r') \<Longrightarrow> sha bytes = pm_sha256 m"
    and pull_manifest_valid: "ok r \<Longrightarrow> pull r i = (Inr (m, bytes), r') \<Longrightarrow> valid_manifest m"
    and pull_ok: "ok r \<Longrightarrow> ok (snd (pull r i))"
begin

lemma pulled_pair_unique:
  assumes "ok r" "ok r'" "pull r i = (Inr (m, bytes), s)" "pull r' i' = (Inr (m', bytes'), s')"
    and "pm_sha256 m = pm_sha256 m'" "sha bytes = sha bytes' \<longrightarrow> bytes = bytes'"
  shows "bytes = bytes'"
  using pull_digest [OF assms(1,3)] pull_digest [OF assms(2,4)] assms(5,6) by simp

end

section \<open>Properties\<close>

text \<open>Records hold checked manifests; this is kept by every operation.\<close>

definition records_valid :: "mem_registry \<Rightarrow> bool" where
  "records_valid r \<longleftrightarrow> (\<forall>e \<in> set (mr_records r). valid_manifest (mp_manifest (snd e)))"

lemma records_valid_put:
  "records_valid r \<Longrightarrow> valid_manifest (mp_manifest p) \<Longrightarrow> records_valid (r\<lparr>mr_records := map_put k p (mr_records r)\<rparr>)"
  using set_map_put_subset [of k p "mr_records r"] by (fastforce simp: records_valid_def)

lemma records_valid_cong: "mr_records r' = mr_records r \<Longrightarrow> records_valid r' = records_valid r"
  by (simp add: records_valid_def)

lemma check_manifest_Inr: "check_manifest m = Inr m' \<Longrightarrow> valid_manifest m' \<and> m' = m"
proof -
  assume c: "check_manifest m = Inr m'"
  then have v: "valid_manifest m'" unfolding check_manifest_def by (rule validate_pack_manifest_valid)
  obtain es where es: "manifest_json m = JObj es" by (simp add: manifest_json_def)
  from c have "valid_manifest m"
    unfolding check_manifest_def es validate_pack_manifest.simps validate_manifest_entries_def
    by (elim bind_res_InrE)
       (use es in \<open>auto simp: required_string_Inr sha_string_Inr size_number_Inr valid_manifest_def manifest_json_def js_get_rules\<close>)
  from check_manifest_valid [OF this] c v show ?thesis by simp
qed

lemma resolve_frame:
  "registry_resolve r spec = (res, r') \<Longrightarrow> mr_records r' = mr_records r \<and> mr_force r' = mr_force r \<and> mr_lockfile r' = mr_lockfile r
     \<and> mr_latest r' = mr_latest r"
  by (auto simp: registry_resolve_def split: sum.splits if_splits)

lemma find_record_in: "find_record r s = Inr record \<Longrightarrow> record \<in> snd ` set (mr_records r)"
  by (auto simp: find_record_def not_found_def dest!: map_of_SomeD intro: rev_image_eqI split: option.splits)

lemma resolve_Inr:
  assumes "registry_resolve r spec = (Inr m, r')"
  obtains s stored where "parse_pack_spec spec = Inr s" "find_record r s = Inr stored" "m = mp_manifest stored"
    "pm_yanked m \<longrightarrow> mr_force r" "r' = r\<lparr>mr_cache := set_manifest (mr_cache r) m\<rparr>"
  using assms by (auto simp: registry_resolve_def bind_res_eq_Inr yanked_error_def split: sum.splits if_splits)

lemma pull_manifest_Inr:
  assumes "pull_manifest r i = (Inr m, r')" "records_valid r"
  shows "valid_manifest m \<and> mr_records r' = mr_records r \<and> mr_force r' = mr_force r \<and> mr_lockfile r' = mr_lockfile r"
proof (cases i)
  case (PullSpec s)
  with assms(1) have "registry_resolve r s = (Inr m, r')" by (simp add: pull_manifest_def)
  from resolve_Inr [OF this] resolve_frame [OF this] assms(2) show ?thesis
    by (auto simp: records_valid_def dest!: find_record_in)
next
  case (PullManifest m')
  with assms check_manifest_Inr show ?thesis by (auto simp: pull_manifest_def)
qed

lemma verify_record_Inr:
  "verify_record sha r m = Inr bytes \<Longrightarrow> sha bytes = pm_sha256 m \<and> (pm_yanked m \<longrightarrow> mr_force r)
     \<and> assert_lockfile_pin (mr_lockfile r) (pm_name m) (pm_sha256 m) (mr_force r) = Inr ()
     \<and> (\<exists>record. map_of (mr_records r) (pack_key (pm_name m) (pm_version m)) = Some record \<and> mp_bytes record = bytes)"
  by (auto simp: verify_record_def yanked_error_def not_found_def digest_mismatch_def bind_res_eq_Inr split: if_splits option.splits)

lemma registry_pull_Inr:
  assumes "registry_pull sha r i = (Inr (m, bytes), r')"
  obtains r1 where "pull_manifest r i = (Inr m, r1)" "verify_record sha r1 m = Inr bytes"
    "r' = r1\<lparr>mr_cache := set_manifest (set_bytes (mr_cache r1) (pm_sha256 m) bytes) m\<rparr>"
  using assms by (auto simp: registry_pull_def split: prod.splits sum.splits)

lemma registry_pull_records: "mr_records (snd (registry_pull sha r i)) = mr_records r"
proof -
  have "mr_records r' = mr_records r" if "pull_manifest r i = (res, r')" for res r'
    using that resolve_frame by (auto simp: pull_manifest_def split: pull_input.splits)
  then show ?thesis by (auto simp: registry_pull_def split: prod.splits sum.splits)
qed

interpretation memory_registry: verified_registry "registry_pull sha" sha records_valid for sha :: sha256
proof
  fix r i m bytes r'
  assume r: "records_valid r" and p: "registry_pull sha r i = (Inr (m, bytes), r')"
  from p show "sha bytes = pm_sha256 m" by (elim registry_pull_Inr) (auto dest: verify_record_Inr)
  from p r show "valid_manifest m" by (elim registry_pull_Inr) (auto dest: pull_manifest_Inr)
next
  fix r i
  show "records_valid r \<Longrightarrow> records_valid (snd (registry_pull sha r i))"
    using registry_pull_records records_valid_cong by blast
qed

text \<open>A lockfile pin allows a digest when it names the same one, when there is none, or by force.\<close>

lemma assert_lockfile_pin_iff:
  "assert_lockfile_pin lock name sha force = Inr () \<longleftrightarrow>
     force \<or> (\<forall>l p. lock = Some l \<longrightarrow> map_of (lf_packs l) name = Some p \<longrightarrow> lp_sha256 p = [] \<or> lp_sha256 p = sha)"
  by (cases lock) (auto simp: assert_lockfile_pin_def lockfile_pin_def split: option.splits)

text \<open>
  C15. A successful \<open>pull\<close> of the in-memory registry returns bytes whose SHA-256 is the digest in
  the manifest it returns, and, unless the registry was created with \<open>force\<close>, that manifest is
  not yanked and agrees with the lockfile's pin; afterwards the cache serves the same bytes and
  manifest.
\<close>

theorem registry_pull_verified:
  assumes "registry_pull sha r i = (Inr (m, bytes), r')"
  shows "sha bytes = pm_sha256 m
    \<and> (\<not> mr_force r \<longrightarrow> \<not> pm_yanked m
         \<and> (\<forall>l p. mr_lockfile r = Some l \<longrightarrow> map_of (lf_packs l) (pm_name m) = Some p \<longrightarrow> lp_sha256 p \<in> {[], pm_sha256 m}))
    \<and> get_bytes (mr_cache r') (pm_sha256 m) = Some bytes
    \<and> get_manifest (mr_cache r') (pm_name m) ''latest'' = Some m"
proof -
  obtain r1 where r1: "pull_manifest r i = (Inr m, r1)" "verify_record sha r1 m = Inr bytes"
    "r' = r1\<lparr>mr_cache := set_manifest (set_bytes (mr_cache r1) (pm_sha256 m) bytes) m\<rparr>"
    using assms by (rule registry_pull_Inr)
  have same: "mr_force r1 = mr_force r" "mr_lockfile r1 = mr_lockfile r"
    using r1(1) resolve_frame by (auto simp: pull_manifest_def split: pull_input.splits)
  have v: "sha bytes = pm_sha256 m" "pm_yanked m \<longrightarrow> mr_force r"
    "assert_lockfile_pin (mr_lockfile r) (pm_name m) (pm_sha256 m) (mr_force r) = Inr ()"
    using verify_record_Inr [OF r1(2)] same by auto
  have cache: "get_bytes (mr_cache r') (pm_sha256 m) = Some bytes" "get_manifest (mr_cache r') (pm_name m) ''latest'' = Some m"
    by (simp_all add: r1(3) memory_cache.bytes_put memory_cache.bytes_put_manifest memory_cache.manifest_put)
  show ?thesis using v cache by (auto simp: assert_lockfile_pin_iff)
qed

text \<open>
  C16. What is published can be pulled: after a successful \<open>publish\<close>, pulling the published name
  and version, where the lockfile allows the digest, returns the published manifest, not yanked, and
  the published bytes. A version named \<open>latest\<close> is left out: as a request it means the newest.
\<close>

theorem publish_then_pull:
  assumes "registry_publish sha r inp = (Inr m, r')"
    and "assert_lockfile_pin (mr_lockfile r) (pm_name m) (pm_sha256 m) (mr_force r) = Inr ()"
    and "ps_publisher s \<noteq> []" "ps_slug s \<noteq> []" "ps_name s = pm_name m" "ps_version s = pm_version m \<or> ps_version s = ''latest''"
    and "pm_version m \<noteq> ''latest''"
  shows "\<exists>r''. registry_pull sha r' (PullSpec (SpecObject s)) = (Inr (m, pi_bytes inp), r'') \<and> \<not> pm_yanked m"
proof -
  let ?rec = "\<lparr>mp_manifest = m, mp_bytes = pi_bytes inp, mp_description = pi_description inp\<rparr>"
  from assms(1) obtain m0 where m0: "check_manifest m0 = Inr m" "pm_yanked m0 = False" "sha (pi_bytes inp) = pm_sha256 m"
    "registry_add r ?rec = Inr r'"
    by (auto simp: registry_publish_def Let_def digest_mismatch_def split: sum.splits if_splits)
  have m: "m = m0" "valid_manifest m" using check_manifest_Inr [OF m0(1)] by auto
  have r': "r' = r\<lparr>mr_records := map_put (pack_key (pm_name m) (pm_version m)) ?rec (mr_records r),
        mr_latest := map_put (pm_name m) (pm_version m) (mr_latest r),
        mr_cache := set_bytes (set_manifest (mr_cache r) m) (pm_sha256 m) (pi_bytes inp)\<rparr>"
    using m0(4) check_manifest_valid [OF m(2)] by (simp add: registry_add_def)
  let ?s = "s\<lparr>ps_version := or_default (ps_version s) ''latest'', ps_name := or_default (ps_name s) (ps_publisher s @ ''/'' @ ps_slug s)\<rparr>"
  have ne: "pm_name m \<noteq> []" "pm_version m \<noteq> []" using m(2) by (simp_all add: valid_manifest_def)
  then have parse: "parse_pack_spec (SpecObject s) = Inr s"
    using assms(3-6) by (auto simp: or_default_def)
  have "version_of r' s = Some (pm_version m)"
    using assms(5-7) ne by (auto simp: version_of_def r' nonempty_string_def)
  then have "find_record r' s = Inr ?rec" using assms(5) by (simp add: find_record_def r')
  then have resolve: "pull_manifest r' (PullSpec (SpecObject s)) = (Inr m, r'\<lparr>mr_cache := set_manifest (mr_cache r') m\<rparr>)"
    using parse m(1) m0(2) by (simp add: pull_manifest_def registry_resolve_def)
  have "verify_record sha (r'\<lparr>mr_cache := set_manifest (mr_cache r') m\<rparr>) m = Inr (pi_bytes inp)"
    using assms(2) m0(2,3) m(1) by (simp add: verify_record_def r')
  with resolve m(1) m0(2) show ?thesis by (simp add: registry_pull_def)
qed

text \<open>
  After \<open>yank\<close>, the yanked version no longer resolves, nor does \<open>pull\<close> by spec return it,
  unless the registry was created with \<open>force\<close>: both fail with the 410 error.
\<close>

theorem yank_blocks_resolution:
  assumes "registry_yank r spec = (Inr m, r')" "parse_pack_spec spec = Inr s" "\<not> mr_force r"
  shows "registry_resolve r' spec = (yanked_error m, r') \<and> registry_pull sha r' (PullSpec spec) = (yanked_error m, r')"
proof -
  obtain stored where rec: "find_record r s = Inr stored"
    using assms(1,2) by (cases "find_record r s") (auto simp: registry_yank_def)
  then have m: "m = (mp_manifest stored)\<lparr>pm_yanked := True\<rparr>"
    and r': "r' = r\<lparr>mr_records := map_put (pack_key (ps_name s) (case version_of r s of Some v \<Rightarrow> v | None \<Rightarrow> [])) (stored\<lparr>mp_manifest := m\<rparr>) (mr_records r),
        mr_cache := set_manifest (mr_cache r) m\<rparr>"
    using assms(1,2) by (auto simp: registry_yank_def Let_def)
  from rec obtain v where "version_of r s = Some v" by (auto simp: find_record_def not_found_def split: option.splits)
  then have "find_record r' s = Inr (stored\<lparr>mp_manifest := m\<rparr>)"
    by (simp add: find_record_def r' version_of_def split: if_splits)
  then have "registry_resolve r' spec = (yanked_error m, r')"
    using assms(2,3) m by (simp add: registry_resolve_def r')
  then show ?thesis by (simp add: registry_pull_def pull_manifest_def yanked_error_def harness_fail_def)
qed

lemma takeWhile_slug:
  "list_all slug_char xs \<Longrightarrow> \<not> slug_char c \<Longrightarrow> takeWhile slug_char (xs @ c # ys) = xs \<and> dropWhile slug_char (xs @ c # ys) = c # ys"
  by (induction xs) auto

lemma not_slug_chars: "\<not> slug_char (CHR ''/'')" "\<not> slug_char (CHR ''@'')"
  by (simp_all add: slug_char_def)

lemma slug_not_ws: "slug_char c \<Longrightarrow> \<not> js_ws c"
  by (auto simp: slug_char_def js_ws_def Let_def)

lemma match_pack_spec_Some:
  assumes "match_pack_spec s = Some (p, g, v)"
  shows "p \<noteq> [] \<and> g \<noteq> [] \<and> list_all slug_char p \<and> list_all slug_char g
    \<and> s = p @ ''/'' @ g @ (case v of Some w \<Rightarrow> ''@'' @ w | None \<Rightarrow> [])
    \<and> (\<forall>w. v = Some w \<longrightarrow> w \<noteq> [] \<and> CHR ''@'' \<notin> set w)"
proof -
  obtain c rest where rest: "dropWhile slug_char s = c # rest"
    using assms by (auto simp: match_pack_spec_def Let_def split: list.splits)
  with assms have c: "c = CHR ''/''" and p: "p = takeWhile slug_char s" "p \<noteq> []"
    and g: "g = takeWhile slug_char rest" "g \<noteq> []" and v: "match_version (dropWhile slug_char rest) = Some v"
    by (auto simp: match_pack_spec_def Let_def split: if_splits)
  have "s = p @ c # rest" using takeWhile_dropWhile_id [of slug_char s] rest p(1) by simp
  moreover have "rest = g @ dropWhile slug_char rest" using takeWhile_dropWhile_id [of slug_char rest] g(1) by simp
  moreover have "dropWhile slug_char rest = (case v of Some w \<Rightarrow> ''@'' @ w | None \<Rightarrow> []) \<and> (\<forall>w. v = Some w \<longrightarrow> w \<noteq> [] \<and> CHR ''@'' \<notin> set w)"
    using v by (auto simp: match_version_def split: list.splits if_splits)
  moreover have "list_all slug_char p" "list_all slug_char g"
    unfolding p(1) g(1) by (auto simp: list_all_iff dest: set_takeWhileD)
  ultimately show ?thesis using c p(2) g(2) by (metis append_Cons append_Nil append_assoc)
qed

lemma match_pack_spec_print:
  assumes "p \<noteq> []" "g \<noteq> []" "list_all slug_char p" "list_all slug_char g" "w \<noteq> []" "CHR ''@'' \<notin> set w"
  shows "match_pack_spec (p @ ''/'' @ g @ ''@'' @ w) = Some (p, g, Some w)"
  using assms takeWhile_slug [OF assms(3) not_slug_chars(1), of "g @ ''@'' @ w"]
    takeWhile_slug [OF assms(4) not_slug_chars(2), of w]
  by (simp add: match_pack_spec_def match_version_def)

lemma js_trim_id: "s \<noteq> [] \<Longrightarrow> \<not> js_ws (hd s) \<Longrightarrow> \<not> js_ws (last s) \<Longrightarrow> js_trim s = s"
proof -
  assume s: "s \<noteq> []" "\<not> js_ws (hd s)" "\<not> js_ws (last s)"
  then have "dropWhile js_ws s = s" by (cases s) simp_all
  moreover have "dropWhile js_ws (rev s) = rev s" using s by (cases "rev s") (auto simp: hd_rev [symmetric])
  ultimately show ?thesis by (simp add: js_trim_def)
qed

lemma last_js_trim: "js_trim s \<noteq> [] \<Longrightarrow> \<not> js_ws (last (js_trim s))"
  unfolding js_trim_def by (metis hd_dropWhile last_rev rev_is_Nil_conv)

text \<open>
  Printing and parsing specs agree: reading a spec text yields a publisher, slug and version
  that, printed as \<open>publisher/slug@version\<close>, read back as the same spec.
\<close>

theorem pack_spec_roundtrip:
  assumes "parse_pack_spec (SpecText s) = Inr spec"
  shows "parse_pack_spec (SpecText (ps_publisher spec @ ''/'' @ ps_slug spec @ ''@'' @ ps_version spec)) = Inr spec
    \<and> parse_pack_spec (SpecObject spec) = Inr spec"
proof -
  from assms obtain p g v where m: "match_pack_spec (js_trim s) = Some (p, g, v)"
    and spec: "spec = \<lparr>ps_publisher = p, ps_slug = g, ps_version = (case v of Some v \<Rightarrow> v | None \<Rightarrow> ''latest''), ps_name = p @ ''/'' @ g\<rparr>"
    by (auto split: option.splits)
  note parts = match_pack_spec_Some [OF m]
  let ?w = "case v of Some v \<Rightarrow> v | None \<Rightarrow> ''latest''"
  have w: "?w \<noteq> []" "CHR ''@'' \<notin> set ?w" using parts by (auto split: option.splits)
  have "\<not> js_ws (last ?w)"
  proof (cases v)
    case None
    then show ?thesis by (simp add: js_ws_def)
  next
    case (Some u)
    with parts have "js_trim s \<noteq> []" "last (js_trim s) = last u" by auto
    with last_js_trim [of s] Some show ?thesis by simp
  qed
  then have "js_trim (p @ ''/'' @ g @ ''@'' @ ?w) = p @ ''/'' @ g @ ''@'' @ ?w"
    using parts w by (intro js_trim_id) (auto simp: slug_not_ws hd_append list_all_iff)
  with match_pack_spec_print [of p g ?w] parts w have "parse_pack_spec (SpecText (p @ ''/'' @ g @ ''@'' @ ?w)) = Inr spec"
    by (simp add: spec)
  moreover have "parse_pack_spec (SpecObject spec) = Inr spec"
    using parts w by (simp add: spec or_default_def)
  ultimately show ?thesis by (simp add: spec)
qed

text \<open>
  A manifest that was accepted is accepted again, unchanged: what \<open>validatePackManifest\<close>
  returns is a fixed point of it, whatever was expected the first time.
\<close>

theorem manifest_roundtrip:
  assumes "validate_pack_manifest v name version = Inr m"
  shows "validate_pack_manifest (manifest_json m) None None = Inr m"
  using check_manifest_valid [OF validate_pack_manifest_valid [OF assms]] by (simp add: check_manifest_def)

section \<open>Offline\<close>

definition is_remote :: "string option \<Rightarrow> bool" where
  "is_remote origin = (case origin of None \<Rightarrow> False
     | Some u \<Rightarrow> js_starts_with (js_lower u) ''http://'' \<or> js_starts_with (js_lower u) ''https://'')"

definition pinned_manifest :: "string \<Rightarrow> lock_pack \<Rightarrow> int \<Rightarrow> pack_manifest" where
  "pinned_manifest name pin bytes = \<lparr>pm_name = name, pm_version = lp_version pin, pm_sha256 = lp_sha256 pin,
     pm_state_root = nonempty_string (lp_state_root pin), pm_url = [], pm_license = nonempty_string (lp_license pin),
     pm_size_bytes = bytes, pm_yanked = False, pm_format = None\<rparr>"

definition cached_bytes :: "pack_cache option \<Rightarrow> string \<Rightarrow> nat list option" where
  "cached_bytes cache sha = Option.bind cache (\<lambda>c. get_bytes c sha)"

definition offline_resolve ::
  "(spec_input \<Rightarrow> pack_manifest result) \<Rightarrow> string option \<Rightarrow> pack_cache option \<Rightarrow> lockfile option \<Rightarrow> spec_input \<Rightarrow> pack_manifest result" where
  "offline_resolve inner origin cache lock spec =
     (if \<not> is_remote origin then inner spec
      else bind_res (parse_pack_spec spec) (\<lambda>s.
        case Option.bind cache (\<lambda>c. get_manifest c (ps_name s) (ps_version s)) of
          Some m \<Rightarrow> Inr m
        | None \<Rightarrow>
            (case Option.bind lock (\<lambda>l. lockfile_pin l (ps_name s)) of
               Some pin \<Rightarrow>
                 if ps_version s = ''latest'' \<or> ps_version s = lp_version pin
                 then Inr (pinned_manifest (ps_name s) pin
                        (case cached_bytes cache (lp_sha256 pin) of Some b \<Rightarrow> int (length b) | None \<Rightarrow> 0))
                 else harness_fail (''registry is offline; no cached manifest for '' @ pack_key (ps_name s) (ps_version s))
             | None \<Rightarrow> harness_fail (''registry is offline; no cached manifest for '' @ pack_key (ps_name s) (ps_version s)))))"

definition offline_pull ::
  "(spec_input \<Rightarrow> pack_manifest result) \<Rightarrow> (pull_input \<Rightarrow> pack_bytes result) \<Rightarrow> string option \<Rightarrow> pack_cache option \<Rightarrow> lockfile option
     \<Rightarrow> pull_input \<Rightarrow> pack_bytes result" where
  "offline_pull inner_resolve inner_pull origin cache lock i =
     (if \<not> is_remote origin then inner_pull i
      else bind_res (case i of PullManifest m \<Rightarrow> Inr m | PullSpec s \<Rightarrow> offline_resolve inner_resolve origin cache lock s) (\<lambda>m.
        case cached_bytes cache (pm_sha256 m) of
          Some bytes \<Rightarrow> Inr (m, bytes)
        | None \<Rightarrow> harness_fail (''registry is offline; no cached bytes for '' @ pack_key (pm_name m) (pm_version m))))"

definition offline_search :: "(search_query \<Rightarrow> search_hit list result) \<Rightarrow> string option \<Rightarrow> search_query \<Rightarrow> search_hit list result" where
  "offline_search inner origin query =
     (if \<not> is_remote origin then inner query else harness_fail ''registry search is unavailable offline'')"

definition offline_publish :: "publish_input \<Rightarrow> pack_manifest result" where
  "offline_publish inp = harness_fail ''registry publish is unavailable offline''"

definition offline_yank :: "spec_input \<Rightarrow> pack_manifest result" where
  "offline_yank spec = harness_fail ''registry yank is unavailable offline''"

text \<open>
  Offline, over a remote registry, a pull is answered from the cache alone, whatever the remote
  registry would do: the bytes are the cached ones for the manifest's digest, and over an intact
  cache their SHA-256 is that digest.
\<close>

theorem offline_pull_cached:
  assumes "is_remote origin" "offline_pull inner_resolve inner_pull origin cache lock i = Inr (m, bytes)"
  shows "(\<exists>c. cache = Some c \<and> get_bytes c (pm_sha256 m) = Some bytes \<and> (memory_cache.intact sha c \<longrightarrow> sha bytes = pm_sha256 m))
    \<and> offline_pull inner_resolve' inner_pull' origin cache lock i = Inr (m, bytes)"
proof -
  have same: "offline_resolve inner_resolve' origin cache lock s = offline_resolve inner_resolve origin cache lock s" for s
    using assms(1) by (simp add: offline_resolve_def)
  have "cached_bytes cache (pm_sha256 m) = Some bytes"
    using assms by (auto simp: offline_pull_def bind_res_eq_Inr split: option.splits)
  then obtain c where "cache = Some c" "get_bytes c (pm_sha256 m) = Some bytes"
    by (cases cache) (auto simp: cached_bytes_def)
  moreover have "offline_pull inner_resolve' inner_pull' origin cache lock i = Inr (m, bytes)"
    using assms by (simp add: offline_pull_def same cong: pull_input.case_cong)
  ultimately show ?thesis using memory_cache.intactD by blast
qed

section \<open>Concrete runs\<close>

definition some_digest :: string where
  "some_digest = replicate 64 CHR ''a''"

definition demo_manifest :: pack_manifest where
  "demo_manifest = \<lparr>pm_name = ''acme/tax'', pm_version = ''1.0'', pm_sha256 = some_digest, pm_state_root = None, pm_url = ''u'',
     pm_license = None, pm_size_bytes = 2, pm_yanked = False, pm_format = Some V4\<rparr>"

definition const_sha :: sha256 where
  "const_sha bytes = some_digest"

definition empty_registry :: mem_registry where
  "empty_registry = \<lparr>mr_origin = ''memory://packs'', mr_force = False, mr_lockfile = None, mr_cache = empty_cache,
     mr_records = [], mr_latest = []\<rparr>"

definition demo_publish :: publish_input where
  "demo_publish = \<lparr>pi_manifest = demo_manifest, pi_bytes = [1, 2], pi_description = None\<rparr>"

definition demo_spec_input :: pack_spec where
  "demo_spec_input = \<lparr>ps_publisher = ''acme'', ps_slug = ''tax'', ps_version = ''1.0'', ps_name = ''acme/tax''\<rparr>"

lemma demo_manifest_valid: "valid_manifest demo_manifest"
proof -
  have "is_sha256 some_digest" by code_simp
  then show ?thesis by (simp add: valid_manifest_def demo_manifest_def is_safe_integer_def max_safe_integer_def)
qed

definition published_registry :: mem_registry where
  "published_registry = empty_registry\<lparr>
     mr_records := [(pack_key ''acme/tax'' ''1.0'', \<lparr>mp_manifest = demo_manifest, mp_bytes = [1, 2], mp_description = None\<rparr>)],
     mr_latest := [(''acme/tax'', ''1.0'')],
     mr_cache := set_bytes (set_manifest empty_cache demo_manifest) some_digest [1, 2]\<rparr>"

lemma demo_published: "registry_publish const_sha empty_registry demo_publish = (Inr demo_manifest, published_registry)"
proof -
  have m: "(pi_manifest demo_publish)\<lparr>pm_sha256 := or_default (pm_sha256 (pi_manifest demo_publish)) (const_sha (pi_bytes demo_publish)), pm_yanked := False\<rparr>
      = demo_manifest"
    by (simp add: demo_publish_def demo_manifest_def or_default_def some_digest_def)
  have sha: "const_sha (pi_bytes demo_publish) = pm_sha256 demo_manifest" by (simp add: const_sha_def demo_manifest_def)
  have "registry_add empty_registry \<lparr>mp_manifest = demo_manifest, mp_bytes = pi_bytes demo_publish, mp_description = pi_description demo_publish\<rparr>
      = Inr published_registry"
    by (simp add: registry_add_def check_manifest_valid [OF demo_manifest_valid] published_registry_def demo_publish_def
        empty_registry_def map_put_def) (simp add: demo_manifest_def)
  then show ?thesis
    unfolding registry_publish_def Let_def m check_manifest_valid [OF demo_manifest_valid] sum.case by (simp add: sha)
qed

theorem publish_then_pull_witness:
  "\<exists>r. registry_pull const_sha published_registry (PullSpec (SpecObject demo_spec_input)) = (Inr (demo_manifest, [1, 2]), r)"
  using publish_then_pull [OF demo_published, of demo_spec_input]
  by (simp add: demo_spec_input_def demo_publish_def assert_lockfile_pin_def empty_registry_def demo_manifest_def)

lemma demo_pulled:
  "registry_pull const_sha published_registry (PullManifest demo_manifest)
     = (Inr (demo_manifest, [1, 2]), snd (registry_pull const_sha published_registry (PullManifest demo_manifest)))"
proof -
  have "verify_record const_sha published_registry demo_manifest = Inr [1, 2]"
    by (simp add: published_registry_def empty_registry_def verify_record_def demo_manifest_def const_sha_def assert_lockfile_pin_def)
  then show ?thesis
    by (simp add: registry_pull_def pull_manifest_def check_manifest_valid [OF demo_manifest_valid])
qed

theorem registry_pull_verified_witness:
  "const_sha [1, 2] = pm_sha256 demo_manifest"
  using registry_pull_verified [OF demo_pulled] by blast

theorem pack_spec_roundtrip_witness:
  "\<exists>s. parse_pack_spec (SpecText '' acme/tax@1.0'') = Inr s
     \<and> parse_pack_spec (SpecText (ps_publisher s @ ''/'' @ ps_slug s @ ''@'' @ ps_version s)) = Inr s"
proof -
  have "\<not> isl (parse_pack_spec (SpecText '' acme/tax@1.0''))" by code_simp
  then obtain s where s: "parse_pack_spec (SpecText '' acme/tax@1.0'') = Inr s"
    by (cases "parse_pack_spec (SpecText '' acme/tax@1.0'')") simp_all
  from pack_spec_roundtrip [OF s] s show ?thesis by blast
qed

theorem manifest_roundtrip_witness:
  "validate_pack_manifest (manifest_json demo_manifest) None None = Inr demo_manifest"
  using manifest_roundtrip [OF check_manifest_valid [OF demo_manifest_valid, unfolded check_manifest_def]] .

theorem yank_blocks_resolution_witness:
  "\<exists>m r. registry_yank published_registry (SpecObject demo_spec_input) = (Inr m, r)
     \<and> registry_resolve r (SpecObject demo_spec_input) = (yanked_error m, r)"
proof -
  have s: "parse_pack_spec (SpecObject demo_spec_input) = Inr demo_spec_input"
    by (simp add: demo_spec_input_def or_default_def)
  have f: "\<not> mr_force published_registry" by (simp add: published_registry_def empty_registry_def)
  obtain r0 where "registry_pull const_sha published_registry (PullSpec (SpecObject demo_spec_input)) = (Inr (demo_manifest, [1, 2]), r0)"
    using publish_then_pull_witness by blast
  then obtain r1 where "registry_resolve published_registry (SpecObject demo_spec_input) = (Inr demo_manifest, r1)"
    by (elim registry_pull_Inr) (simp add: pull_manifest_def)
  from resolve_Inr [OF this] s obtain stored where "find_record published_registry demo_spec_input = Inr stored" by auto
  then obtain m r where "registry_yank published_registry (SpecObject demo_spec_input) = (Inr m, r)"
    using s by (simp add: registry_yank_def Let_def)
  with yank_blocks_resolution [OF this s f] show ?thesis by blast
qed

theorem offline_pull_cached_witness:
  "get_bytes (set_bytes empty_cache some_digest [1, 2]) (pm_sha256 demo_manifest) = Some [1, 2]"
proof -
  have r: "is_remote (Some ''https://hub'')" by code_simp
  have "pm_sha256 demo_manifest = some_digest" by (simp add: demo_manifest_def)
  with r have p: "offline_pull (\<lambda>s. harness_fail []) (\<lambda>i. harness_fail []) (Some ''https://hub'')
      (Some (set_bytes empty_cache some_digest [1, 2])) None (PullManifest demo_manifest) = Inr (demo_manifest, [1, 2])"
    by (simp add: offline_pull_def cached_bytes_def memory_cache.bytes_put)
  from offline_pull_cached [OF r p, THEN conjunct1] show ?thesis by blast
qed

text \<open>
  The pin is not consulted offline: a cached manifest answers \<open>resolve\<close> although the lockfile
  pins the pack to another digest.
\<close>

lemma offline_ignores_pin:
  "offline_resolve inner (Some ''https://hub'') (Some (set_manifest empty_cache demo_manifest))
     (Some \<lparr>lf_registry = None, lf_packs = [(''acme/tax'', \<lparr>lp_version = ''1.0'', lp_sha256 = replicate 64 CHR ''b'',
        lp_state_root = None, lp_license = None\<rparr>)]\<rparr>) (SpecObject demo_spec_input) = Inr demo_manifest
   \<and> pm_sha256 demo_manifest \<noteq> replicate 64 CHR ''b''"
proof -
  have r: "is_remote (Some ''https://hub'')" by code_simp
  have "get_manifest (set_manifest empty_cache demo_manifest) ''acme/tax'' ''1.0'' = Some demo_manifest"
    using memory_cache.manifest_put(2) [of empty_cache demo_manifest] by (simp add: demo_manifest_def)
  with r have "offline_resolve inner (Some ''https://hub'') (Some (set_manifest empty_cache demo_manifest)) lock (SpecObject demo_spec_input)
      = Inr demo_manifest" for lock
    by (simp add: offline_resolve_def demo_spec_input_def or_default_def)
  moreover have "hd some_digest \<noteq> hd (replicate 64 CHR ''b'')" by (simp add: some_digest_def)
  then have "some_digest \<noteq> replicate 64 CHR ''b''" by metis
  ultimately show ?thesis by (simp only: demo_manifest_def pack_manifest.simps simp_thms)
qed

text \<open>
  \<open>pull\<close> with a manifest taken before the version was yanked still returns the bytes: only the
  caller's copy of the \<open>yanked\<close> flag is looked at.
\<close>

lemma stale_manifest_pulls_yanked:
  assumes "registry_yank published_registry (SpecObject demo_spec_input) = (Inr m, r)"
  shows "\<exists>r'. registry_pull const_sha r (PullManifest demo_manifest) = (Inr (demo_manifest, [1, 2]), r')"
proof -
  let ?key = "pack_key ''acme/tax'' ''1.0''"
  have "map_of (mr_records r) ?key = Some \<lparr>mp_manifest = m, mp_bytes = [1, 2], mp_description = None\<rparr>"
    "mr_lockfile r = None"
    using assms by (auto simp: registry_yank_def published_registry_def empty_registry_def demo_spec_input_def or_default_def
        find_record_def version_of_def Let_def)
  then have "verify_record const_sha r demo_manifest = Inr [1, 2]"
    by (simp add: verify_record_def demo_manifest_def const_sha_def assert_lockfile_pin_def)
  then show ?thesis
    by (simp add: registry_pull_def pull_manifest_def check_manifest_valid [OF demo_manifest_valid])
qed

end
