(* ===== verification/Skill_Definition.thy ===== *)
theory Skill_Definition
  imports Pack_Registry
begin

text \<open>
  Skill definitions (\<open>skills/types.ts\<close>, \<open>skills/definition.ts\<close>): the shape check of an
  untyped definition, its normal form and its content hash. A definition arrives as JSON, from a
  pack or from the host, and leaves as the record \<open>skill_definition\<close>.
\<close>

record skill_provenance =
  sp_pack_id :: string
  sp_digest :: "string option"
  sp_publisher :: "string option"

text \<open>The members \<open>input\<close> and \<open>output\<close> of \<open>schemas\<close>, each \<open>JUndef\<close> when absent.\<close>

type_synonym skill_schemas = "jsval \<times> jsval"

record skill_definition =
  sd_id :: string
  sd_version :: string
  sd_name :: "string option"
  sd_triggers :: "string list"
  sd_domains :: "string list"
  sd_schemas :: "skill_schemas option"
  sd_instructions :: string
  sd_required_capabilities :: "string list"
  sd_required_tools :: "string list"
  sd_knowledge_refs :: "string list"
  sd_provenance :: skill_provenance
  sd_content_hash :: "string option"

section \<open>validateSkillShape\<close>

text \<open>The own members of a value of type \<open>object\<close>; an array has none of those that are read.\<close>

fun members_of :: "jsval \<Rightarrow> (string \<times> jsval) list" where
  "members_of (JObj es) = es"
| "members_of _ = []"

fun is_objectlike :: "jsval \<Rightarrow> bool" where
  "is_objectlike (JObj es) = True"
| "is_objectlike (JArr xs) = True"
| "is_objectlike _ = False"

text \<open>\<open>String(v)\<close>, for the messages.\<close>

fun js_text :: "jsval \<Rightarrow> string" where
  "js_text JUndef = ''undefined''"
| "js_text JNull = ''null''"
| "js_text (JBool b) = (if b then ''true'' else ''false'')"
| "js_text (JNum n) = dec_int n"
| "js_text (JFrac s) = s"
| "js_text (JStr s) = s"
| "js_text (JArr xs) = js_join '','' (map (\<lambda>v. if v = JUndef \<or> v = JNull then [] else js_text v) xs)"
| "js_text (JObj es) = ''[object Object]''"

definition skill_label :: "string \<Rightarrow> string" where
  "skill_label i = ''skill '' @ quoted i @ '' ''"

definition identifier_string :: "string \<Rightarrow> jsval \<Rightarrow> string result" where
  "identifier_string msg v = (case v of JStr s \<Rightarrow> if is_identifier s then Inr s else harness_fail msg | _ \<Rightarrow> harness_fail msg)"

definition nonblank_string :: "string \<Rightarrow> jsval \<Rightarrow> string result" where
  "nonblank_string msg v = (case v of JStr s \<Rightarrow> if js_trim s = [] then harness_fail msg else Inr s | _ \<Rightarrow> harness_fail msg)"

definition string_list :: "string \<Rightarrow> string \<Rightarrow> jsval \<Rightarrow> string list result" where
  "string_list i field v =
     (let fail = harness_fail (skill_label i @ field @ '' must be an array of strings'') in
      case v of JArr xs \<Rightarrow> (case strings_of xs of Some ss \<Rightarrow> Inr ss | None \<Rightarrow> fail) | _ \<Rightarrow> fail)"

definition some_string :: "jsval \<Rightarrow> string option" where
  "some_string v = (case v of JStr s \<Rightarrow> nonempty_string (Some s) | _ \<Rightarrow> None)"

definition trimmed_name :: "jsval \<Rightarrow> string option" where
  "trimmed_name v = (case v of JStr s \<Rightarrow> nonempty_string (Some (js_trim s)) | _ \<Rightarrow> None)"

definition validate_provenance :: "string \<Rightarrow> jsval \<Rightarrow> skill_provenance result" where
  "validate_provenance i v =
     (let es = members_of v in
      bind_res (guard_harness (js_get es ''source'' \<noteq> JStr ''local-pack'') (skill_label i @ ''provenance.source must be local-pack'')) (\<lambda>_.
      bind_res (identifier_string (skill_label i @ ''provenance.packId is not a valid identifier'') (js_get es ''packId'')) (\<lambda>p.
      Inr \<lparr>sp_pack_id = p, sp_digest = some_string (js_get es ''digest''), sp_publisher = some_string (js_get es ''publisher'')\<rparr>)))"

definition validate_schemas :: "string \<Rightarrow> jsval \<Rightarrow> skill_schemas option result" where
  "validate_schemas i v =
     (if \<not> js_truthy v then Inr None
      else case v of
          JObj es \<Rightarrow> Inr (Some (js_get es ''input'', js_get es ''output''))
        | _ \<Rightarrow> harness_fail (skill_label i @ ''schemas must be an object''))"

definition validate_skill_shape :: "jsval \<Rightarrow> skill_definition result" where
  "validate_skill_shape v =
     (let es = members_of v in
      bind_res (guard_harness (\<not> is_objectlike v) ''skill definition must be an object'') (\<lambda>_.
      bind_res (guard_harness (js_get es ''version'' \<noteq> JNum 1) ''skill definition version must be 1'') (\<lambda>_.
      bind_res (identifier_string (''skill id is not a valid identifier: '' @ js_text (js_get es ''id'')) (js_get es ''id'')) (\<lambda>i.
      bind_res (nonblank_string (skill_label i @ ''skillVersion is required'') (js_get es ''skillVersion'')) (\<lambda>version.
      bind_res (nonblank_string (skill_label i @ ''instructions must be a non-empty string'') (js_get es ''instructions'')) (\<lambda>instructions.
      bind_res (validate_provenance i (js_get es ''provenance'')) (\<lambda>provenance.
      bind_res (string_list i ''triggers'' (js_get es ''triggers'')) (\<lambda>triggers.
      bind_res (string_list i ''domains'' (js_get es ''domains'')) (\<lambda>domains.
      bind_res (validate_schemas i (js_get es ''schemas'')) (\<lambda>schemas.
      bind_res (string_list i ''requiredCapabilities'' (js_get es ''requiredCapabilities'')) (\<lambda>capabilities.
      bind_res (string_list i ''requiredTools'' (js_get es ''requiredTools'')) (\<lambda>tools.
      bind_res (string_list i ''knowledgeRefs'' (js_get es ''knowledgeRefs'')) (\<lambda>refs.
      Inr \<lparr>sd_id = i, sd_version = js_trim version, sd_name = trimmed_name (js_get es ''name''), sd_triggers = triggers,
           sd_domains = domains, sd_schemas = schemas, sd_instructions = instructions,
           sd_required_capabilities = capabilities, sd_required_tools = tools, sd_knowledge_refs = refs,
           sd_provenance = provenance, sd_content_hash = some_string (js_get es ''contentHash'')\<rparr>)))))))))))))"

section \<open>Definitions as JSON, and their hash\<close>

definition strings_json :: "string list \<Rightarrow> jsval" where
  "strings_json xs = JArr (map JStr xs)"

definition json_member :: "string \<Rightarrow> jsval \<Rightarrow> (string \<times> jsval) list" where
  "json_member k v = (if v = JUndef then [] else [(k, v)])"

definition skill_provenance_json :: "skill_provenance \<Rightarrow> jsval" where
  "skill_provenance_json p = JObj ([(''source'', JStr ''local-pack''), (''packId'', JStr (sp_pack_id p))]
     @ string_member ''digest'' (sp_digest p) @ string_member ''publisher'' (sp_publisher p))"

definition schemas_member :: "skill_schemas option \<Rightarrow> (string \<times> jsval) list" where
  "schemas_member s = (case s of
       Some (i, out) \<Rightarrow> [(''schemas'', JObj (json_member ''input'' i @ json_member ''output'' out))]
     | None \<Rightarrow> [])"

definition skill_json :: "skill_definition \<Rightarrow> jsval" where
  "skill_json s = JObj ([(''version'', JNum 1), (''id'', JStr (sd_id s)), (''skillVersion'', JStr (sd_version s))]
     @ string_member ''name'' (sd_name s)
     @ [(''triggers'', strings_json (sd_triggers s)), (''domains'', strings_json (sd_domains s))]
     @ schemas_member (sd_schemas s)
     @ [(''instructions'', JStr (sd_instructions s)),
        (''requiredCapabilities'', strings_json (sd_required_capabilities s)),
        (''requiredTools'', strings_json (sd_required_tools s)),
        (''knowledgeRefs'', strings_json (sd_knowledge_refs s)),
        (''provenance'', skill_provenance_json (sd_provenance s))]
     @ string_member ''contentHash'' (sd_content_hash s))"

definition hash_skill_definition :: "sha256 \<Rightarrow> skill_definition \<Rightarrow> string" where
  "hash_skill_definition sha s = sha256_hex sha (skill_json (s\<lparr>sd_content_hash := None\<rparr>))"

definition normalize_skill_definition :: "sha256 \<Rightarrow> jsval \<Rightarrow> skill_definition result" where
  "normalize_skill_definition sha v =
     bind_res (validate_skill_shape v) (\<lambda>s.
       let hash = hash_skill_definition sha s in
       case sd_content_hash s of
         None \<Rightarrow> Inr (s\<lparr>sd_content_hash := Some hash\<rparr>)
       | Some h \<Rightarrow> if h \<noteq> hash then harness_fail (skill_label (sd_id s) @ ''contentHash does not match canonical definition'')
           else Inr (s\<lparr>sd_content_hash := Some hash\<rparr>))"

section \<open>Well-formed definitions\<close>

lemma hd_js_trim: "js_trim s \<noteq> [] \<Longrightarrow> \<not> js_ws (hd (js_trim s))"
proof -
  let ?t = "dropWhile js_ws s"
  assume ne: "js_trim s \<noteq> []"
  obtain zs where t: "?t = js_trim s @ zs"
    unfolding js_trim_def by (metis rev_append rev_rev_ident takeWhile_dropWhile_id)
  with ne have "hd (js_trim s) = hd ?t" "?t \<noteq> []" by (simp_all add: hd_append)
  with hd_dropWhile [of js_ws s] show ?thesis by simp
qed

lemma js_trim_idem [simp]: "js_trim (js_trim s) = js_trim s"
proof (cases "js_trim s = []")
  case True
  then show ?thesis by (simp add: js_trim_def [of "[]"])
next
  case False
  then show ?thesis using hd_js_trim [of s] last_js_trim [of s] by (intro js_trim_id)
qed

definition valid_skill :: "skill_definition \<Rightarrow> bool" where
  "valid_skill s \<longleftrightarrow>
     is_identifier (sd_id s) \<and> sd_version s \<noteq> [] \<and> js_trim (sd_version s) = sd_version s
     \<and> (\<forall>n. sd_name s = Some n \<longrightarrow> n \<noteq> [] \<and> js_trim n = n)
     \<and> js_trim (sd_instructions s) \<noteq> [] \<and> is_identifier (sp_pack_id (sd_provenance s))
     \<and> sp_digest (sd_provenance s) \<noteq> Some [] \<and> sp_publisher (sd_provenance s) \<noteq> Some [] \<and> sd_content_hash s \<noteq> Some []"

lemma identifier_string_Inr: "identifier_string msg v = Inr s \<longleftrightarrow> v = JStr s \<and> is_identifier s"
  by (cases v) (auto simp: identifier_string_def)

lemma nonblank_string_Inr: "nonblank_string msg v = Inr s \<longleftrightarrow> v = JStr s \<and> js_trim s \<noteq> []"
  by (cases v) (auto simp: nonblank_string_def)

lemma some_string_nonempty: "some_string v \<noteq> Some []"
  by (cases v) (auto simp: some_string_def nonempty_string_def)

lemma trimmed_name_Some: "trimmed_name v = Some n \<Longrightarrow> n \<noteq> [] \<and> js_trim n = n"
  by (cases v) (auto simp: trimmed_name_def nonempty_string_def split: if_splits)

lemma validate_skill_shape_valid:
  assumes "validate_skill_shape v = Inr s"
  shows "valid_skill s"
  using assms unfolding validate_skill_shape_def validate_provenance_def Let_def
  by (elim bind_res_InrE)
     (simp only: identifier_string_Inr nonblank_string_Inr sum.inject,
      auto simp: valid_skill_def some_string_nonempty dest: trimmed_name_Some)

lemma js_get_schemas_member:
  "js_get (schemas_member s @ es) j = (if j = ''schemas'' then (case s of
      Some (i, out) \<Rightarrow> JObj (json_member ''input'' i @ json_member ''output'' out) | None \<Rightarrow> js_get es j) else js_get es j)"
  by (auto simp: schemas_member_def js_get_Cons split: option.splits)

lemma js_get_json_members:
  "js_get (json_member ''input'' i @ json_member ''output'' out) ''input'' = i"
  "js_get (json_member ''input'' i @ json_member ''output'' out) ''output'' = out"
  by (simp_all add: json_member_def js_get_def)

lemma string_list_json: "string_list i field (strings_json xs) = Inr xs"
  by (simp add: string_list_def strings_json_def)

lemma some_string_member:
  "s \<noteq> Some [] \<Longrightarrow> some_string (case s of Some x \<Rightarrow> JStr x | None \<Rightarrow> JUndef) = s"
  by (cases s) (simp_all add: some_string_def nonempty_string_def)

lemma validate_provenance_json:
  assumes "is_identifier (sp_pack_id p)" "sp_digest p \<noteq> Some []" "sp_publisher p \<noteq> Some []"
  shows "validate_provenance i (skill_provenance_json p) = Inr p"
  using assms
  by (cases p; cases "sp_digest p"; cases "sp_publisher p")
     (simp_all add: validate_provenance_def skill_provenance_json_def Let_def js_get_def string_member_def guard_harness_def
        identifier_string_def some_string_def nonempty_string_def)

lemma validate_schemas_json:
  "validate_schemas i (case s of Some (x, y) \<Rightarrow> JObj (json_member ''input'' x @ json_member ''output'' y) | None \<Rightarrow> JUndef) = Inr s"
  by (auto simp: validate_schemas_def js_get_json_members split: option.splits)

lemma js_get_last_member: "js_get (string_member k v) j = (if j = k then (case v of Some s \<Rightarrow> JStr s | None \<Rightarrow> JUndef) else JUndef)"
  by (cases v) (simp_all add: string_member_def js_get_def)

lemma trimmed_name_member:
  "(\<And>n. s = Some n \<Longrightarrow> n \<noteq> [] \<and> js_trim n = n) \<Longrightarrow> trimmed_name (case s of Some x \<Rightarrow> JStr x | None \<Rightarrow> JUndef) = s"
  by (cases s) (simp_all add: trimmed_name_def nonempty_string_def)

lemma validate_skill_json: "valid_skill s \<Longrightarrow> validate_skill_shape (skill_json s) = Inr s"
proof -
  assume v: "valid_skill s"
  let ?es = "members_of (skill_json s)"
  have get: "js_get ?es ''version'' = JNum 1" "js_get ?es ''id'' = JStr (sd_id s)" "js_get ?es ''skillVersion'' = JStr (sd_version s)"
    "js_get ?es ''name'' = (case sd_name s of Some x \<Rightarrow> JStr x | None \<Rightarrow> JUndef)"
    "js_get ?es ''triggers'' = strings_json (sd_triggers s)" "js_get ?es ''domains'' = strings_json (sd_domains s)"
    "js_get ?es ''schemas'' = (case sd_schemas s of Some (x, y) \<Rightarrow> JObj (json_member ''input'' x @ json_member ''output'' y) | None \<Rightarrow> JUndef)"
    "js_get ?es ''instructions'' = JStr (sd_instructions s)"
    "js_get ?es ''requiredCapabilities'' = strings_json (sd_required_capabilities s)"
    "js_get ?es ''requiredTools'' = strings_json (sd_required_tools s)"
    "js_get ?es ''knowledgeRefs'' = strings_json (sd_knowledge_refs s)"
    "js_get ?es ''provenance'' = skill_provenance_json (sd_provenance s)"
    "js_get ?es ''contentHash'' = (case sd_content_hash s of Some x \<Rightarrow> JStr x | None \<Rightarrow> JUndef)"
    by (simp_all add: skill_json_def js_get_rules js_get_schemas_member js_get_last_member split: option.splits)
  have "is_objectlike (skill_json s)" by (simp add: skill_json_def)
  then show ?thesis
    using v unfolding validate_skill_shape_def Let_def get
    by (cases s) (simp add: valid_skill_def guard_harness_def identifier_string_def nonblank_string_def string_list_json
        validate_provenance_json validate_schemas_json trimmed_name_member some_string_member)
qed

section \<open>Properties\<close>

text \<open>
  C20. Normalising is idempotent and the hash is stable: what \<open>normalizeSkillDefinition\<close> returns,
  written as JSON and read again, is accepted and comes back unchanged, with the content hash that
  the definition without its hash has.
\<close>

theorem normalize_skill_roundtrip:
  assumes "normalize_skill_definition sha v = Inr s" "\<forall>b. sha b \<noteq> []"
  shows "normalize_skill_definition sha (skill_json s) = Inr s \<and> sd_content_hash s = Some (hash_skill_definition sha s)"
proof -
  from assms(1) obtain t where t: "validate_skill_shape v = Inr t" "s = t\<lparr>sd_content_hash := Some (hash_skill_definition sha t)\<rparr>"
    by (auto simp: normalize_skill_definition_def bind_res_eq_Inr Let_def split: option.splits if_splits)
  then have h: "sd_content_hash s = Some (hash_skill_definition sha s)" by (simp add: hash_skill_definition_def)
  have "valid_skill s"
    using validate_skill_shape_valid [OF t(1)] assms(2) by (simp add: t(2) valid_skill_def hash_skill_definition_def sha256_hex_def)
  with h show ?thesis by (simp add: normalize_skill_definition_def validate_skill_json)
qed

text \<open>A definition that carries a hash is only accepted with the right one.\<close>

lemma wrong_hash_rejected:
  assumes "validate_skill_shape v = Inr s" "sd_content_hash s = Some h" "h \<noteq> hash_skill_definition sha s"
  shows "\<exists>msg. normalize_skill_definition sha v = Inl (HarnessError msg)"
  using assms by (simp add: normalize_skill_definition_def harness_fail_def)

section \<open>A concrete definition\<close>

definition demo_skill :: skill_definition where
  "demo_skill = \<lparr>sd_id = ''s'', sd_version = ''1'', sd_name = None, sd_triggers = [''tax''], sd_domains = [], sd_schemas = None,
     sd_instructions = ''file tax'', sd_required_capabilities = [''cap''], sd_required_tools = [], sd_knowledge_refs = [],
     sd_provenance = \<lparr>sp_pack_id = ''local'', sp_digest = None, sp_publisher = None\<rparr>, sd_content_hash = None\<rparr>"

lemma demo_skill_valid: "valid_skill demo_skill"
proof -
  have "is_identifier ''s''" "is_identifier ''local''" "js_trim ''1'' = ''1''" "js_trim ''file tax'' \<noteq> []" by code_simp+
  then show ?thesis by (simp add: valid_skill_def demo_skill_def)
qed

lemma demo_skill_normal:
  "normalize_skill_definition const_sha (skill_json demo_skill) = Inr (demo_skill\<lparr>sd_content_hash := Some some_digest\<rparr>)"
  using validate_skill_json [OF demo_skill_valid]
  by (simp add: normalize_skill_definition_def hash_skill_definition_def sha256_hex_def const_sha_def demo_skill_def)

theorem normalize_skill_roundtrip_witness:
  "normalize_skill_definition const_sha (skill_json (demo_skill\<lparr>sd_content_hash := Some some_digest\<rparr>))
     = Inr (demo_skill\<lparr>sd_content_hash := Some some_digest\<rparr>)"
proof -
  have "\<forall>b. const_sha b \<noteq> []" by (simp add: const_sha_def some_digest_def)
  from normalize_skill_roundtrip [OF demo_skill_normal this] show ?thesis by (rule conjunct1)
qed

end
