(* ===== verification/Evaluation.thy ===== *)
theory Evaluation
  imports Skill_Definition Context_Compiler
begin

text \<open>
  What a finished invocation is worth: \<open>evaluateInvocation\<close>, \<open>emptyEnvelope\<close> and
  \<open>assertAdapterSupportsTask\<close> of \<open>harness/lifecycle.ts\<close>, and the run evaluation of
  \<open>evaluation/suite.ts\<close>. A suite is JSON the host supplies, read member by member; the judge is
  the host's function.
\<close>

section \<open>Data\<close>

datatype check_phase = ContractPhase | ArtifactPhase | TaskPhase | JudgePhase

record evaluation_check =
  ck_phase :: check_phase
  ck_id :: string
  ck_passed :: bool
  ck_detail :: string

record judge_record =
  jr_passed :: bool
  jr_model :: "string option"
  jr_notes :: "string option"

record evaluation_receipt =
  er_status :: invocation_status
  er_matched :: "string list"
  er_violations :: "string list"
  er_passed :: bool
  er_checks :: "evaluation_check list"
  er_judge :: "judge_record option"

section \<open>The lifecycle helpers\<close>

definition assert_adapter_supports_task :: "agent_capabilities \<Rightarrow> task_v1 \<Rightarrow> unit result" where
  "assert_adapter_supports_task capabilities task =
     (if ''tools'' \<in> set (required_capabilities task) \<and> \<not> ac_tools capabilities
      then Inl (HarnessError ''adapter does not support tool gating; unsupported gating fails closed'')
      else if ''resume'' \<in> set (required_capabilities task) \<and> \<not> ac_resume capabilities
      then Inl (HarnessError ''adapter does not support resume; unsupported gating fails closed'')
      else Inr ())"

definition empty_envelope :: "task_v1 \<Rightarrow> agent_capabilities \<Rightarrow> nat \<Rightarrow> harness_budget \<Rightarrow> string \<Rightarrow> context_envelope" where
  "empty_envelope task capabilities capabilities_ref budget dependency_root =
     \<lparr>env_task = task, env_evidence = [], env_memories = [], env_skills = [], env_constraints = constraints task,
      env_capabilities = capabilities, env_capabilities_ref = capabilities_ref, env_budget = budget,
      env_dependency_root = dependency_root, env_receipts = []\<rparr>"

text \<open>\<open>contains\<close>; a text that is \<open>undefined\<close> has no \<open>toLowerCase\<close>.\<close>

definition contains_text :: "string \<Rightarrow> string \<Rightarrow> bool" where
  "contains_text haystack needle = js_includes (js_lower haystack) (js_lower needle)"

definition output_contains :: "string option \<Rightarrow> string \<Rightarrow> bool result" where
  "output_contains text needle =
     (case text of
        None \<Rightarrow> Inl (TypeError ''Cannot read properties of undefined (reading toLowerCase)'')
      | Some haystack \<Rightarrow> Inr (contains_text haystack needle))"

definition detail_or_ok :: "string list \<Rightarrow> string" where
  "detail_or_ok parts = (if js_join '','' parts = [] then ''ok'' else js_join '','' parts)"

definition fraction_of :: "'a list \<Rightarrow> 'b list \<Rightarrow> string" where
  "fraction_of xs ys = dec_nat (length xs) @ ''/'' @ dec_nat (length ys)"

definition prohibited_of :: "task_v1 \<Rightarrow> string list" where
  "prohibited_of task = (case prohibited_actions task of Some xs \<Rightarrow> xs | None \<Rightarrow> [])"

definition new_check :: "check_phase \<Rightarrow> string \<Rightarrow> bool \<Rightarrow> string \<Rightarrow> evaluation_check" where
  "new_check phase i ok detail = \<lparr>ck_phase = phase, ck_id = i, ck_passed = ok, ck_detail = detail\<rparr>"

definition evaluate_invocation :: "task_v1 \<Rightarrow> invocation_status \<Rightarrow> jsval \<Rightarrow> string list \<Rightarrow> evaluation_receipt result" where
  "evaluate_invocation task status output tool_calls =
     (let text = stringify_output output in
      bind_res (filter_res (output_contains text) (success_criteria task)) (\<lambda>matched.
      bind_res (filter_res (\<lambda>action. bind_res (output_contains text action) (\<lambda>b. Inr (b \<or> action \<in> set tool_calls)))
          (prohibited_of task)) (\<lambda>violations.
      Inr \<lparr>er_status = (if violations \<noteq> [] then Failed else status), er_matched = matched, er_violations = violations,
           er_passed = (violations = [] \<and> status \<noteq> Failed),
           er_checks = [new_check ContractPhase ''policy'' (violations = []) (detail_or_ok violations),
             new_check TaskPhase ''successCriteria'' (length matched = length (success_criteria task))
               (fraction_of matched (success_criteria task))],
           er_judge = None\<rparr>)))"

section \<open>The suite\<close>

text \<open>\<open>v?.k\<close> on a JSON value.\<close>

definition optional_get :: "jsval \<Rightarrow> string \<Rightarrow> jsval" where
  "optional_get v k = js_get (members_of v) k"

definition is_acs_suite :: "jsval \<Rightarrow> bool" where
  "is_acs_suite v = (case v of
       JObj es \<Rightarrow> js_get es ''version'' = JNum 1 \<and> is_js_string (js_get es ''id'')
         \<and> js_truthy (optional_get (js_get es ''task'') ''objective'')
         \<and> (case optional_get (js_get es ''task'') ''successCriteria'' of JArr _ \<Rightarrow> True | _ \<Rightarrow> False)
         \<and> js_truthy (js_get es ''baseline'')
     | _ \<Rightarrow> False)"

definition parse_evaluation_suite :: "jsval \<Rightarrow> jsval option" where
  "parse_evaluation_suite v =
     (if is_acs_suite v then Some v
      else case v of
          JObj es \<Rightarrow> if js_get es ''version'' = JNum 1 \<and> is_js_string (js_get es ''id'') then Some v else None
        | _ \<Rightarrow> None)"

text \<open>The spread of a member into an array, and \<open>join\<close>.\<close>

definition spread_json :: "jsval \<Rightarrow> jsval list result" where
  "spread_json v = (case v of
       JUndef \<Rightarrow> Inr [] | JNull \<Rightarrow> Inr [] | JArr xs \<Rightarrow> Inr xs | JStr s \<Rightarrow> Inr (map (\<lambda>c. JStr [c]) s)
     | _ \<Rightarrow> Inl (TypeError ''Spread syntax requires an iterable''))"

definition join_json :: "jsval list \<Rightarrow> string" where
  "join_json vs = js_text (JArr vs)"

text \<open>\<open>v.includes(tool)\<close> and \<open>v.every(tool => used.includes(tool))\<close> for a \<open>v\<close> of unknown type.\<close>

definition includes_json :: "jsval \<Rightarrow> string \<Rightarrow> bool result" where
  "includes_json v tool = (case v of
       JArr xs \<Rightarrow> Inr (JStr tool \<in> set xs)
     | JStr s \<Rightarrow> Inr (js_includes s tool)
     | _ \<Rightarrow> Inl (TypeError ''prohibited.includes is not a function''))"

definition every_json :: "jsval \<Rightarrow> (jsval \<Rightarrow> bool) \<Rightarrow> bool result" where
  "every_json v p = (case v of
       JArr xs \<Rightarrow> Inr (list_all p xs)
     | _ \<Rightarrow> Inl (TypeError ''expected.every is not a function''))"

fun some_res :: "('a \<Rightarrow> bool result) \<Rightarrow> 'a list \<Rightarrow> bool result" where
  "some_res p [] = Inr False"
| "some_res p (x # xs) = bind_res (p x) (\<lambda>b. if b then Inr True else some_res p xs)"

fun every_res :: "('a \<Rightarrow> bool result) \<Rightarrow> 'a list \<Rightarrow> bool result" where
  "every_res p [] = Inr True"
| "every_res p (x # xs) = bind_res (p x) (\<lambda>b. if b then every_res p xs else Inr False)"

section \<open>The checks of a run\<close>

definition tools_pass :: "string list \<Rightarrow> jsval \<Rightarrow> jsval \<Rightarrow> bool result" where
  "tools_pass used expected prohibited =
     bind_res (some_res (includes_json prohibited) used) (\<lambda>bad.
       if bad then Inr False else every_json expected (\<lambda>tool. tool \<in> JStr ` set used))"

definition matches_schema :: "jsval \<Rightarrow> jsval \<Rightarrow> bool" where
  "matches_schema output schema =
     (case schema of
        JUndef \<Rightarrow> True
      | JObj es \<Rightarrow>
          (let type = js_get es ''type'' in
           if type = JStr ''object'' then (case output of JObj _ \<Rightarrow> True | _ \<Rightarrow> False)
           else if type = JStr ''array'' then (case output of JArr _ \<Rightarrow> True | _ \<Rightarrow> False)
           else if type = JStr ''string'' then is_js_string output
           else if type = JStr ''number'' then (case output of JNum _ \<Rightarrow> True | JFrac _ \<Rightarrow> True | _ \<Rightarrow> False)
           else output \<noteq> JUndef)
      | _ \<Rightarrow> output \<noteq> JUndef)"

text \<open>
  \<open>tokens <= maxTokens\<close>. The task's own maximum went through \<open>validateTask\<close> and is a positive
  integer; a suite's \<open>targetTokens\<close> is JSON, and against anything but a number (a fraction, whose
  text is all the model has, included) the comparison is left to the parameter \<open>cmp\<close>.
\<close>

type_synonym loose_le = "int \<Rightarrow> jsval \<Rightarrow> bool"

definition loose_at_most :: "loose_le \<Rightarrow> int \<Rightarrow> jsval \<Rightarrow> bool" where
  "loose_at_most cmp n v = (case v of JNum m \<Rightarrow> n \<le> m | _ \<Rightarrow> cmp n v)"

definition within_budget :: "loose_le \<Rightarrow> int option \<Rightarrow> jsval \<Rightarrow> bool" where
  "within_budget cmp tokens max_tokens =
     (case tokens of None \<Rightarrow> True | Some n \<Rightarrow> max_tokens = JUndef \<or> loose_at_most cmp n max_tokens)"

definition task_max_tokens :: "task_v1 \<Rightarrow> jsval" where
  "task_max_tokens task =
     (case task_budget task of
        None \<Rightarrow> JUndef
      | Some b \<Rightarrow> (case map_of b ''maxTokens'' of Some (Some n) \<Rightarrow> JNum (num_value n) | _ \<Rightarrow> JUndef))"

definition evidence_found :: "string option \<Rightarrow> string \<Rightarrow> jsval \<Rightarrow> bool result" where
  "evidence_found output envelope_text item =
     (case item of
        JStr needle \<Rightarrow> bind_res (output_contains output needle) (\<lambda>b. Inr (b \<or> contains_text envelope_text needle))
      | _ \<Rightarrow> Inl (TypeError ''needle.toLowerCase is not a function''))"

type_synonym judge_fn = "task_v1 \<Rightarrow> jsval \<Rightarrow> context_envelope \<Rightarrow> judge_record result"

record evaluate_input =
  ei_task :: task_v1
  ei_result :: invocation_result
  ei_tool_calls :: "string list"
  ei_envelope :: context_envelope
  ei_root :: string
  ei_evidence_receipts :: "string list"
  ei_suite :: "jsval option"
  ei_judge :: "judge_fn option"

definition suite_task :: "jsval option \<Rightarrow> jsval" where
  "suite_task suite = (case suite of Some v \<Rightarrow> if is_acs_suite v then optional_get v ''task'' else JUndef | None \<Rightarrow> JUndef)"

definition suite_member :: "jsval option \<Rightarrow> string \<Rightarrow> jsval" where
  "suite_member suite k = (case suite of Some v \<Rightarrow> optional_get v k | None \<Rightarrow> JUndef)"

definition expected_tools :: "jsval option \<Rightarrow> jsval" where
  "expected_tools suite =
     nullish_or (nullish_or (optional_get (suite_task suite) ''expectedTools'') (suite_member suite ''expectedTools'')) (JArr [])"

definition required_evidence :: "task_v1 \<Rightarrow> jsval option \<Rightarrow> jsval list result" where
  "required_evidence task suite =
     bind_res (spread_json (optional_get (suite_task suite) ''requiredEvidence'')) (\<lambda>a.
     bind_res (spread_json (suite_member suite ''requiredEvidence'')) (\<lambda>b.
       Inr (map JStr (evidence_requirements task) @ a @ b)))"

definition prohibited_tools :: "task_v1 \<Rightarrow> jsval option \<Rightarrow> jsval" where
  "prohibited_tools task suite =
     (case prohibited_actions task of
        Some xs \<Rightarrow> JArr (map JStr xs)
      | None \<Rightarrow> nullish_or (optional_get (suite_task suite) ''prohibitedActions'') (JArr []))"

definition envelope_text :: "context_envelope \<Rightarrow> string" where
  "envelope_text env = (case json_stringify (JArr (env_evidence env)) of Some s \<Rightarrow> s | None \<Rightarrow> [])"

definition contract_checks :: "loose_le \<Rightarrow> evaluate_input \<Rightarrow> string list \<Rightarrow> evaluation_check list" where
  "contract_checks cmp inp violations =
     (let result = ei_result inp; tokens = res_tokens result in
      [new_check ContractPhase ''policy'' (violations = []) (detail_or_ok violations),
       new_check ContractPhase ''terminal'' (res_status result \<in> set [Succeeded, Partial, Failed, Suspended]) (status_name (res_status result)),
       new_check ContractPhase ''budget''
         (within_budget cmp tokens (nullish_or (task_max_tokens (ei_task inp)) (optional_get (suite_task (ei_suite inp)) ''targetTokens'')))
         (dec_int (case tokens of Some n \<Rightarrow> n | None \<Rightarrow> 0)),
       new_check ContractPhase ''schema'' (matches_schema (res_output result) (output_schema (ei_task inp))) ''output''])"

definition artifact_checks :: "evaluate_input \<Rightarrow> bool \<Rightarrow> evaluation_check list" where
  "artifact_checks inp tools_ok =
     [new_check ArtifactPhase ''dependencyRoot'' (ei_root inp \<noteq> [] \<and> ei_root inp = env_dependency_root (ei_envelope inp)) (ei_root inp),
      new_check ArtifactPhase ''evidenceReceipt'' (ei_evidence_receipts inp \<noteq> []) (dec_nat (length (ei_evidence_receipts inp))),
      new_check ArtifactPhase ''tools'' tools_ok (js_join '','' (ei_tool_calls inp))]"

definition task_checks :: "evaluate_input \<Rightarrow> string list \<Rightarrow> bool \<Rightarrow> jsval list \<Rightarrow> evaluation_check list" where
  "task_checks inp matched evidence_ok required =
     [new_check TaskPhase ''successCriteria'' (length matched = length (success_criteria (ei_task inp)))
        (fraction_of matched (success_criteria (ei_task inp))),
      new_check TaskPhase ''evidence'' evidence_ok (join_json required)]"

definition run_judge :: "evaluate_input \<Rightarrow> evaluation_check list \<Rightarrow> (evaluation_check list \<times> judge_record option) result" where
  "run_judge inp checks =
     (case ei_judge inp of
        None \<Rightarrow> Inr (checks, None)
      | Some judge \<Rightarrow>
          bind_res (judge (ei_task inp) (res_output (ei_result inp)) (ei_envelope inp)) (\<lambda>j.
            Inr (checks @ [new_check JudgePhase ''semantic'' (jr_passed j)
                (case jr_notes j of Some n \<Rightarrow> n | None \<Rightarrow> ''external-effect'')], Some j)))"

definition evaluate_run :: "loose_le \<Rightarrow> evaluate_input \<Rightarrow> evaluation_receipt result" where
  "evaluate_run cmp inp =
     (let result = ei_result inp; task = ei_task inp; output = stringify_output (res_output result) in
      bind_res (evaluate_invocation task (res_status result) (res_output result) (ei_tool_calls inp)) (\<lambda>te.
      bind_res (required_evidence task (ei_suite inp)) (\<lambda>required.
      bind_res (tools_pass (ei_tool_calls inp) (expected_tools (ei_suite inp)) (prohibited_tools task (ei_suite inp))) (\<lambda>tools_ok.
      bind_res (every_res (evidence_found output (envelope_text (ei_envelope inp))) required) (\<lambda>evidence_ok.
      bind_res (run_judge inp (contract_checks cmp inp (er_violations te) @ artifact_checks inp tools_ok
          @ task_checks inp (er_matched te) evidence_ok required)) (\<lambda>(checks, judge).
      Inr \<lparr>er_status = (if er_violations te \<noteq> [] then Failed else res_status result), er_matched = er_matched te,
           er_violations = er_violations te,
           er_passed = list_all ck_passed (filter (\<lambda>c. ck_phase c \<noteq> JudgePhase) checks),
           er_checks = checks, er_judge = judge\<rparr>))))))"


section \<open>What the checks decide\<close>

lemma output_contains_Inr [simp]: "output_contains text needle = Inr b \<longleftrightarrow> (\<exists>t. text = Some t \<and> b = contains_text t needle)"
  by (auto simp: output_contains_def split: option.splits)

lemma evaluate_invocation_Inr:
  assumes "evaluate_invocation task status output tools = Inr r"
  shows "er_matched r = filter (\<lambda>c. output_contains (stringify_output output) c = Inr True) (success_criteria task)"
    and "er_violations r = filter (\<lambda>a. output_contains (stringify_output output) a = Inr True \<or> a \<in> set tools) (prohibited_of task)"
    and "er_status r = (if er_violations r \<noteq> [] then Failed else status)"
    and "er_passed r \<longleftrightarrow> er_violations r = [] \<and> status \<noteq> Failed"
proof -
  from assms obtain matched violations where
    m: "filter_res (output_contains (stringify_output output)) (success_criteria task) = Inr matched" and
    v: "filter_res (\<lambda>a. bind_res (output_contains (stringify_output output) a) (\<lambda>b. Inr (b \<or> a \<in> set tools))) (prohibited_of task) = Inr violations"
    and r: "er_matched r = matched" "er_violations r = violations" "er_status r = (if violations \<noteq> [] then Failed else status)"
      "er_passed r = (violations = [] \<and> status \<noteq> Failed)"
    by (auto simp: evaluate_invocation_def Let_def bind_res_eq_Inr)
  show "er_matched r = filter (\<lambda>c. output_contains (stringify_output output) c = Inr True) (success_criteria task)"
    using filter_res_Inr [OF m] r(1) by simp
  have total: "\<exists>b. output_contains (stringify_output output) a = Inr b" if "a \<in> set (prohibited_of task)" for a
    using filter_res_Inr [OF v] that by (fastforce simp: bind_res_eq_Inr)
  show "er_violations r = filter (\<lambda>a. output_contains (stringify_output output) a = Inr True \<or> a \<in> set tools) (prohibited_of task)"
    unfolding r(2) conjunct1 [OF filter_res_Inr [OF v]]
    by (rule filter_cong [OF refl]) (use total in \<open>fastforce simp: bind_res_eq_Inr\<close>)
  show "er_status r = (if er_violations r \<noteq> [] then Failed else status)"
    and "er_passed r \<longleftrightarrow> er_violations r = [] \<and> status \<noteq> Failed" using r by simp_all
qed

lemma evaluate_run_Inr:
  assumes "evaluate_run cmp inp = Inr r"
  obtains te required tools_ok evidence_ok judge where
    "evaluate_invocation (ei_task inp) (res_status (ei_result inp)) (res_output (ei_result inp)) (ei_tool_calls inp) = Inr te"
    "required_evidence (ei_task inp) (ei_suite inp) = Inr required"
    "tools_pass (ei_tool_calls inp) (expected_tools (ei_suite inp)) (prohibited_tools (ei_task inp) (ei_suite inp)) = Inr tools_ok"
    "every_res (evidence_found (stringify_output (res_output (ei_result inp))) (envelope_text (ei_envelope inp))) required = Inr evidence_ok"
    "run_judge inp (contract_checks cmp inp (er_violations te) @ artifact_checks inp tools_ok
        @ task_checks inp (er_matched te) evidence_ok required) = Inr (er_checks r, judge)"
    "er_status r = er_status te" "er_matched r = er_matched te" "er_violations r = er_violations te"
    "er_passed r = list_all ck_passed (filter (\<lambda>c. ck_phase c \<noteq> JudgePhase) (er_checks r))" "er_judge r = judge"
  using assms evaluate_invocation_Inr(3)
  by (fastforce simp: evaluate_run_def Let_def bind_res_eq_Inr)

text \<open>The judge only appends a check of its own phase.\<close>

lemma run_judge_Inr:
  assumes "run_judge inp checks = Inr (checks', j)"
  shows "filter (\<lambda>c. ck_phase c \<noteq> JudgePhase) checks' = filter (\<lambda>c. ck_phase c \<noteq> JudgePhase) checks"
  using assms by (auto simp: run_judge_def new_check_def bind_res_eq_Inr split: option.splits)

lemma deterministic_checks:
  "filter (\<lambda>c. ck_phase c \<noteq> JudgePhase) (contract_checks cmp inp vs @ artifact_checks inp t @ task_checks inp ms e req)
     = contract_checks cmp inp vs @ artifact_checks inp t @ task_checks inp ms e req"
  by (simp add: contract_checks_def artifact_checks_def task_checks_def new_check_def Let_def)

lemma every_res_True: "every_res p xs = Inr True \<longleftrightarrow> (\<forall>x \<in> set xs. p x = Inr True)"
  by (induction xs) (auto simp: bind_res_eq_Inr)

definition runs_within_contract :: "loose_le \<Rightarrow> evaluate_input \<Rightarrow> bool" where
  "runs_within_contract cmp inp \<longleftrightarrow>
     within_budget cmp (res_tokens (ei_result inp))
       (nullish_or (task_max_tokens (ei_task inp)) (optional_get (suite_task (ei_suite inp)) ''targetTokens''))
     \<and> matches_schema (res_output (ei_result inp)) (output_schema (ei_task inp))
     \<and> ei_root inp \<noteq> [] \<and> ei_root inp = env_dependency_root (ei_envelope inp) \<and> ei_evidence_receipts inp \<noteq> []"

lemma checks_passed:
  "list_all ck_passed (contract_checks cmp inp vs @ artifact_checks inp t @ task_checks inp ms e req)
     \<longleftrightarrow> vs = [] \<and> runs_within_contract cmp inp \<and> t \<and> length ms = length (success_criteria (ei_task inp)) \<and> e"
proof -
  have "res_status (ei_result inp) \<in> set [Succeeded, Partial, Failed, Suspended]" by (cases "res_status (ei_result inp)") simp_all
  then show ?thesis
    unfolding contract_checks_def artifact_checks_def task_checks_def new_check_def Let_def runs_within_contract_def
    by auto
qed

lemma length_filter_eq_iff: "length (filter p xs) = length xs \<longleftrightarrow> (\<forall>x \<in> set xs. p x)"
proof -
  have "length (filter p xs) = length xs \<longleftrightarrow> length (filter (\<lambda>x. \<not> p x) xs) = 0"
    using sum_length_filter_compl [of p xs] by linarith
  then show ?thesis by (simp add: filter_empty_conv)
qed

section \<open>Properties\<close>

text \<open>
  C24. A run passes its evaluation exactly when its output mentions every success criterion and no
  prohibited action, it called no prohibited tool, stayed within the token budget, its output has
  the declared type, the root of its frozen dependencies is not empty and is the one of the
  envelope, some evidence receipt exists, the tools are as expected, and every required piece of
  evidence is found in the output or the envelope.
\<close>

theorem evaluation_passes_iff:
  assumes "evaluate_run cmp inp = Inr r" "stringify_output (res_output (ei_result inp)) = Some text"
  shows "er_passed r \<longleftrightarrow>
     (\<forall>c \<in> set (success_criteria (ei_task inp)). contains_text text c)
     \<and> (\<forall>a \<in> set (prohibited_of (ei_task inp)). \<not> contains_text text a \<and> a \<notin> set (ei_tool_calls inp))
     \<and> runs_within_contract cmp inp
     \<and> tools_pass (ei_tool_calls inp) (expected_tools (ei_suite inp)) (prohibited_tools (ei_task inp) (ei_suite inp)) = Inr True
     \<and> (\<exists>required. required_evidence (ei_task inp) (ei_suite inp) = Inr required
          \<and> (\<forall>v \<in> set required. evidence_found (Some text) (envelope_text (ei_envelope inp)) v = Inr True))"
  using assms(1)
proof (cases rule: evaluate_run_Inr)
  case (1 te required tools_ok evidence_ok judge)
  have m: "length (er_matched te) = length (success_criteria (ei_task inp)) \<longleftrightarrow> (\<forall>c \<in> set (success_criteria (ei_task inp)). contains_text text c)"
    by (simp add: evaluate_invocation_Inr(1) [OF 1(1)] assms(2) length_filter_eq_iff)
  have v: "er_violations te = [] \<longleftrightarrow> (\<forall>a \<in> set (prohibited_of (ei_task inp)). \<not> contains_text text a \<and> a \<notin> set (ei_tool_calls inp))"
    by (auto simp: evaluate_invocation_Inr(2) [OF 1(1)] assms(2) filter_empty_conv)
  have p: "er_passed r \<longleftrightarrow> er_violations te = [] \<and> runs_within_contract cmp inp \<and> tools_ok
      \<and> length (er_matched te) = length (success_criteria (ei_task inp)) \<and> evidence_ok"
    unfolding 1(9) run_judge_Inr [OF 1(5)] deterministic_checks checks_passed by (rule refl)
  have e: "evidence_ok \<longleftrightarrow> (\<forall>v \<in> set required. evidence_found (Some text) (envelope_text (ei_envelope inp)) v = Inr True)"
    using 1(4) every_res_True [of "evidence_found (Some text) (envelope_text (ei_envelope inp))" required] by (auto simp: assms(2))
  show ?thesis unfolding p m v e 1(2,3) by auto
qed

text \<open>
  The semantic judge records, it never decides: with a judge whose call returns, a run is given
  the same status, the same matches and violations and the same verdict as without one.
\<close>

theorem judge_never_decides:
  assumes "evaluate_run cmp inp = Inr r"
  shows "\<exists>s. evaluate_run cmp (inp\<lparr>ei_judge := None\<rparr>) = Inr s \<and> er_passed s = er_passed r \<and> er_status s = er_status r
    \<and> er_matched s = er_matched r \<and> er_violations s = er_violations r \<and> er_judge s = None
    \<and> er_checks s = filter (\<lambda>c. ck_phase c \<noteq> JudgePhase) (er_checks r)"
  using assms
proof (cases rule: evaluate_run_Inr)
  case (1 te required tools_ok evidence_ok judge)
  let ?checks = "contract_checks cmp inp (er_violations te) @ artifact_checks inp tools_ok @ task_checks inp (er_matched te) evidence_ok required"
  have same: "contract_checks cmp (inp\<lparr>ei_judge := None\<rparr>) = contract_checks cmp inp"
    "artifact_checks (inp\<lparr>ei_judge := None\<rparr>) = artifact_checks inp" "task_checks (inp\<lparr>ei_judge := None\<rparr>) = task_checks inp"
    by (intro ext; simp add: contract_checks_def artifact_checks_def task_checks_def)+
  have d: "filter (\<lambda>c. ck_phase c \<noteq> JudgePhase) ?checks = ?checks" by (rule deterministic_checks)
  have j: "filter (\<lambda>c. ck_phase c \<noteq> JudgePhase) (er_checks r) = ?checks"
    using run_judge_Inr [OF 1(5)] d by simp
  have "er_status r = (if er_violations te \<noteq> [] then Failed else res_status (ei_result inp))"
    using 1(6) evaluate_invocation_Inr(3) [OF 1(1)] by simp
  moreover have "evaluate_run cmp (inp\<lparr>ei_judge := None\<rparr>) = Inr \<lparr>er_status = (if er_violations te \<noteq> [] then Failed else res_status (ei_result inp)),
      er_matched = er_matched te, er_violations = er_violations te,
      er_passed = list_all ck_passed (filter (\<lambda>c. ck_phase c \<noteq> JudgePhase) ?checks), er_checks = ?checks, er_judge = None\<rparr>"
    using 1(1-4) by (simp add: evaluate_run_def Let_def same run_judge_def)
  ultimately show ?thesis
    unfolding 1(7-9) j d by simp
qed


section \<open>A concrete evaluation\<close>

definition judged_task :: task_v1 where
  "judged_task = \<lparr>task_id = None, objective = ''tax'', inputs = JUndef, constraints = [], success_criteria = [''done''],
     required_capabilities = [], preferred_skills = [], prohibited_actions = Some [''pay''], task_budget = None,
     output_schema = JUndef, evidence_requirements = []\<rparr>"

definition judged_run :: "invocation_status \<Rightarrow> evaluate_input" where
  "judged_run status = \<lparr>ei_task = judged_task,
     ei_result = \<lparr>res_status = status, res_output = JStr ''done'', res_error = None, res_tool_calls = None, res_tokens = None\<rparr>,
     ei_tool_calls = [], ei_envelope = empty_envelope judged_task demo_capabilities 0 [] ''root'', ei_root = ''root'',
     ei_evidence_receipts = [''selection''], ei_suite = None,
     ei_judge = Some (\<lambda>_ _ _. Inr \<lparr>jr_passed = False, jr_model = None, jr_notes = None\<rparr>)\<rparr>"

lemma judged_run_evaluated: "\<exists>r. evaluate_run cmp (judged_run status) = Inr r"
  by (simp add: evaluate_run_def evaluate_invocation_def Let_def judged_run_def judged_task_def output_contains_def
      prohibited_of_def required_evidence_def optional_get_def suite_task_def suite_member_def js_get_def spread_json_def
      tools_pass_def expected_tools_def nullish_or_def every_json_def run_judge_def)

lemma judged_run_contract: "runs_within_contract cmp (judged_run status)"
  by (simp add: runs_within_contract_def within_budget_def matches_schema_def judged_run_def judged_task_def empty_envelope_def)

lemma judged_texts: "contains_text ''done'' ''done''" "\<not> contains_text ''done'' ''pay''"
  by code_simp+

theorem evaluation_passes_iff_witness: "\<exists>r. evaluate_run (\<lambda>_ _. False) (judged_run Succeeded) = Inr r \<and> er_passed r"
proof -
  obtain r where r: "evaluate_run (\<lambda>_ _. False) (judged_run Succeeded) = Inr r" using judged_run_evaluated by blast
  have "stringify_output (res_output (ei_result (judged_run Succeeded))) = Some ''done''" by (simp add: judged_run_def)
  from evaluation_passes_iff [OF r this] judged_run_contract [of "\<lambda>_ _. False" Succeeded] judged_texts have "er_passed r"
    by (simp add: judged_run_def judged_task_def prohibited_of_def tools_pass_def expected_tools_def every_json_def nullish_or_def
        optional_get_def suite_task_def suite_member_def js_get_def required_evidence_def spread_json_def)
  with r show ?thesis by blast
qed

theorem judge_never_decides_witness:
  "\<exists>r s. evaluate_run (\<lambda>_ _. False) (judged_run Succeeded) = Inr r \<and> evaluate_run (\<lambda>_ _. False) ((judged_run Succeeded)\<lparr>ei_judge := None\<rparr>) = Inr s
     \<and> er_passed s = er_passed r \<and> er_judge s = None"
proof -
  obtain r where r: "evaluate_run (\<lambda>_ _. False) (judged_run Succeeded) = Inr r" using judged_run_evaluated by blast
  from judge_never_decides [OF r] r show ?thesis by blast
qed

text \<open>
  The verdict does not look at the status: the same output passes although the invocation failed,
  whereas \<open>evaluateInvocation\<close> does not pass it.
\<close>

lemma failed_invocation_passes:
  "\<exists>r. evaluate_run cmp (judged_run Failed) = Inr r \<and> er_passed r \<and> er_status r = Failed"
  "\<exists>r. evaluate_invocation judged_task Failed (JStr ''done'') [] = Inr r \<and> \<not> er_passed r"
proof -
  obtain r where r: "evaluate_run cmp (judged_run Failed) = Inr r" using judged_run_evaluated by blast
  then obtain te where te: "evaluate_invocation judged_task Failed (JStr ''done'') [] = Inr te" "er_status r = er_status te"
    by (elim evaluate_run_Inr) (simp add: judged_run_def)
  then show "\<exists>r. evaluate_invocation judged_task Failed (JStr ''done'') [] = Inr r \<and> \<not> er_passed r"
    using evaluate_invocation_Inr(4) [OF te(1)] by blast
  from r have "er_passed r"
  proof (cases rule: evaluate_run_Inr)
    case (1 te required tools_ok evidence_ok judge)
    have "er_violations te = []" "length (er_matched te) = 1"
      using evaluate_invocation_Inr(1,2) [OF 1(1)] judged_texts
      by (simp_all add: judged_run_def judged_task_def prohibited_of_def output_contains_def)
    moreover have tools_ok and "required = []"
      using 1(2,3) by (simp_all add: judged_run_def judged_task_def tools_pass_def expected_tools_def every_json_def nullish_or_def
        optional_get_def suite_task_def suite_member_def js_get_def required_evidence_def spread_json_def)
    moreover from this(2) 1(4) have evidence_ok by simp
    moreover have "length (success_criteria (ei_task (judged_run Failed))) = 1" by (simp add: judged_run_def judged_task_def)
    ultimately show ?thesis
      unfolding 1(9) run_judge_Inr [OF 1(5)] deterministic_checks checks_passed by (simp add: judged_run_contract)
  qed
  moreover have "er_status r = Failed"
    using te evaluate_invocation_Inr(3) [OF te(1)] by simp
  ultimately show "\<exists>r. evaluate_run cmp (judged_run Failed) = Inr r \<and> er_passed r \<and> er_status r = Failed"
    using r by blast
qed

end
