(* ===== verification/JS_Number.thy ===== *)
theory JS_Number
  imports Complex_Main
begin

text \<open>
  JavaScript's \<open>number\<close> arithmetic on the values the scores use: a finite double is the
  rational it denotes, and each operation rounds the exact result to 53 significant bits, to the
  nearest and to the even one on a tie. Overflow, underflow, \<open>NaN\<close> and the sign of zero are
  left out: the scores stay between the tiniest fraction of a token count and a few millions.

  The scores need three laws of the rounding, stated by the locale \<open>rounding\<close>.
\<close>

section \<open>Rounding to a double\<close>

fun bits :: "nat \<Rightarrow> nat" where
  "bits n = (if n = 0 then 0 else Suc (bits (n div 2)))"

declare bits.simps [simp del]

definition binary_exponent :: "rat \<Rightarrow> int" where
  "binary_exponent q =
     (let (a, b) = quotient_of q; k = int (bits (nat a)) - int (bits (nat b)) in
      if 2 powi k \<le> q then k else k - 1)"

definition round_even :: "rat \<Rightarrow> int" where
  "round_even x =
     (let f = floor x; d = x - of_int f in
      if 2 * d < 1 then f else if 1 < 2 * d then f + 1 else if even f then f else f + 1)"

definition fl_pos :: "rat \<Rightarrow> rat" where
  "fl_pos q = (let u = 2 powi (binary_exponent q - 52) in of_int (round_even (q / u)) * u)"

definition fl :: "rat \<Rightarrow> rat" where
  "fl q = (if q = 0 then 0 else if 0 < q then fl_pos q else - fl_pos (- q))"

text \<open>\<open>Math.round\<close>: the nearest integer, upwards on a tie.\<close>

definition math_round :: "rat \<Rightarrow> int" where
  "math_round x = floor (x + 1 / 2)"

section \<open>The exponent\<close>

lemma bits_bounds: "0 < n \<Longrightarrow> 2 ^ bits n \<le> 2 * n \<and> n < 2 ^ bits n"
proof (induction n rule: bits.induct)
  case (1 n)
  show ?case
  proof (cases "n div 2 = 0")
    case True
    with 1(2) have "n = 1" by linarith
    then show ?thesis by (simp add: bits.simps)
  next
    case False
    with 1 have "2 ^ bits (n div 2) \<le> 2 * (n div 2)" "n div 2 < 2 ^ bits (n div 2)" by simp_all
    moreover have "bits n = Suc (bits (n div 2))" using 1(2) by (subst bits.simps) simp
    ultimately show ?thesis by auto
  qed
qed

lemma powi_less: "(2 :: rat) powi m < 2 powi n \<Longrightarrow> m < n"
  using power_int_increasing [of n m "2 :: rat"] by (cases "m < n") simp_all

lemma binary_exponent_bounds:
  assumes "0 < q"
  shows "2 powi binary_exponent q \<le> q" "q < 2 powi (binary_exponent q + 1)"
proof -
  obtain a b where ab: "quotient_of q = (a, b)" by fastforce
  then have b: "0 < b" and q: "q = of_int a / of_int b" using quotient_of_denom_pos quotient_of_div by auto
  with assms have a: "0 < a" by (simp add: zero_less_divide_iff)
  define k where "k = int (bits (nat a)) - int (bits (nat b))"
  have na: "2 ^ bits (nat a) \<le> 2 * nat a" "nat a < 2 ^ bits (nat a)" and nb: "2 ^ bits (nat b) \<le> 2 * nat b" "nat b < 2 ^ bits (nat b)"
    using bits_bounds [of "nat a"] bits_bounds [of "nat b"] a b by simp_all
  have ra: "(2 :: rat) ^ bits (nat a) \<le> 2 * of_int a" "(of_int a :: rat) < 2 ^ bits (nat a)"
    and rb: "(2 :: rat) ^ bits (nat b) \<le> 2 * of_int b" "(of_int b :: rat) < 2 ^ bits (nat b)"
    using na nb a b by (simp_all flip: of_int_less_iff of_int_le_iff of_nat_less_iff [where 'a = rat] of_nat_le_iff [where 'a = rat])
  have "q < 2 powi (k + 1)"
  proof -
    have "of_int a * 2 ^ bits (nat b) \<le> of_int a * (2 * of_int b :: rat)" using rb(1) a by simp
    also have "\<dots> < 2 ^ bits (nat a) * (2 * of_int b)" using ra(2) b by simp
    finally show ?thesis
      using b by (simp add: q k_def power_int_diff power_int_add field_simps)
  qed
  moreover have "2 powi (k - 1) < q"
  proof -
    have "2 ^ bits (nat a) * of_int b \<le> 2 * of_int a * (of_int b :: rat)" using ra(1) b by simp
    also have "\<dots> < 2 * of_int a * 2 ^ bits (nat b)" using rb(2) a by simp
    finally have less: "2 ^ bits (nat a) * of_int b < 2 * of_int a * (2 :: rat) ^ bits (nat b)" .
    have half: "(2 :: rat) powi (k - 1) = 2 ^ bits (nat a) / (2 ^ bits (nat b) * 2)"
      unfolding k_def by (simp add: power_int_diff)
    show ?thesis unfolding half q using less b by (simp add: field_simps)
  qed
  ultimately show "2 powi binary_exponent q \<le> q" "q < 2 powi (binary_exponent q + 1)"
    by (auto simp: binary_exponent_def ab k_def [symmetric] Let_def)
qed

lemma binary_exponent_unique:
  assumes "2 powi e \<le> q" "q < 2 powi (e + 1)"
  shows "binary_exponent q = e"
proof -
  have "0 < (2 :: rat) powi e" by simp
  with assms have "0 < q" by linarith
  note b = binary_exponent_bounds [OF this]
  have "(2 :: rat) powi e < 2 powi (binary_exponent q + 1)" "(2 :: rat) powi binary_exponent q < 2 powi (e + 1)"
    using assms b by linarith+
  then have "e < binary_exponent q + 1" "binary_exponent q < e + 1"
    by (auto dest: powi_less)
  then show ?thesis by simp
qed

lemma binary_exponent_mono: "0 < p \<Longrightarrow> p \<le> q \<Longrightarrow> binary_exponent p \<le> binary_exponent q"
proof -
  assume p: "0 < p" "p \<le> q"
  then have "(2 :: rat) powi binary_exponent p < 2 powi (binary_exponent q + 1)"
    using binary_exponent_bounds [of p] binary_exponent_bounds [of q] by linarith
  then have "binary_exponent p < binary_exponent q + 1" by (auto dest: powi_less)
  then show ?thesis by simp
qed


section \<open>Laws of the rounding\<close>

lemma round_even_mono: "x \<le> y \<Longrightarrow> round_even x \<le> round_even y"
proof -
  assume xy: "x \<le> y"
  then have f: "floor x \<le> floor y" by (rule floor_mono)
  show ?thesis
  proof (cases "floor x = floor y")
    case True
    with xy show ?thesis by (auto simp: round_even_def Let_def)
  next
    case False
    with f have "floor x + 1 \<le> floor y" by simp
    then show ?thesis by (auto simp: round_even_def Let_def)
  qed
qed

lemma round_even_int [simp]: "round_even (of_int n) = n"
  by (simp add: round_even_def)

lemma fl_pos_bounds:
  assumes "0 < q"
  shows "2 powi binary_exponent q \<le> fl_pos q" "fl_pos q \<le> 2 powi (binary_exponent q + 1)"
proof -
  define u where "u = (2 :: rat) powi (binary_exponent q - 52)"
  have u: "0 < u" "2 powi binary_exponent q = of_int (2 ^ 52) * u" "2 powi (binary_exponent q + 1) = of_int (2 ^ 53) * u"
    by (simp_all add: u_def power_int_diff power_int_add)
  note b = binary_exponent_bounds [OF assms]
  have "of_int (2 ^ 52) \<le> q / u" "q / u \<le> of_int (2 ^ 53)"
    using b u(1) unfolding u(2,3) by (simp_all add: field_simps)
  then have "2 ^ 52 \<le> round_even (q / u)" "round_even (q / u) \<le> 2 ^ 53"
    using round_even_mono [of "of_int (2 ^ 52)" "q / u"] round_even_mono [of "q / u" "of_int (2 ^ 53)"]
    by (simp_all only: round_even_int)
  then have "of_int (2 ^ 52) * u \<le> of_int (round_even (q / u)) * u" "of_int (round_even (q / u)) * u \<le> of_int (2 ^ 53) * u"
    using u(1) by (simp_all only: mult_le_cancel_right_pos of_int_le_iff)
  then show "2 powi binary_exponent q \<le> fl_pos q" "fl_pos q \<le> 2 powi (binary_exponent q + 1)"
    unfolding u(2,3) by (simp_all add: fl_pos_def Let_def u_def)
qed

lemma fl_pos_pos: "0 < q \<Longrightarrow> 0 < fl_pos q"
  using fl_pos_bounds(1) [of q] zero_less_power_int [of "2 :: rat" "binary_exponent q"] by linarith

lemma fl_pos_mono:
  assumes "0 < p" "p \<le> q"
  shows "fl_pos p \<le> fl_pos q"
proof (cases "binary_exponent p = binary_exponent q")
  case True
  have u: "0 < (2 :: rat) powi (binary_exponent q - 52)" by simp
  then have "p / 2 powi (binary_exponent q - 52) \<le> q / 2 powi (binary_exponent q - 52)"
    using assms(2) by (simp add: divide_right_mono)
  from round_even_mono [OF this] u show ?thesis by (simp add: fl_pos_def Let_def True)
next
  case False
  with binary_exponent_mono [OF assms] have "binary_exponent p + 1 \<le> binary_exponent q" by simp
  then have "(2 :: rat) powi (binary_exponent p + 1) \<le> 2 powi binary_exponent q" by (simp add: power_int_increasing)
  with fl_pos_bounds(2) [OF assms(1)] fl_pos_bounds(1) [of q] assms show ?thesis by linarith
qed

lemma fl_pos_exact:
  assumes "2 powi e \<le> q" "q < 2 powi (e + 1)" "q = of_int m * 2 powi (e - 52)"
  shows "fl_pos q = q"
proof -
  have "binary_exponent q = e" by (rule binary_exponent_unique [OF assms(1,2)])
  moreover have "q / 2 powi (e - 52) = of_int m" by (simp add: assms(3))
  ultimately show ?thesis by (simp add: fl_pos_def Let_def assms(3))
qed

text \<open>Integers of up to 53 bits are doubles.\<close>

lemma fl_pos_int:
  assumes "0 < n" "n < 2 ^ 53"
  shows "fl_pos (of_int n) = of_int n"
proof -
  have q: "0 < (of_int n :: rat)" using assms(1) by simp
  define e where "e = binary_exponent (of_int n)"
  note b = binary_exponent_bounds [OF q, folded e_def]
  have "(2 :: rat) powi e < 2 powi 53"
    using b(1) assms(2) by (auto intro: order_le_less_trans)
  then have "e \<le> 52" using powi_less [of e 53] by simp
  then obtain j :: nat where j: "52 = e + int j" using zle_iff_zadd by blast
  have "(2 :: rat) powi (e - 52) = 1 / 2 ^ j" by (simp add: j power_int_minus divide_inverse)
  then have "(of_int n :: rat) = of_int (n * 2 ^ j) * 2 powi (e - 52)" by simp
  from fl_pos_exact [OF b this] show ?thesis .
qed

locale rounding =
  fixes rnd :: "rat \<Rightarrow> rat"
  assumes rnd_mono: "x \<le> y \<Longrightarrow> rnd x \<le> rnd y"
    and rnd_int: "\<bar>n\<bar> < 2 ^ 53 \<Longrightarrow> rnd (of_int n) = of_int n"
begin

lemma rnd_0 [simp]: "rnd 0 = 0"
  using rnd_int [of 0] by simp

lemma rnd_1 [simp]: "rnd 1 = 1"
  using rnd_int [of 1] by simp

lemma rnd_between:
  assumes "of_int m \<le> x" "x \<le> of_int n" "\<bar>m\<bar> < 2 ^ 53" "\<bar>n\<bar> < 2 ^ 53"
  shows "of_int m \<le> rnd x" "rnd x \<le> of_int n"
  using rnd_mono [OF assms(1)] rnd_mono [OF assms(2)] rnd_int [OF assms(3)] rnd_int [OF assms(4)] by simp_all

end

interpretation binary64: rounding fl
proof
  show "fl x \<le> fl y" if "x \<le> y" for x y
  proof -
    consider "0 < x" | "x \<le> 0" "0 \<le> y" | "y < 0" by linarith
    then show ?thesis
    proof cases
      case 1
      with that fl_pos_mono [of x y] show ?thesis by (simp add: fl_def)
    next
      case 2
      have "fl x \<le> 0" using 2 fl_pos_pos [of "- x"] by (cases "x = 0") (simp_all add: fl_def)
      also have "0 \<le> fl y" using 2 fl_pos_pos [of y] by (cases "y = 0") (simp_all add: fl_def)
      finally show ?thesis .
    next
      case 3
      with that fl_pos_mono [of "- y" "- x"] show ?thesis by (simp add: fl_def)
    qed
  qed
  show "fl (of_int n) = of_int n" if "\<bar>n\<bar> < 2 ^ 53" for n
    using that fl_pos_int [of n] fl_pos_int [of "- n"] by (auto simp: fl_def)
qed

end
