(* ===== verification/Agent_Score.thy ===== *)
theory Agent_Score
  imports Evaluation JS_Number
begin

text \<open>
  The agent capability score of \<open>evaluation/acs.ts\<close>, the comparison of a harnessed run with its
  baseline of \<open>evaluation/compare.ts\<close>, and the report of \<open>evaluation/report.ts\<close>, in the
  double arithmetic of \<open>JS_Number\<close>. Token counts are integers.
\<close>

section \<open>Data\<close>

record acs_metrics =
  am_task_success :: rat
  am_grounding :: rat
  am_tool_correctness :: rat
  am_recovery :: rat
  am_policy :: rat
  am_efficiency :: rat

record acs_score =
  as_suite :: string
  as_metrics :: acs_metrics
  as_composite :: rat

record recorded_run =
  rr_output :: string
  rr_tool_calls :: "string list option"
  rr_status :: "invocation_status option"
  rr_tokens :: "int option"

record acs_suite =
  au_id :: string
  au_success_criteria :: "string list"
  au_required_evidence :: "string list option"
  au_expected_tools :: "string list option"
  au_prohibited_actions :: "string list option"
  au_target_tokens :: "int option"
  au_injected_failure :: "string option"
  au_baseline :: recorded_run

definition or_empty :: "'a list option \<Rightarrow> 'a list" where
  "or_empty xs = (case xs of Some ys \<Rightarrow> ys | None \<Rightarrow> [])"

section \<open>Scoring a recorded run\<close>

text \<open>\<open>Math.round(value * 100) / 100\<close>\<close>

definition round_cents :: "rat \<Rightarrow> rat" where
  "round_cents v = fl (of_int (math_round (fl (v * 100))) / 100)"

definition ratio :: "nat \<Rightarrow> nat \<Rightarrow> rat" where
  "ratio hits all = (if all = 0 then 100 else round_cents (fl (fl (of_nat hits / of_nat all) * 100)))"

definition weight_task_success :: rat where "weight_task_success = fl (3 / 10)"
definition weight_grounding :: rat where "weight_grounding = fl (2 / 10)"
definition weight_tool_correctness :: rat where "weight_tool_correctness = fl (15 / 100)"
definition weight_recovery :: rat where "weight_recovery = fl (15 / 100)"
definition weight_policy :: rat where "weight_policy = fl (1 / 10)"
definition weight_efficiency :: rat where "weight_efficiency = fl (1 / 10)"

definition composite_acs :: "acs_metrics \<Rightarrow> rat" where
  "composite_acs m =
     round_cents (fl (fl (fl (fl (fl (fl (am_task_success m * weight_task_success) + fl (am_grounding m * weight_grounding))
       + fl (am_tool_correctness m * weight_tool_correctness)) + fl (am_recovery m * weight_recovery))
       + fl (am_policy m * weight_policy)) + fl (am_efficiency m * weight_efficiency)))"

definition prohibited_used :: "acs_suite \<Rightarrow> recorded_run \<Rightarrow> bool" where
  "prohibited_used suite run \<longleftrightarrow>
     list_ex (\<lambda>t. t \<in> set (or_empty (au_prohibited_actions suite))) (or_empty (rr_tool_calls run))
     \<or> list_ex (contains_text (rr_output run)) (or_empty (au_prohibited_actions suite))"

definition expected_hits :: "acs_suite \<Rightarrow> recorded_run \<Rightarrow> rat" where
  "expected_hits suite run =
     (let expected = or_empty (au_expected_tools suite); used = or_empty (rr_tool_calls run) in
      if expected = [] then 1 else fl (of_nat (length (filter (\<lambda>t. t \<in> set used) expected)) / of_nat (length expected)))"

definition recovery_metric :: "acs_suite \<Rightarrow> recorded_run \<Rightarrow> rat" where
  "recovery_metric suite run =
     (case au_injected_failure suite of
        None \<Rightarrow> 100
      | Some [] \<Rightarrow> 100
      | Some _ \<Rightarrow> if rr_status run = Some Partial \<or> rr_status run = Some Succeeded then 100 else 0)"

definition efficiency_metric :: "acs_suite \<Rightarrow> recorded_run \<Rightarrow> rat" where
  "efficiency_metric suite run =
     (let target = (case au_target_tokens suite of Some n \<Rightarrow> n | None \<Rightarrow> max_safe_integer);
          tokens = (case rr_tokens run of Some n \<Rightarrow> n | None \<Rightarrow> 0) in
      if tokens \<le> target then 100 else round_cents (fl (fl (of_int target / of_int (max tokens 1)) * 100)))"

definition run_metrics :: "acs_suite \<Rightarrow> recorded_run \<Rightarrow> acs_metrics" where
  "run_metrics suite run =
     (let criteria = au_success_criteria suite; evidence = or_empty (au_required_evidence suite) in
      \<lparr>am_task_success = ratio (length (filter (contains_text (rr_output run)) criteria)) (length criteria),
       am_grounding = (if evidence = [] then 100 else ratio (length (filter (contains_text (rr_output run)) evidence)) (length evidence)),
       am_tool_correctness = (if prohibited_used suite run then 0 else round_cents (fl (expected_hits suite run * 100))),
       am_recovery = recovery_metric suite run, am_policy = (if prohibited_used suite run then 0 else 100),
       am_efficiency = efficiency_metric suite run\<rparr>)"

definition score_recorded_run :: "acs_suite \<Rightarrow> recorded_run \<Rightarrow> acs_score" where
  "score_recorded_run suite run =
     \<lparr>as_suite = au_id suite, as_metrics = run_metrics suite run, as_composite = composite_acs (run_metrics suite run)\<rparr>"

text \<open>\<open>JSON.stringify(run.output ?? "")\<close> always has a text.\<close>

definition recorded_run_from_harness :: "jsval \<Rightarrow> string list option \<Rightarrow> invocation_status option \<Rightarrow> int option \<Rightarrow> recorded_run" where
  "recorded_run_from_harness output tool_calls status tokens =
     \<lparr>rr_output = (case output of JStr s \<Rightarrow> s
        | v \<Rightarrow> (case json_stringify (nullish_or v (JStr [])) of Some s \<Rightarrow> s | None \<Rightarrow> [])),
      rr_tool_calls = tool_calls, rr_status = (if status = Some Suspended then Some Partial else status), rr_tokens = tokens\<rparr>"

definition score_harness_run :: "acs_suite \<Rightarrow> jsval \<Rightarrow> string list option \<Rightarrow> invocation_status option \<Rightarrow> int option \<Rightarrow> acs_score" where
  "score_harness_run suite output tool_calls status tokens =
     score_recorded_run suite (recorded_run_from_harness output tool_calls status tokens)"

definition mean_composite :: "rat list \<Rightarrow> rat result" where
  "mean_composite scores =
     (if scores = [] then Inl (PlainError ''ACS mean requires at least one suite score'')
      else Inr (round_cents (fl (foldl (\<lambda>sum s. fl (sum + s)) 0 scores / of_nat (length scores)))))"

section \<open>Comparing with the baseline\<close>

record acs_comparison =
  cp_suite :: string
  cp_baseline :: rat
  cp_harnessed :: rat
  cp_uplift :: rat
  cp_relative :: rat
  cp_meets :: bool

record acs_report =
  rp_baseline_mean :: rat
  rp_harness_mean :: rat
  rp_relative :: rat
  rp_meets :: bool
  rp_suites :: "acs_comparison list"

definition acs_uplift_target :: rat where
  "acs_uplift_target = 10"

definition relative_to :: "rat \<Rightarrow> rat \<Rightarrow> rat \<Rightarrow> rat" where
  "relative_to baseline harnessed uplift =
     (if baseline = 0 then (if 0 < harnessed then 100 else 0) else round_cents (fl (fl (uplift / baseline) * 100)))"

definition compare_acs :: "acs_score \<Rightarrow> acs_score \<Rightarrow> acs_comparison" where
  "compare_acs baseline harnessed =
     (let uplift = round_cents (fl (as_composite harnessed - as_composite baseline));
          relative = relative_to (as_composite baseline) (as_composite harnessed) uplift in
      \<lparr>cp_suite = as_suite harnessed, cp_baseline = as_composite baseline, cp_harnessed = as_composite harnessed,
       cp_uplift = uplift, cp_relative = relative, cp_meets = (acs_uplift_target \<le> relative)\<rparr>)"

definition compare_suites :: "(acs_suite \<times> acs_score) list \<Rightarrow> acs_report result" where
  "compare_suites suites =
     (let comparisons = map (\<lambda>(suite, harnessed). compare_acs (score_recorded_run suite (au_baseline suite)) harnessed) suites in
      bind_res (mean_composite (map cp_baseline comparisons)) (\<lambda>baseline_mean.
      bind_res (mean_composite (map cp_harnessed comparisons)) (\<lambda>harness_mean.
        let relative = relative_to baseline_mean harness_mean (fl (harness_mean - baseline_mean)) in
        Inr \<lparr>rp_baseline_mean = baseline_mean, rp_harness_mean = harness_mean, rp_relative = relative,
             rp_meets = (acs_uplift_target \<le> relative), rp_suites = comparisons\<rparr>)))"


section \<open>The report\<close>

fun strip_zeros :: "string \<Rightarrow> string" where
  "strip_zeros s = rev (dropWhile (\<lambda>c. c = CHR ''0'') (rev s))"

definition strip_point :: "string \<Rightarrow> string" where
  "strip_point s = (if s \<noteq> [] \<and> last s = CHR ''.'' then butlast s else s)"

text \<open>\<open>toFixed(2)\<close> picks the nearest number of hundredths of the exact value, the larger on a tie.\<close>

definition to_fixed_2 :: "rat \<Rightarrow> string" where
  "to_fixed_2 v =
     (let n = nat (math_round (\<bar>v\<bar> * 100)); frac = dec_nat (n mod 100) in
      (if v < 0 then ''-'' else []) @ dec_nat (n div 100) @ ''.'' @ (if length frac = 1 then ''0'' else []) @ frac)"

definition format_number :: "rat \<Rightarrow> string" where
  "format_number v = (if of_int (floor v) = v then dec_int (floor v) else strip_point (strip_zeros (to_fixed_2 v)))"

definition yes_no :: "bool \<Rightarrow> string" where
  "yes_no b = (if b then ''yes'' else ''no'')"

definition report_row :: "acs_comparison \<Rightarrow> string" where
  "report_row c = ''| '' @ cp_suite c @ '' | '' @ format_number (cp_baseline c) @ '' | '' @ format_number (cp_harnessed c)
     @ '' | '' @ format_number (cp_relative c) @ ''% | '' @ yes_no (cp_meets c) @ '' |''"

definition format_acs_report :: "acs_report \<Rightarrow> string" where
  "format_acs_report r = js_join [char_of (10 :: nat)] (
     [''# ACS harness report'', [],
      ''- Target relative uplift: '' @ format_number acs_uplift_target @ ''%'',
      ''- Baseline mean: '' @ format_number (rp_baseline_mean r),
      ''- Harness mean: '' @ format_number (rp_harness_mean r),
      ''- Relative uplift: '' @ format_number (rp_relative r) @ ''%'',
      ''- Meets target: '' @ yes_no (rp_meets r), [],
      ''| Suite | Baseline | Harnessed | Relative uplift | Meets target |'',
      ''| --- | ---: | ---: | ---: | --- |''] @ map report_row (rp_suites r) @ [[]])"

section \<open>Bounds\<close>

definition percent :: "rat \<Rightarrow> bool" where
  "percent v \<longleftrightarrow> 0 \<le> v \<and> v \<le> 100"

lemma fl_within: "0 \<le> x \<Longrightarrow> x \<le> of_int n \<Longrightarrow> 0 \<le> n \<Longrightarrow> n < 2 ^ 53 \<Longrightarrow> 0 \<le> fl x \<and> fl x \<le> of_int n"
  using binary64.rnd_between [of 0 x n] by simp

lemma round_cents_percent:
  assumes "percent v"
  shows "percent (round_cents v)"
proof -
  have "0 \<le> fl (v * 100) \<and> fl (v * 100) \<le> 10000"
    using fl_within [of "v * 100" 10000] assms by (simp add: percent_def)
  then have m: "0 \<le> math_round (fl (v * 100))" "math_round (fl (v * 100)) \<le> 10000"
    by (simp_all add: math_round_def le_floor_iff floor_le_iff)
  then have "(of_int (math_round (fl (v * 100))) :: rat) \<le> 10000"
    using of_int_le_iff [of "math_round (fl (v * 100))" 10000, where 'a = rat] by simp
  with m show ?thesis
    using fl_within [of "of_int (math_round (fl (v * 100))) / 100" 100] by (simp add: percent_def round_cents_def)
qed

lemma share_percent:
  assumes "0 \<le> x" "x \<le> 1"
  shows "percent (round_cents (fl (fl x * 100)))"
proof -
  have "0 \<le> fl x \<and> fl x \<le> 1" using fl_within [of x 1] assms by simp
  then have "0 \<le> fl (fl x * 100) \<and> fl (fl x * 100) \<le> 100" using fl_within [of "fl x * 100" 100] by simp
  then show ?thesis by (intro round_cents_percent) (simp add: percent_def)
qed

lemma ratio_percent: "hits \<le> all \<Longrightarrow> percent (ratio hits all)"
  by (cases "all = 0") (auto simp: ratio_def percent_def [of 100] intro!: share_percent simp: divide_le_eq)

lemma run_metrics_percent:
  assumes "\<forall>n. au_target_tokens suite = Some n \<longrightarrow> 0 \<le> n"
  shows "percent (am_task_success (run_metrics suite run))" "percent (am_grounding (run_metrics suite run))"
    "percent (am_tool_correctness (run_metrics suite run))" "percent (am_recovery (run_metrics suite run))"
    "percent (am_policy (run_metrics suite run))" "percent (am_efficiency (run_metrics suite run))"
proof -
  have p: "percent 0" "percent 100" by (simp_all add: percent_def)
  show "percent (am_task_success (run_metrics suite run))" "percent (am_grounding (run_metrics suite run))"
    by (auto simp: run_metrics_def Let_def p intro!: ratio_percent)
  have "percent (round_cents (fl (expected_hits suite run * 100)))"
  proof (cases "or_empty (au_expected_tools suite) = []")
    case True
    then have "expected_hits suite run = 1" by (simp add: expected_hits_def)
    moreover have "fl 100 = 100" using binary64.rnd_int [of 100] by simp
    ultimately show ?thesis using round_cents_percent [OF p(2)] by simp
  next
    case False
    then show ?thesis by (auto simp: expected_hits_def Let_def intro!: share_percent simp: divide_le_eq)
  qed
  then show "percent (am_tool_correctness (run_metrics suite run))" by (simp add: run_metrics_def Let_def p)
  show "percent (am_recovery (run_metrics suite run))"
    by (auto simp: run_metrics_def Let_def recovery_metric_def p split: option.splits list.splits)
  show "percent (am_policy (run_metrics suite run))" by (simp add: run_metrics_def Let_def p)
  have "percent (efficiency_metric suite run)"
  proof -
    define target where "target = (case au_target_tokens suite of Some n \<Rightarrow> n | None \<Rightarrow> max_safe_integer)"
    define tokens where "tokens = (case rr_tokens run of Some n \<Rightarrow> n | None \<Rightarrow> 0)"
    have t: "0 \<le> target" using assms by (auto simp: target_def max_safe_integer_def split: option.splits)
    show ?thesis
    proof (cases "tokens \<le> target")
      case True
      then show ?thesis by (simp add: efficiency_metric_def target_def tokens_def p)
    next
      case False
      with t have "(of_int target :: rat) \<le> of_int (max tokens 1)" "(0 :: rat) < of_int (max tokens 1)"
        by (simp_all only: of_int_le_iff of_int_0_less_iff)
      with t have "0 \<le> (of_int target / of_int (max tokens 1) :: rat)" "(of_int target / of_int (max tokens 1) :: rat) \<le> 1"
        by (simp_all add: divide_le_eq)
      from share_percent [OF this] False show ?thesis by (simp add: efficiency_metric_def target_def tokens_def)
    qed
  qed
  then show "percent (am_efficiency (run_metrics suite run))" by (simp add: run_metrics_def Let_def)
qed


text \<open>The weights as doubles, and a full metric under each weight, which is exact.\<close>

lemma round_even_near:
  assumes "of_int m - 1 / 2 < x" "x < of_int m + 1 / 2"
  shows "round_even x = m"
proof (cases "of_int m \<le> x")
  case True
  then have "floor x = m" using assms(2) by (intro floor_unique) simp_all
  with assms(2) show ?thesis by (simp add: round_even_def Let_def)
next
  case False
  then have "floor x = m - 1" using assms(1) by (intro floor_unique) simp_all
  with assms(1) show ?thesis by (simp add: round_even_def Let_def)
qed

lemma fl_nearest:
  assumes "2 powi e \<le> q" "q < 2 powi (e + 1)" "u = 2 powi (e - 52)" "of_int m * u - u / 2 < q" "q < of_int m * u + u / 2"
  shows "fl q = of_int m * u"
proof -
  have "0 < (2 :: rat) powi e" by simp
  with assms(1) have "0 < q" by linarith
  have u: "0 < u" by (simp add: assms(3))
  then have "of_int m - 1 / 2 < q / u" "q / u < of_int m + 1 / 2" using assms(4,5) by (simp_all add: field_simps)
  then have "round_even (q / u) = m" by (rule round_even_near)
  with \<open>0 < q\<close> binary_exponent_unique [OF assms(1,2)] show ?thesis by (simp add: fl_def fl_pos_def Let_def assms(3))
qed

lemma weights:
  "fl (3 / 10) = 5404319552844595 / 2 ^ 54" "fl (2 / 10) = 7205759403792794 / 2 ^ 55"
  "fl (15 / 100) = 5404319552844595 / 2 ^ 55" "fl (1 / 10) = 7205759403792794 / 2 ^ 56"
  using fl_nearest [of "- 2" "3 / 10" "1 / 2 ^ 54" 5404319552844595] fl_nearest [of "- 3" "2 / 10" "1 / 2 ^ 55" 7205759403792794]
    fl_nearest [of "- 3" "15 / 100" "1 / 2 ^ 55" 5404319552844595] fl_nearest [of "- 4" "1 / 10" "1 / 2 ^ 56" 7205759403792794]
  by (simp_all add: power_int_minus)

lemma full_metrics:
  "fl (100 * weight_task_success) = 30" "fl (100 * weight_grounding) = 20" "fl (100 * weight_tool_correctness) = 15"
  "fl (100 * weight_recovery) = 15" "fl (100 * weight_policy) = 10" "fl (100 * weight_efficiency) = 10"
  unfolding weight_task_success_def weight_grounding_def weight_tool_correctness_def weight_recovery_def weight_policy_def
    weight_efficiency_def weights
  using fl_nearest [of 4 "100 * (5404319552844595 / 2 ^ 54)" "1 / 2 ^ 48" "30 * 2 ^ 48"]
    fl_nearest [of 4 "100 * (7205759403792794 / 2 ^ 55)" "1 / 2 ^ 48" "20 * 2 ^ 48"]
    fl_nearest [of 3 "100 * (5404319552844595 / 2 ^ 55)" "1 / 2 ^ 49" "15 * 2 ^ 49"]
    fl_nearest [of 3 "100 * (7205759403792794 / 2 ^ 56)" "1 / 2 ^ 49" "10 * 2 ^ 49"]
  by (simp_all add: power_int_minus)

lemma weighted_metric:
  assumes "percent v" "0 \<le> w" "fl (100 * w) = of_int c"
  shows "0 \<le> fl (v * w) \<and> fl (v * w) \<le> of_int c"
proof -
  have "0 \<le> v * w" "v * w \<le> 100 * w" using assms(1,2) by (simp_all add: percent_def mult_right_mono)
  from binary64.rnd_mono [OF this(1)] binary64.rnd_mono [OF this(2)] assms(3) show ?thesis by simp
qed

lemma sum_within:
  assumes "0 \<le> x \<and> x \<le> of_int a" "0 \<le> y \<and> y \<le> of_int b" "0 \<le> a + b" "a + b < 2 ^ 53"
  shows "0 \<le> fl (x + y) \<and> fl (x + y) \<le> of_int (a + b)"
  using fl_within [of "x + y" "a + b"] assms by simp

lemma weights_nonneg:
  "0 \<le> weight_task_success" "0 \<le> weight_grounding" "0 \<le> weight_tool_correctness" "0 \<le> weight_recovery"
  "0 \<le> weight_policy" "0 \<le> weight_efficiency"
  unfolding weight_task_success_def weight_grounding_def weight_tool_correctness_def weight_recovery_def weight_policy_def
    weight_efficiency_def weights by simp_all

lemma composite_within:
  assumes "percent (am_task_success m)" "percent (am_grounding m)" "percent (am_recovery m)" "percent (am_efficiency m)"
    and "0 \<le> fl (am_tool_correctness m * weight_tool_correctness) \<and> fl (am_tool_correctness m * weight_tool_correctness) \<le> of_int t"
    and "0 \<le> fl (am_policy m * weight_policy) \<and> fl (am_policy m * weight_policy) \<le> of_int p"
    and "0 \<le> t" "t \<le> 15" "0 \<le> p" "p \<le> 10"
  shows "0 \<le> composite_acs m \<and> composite_acs m \<le> of_int (75 + t + p)"
proof -
  have w: "0 \<le> fl (am_task_success m * weight_task_success) \<and> fl (am_task_success m * weight_task_success) \<le> of_int 30"
    "0 \<le> fl (am_grounding m * weight_grounding) \<and> fl (am_grounding m * weight_grounding) \<le> of_int 20"
    "0 \<le> fl (am_recovery m * weight_recovery) \<and> fl (am_recovery m * weight_recovery) \<le> of_int 15"
    "0 \<le> fl (am_efficiency m * weight_efficiency) \<and> fl (am_efficiency m * weight_efficiency) \<le> of_int 10"
    by (rule weighted_metric; simp add: assms(1-4) full_metrics weights_nonneg)+
  note s = sum_within [OF sum_within [OF sum_within [OF sum_within [OF sum_within [OF w(1,2)] assms(5)] w(3)] assms(6)] w(4)]
  define total where "total = fl (fl (fl (fl (fl (fl (am_task_success m * weight_task_success) + fl (am_grounding m * weight_grounding))
       + fl (am_tool_correctness m * weight_tool_correctness)) + fl (am_recovery m * weight_recovery))
       + fl (am_policy m * weight_policy)) + fl (am_efficiency m * weight_efficiency))"
  have total: "0 \<le> total \<and> total \<le> of_int (75 + t + p)"
    using s assms(7-) by (simp add: total_def)
  then have "0 \<le> fl (total * 100) \<and> fl (total * 100) \<le> of_int ((75 + t + p) * 100)"
    using fl_within [of "total * 100" "(75 + t + p) * 100"] assms(7-) by simp
  then have "0 \<le> math_round (fl (total * 100))" "math_round (fl (total * 100)) \<le> (75 + t + p) * 100"
    by (simp_all add: math_round_def le_floor_iff floor_le_iff)
  then have "(0 :: rat) \<le> of_int (math_round (fl (total * 100)))" "(of_int (math_round (fl (total * 100))) :: rat) \<le> of_int ((75 + t + p) * 100)"
    by (simp_all only: of_int_le_iff of_int_0_le_iff)
  then have "0 \<le> round_cents total \<and> round_cents total \<le> of_int (75 + t + p)"
    using fl_within [of "of_int (math_round (fl (total * 100))) / 100" "75 + t + p"] assms(7-) by (simp add: round_cents_def)
  then show ?thesis by (simp add: composite_acs_def total_def)
qed

section \<open>Properties\<close>

text \<open>
  C26. For a suite whose token target is not negative, in double arithmetic, roundings included, every metric
  and the composite of a run lie between 0 and 100, and a run that used a prohibited tool or mentioned a prohibited action scores at most 75.
\<close>

theorem acs_score_bounds:
  assumes "\<forall>n. au_target_tokens suite = Some n \<longrightarrow> 0 \<le> n"
  shows "percent (as_composite (score_recorded_run suite run))
    \<and> list_all percent (map (\<lambda>f. f (run_metrics suite run))
        [am_task_success, am_grounding, am_tool_correctness, am_recovery, am_policy, am_efficiency])
    \<and> (prohibited_used suite run \<longrightarrow> as_composite (score_recorded_run suite run) \<le> 75)"
proof -
  note p = run_metrics_percent [OF assms, of run]
  have tool: "0 \<le> fl (am_tool_correctness (run_metrics suite run) * weight_tool_correctness)
      \<and> fl (am_tool_correctness (run_metrics suite run) * weight_tool_correctness) \<le> of_int 15"
    and pol: "0 \<le> fl (am_policy (run_metrics suite run) * weight_policy) \<and> fl (am_policy (run_metrics suite run) * weight_policy) \<le> of_int 10"
    by (rule weighted_metric; simp add: p full_metrics weights_nonneg)+
  have "percent (composite_acs (run_metrics suite run))"
    using composite_within [OF p(1,2,4,6) tool pol] by (simp add: percent_def)
  moreover have "composite_acs (run_metrics suite run) \<le> 75" if "prohibited_used suite run"
  proof -
    have "am_tool_correctness (run_metrics suite run) = 0" "am_policy (run_metrics suite run) = 0"
      using that by (simp_all add: run_metrics_def Let_def)
    then show ?thesis using composite_within [OF p(1,2,4,6), of 0 0] by simp
  qed
  ultimately show ?thesis using p by (simp add: score_recorded_run_def)
qed

definition demo_suite :: acs_suite where
  "demo_suite = \<lparr>au_id = ''s'', au_success_criteria = [''done''], au_required_evidence = None, au_expected_tools = None,
     au_prohibited_actions = Some [''pay''], au_target_tokens = Some 100, au_injected_failure = None,
     au_baseline = \<lparr>rr_output = ''pay'', rr_tool_calls = None, rr_status = None, rr_tokens = None\<rparr>\<rparr>"

theorem acs_score_bounds_witness: "as_composite (score_recorded_run demo_suite (au_baseline demo_suite)) \<le> 75"
proof -
  have "contains_text ''pay'' ''pay''" by code_simp
  then have "prohibited_used demo_suite (au_baseline demo_suite)"
    by (simp add: prohibited_used_def demo_suite_def or_empty_def)
  then show ?thesis using acs_score_bounds [of demo_suite "au_baseline demo_suite"] by (simp add: demo_suite_def)
qed

text \<open>A run that scores as its baseline shows no uplift and does not meet the target.\<close>

lemma no_uplift: "cp_uplift (compare_acs s s) = 0 \<and> \<not> cp_meets (compare_acs s s)"
proof -
  have "floor (1 / 2 :: rat) = 0" by (rule floor_unique) simp_all
  then have z: "round_cents 0 = 0" by (simp add: round_cents_def math_round_def)
  then show ?thesis by (simp add: compare_acs_def Let_def relative_to_def acs_uplift_target_def)
qed

end
