(* ===== verification/Authority.thy ===== *)
theory Authority
  imports Harness_Types
begin

text \<open>
  \<open>capabilities/authority.ts\<close>, the authority types of \<open>capabilities/types.ts\<close>, the
  handoff check of \<open>multi-agent/index.ts\<close> and the approval gate of \<open>claims/index.ts\<close>:
  what an agent may use is the intersection of what its parent, its host and its policy grant.
\<close>

record authority_grant =
  ag_capabilities :: "string list"
  ag_tools :: "string list"
  ag_namespaces :: "string list option"

record effective_authority =
  ea_capabilities :: "string list"
  ea_tools :: "string list"
  ea_namespaces :: "string list"

fun as_string_array :: "jsval \<Rightarrow> string list option" where
  "as_string_array (JArr xs) = strings_of xs"
| "as_string_array _ = None"

definition strings_or_nil :: "string list option \<Rightarrow> string list" where
  "strings_or_nil xs = (case xs of Some ys \<Rightarrow> ys | None \<Rightarrow> [])"

fun parse_authority_grant :: "jsval \<Rightarrow> authority_grant option" where
  "parse_authority_grant (JObj es) =
     (let capabilities = as_string_array (js_get es ''capabilities'');
          tools = as_string_array (js_get es ''tools'');
          namespaces = as_string_array (js_get es ''namespaces'') in
      if capabilities = None \<and> tools = None \<and> namespaces = None then None
      else Some \<lparr>ag_capabilities = sorted_set (strings_or_nil capabilities),
             ag_tools = sorted_set (strings_or_nil tools),
             ag_namespaces = Some (sorted_set (strings_or_nil namespaces))\<rparr>)"
| "parse_authority_grant _ = None"

fun intersect_lists :: "string list list \<Rightarrow> string list" where
  "intersect_lists [] = []"
| "intersect_lists (first # rest) = sorted_set (filter (\<lambda>item. list_all (\<lambda>l. item \<in> set l) rest) first)"

fun present :: "'a option list \<Rightarrow> 'a list" where
  "present [] = []"
| "present (None # xs) = present xs"
| "present (Some x # xs) = x # present xs"

definition intersect_authority ::
  "authority_grant option \<Rightarrow> agent_capabilities option \<Rightarrow> authority_grant option \<Rightarrow> authority_grant option \<Rightarrow> effective_authority" where
  "intersect_authority parent agent host policy =
     (let grants = present [parent, host, policy];
          tools = (if grants = [] then [] else intersect_lists (map ag_tools grants)) in
      \<lparr>ea_capabilities = (if grants = [] then [] else intersect_lists (map ag_capabilities grants)),
       ea_tools = (case agent of Some a \<Rightarrow> if ac_tools a then tools else [] | None \<Rightarrow> tools),
       ea_namespaces = (if grants = [] then [] else intersect_lists (map (\<lambda>g. strings_or_nil (ag_namespaces g)) grants))\<rparr>)"

record handoff_authority =
  ha_capabilities :: "string list"
  ha_namespaces :: "string list"
  ha_max_steps :: int
  ha_max_cost_micros :: int

definition all_in :: "string list \<Rightarrow> string list \<Rightarrow> bool" where
  "all_in a b = list_all (\<lambda>item. item \<in> set b) a"

definition assert_narrow_authority :: "handoff_authority \<Rightarrow> handoff_authority \<Rightarrow> handoff_authority \<Rightarrow> unit result" where
  "assert_narrow_authority child parent pack =
     (if \<not> all_in (ha_capabilities child) (ha_capabilities parent) \<or> \<not> all_in (ha_capabilities child) (ha_capabilities pack)
        \<or> \<not> all_in (ha_namespaces child) (ha_namespaces parent) \<or> \<not> all_in (ha_namespaces child) (ha_namespaces pack)
        \<or> min (ha_max_steps parent) (ha_max_steps pack) < ha_max_steps child
        \<or> min (ha_max_cost_micros parent) (ha_max_cost_micros pack) < ha_max_cost_micros child
      then Inl (PlainError ''handoff authority escalation'') else Inr ())"

datatype mutation_approval = ByPolicy string | ByHuman string

definition commit_claim_proposal :: "('p \<Rightarrow> 'r result) \<Rightarrow> 'p \<Rightarrow> mutation_approval \<Rightarrow> 'r result" where
  "commit_claim_proposal commit proposal approval =
     (if approval = ByPolicy [] \<or> approval = ByHuman [] then Inl (PlainError ''explicit ClaimGraph approval is required'')
      else commit proposal)"

section \<open>Intersection\<close>

lemma set_intersect_lists:
  "set (intersect_lists ls) = (if ls = [] then {} else \<Inter> (set ` set ls))"
  by (cases ls) (auto simp: list_all_iff)

lemma intersect_lists_canonical:
  assumes "set ` set ls = set ` set ms"
  shows "intersect_lists ls = intersect_lists ms"
proof -
  have "ls = [] \<longleftrightarrow> ms = []" using assms by auto
  then have eq: "set (intersect_lists ls) = set (intersect_lists ms)"
    using assms by (simp add: set_intersect_lists)
  have idem: "sorted_set (intersect_lists xs) = intersect_lists xs" for xs
    by (cases xs) simp_all
  show ?thesis using sorted_set_cong [OF eq] by (simp add: idem)
qed

lemma intersect_lists_guard: "(if gs = [] then [] else intersect_lists (map f gs)) = intersect_lists (map f gs)"
  by (cases gs) simp_all

lemma intersect_authority_lists:
  "ea_capabilities (intersect_authority parent agent host policy) = intersect_lists (map ag_capabilities (present [parent, host, policy]))"
  "ea_namespaces (intersect_authority parent agent host policy)
     = intersect_lists (map (\<lambda>g. strings_or_nil (ag_namespaces g)) (present [parent, host, policy]))"
  "ea_tools (intersect_authority parent agent host policy)
     = (if \<forall>a. agent = Some a \<longrightarrow> ac_tools a then intersect_lists (map ag_tools (present [parent, host, policy])) else [])"
  unfolding intersect_authority_def Let_def intersect_lists_guard by (simp_all split: option.splits)

lemma set_present: "set (present xs) = {x. Some x \<in> set xs}"
  by (induction xs rule: present.induct) auto

text \<open>
  C11. Authority is exactly the intersection of the given grants, empty when there is none: a
  capability or namespace is effective if and only if every given grant has it, and a tool if and
  only if moreover the agent, when it is described, supports tools at all.
\<close>

theorem intersect_authority_iff:
  assumes "intersect_authority parent agent host policy = e" "G = {g. parent = Some g \<or> host = Some g \<or> policy = Some g}"
  shows "set (ea_capabilities e) = {c. G \<noteq> {} \<and> (\<forall>g \<in> G. c \<in> set (ag_capabilities g))}
    \<and> set (ea_namespaces e) = {n. G \<noteq> {} \<and> (\<forall>g \<in> G. \<exists>ns. ag_namespaces g = Some ns \<and> n \<in> set ns)}
    \<and> set (ea_tools e) = {t. G \<noteq> {} \<and> (\<forall>g \<in> G. t \<in> set (ag_tools g)) \<and> (\<forall>a. agent = Some a \<longrightarrow> ac_tools a)}"
proof -
  let ?gs = "present [parent, host, policy]"
  have G: "set ?gs = G" using assms(2) by (auto simp: set_present)
  then have nil: "?gs = [] \<longleftrightarrow> G = {}" by (metis set_empty)
  have inter: "set (intersect_lists (map f ?gs)) = {c. \<forall>g \<in> G. c \<in> set (f g)}" if "G \<noteq> {}" for f :: "authority_grant \<Rightarrow> string list"
  proof -
    have "map f ?gs \<noteq> []" using that nil by simp
    then have "set (intersect_lists (map f ?gs)) = \<Inter> (set ` f ` G)"
      unfolding set_intersect_lists by (simp add: G)
    then show ?thesis by auto
  qed
  note e = intersect_authority_lists [of parent agent host policy, unfolded assms(1)]
  have ns: "n \<in> set (strings_or_nil (ag_namespaces g)) \<longleftrightarrow> (\<exists>ns. ag_namespaces g = Some ns \<and> n \<in> set ns)" for n g
    by (cases "ag_namespaces g") (simp_all add: strings_or_nil_def)
  show ?thesis
  proof (cases "G = {}")
    case True
    with nil have "?gs = []" by simp
    with True show ?thesis by (simp add: e)
  next
    case False
    then show ?thesis by (simp add: e inter ns conj_commute)
  qed
qed

lemma same_present:
  assumes "list_all2 (rel_option R) gs hs"
  shows "list_all2 R (present gs) (present hs)"
  using assms
proof (induction gs hs rule: list_all2_induct)
  case (Cons g gs h hs)
  then show ?case by (cases g; cases h) auto
qed simp

lemma same_lists:
  assumes "list_all2 (\<lambda>g h. set (f g) = set (f h)) gs hs"
  shows "intersect_lists (map f gs) = intersect_lists (map f hs)"
proof (rule intersect_lists_canonical)
  show "set ` set (map f gs) = set ` set (map f hs)"
    using assms by (induction rule: list_all2_induct) auto
qed

definition same_grant :: "authority_grant \<Rightarrow> authority_grant \<Rightarrow> bool" where
  "same_grant g h \<longleftrightarrow> set (ag_capabilities g) = set (ag_capabilities h) \<and> set (ag_tools g) = set (ag_tools h)
     \<and> set (strings_or_nil (ag_namespaces g)) = set (strings_or_nil (ag_namespaces h))"

text \<open>
  Effective authority does not depend on how the grants are written: settings whose grants have
  the same sets of capabilities, tools and namespaces yield the same lists, sorted and without
  repetition.
\<close>

theorem intersect_authority_canonical:
  assumes "list_all2 (rel_option same_grant) [p, h, q] [p', h', q']"
  shows "intersect_authority p a h q = intersect_authority p' a h' q'
    \<and> sorted_set (ea_capabilities (intersect_authority p a h q)) = ea_capabilities (intersect_authority p a h q)"
proof -
  have rel: "list_all2 same_grant (present [p, h, q]) (present [p', h', q'])"
    using assms by (rule same_present)
  have "intersect_lists (map ag_capabilities (present [p, h, q])) = intersect_lists (map ag_capabilities (present [p', h', q']))"
    "intersect_lists (map ag_tools (present [p, h, q])) = intersect_lists (map ag_tools (present [p', h', q']))"
    "intersect_lists (map (\<lambda>g. strings_or_nil (ag_namespaces g)) (present [p, h, q]))
       = intersect_lists (map (\<lambda>g. strings_or_nil (ag_namespaces g)) (present [p', h', q']))"
    using rel by (auto intro!: same_lists elim: list_all2_mono simp: same_grant_def)
  then have "intersect_authority p a h q = intersect_authority p' a h' q'"
    by (intro effective_authority.equality; cases a) (simp_all add: intersect_authority_lists)
  moreover have "sorted_set (intersect_lists ls) = intersect_lists ls" for ls
    by (cases ls) simp_all
  ultimately show ?thesis by (simp add: intersect_authority_lists)
qed

text \<open>
  A handoff is accepted exactly when the child's authority is contained in the parent's and the
  pack's: fewer capabilities and namespaces, and no larger step and cost limits than either.
\<close>

theorem assert_narrow_authority_iff:
  "assert_narrow_authority child parent pack = Inr () \<longleftrightarrow>
     set (ha_capabilities child) \<subseteq> set (ha_capabilities parent) \<inter> set (ha_capabilities pack)
     \<and> set (ha_namespaces child) \<subseteq> set (ha_namespaces parent) \<inter> set (ha_namespaces pack)
     \<and> ha_max_steps child \<le> ha_max_steps parent \<and> ha_max_steps child \<le> ha_max_steps pack
     \<and> ha_max_cost_micros child \<le> ha_max_cost_micros parent \<and> ha_max_cost_micros child \<le> ha_max_cost_micros pack"
proof -
  have "all_in a b \<longleftrightarrow> set a \<subseteq> set b" for a b by (auto simp: all_in_def list_all_iff)
  then show ?thesis by (auto simp: assert_narrow_authority_def)
qed

section \<open>Concrete runs\<close>

definition demo_grant :: authority_grant where
  "demo_grant = \<lparr>ag_capabilities = [''b'', ''a''], ag_tools = [''search''], ag_namespaces = Some [''docs'']\<rparr>"

definition demo_policy :: authority_grant where
  "demo_policy = \<lparr>ag_capabilities = [''a'', ''c'', ''b''], ag_tools = [''search''], ag_namespaces = None\<rparr>"

theorem intersect_authority_iff_witness:
  "''a'' \<in> set (ea_capabilities (intersect_authority (Some demo_grant) None (Some demo_policy) None))"
proof -
  have "{demo_grant, demo_policy} = {g. Some demo_grant = Some g \<or> Some demo_policy = Some g \<or> None = Some g}"
    by auto
  from intersect_authority_iff [OF refl this, where agent = None, THEN conjunct1] show ?thesis
    by (simp add: demo_grant_def demo_policy_def)
qed

theorem intersect_authority_canonical_witness:
  "intersect_authority (Some demo_grant) None None None
     = intersect_authority (Some (demo_grant\<lparr>ag_capabilities := [''a'', ''b'', ''a'']\<rparr>)) None None None"
  by (rule intersect_authority_canonical [THEN conjunct1]) (auto simp: same_grant_def demo_grant_def)

end
