(* ===== verification/Capability_Index.thy ===== *)
theory Capability_Index
  imports Skill_Definition Authority
begin

text \<open>
  Capability packs (\<open>capabilities/pack.ts\<close>, \<open>CapabilityMetadataV1\<close> of
  \<open>capabilities/types.ts\<close>) and the index over them (\<open>capabilities/catalog.ts\<close>). The
  skills of a pack are whatever its \<open>skills\<close> array held, cast to their declared type without a
  check, so they are JSON values here; the index reads their \<open>id\<close> and keeps them as they are.
  A key that is an array or an object is compared by structure, where JavaScript compares it by
  identity; the definition check refuses such an \<open>id\<close> later in any case.
\<close>

section \<open>Packs\<close>

record capability_metadata =
  cm_pack_id :: string
  cm_digest :: "string option"
  cm_role :: string
  cm_capabilities :: "string list"
  cm_tools :: "string list"
  cm_namespaces :: "string list"
  cm_skills :: "jsval list"
  cm_license :: "string option"

definition parse_role :: "jsval \<Rightarrow> string option" where
  "parse_role v = (case v of JStr s \<Rightarrow> if s \<in> set dependency_roles then Some s else None | _ \<Rightarrow> None)"

fun as_record :: "jsval \<Rightarrow> (string \<times> jsval) list option" where
  "as_record (JObj es) = Some es"
| "as_record _ = None"

fun as_array :: "jsval \<Rightarrow> jsval list" where
  "as_array (JArr xs) = xs"
| "as_array _ = []"

text \<open>\<open>record?.key\<close> on an optional record.\<close>

definition opt_get :: "(string \<times> jsval) list option \<Rightarrow> string \<Rightarrow> jsval" where
  "opt_get r k = (case r of Some es \<Rightarrow> js_get es k | None \<Rightarrow> JUndef)"

definition strings_at :: "jsval \<Rightarrow> string list" where
  "strings_at v = strings_or_nil (as_string_array v)"

text \<open>\<open>typeof a === "string" ? a : typeof b === "string" ? b : undefined\<close>, dropped when empty.\<close>

definition first_string :: "jsval \<Rightarrow> jsval \<Rightarrow> string option" where
  "first_string a b = (case js_string a of Some s \<Rightarrow> nonempty_string (Some s) | None \<Rightarrow> nonempty_string (js_string b))"

definition capability_metadata_from_pack :: "jsval \<Rightarrow> capability_metadata result" where
  "capability_metadata_from_pack pack =
     (case pack of
        JObj es \<Rightarrow>
          bind_res (nonblank_string ''pack metadata requires id'' (js_get es ''id'')) (\<lambda>i.
            let authority = (case as_record (js_get es ''authority'') of Some a \<Rightarrow> a | None \<Rightarrow> []);
                embedded = as_record (js_get es ''capabilityMetadata'');
                skills = as_array (js_get es ''skills'') @ as_array (opt_get embedded ''skills'')
            in Inr \<lparr>cm_pack_id = i,
                 cm_digest = first_string (js_get es ''digest'') (opt_get embedded ''digest''),
                 cm_role = (case parse_role (nullish_or (opt_get embedded ''role'') (js_get es ''role'')) of
                     Some r \<Rightarrow> r | None \<Rightarrow> if skills \<noteq> [] then ''skill'' else ''knowledge''),
                 cm_capabilities = sorted_set (strings_at (js_get authority ''capabilities'')
                     @ strings_at (js_get es ''capabilities'') @ strings_at (opt_get embedded ''capabilities'')),
                 cm_tools = sorted_set (strings_at (js_get es ''tools'') @ strings_at (opt_get embedded ''tools'')),
                 cm_namespaces = sorted_set (strings_at (js_get authority ''namespaces'')
                     @ strings_at (js_get es ''namespaces'') @ strings_at (opt_get embedded ''namespaces'')),
                 cm_skills = skills,
                 cm_license = first_string (js_get es ''license'') (opt_get embedded ''license'')\<rparr>)
      | _ \<Rightarrow> harness_fail ''pack metadata must be an object'')"

section \<open>The index\<close>

type_synonym indexed_skill = "jsval \<times> string"

record capability_index =
  ix_packs :: "(string, capability_metadata) js_map"
  ix_skills :: "(jsval, indexed_skill) js_map"

definition empty_index :: capability_index where
  "empty_index = \<lparr>ix_packs = [], ix_skills = []\<rparr>"

text \<open>\<open>skill.id\<close>\<close>

fun skill_key :: "jsval \<Rightarrow> jsval result" where
  "skill_key JUndef = Inl (TypeError ''Cannot read properties of undefined (reading id)'')"
| "skill_key JNull = Inl (TypeError ''Cannot read properties of null (reading id)'')"
| "skill_key (JObj es) = Inr (js_get es ''id'')"
| "skill_key _ = Inr JUndef"

fun add_skills :: "string \<Rightarrow> jsval list \<Rightarrow> (jsval, indexed_skill) js_map \<Rightarrow> unit result \<times> (jsval, indexed_skill) js_map" where
  "add_skills pack [] m = (Inr (), m)"
| "add_skills pack (v # vs) m =
     (case skill_key v of
        Inl e \<Rightarrow> (Inl e, m)
      | Inr k \<Rightarrow>
          if map_of m k \<noteq> None then (harness_fail (''duplicate skill in capability index: '' @ js_text k), m)
          else add_skills pack vs (map_put k (v, pack) m))"

definition index_add :: "capability_metadata \<Rightarrow> capability_index \<Rightarrow> unit result \<times> capability_index" where
  "index_add m ix =
     (if map_of (ix_packs ix) (cm_pack_id m) \<noteq> None
      then (harness_fail (''duplicate pack in capability index: '' @ cm_pack_id m), ix)
      else case add_skills (cm_pack_id m) (cm_skills m) (ix_skills ix) of
          (r, skills) \<Rightarrow> (r, \<lparr>ix_packs = map_put (cm_pack_id m) m (ix_packs ix), ix_skills = skills\<rparr>))"

fun any_indexed :: "(jsval, indexed_skill) js_map \<Rightarrow> jsval list \<Rightarrow> bool result" where
  "any_indexed m [] = Inr False"
| "any_indexed m (v # vs) =
     bind_res (skill_key v) (\<lambda>k. if map_of m k \<noteq> None then Inr True else any_indexed m vs)"

definition index_try_add :: "capability_metadata \<Rightarrow> capability_index \<Rightarrow> bool result \<times> capability_index" where
  "index_try_add m ix =
     (if map_of (ix_packs ix) (cm_pack_id m) \<noteq> None then (Inr False, ix)
      else case any_indexed (ix_skills ix) (cm_skills m) of
          Inl e \<Rightarrow> (Inl e, ix)
        | Inr True \<Rightarrow> (Inr False, ix)
        | Inr False \<Rightarrow> (case index_add m ix of (Inl e, ix') \<Rightarrow> (Inl e, ix') | (Inr _, ix') \<Rightarrow> (Inr True, ix')))"

definition has_pack :: "capability_index \<Rightarrow> string \<Rightarrow> bool" where
  "has_pack ix p \<longleftrightarrow> map_of (ix_packs ix) p \<noteq> None"

definition index_skill :: "capability_index \<Rightarrow> jsval \<Rightarrow> indexed_skill option" where
  "index_skill ix k = map_of (ix_skills ix) k"

fun index_from :: "capability_metadata list \<Rightarrow> capability_index \<Rightarrow> unit result \<times> capability_index" where
  "index_from [] ix = (Inr (), ix)"
| "index_from (m # ms) ix =
     (case index_add m ix of (Inl e, ix') \<Rightarrow> (Inl e, ix') | (Inr _, ix') \<Rightarrow> index_from ms ix')"

fun index_add_packs :: "jsval list \<Rightarrow> capability_index \<Rightarrow> unit result \<times> capability_index" where
  "index_add_packs [] ix = (Inr (), ix)"
| "index_add_packs (p # ps) ix =
     (case capability_metadata_from_pack p of
        Inl e \<Rightarrow> (Inl e, ix)
      | Inr m \<Rightarrow> (case index_add m ix of (Inl e, ix') \<Rightarrow> (Inl e, ix') | (Inr _, ix') \<Rightarrow> index_add_packs ps ix'))"

definition definitions_pack :: "string \<Rightarrow> jsval list \<Rightarrow> capability_metadata" where
  "definitions_pack pack definitions = \<lparr>cm_pack_id = pack, cm_digest = None, cm_role = ''skill'', cm_capabilities = [],
     cm_tools = [], cm_namespaces = [], cm_skills = definitions, cm_license = None\<rparr>"

definition index_add_definitions :: "jsval list \<Rightarrow> string \<Rightarrow> capability_index \<Rightarrow> unit result \<times> capability_index" where
  "index_add_definitions definitions pack ix = index_add (definitions_pack pack definitions) ix"

definition index_metadata :: "locale_compare \<Rightarrow> capability_index \<Rightarrow> capability_metadata list" where
  "index_metadata lc ix = js_sort (cmp_on cm_pack_id lc) (map snd (ix_packs ix))"

text \<open>
  Sorting calls \<open>id.localeCompare\<close> as soon as there are two skills; an \<open>id\<close> that is no string
  has no such method.
\<close>

fun id_string :: "jsval \<Rightarrow> string" where
  "id_string (JObj es) = (case js_get es ''id'' of JStr s \<Rightarrow> s | _ \<Rightarrow> [])"
| "id_string _ = []"

definition has_id_string :: "jsval \<Rightarrow> bool" where
  "has_id_string v = (case skill_key v of Inr k \<Rightarrow> js_string k \<noteq> None | Inl e \<Rightarrow> False)"

definition index_skills :: "locale_compare \<Rightarrow> capability_index \<Rightarrow> indexed_skill list result" where
  "index_skills lc ix =
     (let es = map snd (ix_skills ix) in
      if 2 \<le> length es \<and> \<not> list_all (\<lambda>e. has_id_string (fst e)) es
      then Inl (TypeError ''localeCompare is not a function'')
      else Inr (js_sort (cmp_on (\<lambda>e. id_string (fst e)) lc) es))"

definition index_capabilities :: "locale_compare \<Rightarrow> capability_index \<Rightarrow> string list" where
  "index_capabilities lc ix = sorted_set (concat (map cm_capabilities (index_metadata lc ix)))"

definition index_tools :: "locale_compare \<Rightarrow> capability_index \<Rightarrow> string list" where
  "index_tools lc ix = sorted_set (concat (map cm_tools (index_metadata lc ix)))"

section \<open>The contract of an index\<close>

text \<open>
  What the resolver needs of an index: the listed entries are exactly the entries found under some
  id, each under its own id and listed once.
\<close>

locale skill_catalog =
  fixes lookup :: "'i \<Rightarrow> jsval \<Rightarrow> indexed_skill option"
    and skills :: "'i \<Rightarrow> indexed_skill list result"
    and ok :: "'i \<Rightarrow> bool"
  assumes listed: "ok i \<Longrightarrow> skills i = Inr es \<Longrightarrow> e \<in> set es \<longleftrightarrow> (\<exists>k. lookup i k = Some e)"
    and keyed: "ok i \<Longrightarrow> lookup i k = Some e \<Longrightarrow> skill_key (fst e) = Inr k"
    and distinct_listed: "ok i \<Longrightarrow> skills i = Inr es \<Longrightarrow> distinct es"
begin

lemma listed_key: "ok i \<Longrightarrow> skills i = Inr es \<Longrightarrow> e \<in> set es \<Longrightarrow> skill_key (fst e) = Inr k \<Longrightarrow> lookup i k = Some e"
proof -
  assume a: "ok i" "skills i = Inr es" "e \<in> set es" "skill_key (fst e) = Inr k"
  then obtain j where j: "lookup i j = Some e" using listed [OF a(1,2)] by blast
  with keyed [OF a(1) j] a(4) show "lookup i k = Some e" by simp
qed

lemma listed_keys_distinct:
  assumes "ok i" "skills i = Inr es"
  shows "distinct (map (\<lambda>e. skill_key (fst e)) es)"
proof -
  have "inj_on (\<lambda>e. skill_key (fst e)) (set es)"
  proof (rule inj_onI)
    fix e f assume e: "e \<in> set es" and f: "f \<in> set es" and eq: "skill_key (fst e) = skill_key (fst f)"
    obtain k where "lookup i k = Some e" using e listed [OF assms] by blast
    then have k: "skill_key (fst e) = Inr k" by (rule keyed [OF assms(1)])
    then have "skill_key (fst f) = Inr k" by (simp only: eq [symmetric])
    from listed_key [OF assms e k] listed_key [OF assms f this]
    have "Some e = Some f" by (rule trans [OF sym])
    then show "e = f" by simp
  qed
  with distinct_listed [OF assms] show ?thesis by (simp add: distinct_map)
qed

end

section \<open>Invariant\<close>

definition index_ok :: "capability_index \<Rightarrow> bool" where
  "index_ok ix \<longleftrightarrow>
     distinct (map fst (ix_packs ix)) \<and> distinct (map fst (ix_skills ix))
     \<and> (\<forall>(p, m) \<in> set (ix_packs ix). cm_pack_id m = p)
     \<and> (\<forall>(k, v, p) \<in> set (ix_skills ix). skill_key v = Inr k
          \<and> (\<exists>m. map_of (ix_packs ix) p = Some m \<and> v \<in> set (cm_skills m)))"

inductive index_reachable :: "capability_index \<Rightarrow> bool" where
  reach_empty: "index_reachable empty_index"
| reach_add: "index_reachable ix \<Longrightarrow> index_reachable (snd (index_add m ix))"
| reach_try: "index_reachable ix \<Longrightarrow> index_reachable (snd (index_try_add m ix))"

lemma add_skills_distinct: "distinct (map fst m) \<Longrightarrow> distinct (map fst (snd (add_skills pack vs m)))"
  by (induction pack vs m rule: add_skills.induct) (auto split: sum.splits)

lemma add_skills_entries:
  "(k, v, p) \<in> set (snd (add_skills pack vs m)) \<Longrightarrow> (k, v, p) \<in> set m \<or> p = pack \<and> v \<in> set vs \<and> skill_key v = Inr k"
proof (induction pack vs m rule: add_skills.induct)
  case (2 pack w vs m)
  show ?case
  proof (cases "skill_key w")
    case (Inr j)
    then show ?thesis
      using 2 set_map_put_subset [of j "(w, pack)" m] by (auto split: if_splits)
  qed (use 2 in simp)
qed simp

lemma index_add_ok: "index_ok ix \<Longrightarrow> index_ok (snd (index_add m ix))"
proof (cases "map_of (ix_packs ix) (cm_pack_id m)")
  case None
  assume ok: "index_ok ix"
  let ?skills = "snd (add_skills (cm_pack_id m) (cm_skills m) (ix_skills ix))"
  let ?packs = "map_put (cm_pack_id m) m (ix_packs ix)"
  have ix: "snd (index_add m ix) = \<lparr>ix_packs = ?packs, ix_skills = ?skills\<rparr>"
    using None by (simp add: index_add_def split: prod.splits)
  have "skill_key v = Inr k \<and> (\<exists>n. map_of ?packs p = Some n \<and> v \<in> set (cm_skills n))" if "(k, v, p) \<in> set ?skills" for k v p
  proof (cases "(k, v, p) \<in> set (ix_skills ix)")
    case True
    with ok obtain n where "skill_key v = Inr k" "map_of (ix_packs ix) p = Some n" "v \<in> set (cm_skills n)"
      by (auto simp: index_ok_def)
    with None show ?thesis by (auto simp: map_of_map_put)
  next
    case False
    with add_skills_entries [OF that] show ?thesis by (simp add: map_of_map_put)
  qed
  moreover have "\<forall>(p, n) \<in> set ?packs. cm_pack_id n = p"
    using ok set_map_put_subset [of "cm_pack_id m" m "ix_packs ix"] by (fastforce simp: index_ok_def)
  moreover have "distinct (map fst ?skills)" using ok add_skills_distinct by (simp add: index_ok_def)
  moreover have "distinct (map fst ?packs)" using ok by (simp add: index_ok_def)
  ultimately show ?thesis unfolding index_ok_def ix capability_index.simps by blast
qed (simp add: index_add_def)

lemma index_try_add_cases: "snd (index_try_add m ix) = ix \<or> snd (index_try_add m ix) = snd (index_add m ix)"
  by (auto simp: index_try_add_def split: sum.splits bool.splits prod.splits)

lemma index_skill_in: "index_ok ix \<Longrightarrow> index_skill ix k = Some e \<longleftrightarrow> (k, e) \<in> set (ix_skills ix)"
  by (simp add: index_skill_def index_ok_def)

lemma index_entry_key: "index_ok ix \<Longrightarrow> x \<in> set (ix_skills ix) \<Longrightarrow> skill_key (fst (snd x)) = Inr (fst x)"
  by (cases x) (auto simp: index_ok_def)

interpretation indexed: skill_catalog index_skill "index_skills lc" index_ok for lc :: locale_compare
proof
  fix i es e
  assume ok: "index_ok i" and s: "index_skills lc i = Inr es"
  then have es: "es = js_sort (cmp_on (\<lambda>e. id_string (fst e)) lc) (map snd (ix_skills i))"
    by (auto simp: index_skills_def Let_def split: if_splits)
  have "e \<in> set es \<longleftrightarrow> e \<in> snd ` set (ix_skills i)" by (simp add: es)
  also have "\<dots> \<longleftrightarrow> (\<exists>k. (k, e) \<in> set (ix_skills i))" by force
  finally show "(e \<in> set es) = (\<exists>k. index_skill i k = Some e)" by (simp only: index_skill_in [OF ok])
  note key = index_entry_key [OF ok]
  have "inj_on snd (set (ix_skills i))"
  proof (rule inj_onI)
    fix x y assume "x \<in> set (ix_skills i)" "y \<in> set (ix_skills i)" "snd x = snd y"
    then have "fst x = fst y" using key [of x] key [of y] by simp
    with \<open>snd x = snd y\<close> show "x = y" by (rule prod_eqI [rotated])
  qed
  then show "distinct es" using ok by (simp add: es index_ok_def distinct_map)
next
  fix i k e
  assume "index_ok i" "index_skill i k = Some e"
  then show "skill_key (fst e) = Inr k" using index_entry_key [of i "(k, e)"] by (simp add: index_skill_in)
qed

section \<open>Properties\<close>

text \<open>
  Whatever packs were added, and even after additions that failed half way, the index is
  consistent: packs and skills are held once, every indexed skill is filed under its own id, and the
  pack it is attributed to is in the index and contains it.
\<close>

theorem index_consistent:
  assumes "index_reachable ix"
  shows "index_ok ix"
  using assms
proof (induction rule: index_reachable.induct)
  case reach_empty
  show ?case by (simp add: index_ok_def empty_index_def)
next
  case (reach_add ix m)
  then show ?case by (simp add: index_add_ok)
next
  case (reach_try ix m)
  then show ?case using index_try_add_cases [of m ix] index_add_ok [of ix m] by metis
qed

lemma add_skills_Inr:
  assumes "add_skills pack vs m = (Inr u, m')"
  shows "map_of m' k = (case find (\<lambda>v. skill_key v = Inr k) vs of Some v \<Rightarrow> Some (v, pack) | None \<Rightarrow> map_of m k)
    \<and> (\<forall>v \<in> set vs. \<exists>k. skill_key v = Inr k \<and> map_of m k = None)"
  using assms
proof (induction pack vs m rule: add_skills.induct)
  case (2 pack v vs m)
  obtain j where k: "skill_key v = Inr j" using "2.prems" by (cases "skill_key v") simp_all
  have "map_of m j = None" "add_skills pack vs (map_put j (v, pack) m) = (Inr u, m')"
    using "2.prems" k by (auto simp: harness_fail_def simp del: not_None_eq split: if_splits)
  note j = k this
  have rest: "\<forall>w \<in> set vs. \<exists>k. skill_key w = Inr k \<and> map_of (map_put j (v, pack) m) k = None"
    using "2.IH" [OF j(1)] j by simp
  have "\<forall>w \<in> set vs. \<exists>k. skill_key w = Inr k \<and> map_of m k = None \<and> k \<noteq> j"
  proof
    fix w assume "w \<in> set vs"
    with rest obtain k where "skill_key w = Inr k" "map_of (map_put j (v, pack) m) k = None" by blast
    then show "\<exists>k. skill_key w = Inr k \<and> map_of m k = None \<and> k \<noteq> j" by (auto simp: map_of_map_put split: if_splits)
  qed
  moreover have "map_of m' k = (case find (\<lambda>v. skill_key v = Inr k) vs of Some v \<Rightarrow> Some (v, pack) | None \<Rightarrow> map_of (map_put j (v, pack) m) k)"
    using "2.IH" [OF j(1)] j by simp
  moreover have "find (\<lambda>w. skill_key w = Inr j) vs = None"
    using calculation(1) by (force simp: find_None_iff)
  ultimately show ?case using j by (auto simp: map_of_map_put split: option.splits)
qed simp

text \<open>
  C21. Adding a pack refines the update of a map from skill ids to entries: when \<open>add\<close> returns, the
  pack was new and its ids too, a lookup finds the pack's skills under their ids and everything else
  as before, and \<open>tryAdd\<close> answers \<open>true\<close> exactly by doing the same, or leaves the index as it was.
\<close>

theorem index_add_refines:
  assumes "index_try_add m ix = (Inr added, ix')"
  shows "if added
    then index_add m ix = (Inr (), ix') \<and> \<not> has_pack ix (cm_pack_id m)
      \<and> (\<forall>p. has_pack ix' p \<longleftrightarrow> p = cm_pack_id m \<or> has_pack ix p)
      \<and> (\<forall>v \<in> set (cm_skills m). \<exists>k. skill_key v = Inr k \<and> index_skill ix k = None)
      \<and> (\<forall>k. index_skill ix' k = (case find (\<lambda>v. skill_key v = Inr k) (cm_skills m) of
            Some v \<Rightarrow> Some (v, cm_pack_id m) | None \<Rightarrow> index_skill ix k))
    else ix' = ix"
proof (cases added)
  case True
  with assms have new: "map_of (ix_packs ix) (cm_pack_id m) = None" and add: "index_add m ix = (Inr (), ix')"
    by (auto simp: index_try_add_def split: sum.splits bool.splits prod.splits if_splits)
  then obtain skills where a: "add_skills (cm_pack_id m) (cm_skills m) (ix_skills ix) = (Inr (), skills)"
    "ix' = \<lparr>ix_packs = map_put (cm_pack_id m) m (ix_packs ix), ix_skills = skills\<rparr>"
    by (auto simp: index_add_def split: prod.splits)
  have "\<forall>p. has_pack ix' p \<longleftrightarrow> p = cm_pack_id m \<or> has_pack ix p"
    by (simp add: a(2) has_pack_def map_of_map_put)
  moreover have "ix_skills ix' = skills" "\<not> has_pack ix (cm_pack_id m)" by (simp_all add: a(2) has_pack_def new)
  ultimately show ?thesis
    using add_skills_Inr [OF a(1)] add True unfolding index_skill_def by simp
next
  case False
  with assms show ?thesis by (auto simp: index_try_add_def split: sum.splits bool.splits prod.splits if_splits)
qed

text \<open>
  \<open>add\<close> registers the pack before it looks at the skills, so a pack with a duplicate id is
  refused half way and stays registered, and \<open>tryAdd\<close> of a pack that repeats an id throws.
\<close>

definition twice_pack :: capability_metadata where
  "twice_pack = definitions_pack ''p'' [skill_json demo_skill, skill_json demo_skill]"

lemma demo_key: "skill_key (skill_json demo_skill) = Inr (JStr ''s'')"
  by (simp add: skill_json_def demo_skill_def js_get_def string_member_def)

lemma failed_add_registers_pack:
  "\<exists>msg ix. index_try_add twice_pack empty_index = (Inl (HarnessError msg), ix) \<and> has_pack ix ''p'' \<and> index_skill ix (JStr ''s'') \<noteq> None"
  by (simp add: index_try_add_def twice_pack_def definitions_pack_def empty_index_def demo_key index_add_def map_put_def
      harness_fail_def has_pack_def index_skill_def)

definition local_pack :: capability_metadata where
  "local_pack = definitions_pack ''local'' [skill_json demo_skill]"

definition local_index :: capability_index where
  "local_index = \<lparr>ix_packs = [(''local'', local_pack)], ix_skills = [(JStr ''s'', (skill_json demo_skill, ''local''))]\<rparr>"

lemma local_index_added: "index_try_add local_pack empty_index = (Inr True, local_index)"
  by (simp add: index_try_add_def local_pack_def definitions_pack_def empty_index_def demo_key index_add_def map_put_def local_index_def)

theorem index_consistent_witness: "index_ok local_index"
  using index_consistent [OF reach_try [OF reach_empty, of local_pack]] by (simp add: local_index_added)

theorem index_add_refines_witness: "index_skill local_index (JStr ''s'') = Some (skill_json demo_skill, ''local'')"
proof -
  have "\<forall>k. index_skill local_index k = (case find (\<lambda>v. skill_key v = Inr k) (cm_skills local_pack) of
      Some v \<Rightarrow> Some (v, cm_pack_id local_pack) | None \<Rightarrow> index_skill empty_index k)"
    using index_add_refines [OF local_index_added] by simp
  then show ?thesis by (simp add: local_pack_def definitions_pack_def demo_key)
qed

end
