(* ===== verification/Skill_Resolver.thy ===== *)
theory Skill_Resolver
  imports Capability_Index Context_Compiler
begin

text \<open>
  Skill policy and resolution (\<open>skills/policy.ts\<close>, \<open>skills/resolver.ts\<close>): which of the
  indexed skills a task gets. Every indexed skill is normalised, compared with the effective
  authority, scored against the objective, and the required and relevant ones are selected.
\<close>

section \<open>Policy\<close>

datatype registry_mode = RegistryDisabled | Discover | AcquireApproved | AcquireAnyVerified

datatype publish_policy = ProposeOnly | PublishDisabled | PublishAuthorized

datatype registry_setting = RegistryFlag bool | RegistryMode registry_mode

datatype resolution_mode = ResolveNone | ResolveLocal | ResolveAuto

record trust_policy =
  tp_registry :: registry_mode
  tp_allowlist :: "string list option"
  tp_publish :: "publish_policy option"

datatype acquisition_decision = Staged | Discovered | SkippedPack

record acquisition_candidate =
  ac_name :: string
  ac_version :: string
  ac_sha256 :: string
  ac_score :: int
  ac_decision :: acquisition_decision
  ac_reason :: "string option"

record staged_pack =
  st_name :: string
  st_version :: string
  st_sha256 :: string

record acquisition_receipt =
  aq_registry :: registry_mode
  aq_publish :: publish_policy
  aq_gaps :: "string list"
  aq_missing :: "string list"
  aq_queried :: bool
  aq_pulled :: bool
  aq_staged :: "staged_pack list"
  aq_candidates :: "acquisition_candidate list"

definition adapter_capabilities :: "string list" where
  "adapter_capabilities = [''tools'', ''resume'', ''observe'', ''interrupt'']"

definition normalize_registry :: "registry_setting option \<Rightarrow> registry_mode" where
  "normalize_registry v = (case v of
       None \<Rightarrow> RegistryDisabled
     | Some (RegistryFlag b) \<Rightarrow> if b then AcquireAnyVerified else RegistryDisabled
     | Some (RegistryMode m) \<Rightarrow> m)"

definition normalize_publish :: "publish_policy option \<Rightarrow> publish_policy" where
  "normalize_publish v = (case v of Some p \<Rightarrow> p | None \<Rightarrow> ProposeOnly)"

definition empty_acquisition :: "registry_mode \<Rightarrow> publish_policy \<Rightarrow> string list \<Rightarrow> string list \<Rightarrow> acquisition_receipt" where
  "empty_acquisition registry publish gaps missing = \<lparr>aq_registry = registry, aq_publish = publish, aq_gaps = gaps,
     aq_missing = missing, aq_queried = False, aq_pulled = False, aq_staged = [], aq_candidates = []\<rparr>"

text \<open>
  \<open>skill[field] ?? []\<close> of an unchecked skill, iterated for its strings: an absent list is empty,
  a string gives its characters, and a value that cannot be iterated raises.
\<close>

definition iterated_strings :: "string \<Rightarrow> jsval \<Rightarrow> string list result" where
  "iterated_strings field v =
     (case js_get (members_of v) field of
        JUndef \<Rightarrow> Inr []
      | JNull \<Rightarrow> Inr []
      | JStr s \<Rightarrow> Inr (map (\<lambda>c. [c]) s)
      | JArr xs \<Rightarrow> Inr (concat (map (\<lambda>x. case x of JStr s \<Rightarrow> [s] | _ \<Rightarrow> []) xs))
      | _ \<Rightarrow> Inl (TypeError (field @ '' is not iterable'')))"

fun covered_by :: "capability_index \<Rightarrow> string list \<Rightarrow> string list result" where
  "covered_by ix [] = Inr []"
| "covered_by ix (i # is) =
     (case index_skill ix (JStr i) of
        None \<Rightarrow> covered_by ix is
      | Some e \<Rightarrow>
          bind_res (iterated_strings ''requiredCapabilities'' (fst e)) (\<lambda>cs.
          bind_res (covered_by ix is) (\<lambda>ds. Inr (cs @ ds))))"

definition capability_gaps :: "task_v1 \<Rightarrow> capability_index \<Rightarrow> string list \<Rightarrow> string list result" where
  "capability_gaps task ix selected =
     bind_res (covered_by ix selected) (\<lambda>covered.
       Inr (sorted_set (filter (\<lambda>c. c \<notin> set covered) (filter (\<lambda>c. c \<notin> set adapter_capabilities) (required_capabilities task)))))"

definition missing_preferred :: "task_v1 \<Rightarrow> capability_index \<Rightarrow> string list" where
  "missing_preferred task ix = sorted_set (filter (\<lambda>i. index_skill ix (JStr i) = None) (preferred_skills task))"

section \<open>Resolution\<close>

record resolve_input =
  rs_task :: task_v1
  rs_index :: capability_index
  rs_authority :: effective_authority
  rs_trust :: "trust_policy option"
  rs_resolution :: "resolution_mode option"

record skill_row =
  sr_skill :: skill_definition
  sr_score :: int
  sr_required :: bool

record selected_skill =
  ss_id :: string
  ss_version :: string
  ss_pack_id :: string
  ss_score :: int
  ss_required :: bool
  ss_content_hash :: "string option"

datatype reject_reason = RejectAuthority | RejectMissing | RejectHash | RejectPolicy

record skill_receipt =
  sl_query :: string
  sl_resolution :: resolution_mode
  sl_registry :: registry_mode
  sl_selected :: "selected_skill list"
  sl_rejected :: "(string \<times> reject_reason) list"
  sl_candidates :: "(string \<times> int) list"
  sl_authority :: "string list \<times> string list"
  sl_acquisition :: acquisition_receipt

definition preferred_boost :: int where
  "preferred_boost = 1000000"

definition capability_boost :: int where
  "capability_boost = 1000"

definition authorized :: "skill_definition \<Rightarrow> effective_authority \<Rightarrow> bool" where
  "authorized s authority \<longleftrightarrow> list_all (\<lambda>c. c \<in> set (ea_capabilities authority)) (sd_required_capabilities s)
     \<and> list_all (\<lambda>t. t \<in> set (ea_tools authority)) (sd_required_tools s)"

definition score_skill :: "skill_definition \<Rightarrow> string \<Rightarrow> task_v1 \<Rightarrow> bool \<Rightarrow> int" where
  "score_skill s query task preferred =
     (let haystack = js_join '' '' ([sd_id s, sd_version s] @ sd_triggers s @ sd_domains s @ [sd_instructions s]);
          overlap = length (filter (\<lambda>c. c \<in> set (required_capabilities task)) (sd_required_capabilities s))
      in lexical_score query haystack + (if preferred then preferred_boost else 0) + int overlap * capability_boost)"

fun check_pins :: "capability_index \<Rightarrow> registry_mode \<Rightarrow> string list \<Rightarrow> (string \<times> reject_reason) list result" where
  "check_pins ix registry [] = Inr []"
| "check_pins ix registry (p # ps) =
     (if index_skill ix (JStr p) = None
      then if registry = RegistryDisabled
           then harness_fail (''pinned skill '' @ quoted p @ '' is not in the local capability index'')
           else bind_res (check_pins ix registry ps) (\<lambda>rs. Inr ((p, RejectMissing) # rs))
      else check_pins ix registry ps)"

fun rank_entries :: "sha256 \<Rightarrow> task_v1 \<Rightarrow> effective_authority \<Rightarrow> indexed_skill list \<Rightarrow>
    (skill_row list \<times> (string \<times> reject_reason) list) result" where
  "rank_entries sha task authority [] = Inr ([], [])"
| "rank_entries sha task authority (e # es) =
     bind_res (normalize_skill_definition sha (fst e)) (\<lambda>s.
       let required = sd_id s \<in> set (preferred_skills task) in
       if \<not> authorized s authority
       then if required
            then harness_fail (''pinned skill '' @ quoted (sd_id s) @ '' is denied: required capabilities are not in effective authority'')
            else bind_res (rank_entries sha task authority es) (\<lambda>(ranked, rejected). Inr (ranked, (sd_id s, RejectAuthority) # rejected))
       else bind_res (rank_entries sha task authority es) (\<lambda>(ranked, rejected).
              Inr (\<lparr>sr_skill = s, sr_score = score_skill s (objective task) task required, sr_required = required\<rparr> # ranked, rejected)))"

definition compare_rows :: "locale_compare \<Rightarrow> skill_row \<Rightarrow> skill_row \<Rightarrow> int" where
  "compare_rows lc = cmp_then (cmp_on sr_score cmp_desc) (cmp_on (\<lambda>r. sd_id (sr_skill r)) lc)"

definition selected_of :: "skill_row \<Rightarrow> selected_skill" where
  "selected_of r = \<lparr>ss_id = sd_id (sr_skill r), ss_version = sd_version (sr_skill r),
     ss_pack_id = sp_pack_id (sd_provenance (sr_skill r)), ss_score = sr_score r, ss_required = sr_required r,
     ss_content_hash = sd_content_hash (sr_skill r)\<rparr>"

definition item_of :: "skill_row \<Rightarrow> skill_item" where
  "item_of r = \<lparr>ski_id = sd_id (sr_skill r), ski_text = sd_instructions (sr_skill r), ski_required = sr_required r,
     ski_score = Some (sr_score r), ski_source = nonempty_string (Some (sp_pack_id (sd_provenance (sr_skill r))))\<rparr>"

definition empty_selection :: "string \<Rightarrow> resolution_mode \<Rightarrow> registry_mode \<Rightarrow> string list \<times> string list \<Rightarrow> acquisition_receipt \<Rightarrow> skill_receipt" where
  "empty_selection query resolution registry authority acquisition = \<lparr>sl_query = query, sl_resolution = resolution,
     sl_registry = registry, sl_selected = [], sl_rejected = [], sl_candidates = [], sl_authority = authority,
     sl_acquisition = acquisition\<rparr>"

definition resolve_skills :: "locale_compare \<Rightarrow> sha256 \<Rightarrow> resolve_input \<Rightarrow> (skill_item list \<times> skill_receipt) result" where
  "resolve_skills lc sha inp =
     (let registry = (case rs_trust inp of Some t \<Rightarrow> tp_registry t | None \<Rightarrow> RegistryDisabled);
          publish = normalize_publish (case rs_trust inp of Some t \<Rightarrow> tp_publish t | None \<Rightarrow> None);
          resolution = (case rs_resolution inp of Some r \<Rightarrow> r | None \<Rightarrow> ResolveLocal);
          task = rs_task inp; ix = rs_index inp; query = objective task;
          authority = (ea_capabilities (rs_authority inp), ea_tools (rs_authority inp));
          missing = missing_preferred task ix in
      if resolution = ResolveNone
      then bind_res (capability_gaps task ix []) (\<lambda>gaps.
             Inr ([], empty_selection query resolution registry authority (empty_acquisition registry publish gaps missing)))
      else
        bind_res (check_pins ix registry (preferred_skills task)) (\<lambda>absent.
        bind_res (index_skills lc ix) (\<lambda>entries.
        bind_res (rank_entries sha task (rs_authority inp) entries) (\<lambda>(rows, denied).
          let ranked = js_sort (compare_rows lc) rows;
              selected_rows = filter (\<lambda>r. sr_required r \<or> 0 < sr_score r) ranked;
              selected = map selected_of selected_rows in
          bind_res (capability_gaps task ix (map ss_id selected)) (\<lambda>gaps.
            Inr (map item_of selected_rows,
              \<lparr>sl_query = query, sl_resolution = resolution, sl_registry = registry, sl_selected = selected,
                sl_rejected = js_sort (cmp_on fst lc) (absent @ denied),
                sl_candidates = map (\<lambda>r. (sd_id (sr_skill r), sr_score r)) ranked, sl_authority = authority,
                sl_acquisition = empty_acquisition registry publish gaps missing\<rparr>))))))"

section \<open>Options\<close>

datatype index_input = NoIndex | SharedIndex capability_index | MetadataIndex "capability_metadata list" | DefinitionIndex "jsval list"

record skill_options =
  so_resolution :: "resolution_mode option"
  so_registry :: "registry_setting option"
  so_allowlist :: "string list option"
  so_publish :: "publish_policy option"
  so_index :: index_input
  so_packs :: "jsval list option"
  so_definitions :: "jsval list option"

definition normalize_trust :: "skill_options option \<Rightarrow> trust_policy" where
  "normalize_trust opts = \<lparr>
     tp_registry = normalize_registry (case opts of Some s \<Rightarrow> so_registry s | None \<Rightarrow> None),
     tp_allowlist = (case opts of
         Some s \<Rightarrow> (case so_allowlist s of Some xs \<Rightarrow> if xs = [] then None else Some xs | None \<Rightarrow> None)
       | None \<Rightarrow> None),
     tp_publish = Some (normalize_publish (case opts of Some s \<Rightarrow> so_publish s | None \<Rightarrow> None))\<rparr>"

definition returned :: "unit result \<times> 'a \<Rightarrow> 'a result" where
  "returned r = (case r of (Inl e, x) \<Rightarrow> Inl e | (Inr _, x) \<Rightarrow> Inr x)"

definition index_from_options :: "locale_compare \<Rightarrow> skill_options \<Rightarrow> capability_index result" where
  "index_from_options lc opts =
     bind_res (case so_index opts of
         NoIndex \<Rightarrow> Inr empty_index
       | SharedIndex ix \<Rightarrow> returned (index_from (index_metadata lc ix) empty_index)
       | MetadataIndex ms \<Rightarrow> returned (index_from ms empty_index)
       | DefinitionIndex ds \<Rightarrow> if ds = [] then Inr empty_index else returned (index_add_definitions ds ''local'' empty_index)) (\<lambda>ix.
     bind_res (case so_packs opts of Some ps \<Rightarrow> returned (index_add_packs ps ix) | None \<Rightarrow> Inr ix) (\<lambda>ix.
     case so_definitions opts of Some ds \<Rightarrow> returned (index_add_definitions ds ''local'' ix) | None \<Rightarrow> Inr ix))"

section \<open>What ranking does\<close>

definition row_of :: "task_v1 \<Rightarrow> skill_definition \<Rightarrow> skill_row" where
  "row_of task s = \<lparr>sr_skill = s, sr_score = score_skill s (objective task) task (sd_id s \<in> set (preferred_skills task)),
     sr_required = (sd_id s \<in> set (preferred_skills task))\<rparr>"

text \<open>
  The loop over the entries: each is normalised, the authorised ones are ranked and the others
  rejected, and none of the others is preferred.
\<close>

lemma rank_entries_Inr:
  "rank_entries sha task authority es = Inr (rows, denied) \<Longrightarrow>
   \<exists>ss. list_all2 (\<lambda>e s. normalize_skill_definition sha (fst e) = Inr s) es ss
     \<and> rows = map (row_of task) (filter (\<lambda>s. authorized s authority) ss)
     \<and> denied = map (\<lambda>s. (sd_id s, RejectAuthority)) (filter (\<lambda>s. \<not> authorized s authority) ss)
     \<and> (\<forall>s \<in> set ss. sd_id s \<in> set (preferred_skills task) \<longrightarrow> authorized s authority)"
proof (induction es arbitrary: rows denied)
  case (Cons e es)
  obtain s where s: "normalize_skill_definition sha (fst e) = Inr s"
    using Cons.prems by (auto simp: bind_res_eq_Inr)
  obtain rows' denied' where rec: "rank_entries sha task authority es = Inr (rows', denied')"
    using Cons.prems s by (auto simp: bind_res_eq_Inr Let_def split: if_splits)
  obtain ss where ss: "list_all2 (\<lambda>e s. normalize_skill_definition sha (fst e) = Inr s) es ss"
    "rows' = map (row_of task) (filter (\<lambda>s. authorized s authority) ss)"
    "denied' = map (\<lambda>s. (sd_id s, RejectAuthority)) (filter (\<lambda>s. \<not> authorized s authority) ss)"
    "\<forall>s \<in> set ss. sd_id s \<in> set (preferred_skills task) \<longrightarrow> authorized s authority"
    using Cons.IH [OF rec] by blast
  show ?case
    using Cons.prems s ss rec
    by (intro exI [of _ "s # ss"]) (auto simp: Let_def row_of_def split: if_splits)
qed simp

lemma resolve_skills_Inr:
  assumes "resolve_skills lc sha inp = Inr (items, rc)" "rs_resolution inp \<noteq> Some ResolveNone"
  obtains absent entries rows denied where
    "check_pins (rs_index inp) (sl_registry rc) (preferred_skills (rs_task inp)) = Inr absent"
    "index_skills lc (rs_index inp) = Inr entries"
    "rank_entries sha (rs_task inp) (rs_authority inp) entries = Inr (rows, denied)"
    "sl_selected rc = map selected_of (filter (\<lambda>r. sr_required r \<or> 0 < sr_score r) (js_sort (compare_rows lc) rows))"
    "items = map item_of (filter (\<lambda>r. sr_required r \<or> 0 < sr_score r) (js_sort (compare_rows lc) rows))"
    "sl_rejected rc = js_sort (cmp_on fst lc) (absent @ denied)"
    "sl_candidates rc = map (\<lambda>r. (sd_id (sr_skill r), sr_score r)) (js_sort (compare_rows lc) rows)"
  using assms by (auto simp: resolve_skills_def Let_def bind_res_eq_Inr split: option.splits)

lemma skill_shape_key:
  assumes "validate_skill_shape v = Inr s"
  shows "skill_key v = Inr (JStr (sd_id s))"
proof -
  from assms obtain i where "js_get (members_of v) ''id'' = JStr (sd_id s)" "is_objectlike v" "js_get (members_of v) ''version'' = JNum 1"
    unfolding validate_skill_shape_def Let_def
    by (elim bind_res_InrE) (auto simp: identifier_string_Inr guard_harness_def split: if_splits)
  then show ?thesis by (cases v) (auto simp: js_get_def)
qed

lemma normalize_skill_key: "normalize_skill_definition sha v = Inr s \<Longrightarrow> skill_key v = Inr (JStr (sd_id s))"
  using skill_shape_key by (fastforce simp: normalize_skill_definition_def bind_res_eq_Inr Let_def split: option.splits if_splits)

text \<open>Over any index that keeps the contract, what was listed is what a lookup under its id finds.\<close>

lemma list_all2_right: "list_all2 P xs ys \<Longrightarrow> y \<in> set ys \<Longrightarrow> \<exists>x \<in> set xs. P x y"
  by (induction rule: list_all2_induct) auto

lemma list_all2_left: "list_all2 P xs ys \<Longrightarrow> x \<in> set xs \<Longrightarrow> \<exists>y \<in> set ys. P x y"
  by (induction rule: list_all2_induct) auto

context skill_catalog begin

lemma ranked_lookup:
  assumes "ok i" "skills i = Inr es" "list_all2 (\<lambda>e s. normalize_skill_definition sha (fst e) = Inr s) es ss" "s \<in> set ss"
  shows "\<exists>e. lookup i (JStr (sd_id s)) = Some e \<and> normalize_skill_definition sha (fst e) = Inr s"
proof -
  obtain e where e: "e \<in> set es" "normalize_skill_definition sha (fst e) = Inr s"
    using list_all2_right [OF assms(3,4)] by blast
  with listed_key [OF assms(1,2) e(1) normalize_skill_key [OF e(2)]] show ?thesis by blast
qed

lemma lookup_ranked:
  assumes "ok i" "skills i = Inr es" "list_all2 (\<lambda>e s. normalize_skill_definition sha (fst e) = Inr s) es ss"
    and "lookup i (JStr p) = Some e"
  shows "\<exists>s \<in> set ss. sd_id s = p"
proof -
  have "e \<in> set es" using listed [OF assms(1,2)] assms(4) by blast
  then obtain s where s: "s \<in> set ss" "normalize_skill_definition sha (fst e) = Inr s"
    using list_all2_left [OF assms(3)] by blast
  with normalize_skill_key [OF s(2)] keyed [OF assms(1,4)] show ?thesis by auto
qed

end

lemma check_pins_Inr:
  "check_pins ix registry ps = Inr absent \<Longrightarrow>
   (\<forall>r \<in> set absent. snd r = RejectMissing)
     \<and> (\<forall>p \<in> set ps. index_skill ix (JStr p) \<noteq> None \<or> registry \<noteq> RegistryDisabled \<and> (p, RejectMissing) \<in> set absent)"
proof (induction ps arbitrary: absent)
  case (Cons p ps)
  show ?case
  proof (cases "index_skill ix (JStr p) = None")
    case True
    with Cons.prems obtain rs where "registry \<noteq> RegistryDisabled" "check_pins ix registry ps = Inr rs" "absent = (p, RejectMissing) # rs"
      by (auto simp: bind_res_eq_Inr harness_fail_def split: if_splits)
    with Cons.IH [of rs] show ?thesis by auto
  next
    case False
    with Cons show ?thesis by simp
  qed
qed simp

section \<open>Properties\<close>

text \<open>
  C22. Resolution never selects beyond the effective authority: each selected skill is a skill of the
  index, in its normal form with its content hash, whose required capabilities and tools are all in
  the authority; and the instructions that go into the context are those of the selected skills.
\<close>

theorem resolve_within_authority:
  assumes "resolve_skills lc sha inp = Inr (items, rc)" "index_ok (rs_index inp)" "rs_resolution inp \<noteq> Some ResolveNone"
  shows "(\<forall>row \<in> set (sl_selected rc). \<exists>e s. index_skill (rs_index inp) (JStr (ss_id row)) = Some e
        \<and> normalize_skill_definition sha (fst e) = Inr s \<and> sd_content_hash s = ss_content_hash row
        \<and> set (sd_required_capabilities s) \<subseteq> set (ea_capabilities (rs_authority inp))
        \<and> set (sd_required_tools s) \<subseteq> set (ea_tools (rs_authority inp))
        \<and> (\<exists>item \<in> set items. ski_id item = ss_id row \<and> ski_text item = sd_instructions s))
    \<and> map ski_id items = map ss_id (sl_selected rc)"
proof -
  obtain absent entries rows denied where r:
    "check_pins (rs_index inp) (sl_registry rc) (preferred_skills (rs_task inp)) = Inr absent"
    "index_skills lc (rs_index inp) = Inr entries"
    "rank_entries sha (rs_task inp) (rs_authority inp) entries = Inr (rows, denied)"
    "sl_selected rc = map selected_of (filter (\<lambda>r. sr_required r \<or> 0 < sr_score r) (js_sort (compare_rows lc) rows))"
    "items = map item_of (filter (\<lambda>r. sr_required r \<or> 0 < sr_score r) (js_sort (compare_rows lc) rows))"
    "sl_rejected rc = js_sort (cmp_on fst lc) (absent @ denied)"
    "sl_candidates rc = map (\<lambda>r. (sd_id (sr_skill r), sr_score r)) (js_sort (compare_rows lc) rows)"
    by (rule resolve_skills_Inr [OF assms(1,3)])
  obtain ss where ss: "list_all2 (\<lambda>e s. normalize_skill_definition sha (fst e) = Inr s) entries ss"
    "rows = map (row_of (rs_task inp)) (filter (\<lambda>s. authorized s (rs_authority inp)) ss)"
    using rank_entries_Inr [OF r(3)] by blast
  have "\<exists>e s. index_skill (rs_index inp) (JStr (ss_id row)) = Some e
        \<and> normalize_skill_definition sha (fst e) = Inr s \<and> sd_content_hash s = ss_content_hash row
        \<and> set (sd_required_capabilities s) \<subseteq> set (ea_capabilities (rs_authority inp))
        \<and> set (sd_required_tools s) \<subseteq> set (ea_tools (rs_authority inp))
        \<and> (\<exists>item \<in> set items. ski_id item = ss_id row \<and> ski_text item = sd_instructions s)"
    if row: "row \<in> set (sl_selected rc)" for row
  proof -
    obtain x where x: "x \<in> set rows" "sr_required x \<or> 0 < sr_score x" "row = selected_of x"
      using row by (auto simp: r(4))
    then obtain s where s: "s \<in> set ss" "authorized s (rs_authority inp)" "x = row_of (rs_task inp) s"
      by (auto simp: ss(2))
    obtain e where e: "index_skill (rs_index inp) (JStr (sd_id s)) = Some e" "normalize_skill_definition sha (fst e) = Inr s"
      using indexed.ranked_lookup [OF assms(2) r(2) ss(1) s(1)] by blast
    have "item_of x \<in> set items" using x by (simp add: r(5))
    moreover have "ski_id (item_of x) = sd_id s" "ski_text (item_of x) = sd_instructions s"
      by (simp_all add: item_of_def s(3) row_of_def)
    moreover have "ss_id row = sd_id s" "ss_content_hash row = sd_content_hash s"
      by (simp_all add: x(3) s(3) selected_of_def row_of_def)
    ultimately show ?thesis
      using e s(2) by (intro exI [of _ e] exI [of _ s]) (auto simp: authorized_def list_all_iff)
  qed
  moreover have "map ski_id items = map ss_id (sl_selected rc)"
    by (simp add: r(4,5) item_of_def selected_of_def comp_def)
  ultimately show ?thesis by blast
qed

text \<open>
  Every skill a task prefers is accounted for: when resolution returns, it is selected as
  required, or, with a registry to acquire it from, reported missing. In particular no preferred
  skill is dropped for its score or for its authority, and without a registry none is missing.
\<close>

theorem resolve_keeps_pins:
  assumes "resolve_skills lc sha inp = Inr (items, rc)" "index_ok (rs_index inp)" "rs_resolution inp \<noteq> Some ResolveNone"
  shows "\<forall>p \<in> set (preferred_skills (rs_task inp)).
    (\<exists>row \<in> set (sl_selected rc). ss_id row = p \<and> ss_required row)
    \<or> sl_registry rc \<noteq> RegistryDisabled \<and> (p, RejectMissing) \<in> set (sl_rejected rc)"
proof
  fix p assume p: "p \<in> set (preferred_skills (rs_task inp))"
  obtain absent entries rows denied where r:
    "check_pins (rs_index inp) (sl_registry rc) (preferred_skills (rs_task inp)) = Inr absent"
    "index_skills lc (rs_index inp) = Inr entries"
    "rank_entries sha (rs_task inp) (rs_authority inp) entries = Inr (rows, denied)"
    "sl_selected rc = map selected_of (filter (\<lambda>r. sr_required r \<or> 0 < sr_score r) (js_sort (compare_rows lc) rows))"
    "items = map item_of (filter (\<lambda>r. sr_required r \<or> 0 < sr_score r) (js_sort (compare_rows lc) rows))"
    "sl_rejected rc = js_sort (cmp_on fst lc) (absent @ denied)"
    "sl_candidates rc = map (\<lambda>r. (sd_id (sr_skill r), sr_score r)) (js_sort (compare_rows lc) rows)"
    by (rule resolve_skills_Inr [OF assms(1,3)])
  obtain ss where ss: "list_all2 (\<lambda>e s. normalize_skill_definition sha (fst e) = Inr s) entries ss"
    "rows = map (row_of (rs_task inp)) (filter (\<lambda>s. authorized s (rs_authority inp)) ss)"
    "\<forall>s \<in> set ss. sd_id s \<in> set (preferred_skills (rs_task inp)) \<longrightarrow> authorized s (rs_authority inp)"
    using rank_entries_Inr [OF r(3)] by blast
  show "(\<exists>row \<in> set (sl_selected rc). ss_id row = p \<and> ss_required row)
    \<or> sl_registry rc \<noteq> RegistryDisabled \<and> (p, RejectMissing) \<in> set (sl_rejected rc)"
  proof (cases "index_skill (rs_index inp) (JStr p)")
    case None
    with check_pins_Inr [OF r(1)] p show ?thesis by (auto simp: r(6))
  next
    case (Some e)
    then obtain s where s: "s \<in> set ss" "sd_id s = p"
      using indexed.lookup_ranked [OF assms(2) r(2) ss(1)] by blast
    with ss(3) p have a: "authorized s (rs_authority inp)" by blast
    let ?row = "selected_of (row_of (rs_task inp) s)"
    have "row_of (rs_task inp) s \<in> set rows" using s a by (simp add: ss(2))
    moreover have "sr_required (row_of (rs_task inp) s)" using s p by (simp add: row_of_def)
    ultimately have "?row \<in> set (sl_selected rc)" unfolding r(4) set_map by (intro imageI) simp
    moreover have "ss_id ?row = p" "ss_required ?row" using s p by (simp_all add: selected_of_def row_of_def)
    ultimately show ?thesis by blast
  qed
qed

section \<open>A concrete resolution\<close>

definition skilled_task :: task_v1 where
  "skilled_task = \<lparr>task_id = None, objective = ''tax'', inputs = JUndef, constraints = [], success_criteria = [''done''],
     required_capabilities = [], preferred_skills = [''s''], prohibited_actions = None, task_budget = None,
     output_schema = JUndef, evidence_requirements = []\<rparr>"

definition demo_resolve :: resolve_input where
  "demo_resolve = \<lparr>rs_task = skilled_task, rs_index = local_index,
     rs_authority = \<lparr>ea_capabilities = [''cap''], ea_tools = [], ea_namespaces = []\<rparr>, rs_trust = None, rs_resolution = None\<rparr>"

lemma local_index_ok: "index_ok local_index"
proof -
  have "skill_json demo_skill \<in> set (cm_skills local_pack)" by (simp add: local_pack_def definitions_pack_def)
  then show ?thesis by (simp add: index_ok_def local_index_def local_pack_def definitions_pack_def demo_key)
qed

lemma demo_resolved: "\<exists>items rc. resolve_skills code_unit_order const_sha demo_resolve = Inr (items, rc) \<and> sl_registry rc = RegistryDisabled"
proof -
  have e: "index_skills code_unit_order local_index = Inr [(skill_json demo_skill, ''local'')]"
    by (simp add: index_skills_def local_index_def)
  have a: "authorized (demo_skill\<lparr>sd_content_hash := Some some_digest\<rparr>) (rs_authority demo_resolve)"
    by (simp add: authorized_def demo_skill_def demo_resolve_def)
  obtain rows where r: "rank_entries const_sha skilled_task (rs_authority demo_resolve) [(skill_json demo_skill, ''local'')] = Inr (rows, [])"
    using demo_skill_normal a by (simp add: Let_def)
  have p: "check_pins local_index RegistryDisabled [''s''] = Inr []"
    by (simp add: index_skill_def local_index_def)
  have g: "\<exists>gs. capability_gaps skilled_task local_index xs = Inr gs" for xs
  proof -
    have "\<exists>cs. covered_by local_index xs = Inr cs"
    proof (induction xs)
      case (Cons x xs)
      have "\<exists>cs. iterated_strings ''requiredCapabilities'' (skill_json demo_skill) = Inr cs"
        by (simp add: iterated_strings_def skill_json_def js_get_def demo_skill_def strings_json_def string_member_def schemas_member_def)
      with Cons show ?case by (auto simp: index_skill_def local_index_def)
    qed simp
    then show ?thesis by (auto simp: capability_gaps_def)
  qed
  have "preferred_skills skilled_task = [''s'']" "rs_index demo_resolve = local_index" "rs_task demo_resolve = skilled_task"
    "rs_trust demo_resolve = None" "rs_resolution demo_resolve = None"
    by (simp_all add: skilled_task_def demo_resolve_def)
  note at = this
  obtain gs where gs: "capability_gaps skilled_task local_index
      (map ss_id (map selected_of (filter (\<lambda>r. sr_required r \<or> 0 < sr_score r) (js_sort (compare_rows code_unit_order) rows)))) = Inr gs"
    using g by blast
  show ?thesis
    by (simp only: resolve_skills_def Let_def at e r p gs bind_res_simps option.case prod.case resolution_mode.distinct if_False)
       auto
qed

theorem resolve_within_authority_witness:
  "\<exists>items rc. resolve_skills code_unit_order const_sha demo_resolve = Inr (items, rc)
     \<and> map ski_id items = map ss_id (sl_selected rc)"
proof -
  obtain items rc where r: "resolve_skills code_unit_order const_sha demo_resolve = Inr (items, rc)" using demo_resolved by blast
  have "index_ok (rs_index demo_resolve)" "rs_resolution demo_resolve \<noteq> Some ResolveNone"
    by (simp_all add: demo_resolve_def local_index_ok)
  from resolve_within_authority [OF r this] r show ?thesis by blast
qed

theorem resolve_keeps_pins_witness:
  "\<exists>items rc. resolve_skills code_unit_order const_sha demo_resolve = Inr (items, rc)
     \<and> (\<exists>row \<in> set (sl_selected rc). ss_id row = ''s'' \<and> ss_required row)"
proof -
  obtain items rc where r: "resolve_skills code_unit_order const_sha demo_resolve = Inr (items, rc)" "sl_registry rc = RegistryDisabled"
    using demo_resolved by blast
  have "index_ok (rs_index demo_resolve)" "rs_resolution demo_resolve \<noteq> Some ResolveNone" "''s'' \<in> set (preferred_skills (rs_task demo_resolve))"
    by (simp_all add: demo_resolve_def local_index_ok skilled_task_def)
  with resolve_keeps_pins [OF r(1)] r show ?thesis by blast
qed

end
