(* ===== verification/Experience.thy ===== *)
theory Experience
  imports Evaluation Skill_Resolver "HOL-Library.Sublist"
begin

text \<open>
  Local experience (\<open>experience/types.ts\<close>, \<open>experience/promote.ts\<close>,
  \<open>experience/store.ts\<close>): finished runs are recorded, useful runs of the same pattern make a
  lesson, a lesson drafts a skill candidate, and a candidate whose gates all pass is promoted to a
  skill of the next runs. The store is a state that its operations thread; the host's
  \<open>remember\<close> works on a world \<open>'w\<close> and may throw. A call of \<open>record\<close> or
  \<open>approve\<close> is one step: no other call starts while it awaits a digest.
\<close>

section \<open>Data\<close>

datatype promote_mode = PromoteDisabled | RequireApproval | AutoApproved

record experience_policy =
  xp_enabled :: "bool option"
  xp_promote :: "promote_mode option"
  xp_min_usefulness :: "js_num option"
  xp_publish :: jsval
  xp_max_records :: "js_num option"

record learning_policy =
  lp_enabled :: bool
  lp_promote :: promote_mode
  lp_min_usefulness :: int
  lp_max_records :: int

record experience_record =
  xr_id :: string
  xr_run_id :: string
  xr_sequence :: nat
  xr_pattern_key :: string
  xr_objective :: string
  xr_success_criteria :: "string list"
  xr_status :: invocation_status
  xr_useful :: bool
  xr_text :: string
  xr_skill_ids :: "string list"
  xr_required_capabilities :: "string list"
  xr_evidence_ids :: "string list"
  xr_dependency_root :: string
  xr_matched :: "string list"
  xr_violations :: "string list"
  xr_labels :: "string list"

record lesson =
  ls_id :: string
  ls_pattern_key :: string
  ls_objective :: string
  ls_success_criteria :: "string list"
  ls_experience_ids :: "string list"
  ls_usefulness :: nat
  ls_skill_ids :: "string list"
  ls_required_capabilities :: "string list"
  ls_run_ids :: "string list"

record promotion_gates =
  pg_usefulness :: bool
  pg_evaluation :: bool
  pg_provenance :: bool
  pg_approval :: bool

datatype candidate_status = CandidateSkill | PromotedSkill | RejectedSkill

record skill_candidate =
  sc_id :: string
  sc_lesson_id :: string
  sc_skill :: skill_definition
  sc_gates :: promotion_gates
  sc_status :: candidate_status

record experience_receipt =
  xc_recorded :: bool
  xc_experience_id :: "string option"
  xc_lesson_id :: "string option"
  xc_candidate_id :: "string option"
  xc_promoted :: bool
  xc_gates :: "promotion_gates option"

record experience_input =
  xi_run_id :: string
  xi_task :: task_v1
  xi_status :: invocation_status
  xi_output :: jsval
  xi_matched :: "string list"
  xi_violations :: "string list"
  xi_skill_ids :: "string list"
  xi_evidence_ids :: "string list"
  xi_dependency_root :: string
  xi_labels :: "string list"

section \<open>The policy\<close>

text \<open>The \<open>memory\<close> option as the code looks at it: \<open>true\<close>, or an object with methods.\<close>

datatype ('q, 'r) memory_option = MemoryTrue | MemoryObject "'q option" "'r option" | MemoryOther

fun is_cortex :: "('q, 'r) memory_option \<Rightarrow> bool" where
  "is_cortex (MemoryObject query remember) = (query \<noteq> None)"
| "is_cortex _ = False"

fun can_remember :: "('q, 'r) memory_option \<Rightarrow> bool" where
  "can_remember (MemoryObject query remember) = (remember \<noteq> None)"
| "can_remember _ = False"

definition or_num :: "js_num option \<Rightarrow> int \<Rightarrow> js_num" where
  "or_num n d = (case n of Some m \<Rightarrow> m | None \<Rightarrow> Whole d)"

definition at_least_one :: "js_num \<Rightarrow> bool" where
  "at_least_one n \<longleftrightarrow> is_safe_num n \<and> 1 \<le> num_value n"

definition normalize_experience_policy :: "experience_policy option \<Rightarrow> ('q, 'r) memory_option \<Rightarrow> learning_policy result" where
  "normalize_experience_policy experience memory =
     (let memory_on = (case memory of MemoryTrue \<Rightarrow> True | m \<Rightarrow> is_cortex m);
          enabled = (case Option.bind experience xp_enabled of Some b \<Rightarrow> b | None \<Rightarrow> memory_on);
          promote = (case Option.bind experience xp_promote of Some p \<Rightarrow> p | None \<Rightarrow> RequireApproval);
          min_usefulness = or_num (Option.bind experience xp_min_usefulness) 2;
          publish = (case experience of Some x \<Rightarrow> xp_publish x | None \<Rightarrow> JUndef);
          max_records = or_num (Option.bind experience xp_max_records) 64 in
      if publish \<noteq> JUndef \<and> publish \<noteq> JStr ''disabled''
      then Inl (HarnessError ''experience publish is disabled; public Hub publish is not available'')
      else if \<not> at_least_one min_usefulness
      then Inl (HarnessError ''experience.minUsefulness must be a positive integer'')
      else if \<not> at_least_one max_records
      then Inl (HarnessError ''experience.maxRecords must be a positive integer'')
      else Inr \<lparr>lp_enabled = enabled, lp_promote = promote, lp_min_usefulness = num_value min_usefulness,
                lp_max_records = num_value max_records\<rparr>)"

section \<open>From runs to lessons to candidates\<close>

definition pattern_label :: string where
  "pattern_label = ''experience-pattern''"

definition pattern_key :: "sha256 \<Rightarrow> task_v1 \<Rightarrow> string" where
  "pattern_key sha task = digest_root sha pattern_label
     (JObj [(''objective'', JStr (normalize_text (objective task))),
            (''successCriteria'', strings_json (js_sort code_unit_order (map normalize_text (success_criteria task))))])"

definition is_useful_experience :: "invocation_status \<Rightarrow> string list \<Rightarrow> string list \<Rightarrow> string list \<Rightarrow> bool" where
  "is_useful_experience status criteria matched violations \<longleftrightarrow>
     status = Succeeded \<and> violations = [] \<and> criteria \<noteq> [] \<and> length matched = length criteria"

definition max_text :: nat where
  "max_text = 2000"

definition max_triggers :: nat where
  "max_triggers = 16"

definition bound_experience_text :: "task_v1 \<Rightarrow> jsval \<Rightarrow> string list \<Rightarrow> string" where
  "bound_experience_text task output skill_ids =
     take max_text (js_join [char_of (10 :: nat)] ([objective task] @ success_criteria task @ skill_ids
        @ [case stringify_output output of Some s \<Rightarrow> s | None \<Rightarrow> []]))"

text \<open>\<open>key.replace(/^experience-pattern:/, "")\<close>\<close>

definition strip_label :: "string \<Rightarrow> string" where
  "strip_label key = (if js_starts_with key (pattern_label @ '':'') then drop (length (pattern_label @ '':'')) key else key)"

definition adapter_only :: "string list" where
  "adapter_only = [''tools'', ''resume'', ''observe'', ''interrupt'']"

definition learnable :: "string list \<Rightarrow> string list" where
  "learnable capabilities = filter (\<lambda>c. c \<notin> set adapter_only) capabilities"

fun common_strings :: "string list list \<Rightarrow> string list" where
  "common_strings [] = []"
| "common_strings (first # rest) = sorted_set (filter (\<lambda>item. list_all (\<lambda>l. item \<in> set l) rest) first)"

definition lesson_from_useful :: "experience_record list \<Rightarrow> lesson option" where
  "lesson_from_useful records =
     (case filter xr_useful records of
        [] \<Rightarrow> None
      | first # rest \<Rightarrow>
          let useful = first # rest in
          Some \<lparr>ls_id = ''lesson/'' @ take 24 (strip_label (xr_pattern_key first)), ls_pattern_key = xr_pattern_key first,
                ls_objective = xr_objective first, ls_success_criteria = xr_success_criteria first,
                ls_experience_ids = map xr_id useful, ls_usefulness = length useful,
                ls_skill_ids = sorted_set (concat (map xr_skill_ids useful)),
                ls_required_capabilities = common_strings (map (\<lambda>r. learnable (xr_required_capabilities r)) useful),
                ls_run_ids = sorted_set (map xr_run_id useful)\<rparr>)"

definition draft_skill :: "lesson \<Rightarrow> string list \<Rightarrow> skill_definition" where
  "draft_skill ls authority =
     \<lparr>sd_id = ''learned/'' @ take 16 (strip_label (ls_pattern_key ls)), sd_version = ''1.0.0'',
      sd_name = Some ''Learned local pattern'',
      sd_triggers = take max_triggers (sorted_set (tokenize (ls_objective ls) @ concat (map tokenize (ls_success_criteria ls)))),
      sd_domains = [''learned''], sd_schemas = None,
      sd_instructions = ''Verified local pattern. Objective: '' @ ls_objective ls @ ''. Success criteria: ''
        @ js_join ''; '' (ls_success_criteria ls)
        @ ''. Repeat the successful approach. Do not perform prohibited actions.'',
      sd_required_capabilities = filter (\<lambda>c. authority = [] \<or> c \<in> set authority)
        (learnable (sorted_set (ls_required_capabilities ls))),
      sd_required_tools = [], sd_knowledge_refs = [],
      sd_provenance = \<lparr>sp_pack_id = ''local-experience'', sp_digest = None, sp_publisher = None\<rparr>, sd_content_hash = None\<rparr>"

definition evaluate_gates :: "lesson \<Rightarrow> int \<Rightarrow> bool \<Rightarrow> bool \<Rightarrow> promotion_gates" where
  "evaluate_gates ls min_usefulness approved auto_approved =
     \<lparr>pg_usefulness = (min_usefulness \<le> int (ls_usefulness ls)), pg_evaluation = (0 < ls_usefulness ls),
      pg_provenance = (ls_run_ids ls \<noteq> []), pg_approval = (auto_approved \<or> approved)\<rparr>"

definition gates_pass :: "promotion_gates \<Rightarrow> bool" where
  "gates_pass g \<longleftrightarrow> pg_usefulness g \<and> pg_evaluation g \<and> pg_provenance g \<and> pg_approval g"

section \<open>The store\<close>

record experience_store =
  xs_records :: "experience_record list"
  xs_lessons :: "(string, lesson) js_map"
  xs_candidates :: "(string, skill_candidate) js_map"
  xs_promoted :: "skill_definition list"
  xs_approvals :: "string list"

definition new_store :: experience_store where
  "new_store = \<lparr>xs_records = [], xs_lessons = [], xs_candidates = [], xs_promoted = [], xs_approvals = []\<rparr>"

type_synonym 'w remember_fn = "string \<Rightarrow> string list \<Rightarrow> 'w \<Rightarrow> unit result \<times> 'w"

record 'w learner =
  ln_policy :: learning_policy
  ln_remember :: "'w remember_fn option"
  ln_authority :: "string list"

definition new_learner :: "experience_policy option \<Rightarrow> 'w remember_fn option \<Rightarrow> string list option \<Rightarrow> ('q, 'r) memory_option \<Rightarrow> 'w learner result" where
  "new_learner experience remember authority memory =
     bind_res (normalize_experience_policy experience memory) (\<lambda>policy.
       Inr \<lparr>ln_policy = policy, ln_remember = remember, ln_authority = (case authority of Some xs \<Rightarrow> xs | None \<Rightarrow> [])\<rparr>)"

definition compare_memory_score :: "locale_compare \<Rightarrow> memory_item \<Rightarrow> memory_item \<Rightarrow> int" where
  "compare_memory_score lc = cmp_then (cmp_on (\<lambda>m. or_zero (mem_score m)) cmp_desc) (cmp_on mem_id lc)"

definition recall_experience :: "locale_compare \<Rightarrow> experience_store \<Rightarrow> string \<Rightarrow> memory_item list" where
  "recall_experience lc st query =
     js_sort (compare_memory_score lc)
       (filter (\<lambda>m. 0 < or_zero (mem_score m))
          (map (\<lambda>r. \<lparr>mem_id = xr_id r, mem_text = xr_text r, mem_score = Some (lexical_score query (xr_text r))\<rparr>)
             (filter xr_useful (xs_records st))))"

record experience_snapshot =
  xn_records :: "experience_record list"
  xn_lessons :: "lesson list"
  xn_candidates :: "skill_candidate list"
  xn_promoted :: "skill_definition list"

definition snapshot_experience :: "locale_compare \<Rightarrow> experience_store \<Rightarrow> experience_snapshot" where
  "snapshot_experience lc st =
     \<lparr>xn_records = xs_records st, xn_lessons = js_sort (cmp_on ls_id lc) (map snd (xs_lessons st)),
      xn_candidates = js_sort (cmp_on sc_id lc) (map snd (xs_candidates st)), xn_promoted = xs_promoted st\<rparr>"

text \<open>The candidate \<open>syncCandidate\<close> drafts when none was promoted yet.\<close>

definition new_candidate :: "learning_policy \<Rightarrow> string list \<Rightarrow> lesson \<Rightarrow> promotion_gates \<Rightarrow> skill_candidate" where
  "new_candidate policy authority ls gates =
     (let skill = draft_skill ls authority; pass = (lp_promote policy \<noteq> PromoteDisabled \<and> gates_pass gates) in
      \<lparr>sc_id = sd_id skill, sc_lesson_id = ls_id ls, sc_skill = skill, sc_gates = gates,
       sc_status = (if lp_promote policy = PromoteDisabled then RejectedSkill else if pass then PromotedSkill else CandidateSkill)\<rparr>)"

definition promote_skill :: "sha256 \<Rightarrow> skill_candidate \<Rightarrow> experience_store \<Rightarrow> unit result \<times> experience_store" where
  "promote_skill sha c st =
     (case normalize_skill_definition sha (skill_json (sc_skill c)) of
        Inl e \<Rightarrow> (Inl e, st)
      | Inr s \<Rightarrow> (Inr (), if list_ex (\<lambda>p. sd_id p = sd_id s) (xs_promoted st) then st
                         else st\<lparr>xs_promoted := xs_promoted st @ [s]\<rparr>))"

definition sync_gates :: "'w learner \<Rightarrow> lesson \<Rightarrow> experience_store \<Rightarrow> promotion_gates" where
  "sync_gates ln ls st = evaluate_gates ls (lp_min_usefulness (ln_policy ln)) (ls_id ls \<in> set (xs_approvals st))
     (lp_promote (ln_policy ln) = AutoApproved)"

definition draft_candidate :: "sha256 \<Rightarrow> 'w learner \<Rightarrow> lesson \<Rightarrow> promotion_gates \<Rightarrow> experience_store
    \<Rightarrow> skill_candidate result \<times> experience_store" where
  "draft_candidate sha ln ls gates st =
     (let c = new_candidate (ln_policy ln) (ln_authority ln) ls gates;
          st1 = st\<lparr>xs_candidates := map_put (ls_id ls) c (xs_candidates st)\<rparr> in
      if sc_status c = PromotedSkill
      then (case promote_skill sha c st1 of (Inl e, st2) \<Rightarrow> (Inl e, st2) | (Inr _, st2) \<Rightarrow> (Inr c, st2))
      else (Inr c, st1))"

definition sync_candidate :: "sha256 \<Rightarrow> 'w learner \<Rightarrow> lesson \<Rightarrow> experience_store \<Rightarrow> skill_candidate result \<times> experience_store" where
  "sync_candidate sha ln ls st =
     (let gates = sync_gates ln ls st in
      case map_of (xs_candidates st) (ls_id ls) of
        Some existing \<Rightarrow>
          if sc_status existing = PromotedSkill
          then (let kept = existing\<lparr>sc_gates := gates\<rparr> in
                (Inr kept, st\<lparr>xs_candidates := map_put (ls_id ls) kept (xs_candidates st)\<rparr>))
          else draft_candidate sha ln ls gates st
      | None \<Rightarrow> draft_candidate sha ln ls gates st)"

definition approve_lesson :: "sha256 \<Rightarrow> 'w learner \<Rightarrow> string \<Rightarrow> experience_store \<Rightarrow> skill_candidate option result \<times> experience_store" where
  "approve_lesson sha ln i st =
     (let st1 = st\<lparr>xs_approvals := (if i \<in> set (xs_approvals st) then xs_approvals st else xs_approvals st @ [i])\<rparr> in
      case find (\<lambda>l. ls_id l = i) (map snd (xs_lessons st1)) of
        None \<Rightarrow> (Inr (map_of (xs_candidates st1) i), st1)
      | Some ls \<Rightarrow>
          (case sync_candidate sha ln ls st1 of
             (Inl e, st2) \<Rightarrow> (Inl e, st2)
           | (Inr c, st2) \<Rightarrow> (Inr (Some c), st2)))"

section \<open>Recording a run\<close>

definition empty_receipt :: experience_receipt where
  "empty_receipt = \<lparr>xc_recorded = False, xc_experience_id = None, xc_lesson_id = None, xc_candidate_id = None,
     xc_promoted = False, xc_gates = None\<rparr>"

definition new_record :: "sha256 \<Rightarrow> experience_input \<Rightarrow> experience_store \<Rightarrow> experience_record" where
  "new_record sha inp st =
     (let task = xi_task inp; n = length (xs_records st) + 1 in
      \<lparr>xr_id = ''experience/'' @ xi_run_id inp @ ''/'' @ dec_nat n, xr_run_id = xi_run_id inp, xr_sequence = n,
       xr_pattern_key = pattern_key sha task, xr_objective = objective task, xr_success_criteria = success_criteria task,
       xr_status = xi_status inp,
       xr_useful = is_useful_experience (xi_status inp) (success_criteria task) (xi_matched inp) (xi_violations inp),
       xr_text = bound_experience_text task (xi_output inp) (xi_skill_ids inp),
       xr_skill_ids = js_sort code_unit_order (xi_skill_ids inp),
       xr_required_capabilities = js_sort code_unit_order (required_capabilities task),
       xr_evidence_ids = js_sort code_unit_order (xi_evidence_ids inp), xr_dependency_root = xi_dependency_root inp,
       xr_matched = xi_matched inp, xr_violations = xi_violations inp, xr_labels = js_sort code_unit_order (xi_labels inp)\<rparr>)"

text \<open>\<open>push\<close>, then \<open>splice(0, length - maxRecords)\<close>.\<close>

definition keep_record :: "learning_policy \<Rightarrow> experience_record \<Rightarrow> experience_record list \<Rightarrow> experience_record list" where
  "keep_record policy r rs =
     (let all = rs @ [r] in
      if lp_max_records policy < int (length all) then drop (length all - nat (lp_max_records policy)) all else all)"

definition record_receipt :: "experience_record \<Rightarrow> lesson option \<Rightarrow> skill_candidate option \<Rightarrow> experience_receipt" where
  "record_receipt r ls c =
     \<lparr>xc_recorded = True, xc_experience_id = Some (xr_id r), xc_lesson_id = map_option ls_id ls,
      xc_candidate_id = map_option sc_id c,
      xc_promoted = (case c of Some k \<Rightarrow> sc_status k = PromotedSkill | None \<Rightarrow> False),
      xc_gates = map_option sc_gates c\<rparr>"

definition learn_from :: "sha256 \<Rightarrow> 'w learner \<Rightarrow> experience_record \<Rightarrow> experience_store \<Rightarrow> experience_receipt result \<times> experience_store" where
  "learn_from sha ln r st =
     (case lesson_from_useful (filter (\<lambda>x. xr_pattern_key x = xr_pattern_key r) (xs_records st)) of
        None \<Rightarrow> (Inr (record_receipt r None None), st)
      | Some ls \<Rightarrow>
          let st1 = st\<lparr>xs_lessons := map_put (xr_pattern_key r) ls (xs_lessons st)\<rparr> in
          if lp_promote (ln_policy ln) = PromoteDisabled then (Inr (record_receipt r (Some ls) None), st1)
          else (case sync_candidate sha ln ls st1 of
              (Inl e, st2) \<Rightarrow> (Inl e, st2)
            | (Inr c, st2) \<Rightarrow> (Inr (record_receipt r (Some ls) (Some c)), st2)))"

definition record_experience :: "sha256 \<Rightarrow> 'w learner \<Rightarrow> experience_input \<Rightarrow> experience_store \<Rightarrow> 'w
    \<Rightarrow> experience_receipt result \<times> experience_store \<times> 'w" where
  "record_experience sha ln inp st w =
     (if \<not> lp_enabled (ln_policy ln) then (Inr empty_receipt, st, w)
      else
        let r = new_record sha inp st;
            st1 = st\<lparr>xs_records := keep_record (ln_policy ln) r (xs_records st)\<rparr>;
            (told, w1) = (case ln_remember ln of
                None \<Rightarrow> (Inr (), w)
              | Some f \<Rightarrow> f (xr_text r) ([''experience'', status_name (xr_status r)] @ xr_labels r) w) in
        case told of
          Inl e \<Rightarrow> (Inl e, st1, w1)
        | Inr _ \<Rightarrow> (case learn_from sha ln r st1 of (res, st2) \<Rightarrow> (res, st2, w1)))"

section \<open>The invariant of the store\<close>

text \<open>The runs a store was told of, in their order, each with the record it made of it.\<close>

type_synonym run_history = "(experience_input \<times> experience_record) list"

inductive store_trace :: "sha256 \<Rightarrow> 'w learner \<Rightarrow> run_history \<Rightarrow> experience_store \<Rightarrow> bool" for sha ln where
  trace_new: "store_trace sha ln [] new_store"
| trace_record: "store_trace sha ln h st \<Longrightarrow> record_experience sha ln inp st w = (res, st', w') \<Longrightarrow>
     store_trace sha ln (if lp_enabled (ln_policy ln) then h @ [(inp, new_record sha inp st)] else h) st'"
| trace_approve: "store_trace sha ln h st \<Longrightarrow> approve_lesson sha ln i st = (res, st') \<Longrightarrow> store_trace sha ln h st'"

definition store_reachable :: "sha256 \<Rightarrow> 'w learner \<Rightarrow> experience_store \<Rightarrow> bool" where
  "store_reachable sha ln st \<longleftrightarrow> (\<exists>h. store_trace sha ln h st)"

lemma store_new: "store_reachable sha ln new_store"
  and store_record: "store_reachable sha ln st \<Longrightarrow> record_experience sha ln inp st w = (res, st', w') \<Longrightarrow> store_reachable sha ln st'"
  and store_approve: "store_reachable sha ln st \<Longrightarrow> approve_lesson sha ln i st = (answer, st') \<Longrightarrow> store_reachable sha ln st'"
  unfolding store_reachable_def by (blast intro: trace_new trace_record trace_approve)+

text \<open>A run of the pattern that succeeded, met every criterion and violated nothing.\<close>

definition clean_run :: "sha256 \<Rightarrow> string \<Rightarrow> experience_input \<times> experience_record \<Rightarrow> bool" where
  "clean_run sha key run \<longleftrightarrow>
     (case run of (inp, r) \<Rightarrow> (\<exists>st. r = new_record sha inp st) \<and> pattern_key sha (xi_task inp) = key
        \<and> xi_status inp = Succeeded \<and> xi_violations inp = [] \<and> success_criteria (xi_task inp) \<noteq> []
        \<and> length (xi_matched inp) = length (success_criteria (xi_task inp)))"

text \<open>A lesson drawn from clean runs of its pattern that the store was told of.\<close>

definition lesson_ok :: "sha256 \<Rightarrow> run_history \<Rightarrow> string \<Rightarrow> lesson \<Rightarrow> bool" where
  "lesson_ok sha h key ls \<longleftrightarrow>
     (\<exists>runs. subseq runs h \<and> list_all (clean_run sha key) runs \<and> lesson_from_useful (map snd runs) = Some ls)"

text \<open>A promoted candidate was drafted from a lesson that passed every gate.\<close>

definition earned :: "sha256 \<Rightarrow> 'w learner \<Rightarrow> run_history \<Rightarrow> string list \<Rightarrow> skill_candidate \<Rightarrow> bool" where
  "earned sha ln h approvals c \<longleftrightarrow>
     (\<exists>key ls. lesson_ok sha h key ls \<and> sc_lesson_id c = ls_id ls \<and> sc_skill c = draft_skill ls (ln_authority ln)
        \<and> lp_min_usefulness (ln_policy ln) \<le> int (ls_usefulness ls) \<and> lp_promote (ln_policy ln) \<noteq> PromoteDisabled
        \<and> (lp_promote (ln_policy ln) = AutoApproved \<or> ls_id ls \<in> set approvals))"

definition records_of :: "sha256 \<Rightarrow> run_history \<Rightarrow> experience_record list \<Rightarrow> bool" where
  "records_of sha h rs \<longleftrightarrow> (\<exists>k \<le> length h. rs = map snd (drop k h)) \<and> (\<forall>(inp, r) \<in> set h. \<exists>st. r = new_record sha inp st)"

definition store_ok :: "sha256 \<Rightarrow> 'w learner \<Rightarrow> run_history \<Rightarrow> experience_store \<Rightarrow> bool" where
  "store_ok sha ln h st \<longleftrightarrow>
     records_of sha h (xs_records st)
     \<and> int (length (xs_records st)) \<le> lp_max_records (ln_policy ln)
     \<and> distinct (map fst (xs_lessons st)) \<and> distinct (map fst (xs_candidates st)) \<and> distinct (map sd_id (xs_promoted st))
     \<and> (\<forall>(key, ls) \<in> set (xs_lessons st). lesson_ok sha h key ls)
     \<and> (\<forall>(i, c) \<in> set (xs_candidates st). sc_lesson_id c = i \<and> i \<in> ls_id ` snd ` set (xs_lessons st)
          \<and> (sc_status c = PromotedSkill \<longrightarrow> earned sha ln h (xs_approvals st) c))
     \<and> (\<forall>s \<in> set (xs_promoted st). \<exists>c. earned sha ln h (xs_approvals st) c \<and> normalize_skill_definition sha (skill_json (sc_skill c)) = Inr s)"

lemma clean_run_record:
  "clean_run sha key (inp, r) \<Longrightarrow> xr_useful r \<and> xr_pattern_key r = key
    \<and> set (xr_required_capabilities r) = set (required_capabilities (xi_task inp))"
  by (auto simp: clean_run_def new_record_def Let_def is_useful_experience_def)

lemma clean_run_iff:
  "\<exists>st. r = new_record sha inp st \<Longrightarrow> clean_run sha key (inp, r) \<longleftrightarrow> xr_useful r \<and> xr_pattern_key r = key"
  by (auto simp: clean_run_def new_record_def Let_def is_useful_experience_def)

lemma lesson_of_useful: "filter xr_useful rs = filter xr_useful rs' \<Longrightarrow> lesson_from_useful rs = lesson_from_useful rs'"
  by (simp add: lesson_from_useful_def)

lemma lesson_ok_id:
  assumes "lesson_ok sha h key ls"
  shows "ls_id ls = ''lesson/'' @ take 24 (strip_label key)"
proof -
  obtain runs where runs: "list_all (clean_run sha key) runs" "lesson_from_useful (map snd runs) = Some ls"
    using assms by (auto simp: lesson_ok_def)
  from runs(2) obtain r rest where "filter xr_useful (map snd runs) = r # rest"
    and id: "ls_id ls = ''lesson/'' @ take 24 (strip_label (xr_pattern_key r))"
    by (auto simp: lesson_from_useful_def Let_def split: list.splits)
  then have "r \<in> set (filter xr_useful (map snd runs))" by simp
  then have "r \<in> snd ` set runs" by simp
  with runs(1) have "xr_pattern_key r = key" by (auto simp: list_all_iff dest!: bspec dest: clean_run_record)
  with id show ?thesis by simp
qed

text \<open>The lesson of the kept records of a pattern rests on clean runs.\<close>

lemma lesson_of_records:
  assumes "records_of sha h rs" "lesson_from_useful (filter (\<lambda>x. xr_pattern_key x = key) rs) = Some ls"
  shows "lesson_ok sha h key ls"
proof -
  obtain k where k: "rs = map snd (drop k h)" using assms(1) by (auto simp: records_of_def)
  let ?runs = "filter (clean_run sha key) (drop k h)"
  have "set (drop k h) \<subseteq> set h" by (rule set_drop_subset)
  then have "clean_run sha key x \<longleftrightarrow> xr_useful (snd x) \<and> xr_pattern_key (snd x) = key" if "x \<in> set (drop k h)" for x
    using assms(1) that by (cases x) (auto simp: records_of_def intro!: clean_run_iff)
  then have "?runs = filter (\<lambda>x. xr_useful (snd x) \<and> xr_pattern_key (snd x) = key) (drop k h)" by (intro filter_cong) auto
  then have "filter xr_useful (map snd ?runs) = filter xr_useful (filter (\<lambda>x. xr_pattern_key x = key) rs)"
    by (simp add: k filter_map comp_def conj_commute cong: conj_cong)
  then have "lesson_from_useful (map snd ?runs) = Some ls" using assms(2) by (metis lesson_of_useful)
  moreover have "subseq ?runs h"
    using subseq_filter_left suffix_imp_subseq [OF suffix_drop] by (rule subseq_order.trans)
  moreover have "list_all (clean_run sha key) ?runs" by (simp add: list_all_iff)
  ultimately show ?thesis unfolding lesson_ok_def by blast
qed

lemma lesson_ok_more: "lesson_ok sha h key ls \<Longrightarrow> lesson_ok sha (h @ h') key ls"
  unfolding lesson_ok_def by (meson prefixI prefix_imp_subseq subseq_order.trans)

lemma earned_more: "earned sha ln h as c \<Longrightarrow> earned sha ln (h @ h') as c"
  unfolding earned_def using lesson_ok_more by blast

lemma records_of_more:
  assumes "records_of sha h rs"
  shows "records_of sha (h @ [(inp, new_record sha inp st)]) (keep_record policy (new_record sha inp st) rs)"
proof -
  let ?r = "new_record sha inp st" and ?h = "h @ [(inp, new_record sha inp st)]"
  obtain k where k: "k \<le> length h" "rs = map snd (drop k h)" using assms by (auto simp: records_of_def)
  then have all: "rs @ [?r] = map snd (drop k ?h)" by simp
  have "\<exists>n \<le> length ?h. keep_record policy ?r rs = map snd (drop n ?h)"
  proof (cases "lp_max_records policy < int (length (rs @ [?r]))")
    case True
    let ?d = "length (rs @ [?r]) - nat (lp_max_records policy)"
    have "keep_record policy ?r rs = drop ?d (rs @ [?r])" using True by (simp only: keep_record_def Let_def if_True)
    also have "\<dots> = drop ?d (map snd (drop k ?h))" by (rule arg_cong [OF all])
    also have "\<dots> = map snd (drop (?d + k) ?h)" by (simp only: drop_map drop_drop)
    finally have "keep_record policy ?r rs = map snd (drop (?d + k) ?h)" .
    moreover have "?d + k \<le> length ?h" using k by simp
    ultimately show ?thesis by blast
  next
    case False
    then show ?thesis using k(1) unfolding keep_record_def Let_def all by (intro exI [of _ k]) auto
  qed
  with assms show ?thesis by (auto simp: records_of_def)
qed

lemma keep_record_set: "set (keep_record policy r rs) \<subseteq> insert r (set rs)"
  by (auto simp: keep_record_def Let_def dest: in_set_dropD split: if_splits)

lemma keep_record_length: "0 \<le> lp_max_records policy \<Longrightarrow> int (length (keep_record policy r rs)) \<le> lp_max_records policy"
  by (auto simp: keep_record_def Let_def)

lemma earned_mono: "earned sha ln h as c \<Longrightarrow> set as \<subseteq> set bs \<Longrightarrow> earned sha ln h bs c"
  unfolding earned_def by blast

lemma earned_gates [simp]: "earned sha ln h as (c\<lparr>sc_gates := g\<rparr>) = earned sha ln h as c"
  by (simp add: earned_def)

lemma lesson_usefulness: "lesson_from_useful rs = Some ls \<Longrightarrow> 0 < ls_usefulness ls"
  by (auto simp: lesson_from_useful_def Let_def split: list.splits)

text \<open>\<open>syncCandidate\<close> on a lesson the store holds keeps the invariant, whichever branch it takes.\<close>

lemma promote_skill_ok:
  assumes "store_ok sha ln h st" "earned sha ln h (xs_approvals st) c" "promote_skill sha c st = (res, st')"
  shows "store_ok sha ln h st'"
proof (cases "normalize_skill_definition sha (skill_json (sc_skill c))")
  case (Inl e)
  with assms show ?thesis by (simp add: promote_skill_def)
next
  case (Inr s)
  have taken: "list_ex (\<lambda>p. sd_id p = sd_id s) (xs_promoted st) \<longleftrightarrow> sd_id s \<in> sd_id ` set (xs_promoted st)"
    unfolding list_ex_iff by (metis imageE imageI)
  show ?thesis
  proof (cases "sd_id s \<in> sd_id ` set (xs_promoted st)")
    case True
    with assms Inr show ?thesis by (simp add: promote_skill_def taken)
  next
    case False
    with assms(3) Inr have "st' = st\<lparr>xs_promoted := xs_promoted st @ [s]\<rparr>" by (simp add: promote_skill_def taken)
    with assms(1,2) Inr False show ?thesis by (auto simp: store_ok_def)
  qed
qed

lemma put_candidate_ok:
  assumes "store_ok sha ln h st" "sc_lesson_id c = i" "i \<in> ls_id ` snd ` set (xs_lessons st)"
    and "sc_status c = PromotedSkill \<Longrightarrow> earned sha ln h (xs_approvals st) c"
  shows "store_ok sha ln h (st\<lparr>xs_candidates := map_put i c (xs_candidates st)\<rparr>)"
proof -
  define P where "P = (\<lambda>(j, k). sc_lesson_id k = j \<and> j \<in> ls_id ` snd ` set (xs_lessons st)
      \<and> (sc_status k = PromotedSkill \<longrightarrow> earned sha ln h (xs_approvals st) k))"
  have "\<forall>e \<in> set (xs_candidates st). P e" using assms(1) by (simp add: store_ok_def P_def)
  moreover have "P (i, c)" using assms(2-4) by (simp add: P_def)
  ultimately have "\<forall>e \<in> set (map_put i c (xs_candidates st)). P e"
    using set_map_put_subset [of i c "xs_candidates st"] by blast
  with assms(1) show ?thesis by (simp add: store_ok_def P_def)
qed

lemma draft_candidate_ok:
  assumes ok: "store_ok sha ln h st" and ls: "(key, ls) \<in> set (xs_lessons st)"
    and run: "draft_candidate sha ln ls (sync_gates ln ls st) st = (res, st')"
  shows "store_ok sha ln h st'"
proof -
  define c where "c = new_candidate (ln_policy ln) (ln_authority ln) ls (sync_gates ln ls st)"
  define st1 where "st1 = st\<lparr>xs_candidates := map_put (ls_id ls) c (xs_candidates st)\<rparr>"
  have lesson: "lesson_ok sha h key ls" using ok ls by (auto simp: store_ok_def)
  have e: "earned sha ln h (xs_approvals st) c" if "sc_status c = PromotedSkill"
  proof -
    from that have "lp_promote (ln_policy ln) \<noteq> PromoteDisabled" "gates_pass (sync_gates ln ls st)"
      by (auto simp: c_def new_candidate_def Let_def split: if_splits)
    moreover have "sc_lesson_id c = ls_id ls" "sc_skill c = draft_skill ls (ln_authority ln)"
      by (simp_all add: c_def new_candidate_def Let_def)
    ultimately show ?thesis
      using lesson by (auto simp: earned_def gates_pass_def sync_gates_def evaluate_gates_def)
  qed
  have "ls_id ls \<in> ls_id ` snd ` set (xs_lessons st)" using ls by force
  moreover have "sc_lesson_id c = ls_id ls" by (simp add: c_def new_candidate_def Let_def)
  ultimately have ok1: "store_ok sha ln h st1"
    unfolding st1_def using put_candidate_ok [OF ok] e by blast
  show ?thesis
  proof (cases "sc_status c = PromotedSkill")
    case True
    obtain r st2 where p: "promote_skill sha c st1 = (r, st2)" by fastforce
    have "earned sha ln h (xs_approvals st1) c" using e [OF True] by (simp add: st1_def)
    from promote_skill_ok [OF ok1 this p] have "store_ok sha ln h st2" .
    moreover have "st' = st2" using run True p by (auto simp: draft_candidate_def Let_def c_def [symmetric] st1_def [symmetric] split: sum.splits)
    ultimately show ?thesis by simp
  next
    case False
    with run ok1 show ?thesis by (simp add: draft_candidate_def Let_def c_def [symmetric] st1_def [symmetric])
  qed
qed

lemma sync_candidate_ok:
  assumes ok: "store_ok sha ln h st" and ls: "(key, ls) \<in> set (xs_lessons st)"
    and run: "sync_candidate sha ln ls st = (res, st')"
  shows "store_ok sha ln h st'"
proof (cases "\<exists>c. map_of (xs_candidates st) (ls_id ls) = Some c \<and> sc_status c = PromotedSkill")
  case True
  then obtain c where c: "map_of (xs_candidates st) (ls_id ls) = Some c" "sc_status c = PromotedSkill" by blast
  let ?kept = "c\<lparr>sc_gates := sync_gates ln ls st\<rparr>"
  have "st' = st\<lparr>xs_candidates := map_put (ls_id ls) ?kept (xs_candidates st)\<rparr>"
    using run c by (simp add: sync_candidate_def Let_def)
  moreover have "sc_lesson_id ?kept = ls_id ls" "ls_id ls \<in> ls_id ` snd ` set (xs_lessons st)" "earned sha ln h (xs_approvals st) ?kept"
    using ok map_of_SomeD [OF c(1)] c(2) by (auto simp: store_ok_def)
  ultimately show ?thesis using put_candidate_ok [OF ok] by blast
next
  case False
  with run have "draft_candidate sha ln ls (sync_gates ln ls st) st = (res, st')"
    by (auto simp: sync_candidate_def Let_def split: option.splits)
  from draft_candidate_ok [OF ok ls this] show ?thesis .
qed

lemma approve_ok:
  assumes "store_ok sha ln h st" "approve_lesson sha ln i st = (res, st')"
  shows "store_ok sha ln h st'"
proof -
  define st1 where "st1 = st\<lparr>xs_approvals := (if i \<in> set (xs_approvals st) then xs_approvals st else xs_approvals st @ [i])\<rparr>"
  have "set (xs_approvals st) \<subseteq> set (xs_approvals st1)" by (auto simp: st1_def)
  with assms(1) have ok: "store_ok sha ln h st1"
    unfolding store_ok_def by (fastforce simp: st1_def intro: earned_mono)
  show ?thesis
  proof (cases "find (\<lambda>l. ls_id l = i) (map snd (xs_lessons st1))")
    case None
    with assms(2) ok show ?thesis by (simp add: approve_lesson_def Let_def st1_def [symmetric])
  next
    case (Some ls)
    then have "ls \<in> snd ` set (xs_lessons st1)" using find_in_set by fastforce
    then obtain key where "(key, ls) \<in> set (xs_lessons st1)" by force
    moreover obtain r st2 where "sync_candidate sha ln ls st1 = (r, st2)" by fastforce
    ultimately show ?thesis
      using sync_candidate_ok [OF ok] assms(2) Some
      by (auto simp: approve_lesson_def Let_def st1_def [symmetric] split: sum.splits)
  qed
qed

lemma learn_from_ok:
  assumes ok: "store_ok sha ln h st" and run: "learn_from sha ln r st = (res, st')"
  shows "store_ok sha ln h st'"
proof (cases "lesson_from_useful (filter (\<lambda>x. xr_pattern_key x = xr_pattern_key r) (xs_records st))")
  case None
  with run ok show ?thesis by (simp add: learn_from_def)
next
  case (Some ls)
  let ?key = "xr_pattern_key r"
  define st1 where "st1 = st\<lparr>xs_lessons := map_put ?key ls (xs_lessons st)\<rparr>"
  have lesson: "lesson_ok sha h ?key ls"
    using ok Some by (intro lesson_of_records) (auto simp: store_ok_def)
  have same_id: "ls_id old = ls_id ls" if "(?key, old) \<in> set (xs_lessons st)" for old
  proof -
    have "lesson_ok sha h ?key old" using ok that by (auto simp: store_ok_def)
    with lesson show ?thesis by (simp add: lesson_ok_id)
  qed
  have ids: "ls_id ` snd ` set (xs_lessons st) \<subseteq> ls_id ` snd ` set (map_put ?key ls (xs_lessons st))"
  proof
    fix i assume "i \<in> ls_id ` snd ` set (xs_lessons st)"
    then obtain k old where o: "(k, old) \<in> set (xs_lessons st)" "i = ls_id old" by force
    have ls': "map_of (map_put ?key ls (xs_lessons st)) ?key = Some ls" by simp
    show "i \<in> ls_id ` snd ` set (map_put ?key ls (xs_lessons st))"
    proof (cases "k = ?key")
      case True
      with o same_id have "i = ls_id ls" by simp
      with map_of_SomeD [OF ls'] show ?thesis by force
    next
      case False
      have "distinct (map fst (xs_lessons st))" using ok by (simp add: store_ok_def)
      with o False have "map_of (map_put ?key ls (xs_lessons st)) k = Some old" by simp
      with map_of_SomeD [OF this] o(2) show ?thesis by force
    qed
  qed
  have ok1: "store_ok sha ln h st1"
  proof -
    have "\<forall>(k, l) \<in> set (map_put ?key ls (xs_lessons st)). lesson_ok sha h k l"
      using ok lesson set_map_put_subset [of ?key ls "xs_lessons st"] by (fastforce simp: store_ok_def)
    with ok ids show ?thesis unfolding st1_def store_ok_def by (simp add: case_prod_beta) blast
  qed
  have mem: "(?key, ls) \<in> set (xs_lessons st1)"
    by (rule map_of_SomeD) (simp add: st1_def)
  show ?thesis
  proof (cases "lp_promote (ln_policy ln) = PromoteDisabled")
    case True
    with run Some ok1 show ?thesis by (simp add: learn_from_def Let_def st1_def)
  next
    case False
    obtain q st2 where s: "sync_candidate sha ln ls st1 = (q, st2)" by fastforce
    from sync_candidate_ok [OF ok1 mem s] run Some False s show ?thesis
      by (auto simp: learn_from_def Let_def st1_def [symmetric] split: sum.splits)
  qed
qed

lemma record_ok:
  assumes ok: "store_ok sha ln h st" and max: "0 \<le> lp_max_records (ln_policy ln)"
    and run: "record_experience sha ln inp st w = (res, st', w')"
  shows "store_ok sha ln (if lp_enabled (ln_policy ln) then h @ [(inp, new_record sha inp st)] else h) st'"
proof (cases "lp_enabled (ln_policy ln)")
  case False
  with run ok show ?thesis by (simp add: record_experience_def)
next
  case True
  define r where "r = new_record sha inp st"
  define st1 where "st1 = st\<lparr>xs_records := keep_record (ln_policy ln) r (xs_records st)\<rparr>"
  have "records_of sha (h @ [(inp, r)]) (xs_records st1)"
    using ok unfolding r_def st1_def by (simp add: store_ok_def records_of_more)
  with ok max keep_record_length [of "ln_policy ln" r "xs_records st"] have ok1: "store_ok sha ln (h @ [(inp, r)]) st1"
    unfolding store_ok_def by (fastforce simp: st1_def intro: lesson_ok_more earned_more)
  obtain told w1 where t: "(case ln_remember ln of None \<Rightarrow> (Inr (), w)
      | Some f \<Rightarrow> f (xr_text r) ([''experience'', status_name (xr_status r)] @ xr_labels r) w) = (told, w1)" by fastforce
  obtain q st2 where l: "learn_from sha ln r st1 = (q, st2)" by fastforce
  have "st' = st1 \<or> st' = st2"
    using run True t l by (auto simp: record_experience_def Let_def r_def [symmetric] st1_def [symmetric] split: sum.splits)
  with True ok1 learn_from_ok [OF ok1 l] show ?thesis by (auto simp: r_def)
qed

lemma store_trace_ok:
  assumes "store_trace sha ln h st" "0 \<le> lp_max_records (ln_policy ln)"
  shows "store_ok sha ln h st"
  using assms
proof (induction rule: store_trace.induct)
  case trace_new
  then show ?case by (simp add: store_ok_def new_store_def records_of_def)
next
  case (trace_record h st inp w res st' w')
  show ?case by (rule record_ok [OF trace_record.IH [OF trace_record.prems] trace_record.prems trace_record.hyps(2)])
next
  case (trace_approve h st i res st')
  show ?case by (rule approve_ok [OF trace_approve.IH [OF trace_approve.prems] trace_approve.hyps(2)])
qed

lemma store_reachable_ok:
  assumes "store_reachable sha ln st" "0 \<le> lp_max_records (ln_policy ln)"
  obtains h where "store_trace sha ln h st" "store_ok sha ln h st"
  using assms store_trace_ok unfolding store_reachable_def by blast

section \<open>What a learned skill may ask for\<close>

lemma skill_json_lists:
  assumes "normalize_skill_definition sha (skill_json d) = Inr s"
  shows "sd_required_capabilities s = sd_required_capabilities d" "sd_required_tools s = sd_required_tools d" "sd_id s = sd_id d"
proof -
  let ?es = "members_of (skill_json d)"
  have get: "js_get ?es ''id'' = JStr (sd_id d)" "js_get ?es ''requiredCapabilities'' = strings_json (sd_required_capabilities d)"
    "js_get ?es ''requiredTools'' = strings_json (sd_required_tools d)"
    by (simp_all add: skill_json_def js_get_rules js_get_schemas_member split: option.splits)
  from assms obtain t where t: "validate_skill_shape (skill_json d) = Inr t" "s = t\<lparr>sd_content_hash := Some (hash_skill_definition sha t)\<rparr>"
    by (auto simp: normalize_skill_definition_def bind_res_eq_Inr Let_def split: option.splits if_splits)
  have "sd_required_capabilities t = sd_required_capabilities d \<and> sd_required_tools t = sd_required_tools d \<and> sd_id t = sd_id d"
    using t(1) unfolding validate_skill_shape_def Let_def
    by (elim bind_res_InrE) (auto simp: get string_list_json identifier_string_Inr)
  with t(2) show "sd_required_capabilities s = sd_required_capabilities d" "sd_required_tools s = sd_required_tools d" "sd_id s = sd_id d"
    by simp_all
qed

lemma common_strings_in: "c \<in> set (common_strings xss) \<Longrightarrow> xs \<in> set xss \<Longrightarrow> c \<in> set xs"
  by (cases xss) (auto simp: list_all_iff)

lemma draft_capabilities:
  assumes "lesson_from_useful rs = Some ls" "c \<in> set (sd_required_capabilities (draft_skill ls authority))" "r \<in> set rs" "xr_useful r"
  shows "c \<in> set (xr_required_capabilities r) \<and> (authority = [] \<or> c \<in> set authority)"
proof -
  from assms(1) have caps: "ls_required_capabilities ls = common_strings (map (\<lambda>r. learnable (xr_required_capabilities r)) (filter xr_useful rs))"
    by (auto simp: lesson_from_useful_def Let_def split: list.splits)
  have "c \<in> set (ls_required_capabilities ls)" "authority = [] \<or> c \<in> set authority"
    using assms(2) by (auto simp: draft_skill_def learnable_def)
  moreover from this(1) have "c \<in> set (learnable (xr_required_capabilities r))"
    unfolding caps by (rule common_strings_in) (use assms(3,4) in auto)
  ultimately show ?thesis by (simp add: learnable_def)
qed

lemma lesson_counts: "lesson_from_useful rs = Some ls \<Longrightarrow> ls_usefulness ls = length (filter xr_useful rs)"
  by (auto simp: lesson_from_useful_def Let_def split: list.splits)

lemma new_learner_bounds: "new_learner experience remember authority memory = Inr ln \<Longrightarrow> 0 \<le> lp_max_records (ln_policy ln)"
  by (auto simp: new_learner_def bind_res_eq_Inr normalize_experience_policy_def Let_def at_least_one_def split: if_splits)

section \<open>Properties\<close>

text \<open>What the draft of clean runs asks for, and how many runs it rests on.\<close>

lemma clean_runs_useful: "list_all (clean_run sha key) runs \<Longrightarrow> filter xr_useful (map snd runs) = map snd runs"
  by (auto simp: list_all_iff filter_id_conv dest!: bspec dest: clean_run_record)

lemma draft_of_clean_runs:
  assumes runs: "list_all (clean_run sha key) runs" and ls: "lesson_from_useful (map snd runs) = Some ls"
    and s: "normalize_skill_definition sha (skill_json (draft_skill ls authority)) = Inr s"
  shows "ls_usefulness ls = length runs" "sd_required_tools s = []"
    "\<forall>c \<in> set (sd_required_capabilities s). (authority = [] \<or> c \<in> set authority)
       \<and> (\<forall>(inp, r) \<in> set runs. c \<in> set (required_capabilities (xi_task inp)))"
proof -
  show uses: "ls_usefulness ls = length runs" using lesson_counts [OF ls] clean_runs_useful [OF runs] by simp
  show "sd_required_tools s = []" using skill_json_lists(2) [OF s] by (simp add: draft_skill_def)
  have asked: "c \<in> set (required_capabilities (xi_task inp)) \<and> (authority = [] \<or> c \<in> set authority)"
    if "c \<in> set (sd_required_capabilities s)" "(inp, r) \<in> set runs" for c inp r
  proof -
    have "clean_run sha key (inp, r)" using runs that(2) by (simp add: list_all_iff)
    note clean = clean_run_record [OF this]
    have r: "r \<in> set (map snd runs)" using that(2) by force
    have "c \<in> set (sd_required_capabilities (draft_skill ls authority))"
      using that(1) skill_json_lists(1) [OF s] by simp
    from draft_capabilities [OF ls this r] clean show ?thesis by blast
  qed
  have "runs \<noteq> []" using lesson_usefulness [OF ls] uses by auto
  then obtain inp0 r0 where "(inp0, r0) \<in> set runs" by (cases runs) auto
  with asked show "\<forall>c \<in> set (sd_required_capabilities s). (authority = [] \<or> c \<in> set authority)
      \<and> (\<forall>(inp, r) \<in> set runs. c \<in> set (required_capabilities (xi_task inp)))"
    by blast
qed

text \<open>
  C25. However runs are recorded and lessons approved, the store keeps at most \<open>maxRecords\<close>
  records, promotes no id twice, and every promoted skill is earned by runs the store was told of:
  promotion is not disabled; among the recorded runs, in their order, there are at least
  \<open>minUsefulness\<close> of one pattern that succeeded, met all their criteria and violated no prohibition;
  the skill is the normal form of the draft of the lesson of exactly these runs; the lesson was approved
  unless the mode approves by itself; and the skill asks for no tool and only for capabilities that the
  task of every one of these runs required and that the authority, when it lists any, contains.
\<close>

theorem promoted_skills_earned:
  assumes "new_learner experience remember authority memory = Inr ln" "store_trace sha ln history st"
  shows "int (length (xs_records st)) \<le> lp_max_records (ln_policy ln) \<and> distinct (map sd_id (xs_promoted st))
    \<and> (\<forall>s \<in> set (xs_promoted st). lp_promote (ln_policy ln) \<noteq> PromoteDisabled
        \<and> (\<exists>key runs ls. subseq runs history \<and> list_all (clean_run sha key) runs
            \<and> lp_min_usefulness (ln_policy ln) \<le> int (length runs) \<and> lesson_from_useful (map snd runs) = Some ls
            \<and> normalize_skill_definition sha (skill_json (draft_skill ls (ln_authority ln))) = Inr s
            \<and> (lp_promote (ln_policy ln) = AutoApproved \<or> ls_id ls \<in> set (xs_approvals st))
            \<and> sd_required_tools s = []
            \<and> (\<forall>c \<in> set (sd_required_capabilities s). (ln_authority ln = [] \<or> c \<in> set (ln_authority ln))
                \<and> (\<forall>(inp, r) \<in> set runs. c \<in> set (required_capabilities (xi_task inp))))))"
proof -
  have ok: "store_ok sha ln history st" by (rule store_trace_ok [OF assms(2) new_learner_bounds [OF assms(1)]])
  show ?thesis
  proof (intro conjI ballI)
    show "int (length (xs_records st)) \<le> lp_max_records (ln_policy ln)" "distinct (map sd_id (xs_promoted st))"
      using ok by (simp_all add: store_ok_def)
    fix s assume "s \<in> set (xs_promoted st)"
    then obtain c where c: "earned sha ln history (xs_approvals st) c" "normalize_skill_definition sha (skill_json (sc_skill c)) = Inr s"
      using ok by (auto simp: store_ok_def)
    then show "lp_promote (ln_policy ln) \<noteq> PromoteDisabled" by (auto simp: earned_def)
    from c(1) obtain key runs ls where e: "subseq runs history" "list_all (clean_run sha key) runs" "lesson_from_useful (map snd runs) = Some ls"
      "sc_skill c = draft_skill ls (ln_authority ln)" "lp_min_usefulness (ln_policy ln) \<le> int (ls_usefulness ls)"
      "lp_promote (ln_policy ln) = AutoApproved \<or> ls_id ls \<in> set (xs_approvals st)"
      unfolding earned_def lesson_ok_def by blast
    note d = draft_of_clean_runs [OF e(2,3) c(2) [unfolded e(4)]]
    show "\<exists>key runs ls. subseq runs history \<and> list_all (clean_run sha key) runs  \<and> lp_min_usefulness (ln_policy ln) \<le> int (length runs) \<and> lesson_from_useful (map snd runs) = Some ls  \<and> normalize_skill_definition sha (skill_json (draft_skill ls (ln_authority ln))) = Inr s  \<and> (lp_promote (ln_policy ln) = AutoApproved \<or> ls_id ls \<in> set (xs_approvals st))  \<and> sd_required_tools s = []  \<and> (\<forall>c \<in> set (sd_required_capabilities s). (ln_authority ln = [] \<or> c \<in> set (ln_authority ln))      \<and> (\<forall>(inp, r) \<in> set runs. c \<in> set (required_capabilities (xi_task inp))))"
      by (intro exI [of _ key] exI [of _ runs] exI [of _ ls] conjI e(1-3,6) e(5) [unfolded d(1)] c(2) [unfolded e(4)] d(2,3))
  qed
qed

section \<open>A concrete history\<close>

definition demo_experience_policy :: experience_policy where
  "demo_experience_policy = \<lparr>xp_enabled = Some True, xp_promote = Some AutoApproved, xp_min_usefulness = Some (Whole 1),
     xp_publish = JUndef, xp_max_records = Some (Whole 2)\<rparr>"

definition demo_learner :: "unit learner" where
  "demo_learner = \<lparr>ln_policy = \<lparr>lp_enabled = True, lp_promote = AutoApproved, lp_min_usefulness = 1, lp_max_records = 2\<rparr>,
     ln_remember = None, ln_authority = []\<rparr>"

definition demo_finished :: experience_input where
  "demo_finished = \<lparr>xi_run_id = ''r'', xi_task = judged_task, xi_status = Succeeded, xi_output = JStr ''done'', xi_matched = [''done''],
     xi_violations = [], xi_skill_ids = [], xi_evidence_ids = [], xi_dependency_root = ''root'', xi_labels = []\<rparr>"

lemma demo_learner_new: "new_learner (Some demo_experience_policy) None None MemoryOther = Inr demo_learner"
  by (simp add: new_learner_def normalize_experience_policy_def demo_experience_policy_def demo_learner_def or_num_def
      at_least_one_def is_safe_integer_def max_safe_integer_def)

lemma demo_draft_valid:
  assumes "ls_pattern_key ls = ''experience-pattern:'' @ some_digest" "ls_objective ls = ''tax'' " "ls_success_criteria ls = [''done'']"
  shows "valid_skill (draft_skill ls [])"
proof -
  have "is_identifier (''learned/'' @ take 16 (strip_label (''experience-pattern:'' @ some_digest)))"
    "is_identifier ''local-experience''" "js_trim ''1.0.0'' = ''1.0.0''" "js_trim ''Learned local pattern'' = ''Learned local pattern''"
    "js_trim (''Verified local pattern. Objective: '' @ ''tax'' @ ''. Success criteria: ''
        @ js_join ''; '' [''done''] @ ''. Repeat the successful approach. Do not perform prohibited actions.'') \<noteq> []"
    by code_simp+
  with assms show ?thesis by (simp add: valid_skill_def draft_skill_def)
qed

lemma demo_promoted:
  "\<exists>st s. store_trace const_sha demo_learner [(demo_finished, new_record const_sha demo_finished new_store)] st \<and> s \<in> set (xs_promoted st)"
proof -
  define r where "r = new_record const_sha demo_finished new_store"
  have r: "xr_useful r" "xr_pattern_key r = ''experience-pattern:'' @ some_digest" "xr_objective r = ''tax''"
    "xr_success_criteria r = [''done'']"
    by (simp_all add: r_def new_record_def Let_def demo_finished_def judged_task_def is_useful_experience_def pattern_key_def
        digest_root_def sha256_hex_def const_sha_def pattern_label_def)
  obtain ls where ls: "lesson_from_useful [r] = Some ls" "ls_pattern_key ls = xr_pattern_key r" "ls_objective ls = xr_objective r"
    "ls_success_criteria ls = xr_success_criteria r" "ls_usefulness ls = 1" "ls_run_ids ls \<noteq> []"
    using r(1) by (simp add: lesson_from_useful_def)
  have v: "valid_skill (draft_skill ls [])" by (rule demo_draft_valid) (simp_all add: ls r)
  have "sd_content_hash (draft_skill ls []) = None" by (simp add: draft_skill_def)
  then obtain s where s: "normalize_skill_definition const_sha (skill_json (draft_skill ls [])) = Inr s"
    by (simp add: normalize_skill_definition_def validate_skill_json [OF v] Let_def)
  have kept: "keep_record (ln_policy demo_learner) r [] = [r]" by (simp add: keep_record_def demo_learner_def)
  obtain res st w where run: "record_experience const_sha demo_learner demo_finished new_store () = (res, st, w)"
    using prod_cases3 by blast
  have "ln_authority demo_learner = []" "lp_promote (ln_policy demo_learner) = AutoApproved" "lp_enabled (ln_policy demo_learner)"
    "ln_remember demo_learner = None" "lp_min_usefulness (ln_policy demo_learner) = 1" "xs_records new_store = []"
    "xs_candidates new_store = []" "xs_lessons new_store = []" "xs_promoted new_store = []"
    by (simp_all add: demo_learner_def new_store_def)
  note learner = this
  have "xs_promoted st = [s]"
    using run r ls
    by (auto simp: record_experience_def learner r_def [symmetric] kept learn_from_def Let_def sync_candidate_def draft_candidate_def
        new_candidate_def sync_gates_def evaluate_gates_def gates_pass_def promote_skill_def s map_put_def split: prod.splits)
  moreover have "store_trace const_sha demo_learner [(demo_finished, new_record const_sha demo_finished new_store)] st"
    using trace_record [OF trace_new run] learner by simp
  ultimately show ?thesis by (intro exI [of _ st] exI [of _ s]) simp
qed

theorem promoted_skills_earned_witness:
  "\<exists>st s. store_trace const_sha demo_learner [(demo_finished, new_record const_sha demo_finished new_store)] st
     \<and> s \<in> set (xs_promoted st) \<and> sd_required_tools s = []"
proof -
  obtain st s where "store_trace const_sha demo_learner [(demo_finished, new_record const_sha demo_finished new_store)] st"
    "s \<in> set (xs_promoted st)" using demo_promoted by blast
  with promoted_skills_earned [OF demo_learner_new this(1)] show ?thesis by blast
qed

text \<open>
  Once the store is full, the sequence number, and with it the id of a further record of the same
  run id, no longer grows.
\<close>

lemma full_store_repeats_ids:
  assumes "length (xs_records st) = nat (lp_max_records policy)" "0 < lp_max_records policy"
    and "st' = st\<lparr>xs_records := keep_record policy (new_record sha inp st) (xs_records st)\<rparr>"
  shows "xr_id (new_record sha inp st') = xr_id (new_record sha inp st)" "xr_sequence (new_record sha inp st') = xr_sequence (new_record sha inp st)"
proof -
  have "length (xs_records st') = length (xs_records st)" using assms by (simp add: keep_record_def Let_def)
  then show "xr_id (new_record sha inp st') = xr_id (new_record sha inp st)" "xr_sequence (new_record sha inp st') = xr_sequence (new_record sha inp st)"
    by (simp_all add: new_record_def Let_def)
qed

text \<open>An approval is looked up by the id of the lesson: the id of a candidate finds nothing.\<close>

lemma approve_needs_lesson_id:
  assumes "new_learner experience remember authority memory = Inr ln" "store_reachable sha ln st"
    and "i \<notin> ls_id ` snd ` set (xs_lessons st)"
  shows "fst (approve_lesson sha ln i st) = Inr None"
proof -
  obtain h where ok: "store_ok sha ln h st" by (rule store_reachable_ok [OF assms(2) new_learner_bounds [OF assms(1)]])
  have "find (\<lambda>l. ls_id l = i) (map snd (xs_lessons st)) = None"
    using assms(3) by (force simp: find_None_iff)
  moreover have "map_of (xs_candidates st) i = None"
    using ok assms(3) by (auto simp: store_ok_def map_of_eq_None_iff)
  ultimately show ?thesis by (simp add: approve_lesson_def Let_def)
qed

end
