(* ===== verification/Pack_Codec.thy ===== *)
theory Pack_Codec
  imports Capability_Index Graph_Engine
begin

text \<open>
  Reading a capability pack from bytes (\<open>decodeCapabilityPack\<close>, \<open>tryJsonPack\<close> and
  \<open>stamp\<close> of \<open>skills/publish.ts\<close>, \<open>mount\<close> and \<open>objects\<close> of
  \<open>core-v5/knowledge.ts\<close>). \<open>TextDecoder\<close>, \<open>JSON.parse\<close> and the image functions of
  \<open>@knolo/core\<close> are the fields of the record \<open>pack_host\<close>.
\<close>

record image_object =
  io_id :: string
  io_kind :: string
  io_bytes :: "nat list"

record knowledge_handle =
  kh_state_root :: string
  kh_bytes :: "nat list"
  kh_objects :: "image_object list"

record pack_host =
  ph_decode :: "nat list \<Rightarrow> string"
  ph_parse :: "string \<Rightarrow> jsval option"
  ph_verify_image :: "nat list \<Rightarrow> string result"
  ph_mount_image :: "nat list \<Rightarrow> image_object list result"
  ph_create_image :: "string \<Rightarrow> (string \<times> nat list \<times> jsval) list \<Rightarrow> nat list result"

definition mount :: "pack_host \<Rightarrow> nat list \<Rightarrow> knowledge_handle result" where
  "mount host bytes =
     bind_res (ph_verify_image host bytes) (\<lambda>root.
     bind_res (ph_mount_image host bytes) (\<lambda>objects.
     Inr \<lparr>kh_state_root = root, kh_bytes = bytes, kh_objects = objects\<rparr>))"

definition create_image :: "pack_host \<Rightarrow> (string \<times> nat list \<times> jsval) list \<Rightarrow> string \<Rightarrow> knowledge_handle result" where
  "create_image host objects actor = bind_res (ph_create_image host actor objects) (mount host)"

text \<open>\<open>compress\<close>: the core transcodes the bytes, and the result is verified and mounted like any image.\<close>

record compress_options =
  co_mode :: "string option"
  co_objects :: "bool option"
  co_events :: "bool option"
  co_index :: "bool option"

definition compress_image :: "(nat list \<Rightarrow> compress_options \<Rightarrow> nat list result) \<Rightarrow> pack_host \<Rightarrow> nat list \<Rightarrow> compress_options option
    \<Rightarrow> knowledge_handle result" where
  "compress_image compress host bytes opts =
     bind_res (compress bytes (given_or \<lparr>co_mode = None, co_objects = None, co_events = None, co_index = None\<rparr> opts)) (mount host)"

text \<open>The objects of an image as kind and text.\<close>

definition image_objects :: "pack_host \<Rightarrow> knowledge_handle \<Rightarrow> (string \<times> string) list" where
  "image_objects host handle = map (\<lambda>ob. (io_kind ob, ph_decode host (io_bytes ob))) (kh_objects handle)"

definition try_json_pack :: "pack_host \<Rightarrow> nat list \<Rightarrow> jsval option" where
  "try_json_pack host bytes =
     (let text = js_trim (ph_decode host bytes) in
      if js_starts_with text ''{'' then ph_parse host text else None)"

text \<open>\<open>{ ...json, id: packId }\<close> when the pack names no id of its own.\<close>

definition with_pack_id :: "string option \<Rightarrow> jsval \<Rightarrow> jsval" where
  "with_pack_id pack_id v =
     (case nonempty_string pack_id of
        None \<Rightarrow> v
      | Some p \<Rightarrow> if js_truthy (js_get (members_of v) ''id'') then v else JObj (map_put ''id'' (JStr p) (own_entries v)))"

definition stamp_skill :: "string \<Rightarrow> string option \<Rightarrow> jsval \<Rightarrow> jsval result" where
  "stamp_skill pack_id digest v =
     (if v = JUndef \<or> v = JNull then Inl (TypeError ''Cannot read properties of null (reading provenance)'')
      else Inr (JObj (map_put ''provenance''
        (nullish_or (js_get (members_of v) ''provenance'')
          (JObj ([(''source'', JStr ''local-pack''), (''packId'', JStr pack_id)] @ string_member ''digest'' (nonempty_string digest))))
        (own_entries v))))"

definition stamp :: "string option \<Rightarrow> capability_metadata \<Rightarrow> capability_metadata result" where
  "stamp digest m =
     (if cm_skills m = [] then harness_fail ''capability pack contains no skills''
      else bind_res (map_res (stamp_skill (cm_pack_id m) digest) (cm_skills m)) (\<lambda>skills.
        Inr (m\<lparr>cm_skills := skills,
               cm_digest := (case nonempty_string digest of
                   Some d \<Rightarrow> (case cm_digest m of Some e \<Rightarrow> Some e | None \<Rightarrow> Some d)
                 | None \<Rightarrow> cm_digest m)\<rparr>)))"

definition read_pack :: "string option \<Rightarrow> string option \<Rightarrow> jsval \<Rightarrow> capability_metadata result" where
  "read_pack pack_id digest json =
     (if json = JNull \<and> nonempty_string pack_id \<noteq> None then Inl (TypeError ''Cannot read properties of null (reading id)'')
      else bind_res (capability_metadata_from_pack (with_pack_id pack_id json)) (stamp digest))"

definition pack_object :: "(string \<times> string) list \<Rightarrow> string result" where
  "pack_object objects =
     (case find (\<lambda>ob. fst ob = ''knolo.pack'') objects of
        Some ob \<Rightarrow> Inr (snd ob)
      | None \<Rightarrow> (case find (\<lambda>ob. fst ob = ''metadata'') objects of
            Some ob \<Rightarrow> Inr (snd ob) | None \<Rightarrow> harness_fail ''capability pack image has no knolo.pack object''))"

definition decode_capability_pack :: "pack_host \<Rightarrow> nat list \<Rightarrow> string option \<Rightarrow> string option \<Rightarrow> capability_metadata result" where
  "decode_capability_pack host bytes pack_id digest =
     (case try_json_pack host bytes of
        Some json \<Rightarrow> read_pack pack_id digest json
      | None \<Rightarrow>
          bind_res (mount host bytes) (\<lambda>handle.
          bind_res (pack_object (image_objects host handle)) (\<lambda>text.
          case ph_parse host text of
            None \<Rightarrow> Inl (PlainError ''SyntaxError'')
          | Some json \<Rightarrow> read_pack pack_id (case digest of Some d \<Rightarrow> Some d | None \<Rightarrow> Some (kh_state_root handle)) json)))"

section \<open>What a decoded pack is\<close>

lemma nullish_or_neq: "b \<noteq> JUndef \<Longrightarrow> b \<noteq> JNull \<Longrightarrow> nullish_or a b \<noteq> JUndef \<and> nullish_or a b \<noteq> JNull"
  by (simp add: nullish_or_def)

lemma stamp_skill_object: "stamp_skill p d v = Inr w \<Longrightarrow> \<exists>es. w = JObj es \<and> js_get es ''provenance'' \<noteq> JUndef"
  by (auto simp: stamp_skill_def js_get_def map_of_map_put nullish_or_neq split: if_splits)

lemma stamp_Inr:
  assumes "stamp digest m = Inr n"
  shows "cm_skills n \<noteq> [] \<and> cm_pack_id n = cm_pack_id m \<and> (\<forall>v \<in> set (cm_skills n). \<exists>es. v = JObj es \<and> js_get es ''provenance'' \<noteq> JUndef)"
proof -
  from assms obtain skills where s: "cm_skills m \<noteq> []" "map_res (stamp_skill (cm_pack_id m) digest) (cm_skills m) = Inr skills"
    "cm_skills n = skills" "cm_pack_id n = cm_pack_id m"
    by (auto simp: stamp_def bind_res_eq_Inr split: if_splits)
  have "\<exists>es. v = JObj es \<and> js_get es ''provenance'' \<noteq> JUndef" if "v \<in> set skills" for v
    using s(2) that unfolding map_res_Inr_iff
    by (induction rule: list_all2_induct) (auto dest: stamp_skill_object)
  moreover have "skills \<noteq> []" using s(1,2) by (auto simp: map_res_Inr_iff)
  ultimately show ?thesis using s by simp
qed

text \<open>Whatever the bytes hold, a pack that decodes has skills, all of them objects with a provenance.\<close>

lemma decoded_skills:
  assumes "decode_capability_pack host bytes pack_id digest = Inr m"
  shows "cm_skills m \<noteq> [] \<and> (\<forall>v \<in> set (cm_skills m). \<exists>es. v = JObj es \<and> js_get es ''provenance'' \<noteq> JUndef)"
proof -
  from assms obtain p d json where "read_pack p d json = Inr m"
    by (auto simp: decode_capability_pack_def bind_res_eq_Inr split: option.splits)
  then obtain d n where "stamp d n = Inr m" by (auto simp: read_pack_def bind_res_eq_Inr split: if_splits)
  from stamp_Inr [OF this] show ?thesis by blast
qed

end
