(* ===== verification/Dependency_Activation.thy ===== *)
theory Dependency_Activation
  imports Pack_Registry
begin

text \<open>
  The dependency set of a run (\<open>dependencies/activation.ts\<close>): packs are added to the active
  set, the set is frozen into a root for the run, later packs are staged and take part only after
  \<open>activateStaged\<close>. \<open>freeze\<close> is asynchronous: it computes the payload at the call and
  installs the root when the digest arrives, so it is modelled as two operations,
  \<open>FreezeStart\<close> and \<open>FreezeEnd\<close>, between which others may run; the digests in flight
  are kept in \<open>da_pending\<close>. \<open>freezeAwareRegistry\<close> wraps any registry that satisfies the
  \<open>verified_registry\<close> contract.
\<close>

section \<open>The activation state\<close>

record activation =
  da_active :: "pack_dependency list"
  da_staged :: "pack_dependency list"
  da_frozen :: "dependency_root option"
  da_pending :: "dependency_root list"

type_synonym codec = "(jsval \<Rightarrow> nat list result) option"

definition new_activation :: activation where
  "new_activation = \<lparr>da_active = [], da_staged = [], da_frozen = None, da_pending = []\<rparr>"

definition frozen_error :: "'a result" where
  "frozen_error = harness_fail ''dependency set is frozen for this run; stage packs for the next run''"

definition merge_normalized :: "locale_compare \<Rightarrow> pack_dependency list \<Rightarrow> pack_dependency \<Rightarrow> pack_dependency list result" where
  "merge_normalized lc base d =
     bind_res (normalize_pack_dependency d) (\<lambda>n. merge_pack_dependencies lc base [n])"

definition activation_add :: "locale_compare \<Rightarrow> pack_dependency \<Rightarrow> activation \<Rightarrow> unit result \<times> activation" where
  "activation_add lc d s =
     (if da_frozen s \<noteq> None then (frozen_error, s)
      else case merge_normalized lc (da_active s) d of
          Inl e \<Rightarrow> (Inl e, s)
        | Inr ds \<Rightarrow> (Inr (), s\<lparr>da_active := ds\<rparr>))"

definition replace_active :: "locale_compare \<Rightarrow> pack_dependency list \<Rightarrow> activation \<Rightarrow> unit result \<times> activation" where
  "replace_active lc deps s =
     (if da_frozen s \<noteq> None then (frozen_error, s)
      else case merge_pack_dependencies lc [] deps of
          Inl e \<Rightarrow> (Inl e, s)
        | Inr ds \<Rightarrow> (Inr (), s\<lparr>da_active := ds\<rparr>))"

definition activation_stage :: "locale_compare \<Rightarrow> pack_dependency \<Rightarrow> activation \<Rightarrow> unit result \<times> activation" where
  "activation_stage lc d s =
     (case merge_normalized lc (da_staged s) d of
        Inl e \<Rightarrow> (Inl e, s)
      | Inr ds \<Rightarrow> (Inr (), s\<lparr>da_staged := ds\<rparr>))"

definition activate_staged :: "locale_compare \<Rightarrow> activation \<Rightarrow> unit result \<times> activation" where
  "activate_staged lc s =
     (let s' = s\<lparr>da_frozen := None\<rparr> in
      case merge_pack_dependencies lc (da_active s') (da_staged s') of
        Inl e \<Rightarrow> (Inl e, s')
      | Inr ds \<Rightarrow> (Inr (), s'\<lparr>da_active := ds, da_staged := []\<rparr>))"

text \<open>The synchronous part of \<open>freeze\<close>, up to the \<open>await\<close>, and its continuation.\<close>

definition freeze_start :: "locale_compare \<Rightarrow> sha256 \<Rightarrow> codec \<Rightarrow> activation \<Rightarrow> unit result \<times> activation" where
  "freeze_start lc sha codec s =
     (case da_frozen s of
        Some r \<Rightarrow> (Inr (), s)
      | None \<Rightarrow>
          (case compute_dependency_root lc sha codec (da_active s) of
             Inl e \<Rightarrow> (Inl e, s)
           | Inr r \<Rightarrow> (Inr (), s\<lparr>da_pending := da_pending s @ [r]\<rparr>)))"

definition freeze_end :: "nat \<Rightarrow> activation \<Rightarrow> unit result \<times> activation" where
  "freeze_end i s =
     (if i < length (da_pending s)
      then let r = da_pending s ! i in
        (Inr (), s\<lparr>da_frozen := Some r, da_active := dr_dependencies r,
           da_pending := take i (da_pending s) @ drop (Suc i) (da_pending s)\<rparr>)
      else (Inr (), s))"

text \<open>A \<open>freeze\<close> that is awaited before anything else runs.\<close>

definition freeze :: "locale_compare \<Rightarrow> sha256 \<Rightarrow> codec \<Rightarrow> activation \<Rightarrow> dependency_root result \<times> activation" where
  "freeze lc sha codec s =
     (case da_frozen s of
        Some r \<Rightarrow> (Inr r, s)
      | None \<Rightarrow>
          (case compute_dependency_root lc sha codec (da_active s) of
             Inl e \<Rightarrow> (Inl e, s)
           | Inr r \<Rightarrow> (Inr r, s\<lparr>da_frozen := Some r, da_active := dr_dependencies r\<rparr>)))"

datatype activation_op =
    Add pack_dependency
  | ReplaceActive "pack_dependency list"
  | Stage pack_dependency
  | ActivateStaged
  | FreezeStart
  | FreezeEnd nat

fun activation_apply :: "locale_compare \<Rightarrow> sha256 \<Rightarrow> codec \<Rightarrow> activation_op \<Rightarrow> activation \<Rightarrow> unit result \<times> activation" where
  "activation_apply lc sha codec (Add d) s = activation_add lc d s"
| "activation_apply lc sha codec (ReplaceActive ds) s = replace_active lc ds s"
| "activation_apply lc sha codec (Stage d) s = activation_stage lc d s"
| "activation_apply lc sha codec ActivateStaged s = activate_staged lc s"
| "activation_apply lc sha codec FreezeStart s = freeze_start lc sha codec s"
| "activation_apply lc sha codec (FreezeEnd i) s = freeze_end i s"

fun activation_run :: "locale_compare \<Rightarrow> sha256 \<Rightarrow> codec \<Rightarrow> activation_op list \<Rightarrow> activation \<Rightarrow> activation" where
  "activation_run lc sha codec [] s = s"
| "activation_run lc sha codec (x # xs) s = activation_run lc sha codec xs (snd (activation_apply lc sha codec x s))"

lemma freeze_awaited:
  assumes "da_frozen s = None" "da_pending s = []" "freeze lc sha codec s = (Inr r, s')"
  shows "s' = activation_run lc sha codec [FreezeStart, FreezeEnd 0] s"
  using assms by (auto simp: freeze_def freeze_start_def freeze_end_def split: sum.splits)

section \<open>The registry that records what it pulls\<close>

definition pack_dependency_from_manifest :: "pack_manifest \<Rightarrow> string \<Rightarrow> pack_dependency result" where
  "pack_dependency_from_manifest m role =
     normalize_pack_dependency \<lparr>pd_name = pm_name m, pd_version = pm_version m, pd_sha256 = pm_sha256 m,
       pd_state_root = nonempty_string (pm_state_root m), pd_role = role\<rparr>"

definition record_pull :: "locale_compare \<Rightarrow> string \<Rightarrow> pack_manifest \<Rightarrow> activation \<Rightarrow> unit result \<times> activation" where
  "record_pull lc role m s =
     (case pack_dependency_from_manifest m role of
        Inl e \<Rightarrow> (Inl e, s)
      | Inr d \<Rightarrow> if da_frozen s \<noteq> None then activation_stage lc d s else activation_add lc d s)"

definition freeze_aware_pull ::
  "locale_compare \<Rightarrow> ('r \<Rightarrow> pull_input \<Rightarrow> pack_bytes result \<times> 'r) \<Rightarrow> string \<Rightarrow> pull_input \<Rightarrow> 'r \<times> activation
     \<Rightarrow> pack_bytes result \<times> 'r \<times> activation" where
  "freeze_aware_pull lc pull role i rs =
     (case pull (fst rs) i of
        (Inl e, r') \<Rightarrow> (Inl e, r', snd rs)
      | (Inr result, r') \<Rightarrow>
          (case record_pull lc role (fst result) (snd rs) of
             (Inl e, s') \<Rightarrow> (Inl e, r', s')
           | (Inr _, s') \<Rightarrow> (Inr result, r', s')))"

section \<open>Invariant\<close>

definition one_per_key :: "pack_dependency list \<Rightarrow> bool" where
  "one_per_key ds \<longleftrightarrow> list_all normal ds \<and> distinct (map dependency_key ds)"

lemma merge_one_per_key: "merge_pack_dependencies lc base extra = Inr ds \<Longrightarrow> one_per_key ds"
  using merge_distinct sort_pack_dependencies_Inr(1)
  by (fastforce simp: one_per_key_def merge_pack_dependencies_def bind_res_eq_Inr)

lemma merge_normal_total:
  assumes "list_all normal base" "list_all normal extra"
  obtains ds where "merge_pack_dependencies lc base extra = Inr ds"
proof -
  have ns: "map_res normalize_pack_dependency (base @ extra) = Inr (base @ extra)"
    using assms by (intro normal_list) simp
  have "list_all normal (map snd (merge_into (base @ extra) []))"
  proof (unfold list_all_iff, intro ballI)
    fix d assume "d \<in> set (map snd (merge_into (base @ extra) []))"
    then obtain k where "map_of (merge_into (base @ extra) []) k = Some d"
      using merge_into_invariant [of "[]" "base @ extra"] by auto
    then show "normal d"
      using assms by (auto simp: map_of_merge_into list_all_iff split: option.splits dest!: find_in_set)
  qed
  then have "sort_pack_dependencies lc (map snd (merge_into (base @ extra) []))
      = Inr (js_sort (compare_dependency lc) (map snd (merge_into (base @ extra) [])))"
    by (simp only: sort_pack_dependencies_def normal_list bind_res_simps)
  with that show ?thesis by (simp only: merge_pack_dependencies_def ns bind_res_simps)
qed

lemma sort_sorted_dependencies:
  assumes "comparator lc" "sort_pack_dependencies lc ds = Inr es"
  shows "sort_pack_dependencies lc es = Inr es"
  using sort_pack_dependencies_Inr [OF assms(2)] comparator.js_sort_idem [OF comparator_dependency [OF assms(1)]]
  by (auto simp: sort_pack_dependencies_def)

lemma root_of_its_dependencies:
  assumes "comparator lc" "compute_dependency_root lc sha codec ds = Inr r"
  shows "compute_dependency_root lc sha codec (dr_dependencies r) = Inr r"
proof -
  from assms(2) have s: "sort_pack_dependencies lc ds = Inr (dr_dependencies r)"
    by (auto simp: compute_dependency_root_def bind_res_eq_Inr)
  with assms(2) sort_sorted_dependencies [OF assms(1) s] show ?thesis
    by (simp add: compute_dependency_root_def)
qed

lemma root_one_per_key:
  assumes "compute_dependency_root lc sha codec ds = Inr r" "one_per_key ds"
  shows "one_per_key (dr_dependencies r)"
proof -
  from assms(1) have s: "sort_pack_dependencies lc ds = Inr (dr_dependencies r)"
    by (auto simp: compute_dependency_root_def bind_res_eq_Inr)
  from sort_pack_dependencies_Inr(1,2) [OF s] assms(2) show ?thesis
    by (metis mset_eq_imp_distinct_iff one_per_key_def)
qed

definition root_ok :: "locale_compare \<Rightarrow> sha256 \<Rightarrow> codec \<Rightarrow> dependency_root \<Rightarrow> bool" where
  "root_ok lc sha codec r \<longleftrightarrow>
     one_per_key (dr_dependencies r) \<and> compute_dependency_root lc sha codec (dr_dependencies r) = Inr r"

definition activation_ok :: "locale_compare \<Rightarrow> sha256 \<Rightarrow> codec \<Rightarrow> activation \<Rightarrow> bool" where
  "activation_ok lc sha codec s \<longleftrightarrow>
     one_per_key (da_active s) \<and> one_per_key (da_staged s)
     \<and> (\<forall>r \<in> set (da_pending s). root_ok lc sha codec r)
     \<and> (\<forall>r. da_frozen s = Some r \<longrightarrow> root_ok lc sha codec r \<and> da_active s = dr_dependencies r)"

lemma new_activation_ok: "activation_ok lc sha codec new_activation"
  by (simp add: activation_ok_def new_activation_def one_per_key_def)

lemma merge_normalized_one_per_key: "merge_normalized lc base d = Inr ds \<Longrightarrow> one_per_key ds"
  by (auto simp: merge_normalized_def bind_res_eq_Inr merge_one_per_key)

lemma activation_apply_ok:
  assumes "comparator lc" "activation_ok lc sha codec s"
  shows "activation_ok lc sha codec (snd (activation_apply lc sha codec x s))"
proof (cases x)
  case (Add d)
  with assms(2) show ?thesis
    by (auto simp: activation_add_def activation_ok_def merge_normalized_one_per_key split: sum.splits)
next
  case (ReplaceActive ds)
  with assms(2) show ?thesis
    by (auto simp: replace_active_def activation_ok_def merge_one_per_key split: sum.splits)
next
  case (Stage d)
  with assms(2) show ?thesis
    by (auto simp: activation_stage_def activation_ok_def merge_normalized_one_per_key split: sum.splits)
next
  case ActivateStaged
  with assms(2) show ?thesis
    by (auto simp: activate_staged_def activation_ok_def Let_def merge_one_per_key one_per_key_def [of "[]"] split: sum.splits)
next
  case FreezeStart
  with assms show ?thesis
    by (auto simp: freeze_start_def activation_ok_def root_ok_def root_of_its_dependencies root_one_per_key
        split: sum.splits option.splits)
next
  case (FreezeEnd i)
  with assms(2) show ?thesis
    by (auto simp: freeze_end_def activation_ok_def Let_def root_ok_def dest: in_set_takeD in_set_dropD)
qed

lemma activation_run_ok:
  "comparator lc \<Longrightarrow> activation_ok lc sha codec s \<Longrightarrow> activation_ok lc sha codec (activation_run lc sha codec xs s)"
  by (induction xs arbitrary: s) (simp_all add: activation_apply_ok)

lemma frozen_step:
  assumes "da_frozen s = Some r" "x \<noteq> ActivateStaged" "da_pending s = [] \<or> (\<forall>i. x \<noteq> FreezeEnd i)"
  shows "let s' = snd (activation_apply lc sha codec x s) in
    da_frozen s' = Some r \<and> da_pending s' = da_pending s \<and> da_active s' = da_active s"
  using assms
  by (cases x) (auto simp: activation_add_def replace_active_def activation_stage_def freeze_start_def freeze_end_def Let_def
      split: sum.splits)

lemma merge_normalized_member:
  assumes "merge_normalized lc base d = Inr ds" "normalize_pack_dependency d = Inr n"
  shows "n \<in> set ds"
proof -
  have n: "normal n" using normalize_Inr [OF assms(2)] by (rule conjunct1)
  from assms have m: "merge_pack_dependencies lc base [n] = Inr ds" by (simp add: merge_normalized_def)
  then obtain ns where ns: "map_res normalize_pack_dependency (base @ [n]) = Inr ns"
    by (auto simp: merge_pack_dependencies_def bind_res_eq_Inr)
  then have "list_all2 (\<lambda>x y. normalize_pack_dependency x = Inr y) (base @ [n]) ns" by (simp add: map_res_Inr_iff)
  then obtain ms where "ns = ms @ [n]" using n by (auto simp: list_all2_append1 list_all2_Cons1 normal_def)
  then show ?thesis using merge_members [OF m ns, of n] by simp
qed

section \<open>Properties\<close>

text \<open>
  C17. In every state a \<open>DependencyActivation\<close> can reach, whatever operations are interleaved
  with the freezes in flight, the active and staged sets hold valid dependencies with one entry per
  role and name, and a frozen root is the root of the active set, which is the set the root lists.
\<close>

theorem frozen_root_of_active:
  assumes "comparator lc" "s = activation_run lc sha codec ops new_activation"
  shows "one_per_key (da_active s) \<and> one_per_key (da_staged s)
    \<and> (\<forall>r. da_frozen s = Some r \<longrightarrow> compute_dependency_root lc sha codec (da_active s) = Inr r \<and> dr_dependencies r = da_active s)"
  using activation_run_ok [OF assms(1) new_activation_ok, of sha codec ops] assms(2)
  by (auto simp: activation_ok_def root_ok_def)

text \<open>
  C18. Once frozen, a dependency set stays as it is until \<open>activateStaged\<close>, unless another
  \<open>freeze\<close> that was in flight at that moment completes: no sequence of the other operations,
  further calls of \<open>freeze\<close> included, changes the root or the active set. A \<open>freeze\<close> that
  overlaps does change both, see \<open>overlapping_freeze_replaces\<close>.
\<close>

theorem frozen_set_stable:
  assumes "da_frozen s = Some r" "ActivateStaged \<notin> set ops" "da_pending s = [] \<or> (\<forall>i. FreezeEnd i \<notin> set ops)"
  shows "da_frozen (activation_run lc sha codec ops s) = Some r
    \<and> da_active (activation_run lc sha codec ops s) = da_active s"
  using assms
proof (induction ops arbitrary: s)
  case (Cons x xs)
  let ?s = "snd (activation_apply lc sha codec x s)"
  have "da_frozen ?s = Some r" "da_pending ?s = da_pending s" "da_active ?s = da_active s"
    using frozen_step [of s r x lc sha codec] Cons.prems by (auto simp: Let_def)
  with Cons.IH [of ?s] Cons.prems(2,3) show ?case by auto
qed simp

text \<open>
  What was staged takes part after \<open>activateStaged\<close>, which does not fail in a reachable state
  and lifts the freeze.
\<close>

lemma find_append_Some: "find P xs = Some x \<Longrightarrow> find P (xs @ ys) = Some x"
  by (induction xs) (auto split: if_splits)

lemma staged_becomes_active:
  assumes "activation_ok lc sha codec s" "activation_stage lc d s = (Inr (), s1)" "normalize_pack_dependency d = Inr n"
  shows "\<exists>s2. activate_staged lc s1 = (Inr (), s2) \<and> n \<in> set (da_active s2) \<and> da_staged s2 = [] \<and> da_frozen s2 = None"
proof -
  from assms(2) obtain ds where ds: "merge_normalized lc (da_staged s) d = Inr ds" "s1 = s\<lparr>da_staged := ds\<rparr>"
    by (auto simp: activation_stage_def split: sum.splits)
  have ok: "one_per_key ds" "one_per_key (da_active s)"
    using merge_normalized_one_per_key [OF ds(1)] assms(1) by (simp_all add: activation_ok_def)
  then have normal: "list_all normal (da_active s)" "list_all normal ds" by (simp_all add: one_per_key_def)
  obtain es where es: "merge_pack_dependencies lc (da_active s) ds = Inr es"
    using merge_normal_total [OF normal] by blast
  have "find (\<lambda>e. dependency_key e = dependency_key n) (rev ds) = Some n"
    using merge_normalized_member [OF ds(1) assms(3)] ok(1)
    by (intro find_unique) (auto simp: one_per_key_def distinct_map dest: inj_onD)
  then have "n \<in> set es"
    using merge_members [OF es normal_list, of n] normal by (simp add: find_append_Some)
  then show ?thesis by (simp add: activate_staged_def ds(2) es)
qed

text \<open>The pull of the wrapper, over any registry that keeps the contract of \<open>pull\<close>.\<close>

lemma record_pull_Inr:
  assumes "record_pull lc role m s = (Inr u, s')"
  shows "\<exists>d. pack_dependency_from_manifest m role = Inr d \<and> pd_sha256 d = pm_sha256 m \<and> da_frozen s' = da_frozen s
    \<and> (if da_frozen s = None then d \<in> set (da_active s') \<and> da_staged s' = da_staged s
       else d \<in> set (da_staged s') \<and> da_active s' = da_active s)"
proof -
  from assms obtain d where d: "pack_dependency_from_manifest m role = Inr d"
    by (auto simp: record_pull_def split: sum.splits)
  then have n: "normal d" "pd_sha256 d = pm_sha256 m"
    by (auto simp: pack_dependency_from_manifest_def dest!: normalize_Inr)
  then have "normalize_pack_dependency d = Inr d" by (simp add: normal_def)
  with assms d n show ?thesis
    by (auto simp: record_pull_def activation_stage_def activation_add_def frozen_error_def harness_fail_def
        split: sum.splits if_splits intro: merge_normalized_member)
qed

context verified_registry begin

lemma freeze_aware_verified:
  assumes "ok r" "freeze_aware_pull lc pull role i (r, s) = (Inr (m, bytes), r', s')"
  shows "sha bytes = pm_sha256 m \<and> valid_manifest m \<and> ok r' \<and> record_pull lc role m s = (Inr (), s')"
proof -
  from assms(2) have p: "pull r i = (Inr (m, bytes), r')" "record_pull lc role m s = (Inr (), s')"
    by (auto simp: freeze_aware_pull_def split: prod.splits sum.splits)
  with pull_digest [OF assms(1) p(1)] pull_manifest_valid [OF assms(1) p(1)] pull_ok [OF assms(1), of i] show ?thesis by simp
qed

end

text \<open>
  Over the memory registry, what the freeze-aware wrapper lets through is recorded: the pulled
  bytes have the digest of a dependency that entered the active set, when the set was not frozen,
  and otherwise the staged set, with the active set and the frozen root left as they were.
\<close>

theorem freeze_aware_pull_recorded:
  assumes "records_valid r" "freeze_aware_pull lc (registry_pull sha) role i (r, s) = (Inr (m, bytes), r', s')"
  shows "\<exists>d. pack_dependency_from_manifest m role = Inr d \<and> pd_sha256 d = sha bytes \<and> da_frozen s' = da_frozen s
    \<and> (if da_frozen s = None then d \<in> set (da_active s') \<and> da_staged s' = da_staged s
       else d \<in> set (da_staged s') \<and> da_active s' = da_active s)"
  using memory_registry.freeze_aware_verified [OF assms] record_pull_Inr [of lc role m s "()" s'] by metis

section \<open>Concrete runs\<close>

definition one_dependency :: pack_dependency where
  "one_dependency = demo_dependency ''a'' ''knowledge''"

lemma one_normal: "normalize_pack_dependency one_dependency = Inr one_dependency"
proof -
  have "js_trim ''a'' \<noteq> []" by code_simp
  then show ?thesis unfolding one_dependency_def by (intro demo_normal) (simp_all add: dependency_roles_def)
qed

lemma merge_one: "merge_normalized lc [] one_dependency = Inr [one_dependency]"
  by (simp add: merge_normalized_def merge_pack_dependencies_def one_normal map_put_def sort_pack_dependencies_def)

lemma root_with_unit_codec:
  "list_all normal ds \<Longrightarrow> \<exists>r. compute_dependency_root lc sha (Some unit_codec) ds = Inr r \<and> dr_dependencies r = js_sort (compare_dependency lc) ds"
  by (simp add: compute_dependency_root_def dependency_payload_def sort_pack_dependencies_def unit_codec_def)

text \<open>
  A pack added while a \<open>freeze\<close> is in flight is accepted and then lost: the root that arrives
  was computed before it, and its dependency list replaces the active set.
\<close>

lemma freeze_loses_add:
  "let apply = activation_apply lc sha (Some unit_codec);
       s1 = snd (apply FreezeStart new_activation);
       (answer, s2) = apply (Add one_dependency) s1;
       s3 = snd (apply (FreezeEnd 0) s2)
   in answer = Inr () \<and> da_active s2 = [one_dependency] \<and> da_frozen s3 \<noteq> None \<and> da_active s3 = []"
proof -
  obtain r where "compute_dependency_root lc sha (Some unit_codec) [] = Inr r" "dr_dependencies r = []"
    using root_with_unit_codec [of "[]" lc sha] by auto
  then show ?thesis
    by (simp add: Let_def freeze_start_def new_activation_def activation_add_def freeze_end_def merge_one)
qed

text \<open>
  Two freezes that overlap, with a pack added between their calls: the first completes and its run
  gets a root without the pack; then the second completes and replaces the frozen set.
\<close>

lemma overlapping_freeze_replaces:
  "let run = activation_run lc sha (Some unit_codec);
       s = run [FreezeStart, Add one_dependency, FreezeStart, FreezeEnd 0] new_activation;
       s' = run [FreezeEnd 0] s
   in da_frozen s \<noteq> None \<and> da_active s = [] \<and> da_frozen s' \<noteq> None \<and> da_active s' = [one_dependency]"
proof -
  obtain r where r: "compute_dependency_root lc sha (Some unit_codec) [] = Inr r" "dr_dependencies r = []"
    using root_with_unit_codec [of "[]" lc sha] by auto
  obtain q where q: "compute_dependency_root lc sha (Some unit_codec) [one_dependency] = Inr q" "dr_dependencies q = [one_dependency]"
    using root_with_unit_codec [of "[one_dependency]" lc sha] one_normal by (auto simp: normal_def)
  from r q show ?thesis
    by (simp add: Let_def freeze_start_def new_activation_def activation_add_def freeze_end_def merge_one)
qed

theorem frozen_root_of_active_witness:
  "\<exists>r. let s = activation_run code_unit_order (\<lambda>b. ''digest'') (Some unit_codec) [Add one_dependency, FreezeStart, FreezeEnd 0] new_activation in
     da_frozen s = Some r \<and> compute_dependency_root code_unit_order (\<lambda>b. ''digest'') (Some unit_codec) (da_active s) = Inr r
     \<and> dr_dependencies r = [one_dependency] \<and> da_active s = [one_dependency]"
proof -
  let ?s = "activation_run code_unit_order (\<lambda>b. ''digest'') (Some unit_codec) [Add one_dependency, FreezeStart, FreezeEnd 0] new_activation"
  obtain r where r: "compute_dependency_root code_unit_order (\<lambda>b. ''digest'') (Some unit_codec) [one_dependency] = Inr r"
    "dr_dependencies r = [one_dependency]"
    using root_with_unit_codec [of "[one_dependency]" code_unit_order "\<lambda>b. ''digest''"] one_normal by (auto simp: normal_def)
  have "da_frozen ?s = Some r" "da_active ?s = [one_dependency]"
    by (simp_all add: new_activation_def activation_add_def merge_one freeze_start_def freeze_end_def Let_def r)
  with frozen_root_of_active [OF code_unit.comparator_axioms refl, of "\<lambda>b. ''digest''" "Some unit_codec"
      "[Add one_dependency, FreezeStart, FreezeEnd 0]"] r show ?thesis by (auto simp: Let_def)
qed

theorem frozen_set_stable_witness:
  "\<exists>r. let s = activation_run code_unit_order (\<lambda>b. ''digest'') (Some unit_codec) [Stage one_dependency, Add one_dependency]
        \<lparr>da_active = [], da_staged = [], da_frozen = Some r, da_pending = []\<rparr> in
     da_frozen s = Some r \<and> da_active s = [] \<and> da_staged s = [one_dependency]"
proof -
  let ?r = "\<lparr>dr_algorithm = dependency_root_label, dr_dependencies = [], dr_root = []\<rparr>"
  let ?s = "\<lparr>da_active = [], da_staged = [], da_frozen = Some ?r, da_pending = []\<rparr>"
  have "da_staged (activation_run code_unit_order (\<lambda>b. ''digest'') (Some unit_codec) [Stage one_dependency, Add one_dependency] ?s) = [one_dependency]"
    by (simp add: activation_stage_def merge_one activation_add_def)
  moreover have "da_frozen ?s = Some ?r" "da_pending ?s = []" by simp_all
  moreover have "ActivateStaged \<notin> set [Stage one_dependency, Add one_dependency]" by simp
  ultimately show ?thesis
    using frozen_set_stable [of ?s ?r "[Stage one_dependency, Add one_dependency]" code_unit_order "\<lambda>b. ''digest''" "Some unit_codec"]
    by (intro exI [of _ ?r]) (simp only: Let_def activation.simps simp_thms)
qed

theorem freeze_aware_pull_recorded_witness:
  "\<exists>d r' s'. freeze_aware_pull code_unit_order (registry_pull const_sha) ''knowledge'' (PullManifest demo_manifest) (published_registry, new_activation)
       = (Inr (demo_manifest, [1, 2]), r', s')
     \<and> pack_dependency_from_manifest demo_manifest ''knowledge'' = Inr d \<and> pd_sha256 d = const_sha [1, 2] \<and> d \<in> set (da_active s')"
proof -
  obtain r' where pulled: "registry_pull const_sha published_registry (PullManifest demo_manifest) = (Inr (demo_manifest, [1, 2]), r')"
    using demo_pulled by blast
  have "is_sha256 some_digest" "js_trim ''acme/tax'' \<noteq> []" "js_trim ''1.0'' \<noteq> []" by code_simp+
  then have d: "\<exists>d. pack_dependency_from_manifest demo_manifest ''knowledge'' = Inr d"
    by (simp add: pack_dependency_from_manifest_def normalize_pack_dependency_def demo_manifest_def dependency_roles_def)
  then obtain d where d: "pack_dependency_from_manifest demo_manifest ''knowledge'' = Inr d" ..
  then have n: "normalize_pack_dependency d = Inr d"
    by (auto simp: pack_dependency_from_manifest_def normal_def dest!: normalize_Inr)
  obtain ds where "merge_pack_dependencies code_unit_order [] [d] = Inr ds"
    using merge_normal_total [of "[]" "[d]" code_unit_order] n by (auto simp: normal_def)
  then have rec: "\<exists>s'. record_pull code_unit_order ''knowledge'' demo_manifest new_activation = (Inr (), s')"
    by (simp add: record_pull_def d activation_add_def merge_normalized_def n new_activation_def)
  then obtain s' where "record_pull code_unit_order ''knowledge'' demo_manifest new_activation = (Inr (), s')" ..
  then have p: "freeze_aware_pull code_unit_order (registry_pull const_sha) ''knowledge'' (PullManifest demo_manifest) (published_registry, new_activation)
       = (Inr (demo_manifest, [1, 2]), r', s')"
    by (simp add: freeze_aware_pull_def pulled)
  have "records_valid published_registry" by (simp add: records_valid_def published_registry_def empty_registry_def demo_manifest_valid)
  from freeze_aware_pull_recorded [OF this p] p show ?thesis by (auto simp: new_activation_def)
qed

end
