(* ===== verification/Middleware.thy ===== *)
theory Middleware
  imports Harness_Types
begin

text \<open>
  Middleware (\<open>middleware/hooks.ts\<close>, \<open>middleware/pipeline.ts\<close>): the hooks in their
  documented order and \<open>runHooks\<close>. A handler is arbitrary code of the host: it reads the
  value it is given, may change the world \<open>'w\<close> it closes over, may assign another envelope to
  the context, and may throw. What the code passes as \<open>extra\<close> is the type \<open>'x\<close>.
\<close>

section \<open>Hooks\<close>

datatype hook = BeforeRun | BeforeContext | OnEvidence | OnSkillCandidates | OnSkillSelected | BeforeAgent
  | BeforeTool | AfterTool | OnCheckpoint | OnError | OnRecovery | BeforeComplete | AfterComplete

definition hook_order :: "hook list" where
  "hook_order = [BeforeRun, BeforeContext, OnEvidence, OnSkillCandidates, OnSkillSelected, BeforeAgent,
     BeforeTool, AfterTool, OnCheckpoint, OnError, OnRecovery, BeforeComplete, AfterComplete]"

fun hook_name :: "hook \<Rightarrow> string" where
  "hook_name BeforeRun = ''beforeRun''"
| "hook_name BeforeContext = ''beforeContext''"
| "hook_name OnEvidence = ''onEvidence''"
| "hook_name OnSkillCandidates = ''onSkillCandidates''"
| "hook_name OnSkillSelected = ''onSkillSelected''"
| "hook_name BeforeAgent = ''beforeAgent''"
| "hook_name BeforeTool = ''beforeTool''"
| "hook_name AfterTool = ''afterTool''"
| "hook_name OnCheckpoint = ''onCheckpoint''"
| "hook_name OnError = ''onError''"
| "hook_name OnRecovery = ''onRecovery''"
| "hook_name BeforeComplete = ''beforeComplete''"
| "hook_name AfterComplete = ''afterComplete''"

definition assert_known_hook :: "string \<Rightarrow> unit result" where
  "assert_known_hook name =
     (if name \<in> set (map hook_name hook_order) then Inr () else Inl (PlainError (''unknown middleware hook: '' @ name)))"

text \<open>The position in \<open>MIDDLEWARE_HOOK_ORDER\<close> orders the hooks.\<close>

fun hook_rank :: "hook \<Rightarrow> nat" where
  "hook_rank BeforeRun = 0"
| "hook_rank BeforeContext = 1"
| "hook_rank OnEvidence = 2"
| "hook_rank OnSkillCandidates = 3"
| "hook_rank OnSkillSelected = 4"
| "hook_rank BeforeAgent = 5"
| "hook_rank BeforeTool = 6"
| "hook_rank AfterTool = 7"
| "hook_rank OnCheckpoint = 8"
| "hook_rank OnError = 9"
| "hook_rank OnRecovery = 10"
| "hook_rank BeforeComplete = 11"
| "hook_rank AfterComplete = 12"

lemma hook_order_rank: "hook_order ! hook_rank h = h \<and> hook_rank h < length hook_order"
  by (cases h) (simp_all add: hook_order_def)

lemma hook_rank_inject [simp]: "hook_rank h = hook_rank k \<longleftrightarrow> h = k"
  using hook_order_rank [of h] hook_order_rank [of k] by metis

instantiation hook :: linorder
begin

definition less_eq_hook :: "hook \<Rightarrow> hook \<Rightarrow> bool" where
  "less_eq_hook h k \<longleftrightarrow> hook_rank h \<le> hook_rank k"

definition less_hook :: "hook \<Rightarrow> hook \<Rightarrow> bool" where
  "less_hook h k \<longleftrightarrow> hook_rank h < hook_rank k"

instance
  by standard (auto simp: less_eq_hook_def less_hook_def)

end

lemma hook_order_documented: "sorted_wrt (<) hook_order \<and> set hook_order = UNIV"
proof -
  have "h \<in> set hook_order" for h by (cases h) (simp_all add: hook_order_def)
  then show ?thesis by (auto simp: hook_order_def less_hook_def)
qed

lemma assert_known_hook_iff: "assert_known_hook name = Inr () \<longleftrightarrow> (\<exists>h. name = hook_name h)"
  using hook_order_documented by (auto simp: assert_known_hook_def)

section \<open>runHooks\<close>

type_synonym ('x, 'w) hook_handler = "'x \<Rightarrow> 'w \<Rightarrow> context_envelope \<Rightarrow> unit result \<times> 'w \<times> context_envelope"
type_synonym ('x, 'w) middleware = "(hook \<times> ('x, 'w) hook_handler) list"

fun run_handlers :: "('x, 'w) middleware list \<Rightarrow> hook \<Rightarrow> ('x, 'w) hook_handler" where
  "run_handlers [] h x w env = (Inr (), w, env)"
| "run_handlers (m # ms) h x w env =
     (case map_of m h of
        None \<Rightarrow> run_handlers ms h x w env
      | Some handler \<Rightarrow>
          (case handler x w env of
             (Inl e, w', env') \<Rightarrow> (Inl e, w', env')
           | (Inr _, w', env') \<Rightarrow> run_handlers ms h x w' env'))"

definition same_authority :: "context_envelope \<Rightarrow> context_envelope \<Rightarrow> bool" where
  "same_authority a b \<longleftrightarrow> env_capabilities_ref a = env_capabilities_ref b \<and> env_dependency_root a = env_dependency_root b"

definition run_hooks :: "('x, 'w) middleware list \<Rightarrow> hook \<Rightarrow> ('x, 'w) hook_handler" where
  "run_hooks ms h x w env =
     (case run_handlers ms h x w env of
        (Inl e, w', env') \<Rightarrow> (Inl e, w', env')
      | (Inr _, w', env') \<Rightarrow>
          if \<not> same_authority env' env
          then (Inl (PlainError ''middleware cannot bypass compiled authority or the frozen dependency root''), w', env')
          else (Inr (), w', env'))"

lemma same_authority_refl [simp]: "same_authority e e"
  by (simp add: same_authority_def)

lemma same_authority_trans [trans]: "same_authority a b \<Longrightarrow> same_authority b c \<Longrightarrow> same_authority a c"
  by (simp add: same_authority_def)

definition handles :: "('x, 'w) middleware list \<Rightarrow> hook \<Rightarrow> bool" where
  "handles ms h \<longleftrightarrow> (\<exists>m \<in> set ms. map_of m h \<noteq> None)"

lemma run_handlers_unhandled: "\<not> handles ms h \<Longrightarrow> run_handlers ms h x w env = (Inr (), w, env)"
  by (induction ms) (simp_all add: handles_def)

text \<open>
  The contract the harness relies on: a hook that returns left the authority and the root of the
  envelope as they were, and a hook nobody handles does nothing.
\<close>

locale hook_runner =
  fixes run :: "hook \<Rightarrow> ('x, 'w) hook_handler" and handled :: "hook \<Rightarrow> bool"
  assumes run_keeps: "run h x w env = (Inr u, w', env') \<Longrightarrow> same_authority env' env"
    and run_unhandled: "\<not> handled h \<Longrightarrow> run h x w env = (Inr (), w, env)"

interpretation pipeline: hook_runner "run_hooks ms" "handles ms" for ms :: "('x, 'w) middleware list"
  by unfold_locales (auto simp: run_hooks_def run_handlers_unhandled split: prod.splits sum.splits if_splits)

end
