(* ===== verification/Recovery.thy ===== *)
theory Recovery
  imports Middleware Step_Machine
begin

text \<open>
  Failure recovery (\<open>recovery/types.ts\<close>, \<open>recovery/classify.ts\<close>,
  \<open>recovery/policy.ts\<close>) and the loop that applies it, \<open>invokeWithRecovery\<close> of
  \<open>harness/session.ts\<close>: the adapter is invoked, a failed result is classified, the policy
  gives the next strategy or none, and the adapter is invoked again.
\<close>

section \<open>Data\<close>

datatype failure_class = ToolFailure | RetrievalFailure | SchemaFailure | TimeoutFailure | PolicyFailure | ModelFailure | UnknownFailure

datatype recovery_strategy = Retry | AlternatePlan | FallbackSkill | AlternateTool | NarrowedChild | Hitl | GracefulPartial

record recovery_policy =
  rp_enabled :: "bool option"
  rp_max_retries :: "int option"
  rp_strategies :: "recovery_strategy list option"
  rp_fallback_skill :: jsval
  rp_alternate_tool :: jsval

datatype recovery_status = Applied | Skipped | Exhausted

record recovery_event =
  re_class :: failure_class
  re_strategy :: recovery_strategy
  re_attempt :: nat
  re_status :: recovery_status
  re_detail :: "string option"

definition default_strategies :: "recovery_strategy list" where
  "default_strategies = [Retry, AlternatePlan, FallbackSkill, AlternateTool, NarrowedChild, Hitl, GracefulPartial]"

fun strategy_name :: "recovery_strategy \<Rightarrow> string" where
  "strategy_name Retry = ''retry''"
| "strategy_name AlternatePlan = ''alternate-plan''"
| "strategy_name FallbackSkill = ''fallback-skill''"
| "strategy_name AlternateTool = ''alternate-tool''"
| "strategy_name NarrowedChild = ''narrowed-child''"
| "strategy_name Hitl = ''hitl''"
| "strategy_name GracefulPartial = ''graceful-partial''"

section \<open>Classification\<close>

definition failure_text :: "invocation_result \<Rightarrow> string" where
  "failure_text r = js_lower ((case res_error r of Some e \<Rightarrow> e | None \<Rightarrow> []) @ '' ''
     @ (case stringify_output (res_output r) of Some s \<Rightarrow> s | None \<Rightarrow> ''undefined''))"

definition mentions :: "string \<Rightarrow> string list \<Rightarrow> bool" where
  "mentions text needles \<longleftrightarrow> list_ex (js_includes text) needles"

definition classify_failure :: "invocation_result \<Rightarrow> failure_class" where
  "classify_failure r =
     (let text = failure_text r in
      if mentions text [''timeout'', ''etimedout'', ''timed out'', ''tool_timeout''] then TimeoutFailure
      else if mentions text [''prohibited'', ''denied'', ''authority'', ''policy'', ''escalation''] then PolicyFailure
      else if mentions text [''schema'', ''outputschema'', ''parse json'', ''invalid json''] then SchemaFailure
      else if mentions text [''retriev'', ''evidence'', ''knowledge image''] then RetrievalFailure
      else if mentions text [''tool''] then ToolFailure
      else if mentions text [''model'', ''llm'', ''completion''] then ModelFailure
      else UnknownFailure)"

definition needs_recovery :: "invocation_result \<Rightarrow> bool" where
  "needs_recovery r \<longleftrightarrow> res_status r = Failed"

section \<open>The policy\<close>

fun parse_strategies :: "jsval list \<Rightarrow> recovery_strategy list option" where
  "parse_strategies [] = Some []"
| "parse_strategies (v # vs) =
     (case find (\<lambda>s. v = JStr (strategy_name s)) default_strategies of
        None \<Rightarrow> None
      | Some s \<Rightarrow> map_option ((#) s) (parse_strategies vs))"

definition truthy_or_undef :: "jsval \<Rightarrow> jsval" where
  "truthy_or_undef v = (if js_truthy v then v else JUndef)"

definition recovery_fail :: "string \<Rightarrow> 'a result" where
  "recovery_fail message = Inl (HarnessError message)"

definition parse_max_retries :: "jsval \<Rightarrow> int result" where
  "parse_max_retries v =
     (let fail = recovery_fail ''recovery.maxRetries must be a non-negative integer'' in
      case v of
        JUndef \<Rightarrow> Inr 1
      | JNull \<Rightarrow> Inr 1
      | JNum n \<Rightarrow> if is_safe_integer n \<and> 0 \<le> n then Inr n else fail
      | _ \<Rightarrow> fail)"

definition parse_strategy_list :: "jsval \<Rightarrow> recovery_strategy list result" where
  "parse_strategy_list v =
     (let fail = recovery_fail ''recovery.strategies contains an unknown strategy'' in
      case v of
        JUndef \<Rightarrow> Inr default_strategies
      | JNull \<Rightarrow> Inr default_strategies
      | JArr vs \<Rightarrow> (case parse_strategies vs of None \<Rightarrow> fail | Some ss \<Rightarrow> Inr ss)
      | _ \<Rightarrow> fail)"

definition enabled_policy :: recovery_policy where
  "enabled_policy = \<lparr>rp_enabled = Some True, rp_max_retries = Some 1, rp_strategies = Some default_strategies,
     rp_fallback_skill = JUndef, rp_alternate_tool = JUndef\<rparr>"

definition disabled_policy :: recovery_policy where
  "disabled_policy = \<lparr>rp_enabled = Some False, rp_max_retries = Some 0, rp_strategies = Some [],
     rp_fallback_skill = JUndef, rp_alternate_tool = JUndef\<rparr>"

fun parse_recovery_policy :: "jsval \<Rightarrow> recovery_policy result" where
  "parse_recovery_policy JUndef = Inr enabled_policy"
| "parse_recovery_policy JNull = Inr enabled_policy"
| "parse_recovery_policy (JBool b) = Inr (if b then enabled_policy else disabled_policy)"
| "parse_recovery_policy (JObj es) =
     bind_res (parse_max_retries (js_get es ''maxRetries'')) (\<lambda>n.
     bind_res (parse_strategy_list (js_get es ''strategies'')) (\<lambda>ss.
     Inr \<lparr>rp_enabled = Some (js_get es ''enabled'' \<noteq> JBool False), rp_max_retries = Some n, rp_strategies = Some ss,
          rp_fallback_skill = truthy_or_undef (js_get es ''fallbackSkill''),
          rp_alternate_tool = truthy_or_undef (js_get es ''alternateTool'')\<rparr>))"
| "parse_recovery_policy _ = recovery_fail ''recovery must be a policy object, true, or false''"

definition retries :: "recovery_strategy list \<Rightarrow> nat" where
  "retries used = length (filter (\<lambda>s. s = Retry) used)"

definition policy_max :: "recovery_policy \<Rightarrow> int" where
  "policy_max policy = (case rp_max_retries policy of Some n \<Rightarrow> n | None \<Rightarrow> 1)"

definition policy_strategies :: "recovery_policy \<Rightarrow> recovery_strategy list" where
  "policy_strategies policy = (case rp_strategies policy of Some ss \<Rightarrow> ss | None \<Rightarrow> default_strategies)"

fun strategy_loop :: "recovery_policy \<Rightarrow> recovery_strategy list \<Rightarrow> recovery_strategy list \<Rightarrow> recovery_strategy option" where
  "strategy_loop policy used [] = None"
| "strategy_loop policy used (s # ss) =
     (if s = Retry then
        (if policy_max policy \<le> int (retries used) then strategy_loop policy used ss else Some s)
      else if s \<in> set used then strategy_loop policy used ss
      else if s = FallbackSkill \<and> \<not> js_truthy (rp_fallback_skill policy) then strategy_loop policy used ss
      else if s = AlternateTool \<and> \<not> js_truthy (rp_alternate_tool policy) then strategy_loop policy used ss
      else if s = Hitl then strategy_loop policy used ss
      else if s = NarrowedChild then strategy_loop policy used ss
      else Some s)"

definition next_strategy :: "recovery_policy \<Rightarrow> failure_class \<Rightarrow> recovery_strategy list \<Rightarrow> recovery_strategy option" where
  "next_strategy policy cls used =
     (if rp_enabled policy = Some False then None
      else if cls = PolicyFailure then None
      else strategy_loop policy used (policy_strategies policy))"

section \<open>Invoking the adapter\<close>

text \<open>
  An invocation in progress: the adapter has returned or thrown, or it has called
  \<open>emitTool\<close> and goes on with what that call gave it. The adapter is third-party code; that it
  makes finitely many such calls is what the datatype says of it.
\<close>

datatype 'w act =
    Done 'w "invocation_result result"
  | EmitTool 'w bool string jsval "unit result \<Rightarrow> 'w \<Rightarrow> 'w act"

type_synonym 'w adapter = "jsval \<Rightarrow> context_envelope \<Rightarrow> 'w \<Rightarrow> 'w act"

datatype hook_extra =
    NoExtra
  | ToolExtra string jsval
  | ResultExtra invocation_result
  | RecoveryExtra invocation_result recovery_strategy failure_class
  | ItemsExtra "jsval list"
  | JsonExtra jsval

type_synonym 'w hooks = "hook \<Rightarrow> (hook_extra, 'w) hook_handler"

primrec run_act :: "'w hooks \<Rightarrow> 'w act \<Rightarrow> context_envelope \<Rightarrow> string list \<Rightarrow>
    invocation_result result \<times> string list \<times> 'w \<times> context_envelope" where
  "run_act hooks (Done w r) env tools = (r, tools, w, env)"
| "run_act hooks (EmitTool w before tool payload k) env tools =
     (case hooks (if before then BeforeTool else AfterTool) (ToolExtra tool payload) w env of
        (Inl e, w', env') \<Rightarrow> run_act hooks (k (Inl e) w') env' tools
      | (Inr _, w', env') \<Rightarrow> run_act hooks (k (Inr ()) w') env' (if before then tools else tools @ [tool]))"

fun error_message :: "js_error \<Rightarrow> string" where
  "error_message (HarnessError m) = m"
| "error_message (DefinitionError m) = m"
| "error_message (PlainError m) = m"
| "error_message (TypeError m) = m"

definition thrown_result :: "js_error \<Rightarrow> invocation_result" where
  "thrown_result e = \<lparr>res_status = Failed, res_output = JNull, res_error = Some (error_message e),
     res_tool_calls = None, res_tokens = None\<rparr>"

definition invoke_once :: "'w hooks \<Rightarrow> 'w adapter \<Rightarrow> jsval \<Rightarrow> 'w \<Rightarrow> context_envelope \<Rightarrow>
    invocation_result result \<times> string list \<times> 'w \<times> context_envelope" where
  "invoke_once hooks adapter inp w env =
     (case hooks BeforeAgent NoExtra w env of
        (Inl e, w1, env1) \<Rightarrow> (Inl e, [], w1, env1)
      | (Inr _, w1, env1) \<Rightarrow>
          (case run_act hooks (adapter inp env w1) env1 [] of
             (Inr r, tools, w2, env2) \<Rightarrow> (Inr r, tools, w2, env2)
           | (Inl e, tools, w2, env2) \<Rightarrow>
               (case hooks OnError (ResultExtra (thrown_result e)) w2 env2 of
                  (Inl e', w3, env3) \<Rightarrow> (Inl e', tools, w3, env3)
                | (Inr _, w3, env3) \<Rightarrow> (Inr (thrown_result e), tools, w3, env3))))"

section \<open>The loop\<close>

record 'w recovery_state =
  rv_result :: invocation_result
  rv_used :: "recovery_strategy list"
  rv_attempt :: nat
  rv_tools :: "string list"
  rv_events :: "recovery_event list"
  rv_world :: 'w
  rv_env :: context_envelope

type_synonym 'w recovery_outcome =
  "(invocation_result \<times> string list \<times> recovery_event list) result \<times> 'w \<times> context_envelope"

definition finish_recovery :: "'w recovery_state \<Rightarrow> 'w recovery_outcome" where
  "finish_recovery s =
     (let events = (if needs_recovery (rv_result s) \<and> rv_used s \<noteq> []
        then rv_events s @ [\<lparr>re_class = classify_failure (rv_result s), re_strategy = GracefulPartial,
               re_attempt = rv_attempt s + 1, re_status = Exhausted, re_detail = Some ''no remaining strategy''\<rparr>]
        else rv_events s)
      in (Inr (rv_result s, rv_tools s, events), rv_world s, rv_env s))"

text \<open>\<open>result.output ?? result.error ?? "partial"\<close>\<close>

definition partial_output :: "invocation_result \<Rightarrow> jsval" where
  "partial_output r = (if res_output r \<noteq> JUndef \<and> res_output r \<noteq> JNull then res_output r
     else case res_error r of Some e \<Rightarrow> JStr e | None \<Rightarrow> JStr ''partial'')"

definition apply_strategy :: "'w hooks \<Rightarrow> 'w adapter \<Rightarrow> jsval \<Rightarrow> failure_class \<Rightarrow> recovery_strategy \<Rightarrow> 'w recovery_state
    \<Rightarrow> ('w recovery_state, 'w recovery_outcome) outcome" where
  "apply_strategy hooks adapter inp cls strategy s =
     (case hooks OnRecovery (RecoveryExtra (rv_result s) strategy cls) (rv_world s) (rv_env s) of
        (Inl e, w, env) \<Rightarrow> Stop (Inl e, w, env)
      | (Inr _, w, env) \<Rightarrow>
          let event = \<lparr>re_class = cls, re_strategy = strategy, re_attempt = rv_attempt s + 1, re_status = Applied,
                re_detail = (if strategy = GracefulPartial then Some ''graceful-partial'' else None)\<rparr>;
              s1 = s\<lparr>rv_used := rv_used s @ [strategy], rv_attempt := rv_attempt s + 1,
                 rv_events := rv_events s @ [event], rv_world := w, rv_env := env\<rparr>
          in if strategy = GracefulPartial
             then Stop (finish_recovery (s1\<lparr>rv_result := (rv_result s)\<lparr>res_status := Partial,
                    res_output := partial_output (rv_result s)\<rparr>\<rparr>))
             else (case invoke_once hooks adapter inp w env of
                 (Inl e, tools, w2, env2) \<Rightarrow> Stop (Inl e, w2, env2)
               | (Inr r, tools, w2, env2) \<Rightarrow>
                   Next (s1\<lparr>rv_result := r, rv_tools := tools, rv_world := w2, rv_env := env2\<rparr>)))"

definition recovery_step :: "recovery_policy \<Rightarrow> 'w hooks \<Rightarrow> 'w adapter \<Rightarrow> jsval \<Rightarrow> 'w recovery_state
    \<Rightarrow> ('w recovery_state, 'w recovery_outcome) outcome" where
  "recovery_step policy hooks adapter inp s =
     (if \<not> needs_recovery (rv_result s) then Stop (finish_recovery s)
      else case next_strategy policy (classify_failure (rv_result s)) (rv_used s) of
          None \<Rightarrow> Stop (finish_recovery s)
        | Some strategy \<Rightarrow> apply_strategy hooks adapter inp (classify_failure (rv_result s)) strategy s)"

section \<open>Which strategy is next\<close>

text \<open>When a strategy may be applied, given those already used.\<close>

definition usable :: "recovery_policy \<Rightarrow> recovery_strategy list \<Rightarrow> recovery_strategy \<Rightarrow> bool" where
  "usable policy used s \<longleftrightarrow>
     (case s of
        Retry \<Rightarrow> int (retries used) < policy_max policy
      | Hitl \<Rightarrow> False
      | NarrowedChild \<Rightarrow> False
      | FallbackSkill \<Rightarrow> FallbackSkill \<notin> set used \<and> js_truthy (rp_fallback_skill policy)
      | AlternateTool \<Rightarrow> AlternateTool \<notin> set used \<and> js_truthy (rp_alternate_tool policy)
      | _ \<Rightarrow> s \<notin> set used)"

lemma strategy_loop_find: "strategy_loop policy used ss = find (usable policy used) ss"
  by (induction ss) (auto simp: usable_def split: recovery_strategy.splits)

lemma next_strategy_Some:
  assumes "next_strategy policy cls used = Some s"
  shows "usable policy used s" "s \<in> set (policy_strategies policy)" "cls \<noteq> PolicyFailure" "rp_enabled policy \<noteq> Some False"
  using assms by (auto simp: next_strategy_def strategy_loop_find dest!: find_in_set split: if_splits)

lemma retries_simps [simp]:
  "retries [] = 0" "retries (xs @ [s]) = retries xs + (if s = Retry then 1 else 0)"
  by (simp_all add: retries_def)

definition recovery_rank :: "recovery_policy \<Rightarrow> recovery_strategy list \<Rightarrow> nat" where
  "recovery_rank policy used = nat (policy_max policy - int (retries used)) + card ({AlternatePlan, FallbackSkill, AlternateTool} - set used)"

lemma recovery_rank_less:
  assumes "usable policy used s" "s \<noteq> GracefulPartial"
  shows "recovery_rank policy (used @ [s]) < recovery_rank policy used"
proof (cases "s = Retry")
  case True
  then have "{AlternatePlan, FallbackSkill, AlternateTool} - set (used @ [s]) = {AlternatePlan, FallbackSkill, AlternateTool} - set used" by auto
  with True assms show ?thesis by (simp add: recovery_rank_def usable_def)
next
  case False
  then have "s \<notin> set used" "s \<in> {AlternatePlan, FallbackSkill, AlternateTool}"
    using assms by (auto simp: usable_def split: recovery_strategy.splits)
  then have "{AlternatePlan, FallbackSkill, AlternateTool} - set (used @ [s]) \<subset> {AlternatePlan, FallbackSkill, AlternateTool} - set used"
    by auto
  then have "card ({AlternatePlan, FallbackSkill, AlternateTool} - set (used @ [s])) < card ({AlternatePlan, FallbackSkill, AlternateTool} - set used)"
    by (rule psubset_card_mono [rotated]) simp
  with False show ?thesis by (simp add: recovery_rank_def)
qed

text \<open>A turn of the loop that continues: one more strategy was applied and the adapter invoked again.\<close>

lemma recovery_step_Next:
  assumes "recovery_step policy hooks adapter inp s = Next s'"
  obtains strategy w env r tools w' env' where
    "needs_recovery (rv_result s)" "next_strategy policy (classify_failure (rv_result s)) (rv_used s) = Some strategy"
    "strategy \<noteq> GracefulPartial"
    "hooks OnRecovery (RecoveryExtra (rv_result s) strategy (classify_failure (rv_result s))) (rv_world s) (rv_env s) = (Inr (), w, env)"
    "invoke_once hooks adapter inp w env = (Inr r, tools, w', env')"
    "s' = \<lparr>rv_result = r, rv_used = rv_used s @ [strategy], rv_attempt = rv_attempt s + 1, rv_tools = tools,
       rv_events = rv_events s @ [\<lparr>re_class = classify_failure (rv_result s), re_strategy = strategy,
          re_attempt = rv_attempt s + 1, re_status = Applied, re_detail = None\<rparr>], rv_world = w', rv_env = env'\<rparr>"
  using assms by (auto simp: recovery_step_def apply_strategy_def Let_def split: if_splits option.splits prod.splits sum.splits)

lemma recovery_step_rank:
  "recovery_step policy hooks adapter inp s = Next s' \<Longrightarrow> recovery_rank policy (rv_used s') < recovery_rank policy (rv_used s)"
  by (elim recovery_step_Next) (simp add: recovery_rank_less next_strategy_Some(1))

function recovery_loop :: "recovery_policy \<Rightarrow> 'w hooks \<Rightarrow> 'w adapter \<Rightarrow> jsval \<Rightarrow> 'w recovery_state \<Rightarrow> 'w recovery_outcome" where
  "recovery_loop policy hooks adapter inp s =
     (case recovery_step policy hooks adapter inp s of
        Next s' \<Rightarrow> recovery_loop policy hooks adapter inp s'
      | Stop r \<Rightarrow> r)"
  by pat_completeness auto
termination recovery_loop
  by (relation "measure (\<lambda>(policy, _, _, _, s). recovery_rank policy (rv_used s))") (simp_all add: recovery_step_rank)

declare recovery_loop.simps [simp del]

definition invoke_with_recovery :: "recovery_policy \<Rightarrow> 'w hooks \<Rightarrow> 'w adapter \<Rightarrow> jsval \<Rightarrow> 'w \<Rightarrow> context_envelope \<Rightarrow> 'w recovery_outcome" where
  "invoke_with_recovery policy hooks adapter inp w env =
     (case invoke_once hooks adapter inp w env of
        (Inl e, tools, w', env') \<Rightarrow> (Inl e, w', env')
      | (Inr r, tools, w', env') \<Rightarrow>
          recovery_loop policy hooks adapter inp \<lparr>rv_result = r, rv_used = [], rv_attempt = 0, rv_tools = tools,
            rv_events = [], rv_world = w', rv_env = env'\<rparr>)"

interpretation recovery: step_machine "recovery_step policy hooks adapter inp" "recovery_loop policy hooks adapter inp"
    "\<lambda>s. recovery_rank policy (rv_used s)"
  for policy :: recovery_policy and hooks :: "'w hooks" and adapter :: "'w adapter" and inp :: jsval
  by unfold_locales (rule recovery_loop.simps, rule recovery_step_rank)

section \<open>The audit trail\<close>

definition applied :: "recovery_event list \<Rightarrow> recovery_strategy list" where
  "applied events = map re_strategy (filter (\<lambda>e. re_status e = Applied) events)"

definition trail_ok :: "recovery_policy \<Rightarrow> recovery_event list \<Rightarrow> bool" where
  "trail_ok policy events \<longleftrightarrow>
     map re_attempt events = [1..<Suc (length events)]
     \<and> int (retries (applied events)) \<le> max 0 (policy_max policy)
     \<and> distinct (filter (\<lambda>s. s \<noteq> Retry) (applied events))
     \<and> set (applied events) \<subseteq> set (policy_strategies policy) - {Hitl, NarrowedChild}
     \<and> (\<forall>e \<in> set events. re_status e = Applied \<longrightarrow> re_class e \<noteq> PolicyFailure \<and> rp_enabled policy \<noteq> Some False)"

definition recovery_ok :: "recovery_policy \<Rightarrow> 'w recovery_state \<Rightarrow> bool" where
  "recovery_ok policy s \<longleftrightarrow>
     trail_ok policy (rv_events s) \<and> (\<forall>e \<in> set (rv_events s). re_status e = Applied)
     \<and> rv_used s = map re_strategy (rv_events s) \<and> rv_attempt s = length (rv_events s)"

lemma applied_all: "\<forall>e \<in> set events. re_status e = Applied \<Longrightarrow> applied events = map re_strategy events"
  by (induction events) (simp_all add: applied_def)

lemma trail_ok_apply:
  assumes "trail_ok policy events" "\<forall>e \<in> set events. re_status e = Applied" "next_strategy policy cls (map re_strategy events) = Some s"
    and "e = \<lparr>re_class = cls, re_strategy = s, re_attempt = length events + 1, re_status = Applied, re_detail = d\<rparr>"
  shows "trail_ok policy (events @ [e])"
proof -
  have u: "usable policy (map re_strategy events) s" by (rule next_strategy_Some(1) [OF assms(3)])
  have all: "applied events = map re_strategy events" "applied (events @ [e]) = map re_strategy events @ [s]"
    using assms(2,4) applied_all [of events] applied_all [of "events @ [e]"] by auto
  show ?thesis
    using assms(1,4) u next_strategy_Some(2-4) [OF assms(3)]
    unfolding trail_ok_def all by (auto simp: usable_def split: recovery_strategy.splits)
qed

lemma trail_ok_exhausted:
  assumes "trail_ok policy events" "re_attempt e = length events + 1" "re_status e = Exhausted"
  shows "trail_ok policy (events @ [e])"
proof -
  have "applied (events @ [e]) = applied events" using assms(3) by (simp add: applied_def)
  with assms show ?thesis by (simp add: trail_ok_def)
qed

lemma recovery_ok_Next:
  assumes "recovery_ok policy s" "recovery_step policy hooks adapter inp s = Next s'"
  shows "recovery_ok policy s'"
  using assms(2)
proof (cases rule: recovery_step_Next)
  case (1 strategy w env r tools w' env')
  with assms(1) trail_ok_apply [of policy "rv_events s" "classify_failure (rv_result s)" strategy _ None]
  show ?thesis by (simp add: recovery_ok_def)
qed

text \<open>What a finished loop returns: its trail, closed by one \<open>exhausted\<close> event when it gave up.\<close>

definition outcome_ok :: "recovery_policy \<Rightarrow> invocation_result \<Rightarrow> recovery_event list \<Rightarrow> bool" where
  "outcome_ok policy result events \<longleftrightarrow>
     trail_ok policy events \<and> (\<forall>e \<in> set (butlast events). re_status e = Applied)
     \<and> (events \<noteq> [] \<longrightarrow> (re_status (last events) = Exhausted \<longleftrightarrow> res_status result = Failed) \<and> re_status (last events) \<noteq> Skipped)"

lemma finish_ok:
  assumes "recovery_ok policy s" "finish_recovery s = (Inr (result, tools, events), w, env)"
  shows "outcome_ok policy result events"
proof (cases "needs_recovery (rv_result s) \<and> rv_used s \<noteq> []")
  case True
  with assms show ?thesis
    by (auto simp: finish_recovery_def Let_def recovery_ok_def outcome_ok_def needs_recovery_def intro!: trail_ok_exhausted)
next
  case False
  with assms have "result = rv_result s" "events = rv_events s" "res_status result = Failed \<longrightarrow> events = []"
    by (auto simp: finish_recovery_def Let_def needs_recovery_def recovery_ok_def)
  with assms(1) show ?thesis by (auto simp: recovery_ok_def outcome_ok_def dest: in_set_butlastD)
qed

lemma recovery_ok_Stop:
  assumes "recovery_ok policy s" "recovery_step policy hooks adapter inp s = Stop (Inr (result, tools, events), w, env)"
  shows "outcome_ok policy result events"
proof -
  consider (finished) "finish_recovery s = (Inr (result, tools, events), w, env)"
    | (partial) s1 where "next_strategy policy (classify_failure (rv_result s)) (rv_used s) = Some GracefulPartial"
        "finish_recovery s1 = (Inr (result, tools, events), w, env)" "rv_used s1 = rv_used s @ [GracefulPartial]"
        "rv_attempt s1 = rv_attempt s + 1"
        "rv_events s1 = rv_events s @ [\<lparr>re_class = classify_failure (rv_result s), re_strategy = GracefulPartial,
           re_attempt = rv_attempt s + 1, re_status = Applied, re_detail = Some ''graceful-partial''\<rparr>]"
    using assms(2)
    by (auto simp: recovery_step_def apply_strategy_def Let_def split: if_splits option.splits prod.splits sum.splits)
  then show ?thesis
  proof cases
    case finished
    with assms(1) show ?thesis by (rule finish_ok)
  next
    case partial
    have "recovery_ok policy s1"
      using partial(1,3-5) assms(1)
        trail_ok_apply [of policy "rv_events s" "classify_failure (rv_result s)" GracefulPartial _ "Some ''graceful-partial''"]
      by (simp add: recovery_ok_def)
    with partial(2) show ?thesis by (rule finish_ok [rotated])
  qed
qed

section \<open>Properties\<close>

lemma finish_Inr: "\<exists>r. fst (finish_recovery s) = Inr r"
  by (simp add: finish_recovery_def Let_def)

lemma invoke_with_recovery_Inr:
  assumes "invoke_with_recovery policy hooks adapter inp w env = (Inr (result, tools, events), w', env')"
  obtains r tools0 w0 env0 where "invoke_once hooks adapter inp w env = (Inr r, tools0, w0, env0)"
    "recovery_loop policy hooks adapter inp \<lparr>rv_result = r, rv_used = [], rv_attempt = 0, rv_tools = tools0,
       rv_events = [], rv_world = w0, rv_env = env0\<rparr> = (Inr (result, tools, events), w', env')"
  using assms by (auto simp: invoke_with_recovery_def split: prod.splits sum.splits)

lemma applied_bound: "distinct (filter (\<lambda>s. s \<noteq> Retry) ss) \<Longrightarrow> set ss \<inter> {Hitl, NarrowedChild} = {} \<Longrightarrow> length ss \<le> retries ss + 4"
proof -
  assume d: "distinct (filter (\<lambda>s. s \<noteq> Retry) ss)" and s: "set ss \<inter> {Hitl, NarrowedChild} = {}"
  have "set (filter (\<lambda>s. s \<noteq> Retry) ss) \<subseteq> {AlternatePlan, FallbackSkill, AlternateTool, GracefulPartial}"
  proof
    fix x assume "x \<in> set (filter (\<lambda>s. s \<noteq> Retry) ss)"
    with s show "x \<in> {AlternatePlan, FallbackSkill, AlternateTool, GracefulPartial}" by (cases x) auto
  qed
  then have "card (set (filter (\<lambda>s. s \<noteq> Retry) ss)) \<le> card {AlternatePlan, FallbackSkill, AlternateTool, GracefulPartial}"
    by (rule card_mono [rotated]) simp
  then have "length (filter (\<lambda>s. s \<noteq> Retry) ss) \<le> 4" using distinct_card [OF d] by simp
  then show ?thesis using sum_length_filter_compl [of "\<lambda>s. s = Retry" ss] by (simp add: retries_def)
qed

text \<open>
  C19. The recovery trail of an invocation is a complete account: attempts are numbered from 1
  without gaps, every event but the last one is an applied strategy, and the run ends with an
  \<open>exhausted\<close> event exactly when something was tried and the result is still failed. No strategy
  was applied to a policy failure or by a disabled policy, none outside the policy or reserved for
  people and child agents, none but \<open>retry\<close> twice, and \<open>retry\<close> at most \<open>maxRetries\<close>
  times: at most \<open>maxRetries + 4\<close> strategies in all.
\<close>

theorem recovery_trail:
  assumes "invoke_with_recovery policy hooks adapter inp w env = (Inr (result, tools, events), w', env')"
  shows "trail_ok policy events \<and> (\<forall>e \<in> set (butlast events). re_status e = Applied)
    \<and> (events \<noteq> [] \<longrightarrow> (re_status (last events) = Exhausted \<longleftrightarrow> res_status result = Failed))
    \<and> int (length (applied events)) \<le> max 0 (policy_max policy) + 4"
proof -
  obtain r tools0 w0 env0 where loop: "recovery_loop policy hooks adapter inp \<lparr>rv_result = r, rv_used = [],
      rv_attempt = 0, rv_tools = tools0, rv_events = [], rv_world = w0, rv_env = env0\<rparr> = (Inr (result, tools, events), w', env')"
    (is "recovery_loop policy hooks adapter inp ?s = _") using invoke_with_recovery_Inr [OF assms] by metis
  have init: "recovery_ok policy ?s" by (simp add: recovery_ok_def trail_ok_def applied_def)
  have "\<forall>result tools events w env. recovery_loop policy hooks adapter inp ?s = (Inr (result, tools, events), w, env)
      \<longrightarrow> outcome_ok policy result events"
    by (rule recovery.run_invariant [where P = "recovery_ok policy", OF init])
       (auto intro: recovery_ok_Next recovery_ok_Stop)
  with loop have o: "outcome_ok policy result events" by blast
  then have t: "trail_ok policy events" by (simp add: outcome_ok_def)
  then have "set (applied events) \<inter> {Hitl, NarrowedChild} = {}" by (auto simp: trail_ok_def)
  with applied_bound [of "applied events"] t have "int (length (applied events)) \<le> int (retries (applied events)) + 4"
    by (simp add: trail_ok_def)
  with t have "int (length (applied events)) \<le> max 0 (policy_max policy) + 4" by (simp add: trail_ok_def)
  with o t show ?thesis by (simp add: outcome_ok_def)
qed

text \<open>
  A failure that is classified as a policy failure is final: whatever the recovery policy, the
  adapter is not invoked again and the failed result is returned as it is, with an empty trail.
\<close>

theorem policy_failure_final:
  assumes "invoke_once hooks adapter inp w env = (Inr r, tools, w', env')" "classify_failure r = PolicyFailure"
  shows "invoke_with_recovery policy hooks adapter inp w env = (Inr (r, tools, []), w', env')"
  using assms by (simp add: invoke_with_recovery_def recovery_loop.simps recovery_step_def next_strategy_def finish_recovery_def)

text \<open>A parsed policy is within bounds and only knows documented strategies.\<close>

lemma parse_recovery_policy_bounds:
  assumes "parse_recovery_policy v = Inr p"
  shows "0 \<le> policy_max p" "policy_max p \<le> max_safe_integer"
proof -
  have "0 \<le> n \<and> n \<le> max_safe_integer" if "parse_max_retries x = Inr n" for x n
    using that by (cases x) (auto simp: parse_max_retries_def recovery_fail_def is_safe_integer_def max_safe_integer_def split: if_splits)
  then show "0 \<le> policy_max p" "policy_max p \<le> max_safe_integer"
    using assms by (cases v; auto simp: bind_res_eq_Inr enabled_policy_def disabled_policy_def policy_max_def
        recovery_fail_def max_safe_integer_def split: if_splits)+
qed

section \<open>Authority over a run\<close>

text \<open>
  What \<open>runHooks\<close> promises for one hook carries over to the whole recovery loop as long as no
  middleware handles the tool hooks, which run inside the adapter's call.
\<close>

locale recovery_hooks = hook_runner run handled for run :: "'w hooks" and handled
begin

lemma run_act_keeps:
  assumes "\<not> handled BeforeTool" "\<not> handled AfterTool"
  shows "run_act run a env tools = (r, tools', w', env') \<Longrightarrow> same_authority env' env"
proof (induction a arbitrary: tools)
  case (EmitTool w before tool payload k)
  have "run (if before then BeforeTool else AfterTool) (ToolExtra tool payload) w env = (Inr (), w, env)"
    using assms by (simp add: run_unhandled)
  with EmitTool.prems EmitTool.IH [OF rangeI rangeI] show ?case by (auto split: if_splits)
qed simp

lemma invoke_once_keeps:
  assumes "\<not> handled BeforeTool" "\<not> handled AfterTool" "invoke_once run adapter inp w env = (Inr r, tools, w', env')"
  shows "same_authority env' env"
proof -
  obtain w1 env1 where b: "run BeforeAgent NoExtra w env = (Inr (), w1, env1)"
    using assms(3) by (auto simp: invoke_once_def split: prod.splits sum.splits)
  obtain q t w2 env2 where a: "run_act run (adapter inp env w1) env1 [] = (q, t, w2, env2)" by (metis prod_cases4)
  have "same_authority env1 env" "same_authority env2 env1"
    using run_keeps [OF b] run_act_keeps [OF assms(1,2) a] by simp_all
  then have e2: "same_authority env2 env" by (rule same_authority_trans [rotated])
  from assms(3) a b consider "env' = env2"
    | e w3 where "run OnError (ResultExtra (thrown_result e)) w2 env2 = (Inr (), w3, env')"
    by (auto simp: invoke_once_def split: prod.splits sum.splits)
  then show ?thesis using e2 same_authority_trans run_keeps by cases blast+
qed

lemma recovery_keeps:
  assumes "\<not> handled BeforeTool" "\<not> handled AfterTool"
    and "invoke_with_recovery policy run adapter inp w env = (Inr (result, tools, events), w', env')"
  shows "same_authority env' env"
proof -
  obtain r tools0 w0 env0 where once: "invoke_once run adapter inp w env = (Inr r, tools0, w0, env0)"
    and loop: "recovery_loop policy run adapter inp \<lparr>rv_result = r, rv_used = [],
      rv_attempt = 0, rv_tools = tools0, rv_events = [], rv_world = w0, rv_env = env0\<rparr> = (Inr (result, tools, events), w', env')"
    (is "recovery_loop policy run adapter inp ?s = _") using invoke_with_recovery_Inr [OF assms(3)] by metis
  have init: "same_authority (rv_env ?s) env" using invoke_once_keeps [OF assms(1,2) once] by simp
  have "\<forall>q w env'. recovery_loop policy run adapter inp ?s = (Inr q, w, env') \<longrightarrow> same_authority env' env"
  proof (rule recovery.run_invariant [where P = "\<lambda>s. same_authority (rv_env s) env", OF init])
    fix s s'
    assume s: "same_authority (rv_env s) env" and n: "recovery_step policy run adapter inp s = Next s'"
    from n show "same_authority (rv_env s') env"
    proof (cases rule: recovery_step_Next)
      case (1 strategy w env r tools w' env')
      with run_keeps [OF 1(4)] invoke_once_keeps [OF assms(1,2) 1(5)] s show ?thesis
        by (auto intro: same_authority_trans)
    qed
  next
    fix s r
    assume s: "same_authority (rv_env s) env" and st: "recovery_step policy run adapter inp s = Stop r"
    have "env' = rv_env s \<or> (\<exists>x w1. run OnRecovery x (rv_world s) (rv_env s) = (Inr (), w1, env'))" if "r = (Inr q, w, env')" for q w env'
      using st that
      by (auto simp: recovery_step_def apply_strategy_def finish_recovery_def Let_def split: if_splits option.splits prod.splits sum.splits)
    then show "\<forall>q w env'. r = (Inr q, w, env') \<longrightarrow> same_authority env' env"
      using s run_keeps same_authority_trans by blast
  qed
  with loop show ?thesis by blast
qed

end

interpretation hooked: recovery_hooks "run_hooks ms" "handles ms" for ms :: "(hook_extra, 'w) middleware list"
  by unfold_locales

text \<open>
  Middleware cannot change the authority a run was compiled with: over a whole invocation with
  recovery that returns, whatever the other hooks do, the envelope keeps the same capabilities and
  the same dependency root, provided no middleware handles \<open>beforeTool\<close> or \<open>afterTool\<close>.
\<close>

theorem recovery_keeps_authority:
  assumes "\<not> handles ms BeforeTool" "\<not> handles ms AfterTool"
    and "invoke_with_recovery policy (run_hooks ms) adapter inp w env = (Inr (result, tools, events), w', env')"
  shows "env_capabilities_ref env' = env_capabilities_ref env \<and> env_dependency_root env' = env_dependency_root env"
  using hooked.recovery_keeps [OF assms] by (simp add: same_authority_def)

section \<open>Termination\<close>

lemma recovery_turns_used:
  "reaches (recovery_step policy hooks adapter inp) s n t \<Longrightarrow> length (rv_used t) = length (rv_used s) + n"
proof (induction rule: reaches.induct)
  case (reaches_step s t n u)
  from reaches_step.hyps(1) have "length (rv_used t) = Suc (length (rv_used s))" by (rule recovery_step_Next) simp
  with reaches_step.IH show ?case by simp
qed simp

lemma recovery_rank_start: "recovery_rank policy [] = nat (policy_max policy) + 3"
  by (simp add: recovery_rank_def)

text \<open>
  C34. An invocation with recovery always comes to an end, whatever the adapter and the middleware
  answer: after the first invocation the loop turns at most \<open>maxRetries\<close> and three times, each turn
  uses one more strategy and invokes the adapter once more, and the turn after them stops with the
  outcome of the whole invocation.
\<close>

theorem recovery_terminates:
  assumes "invoke_once hooks adapter inp w env = (Inr r, tools, w', env')"
  shows "\<exists>n t. reaches (recovery_step policy hooks adapter inp) \<lparr>rv_result = r, rv_used = [], rv_attempt = 0, rv_tools = tools,
        rv_events = [], rv_world = w', rv_env = env'\<rparr> n t
      \<and> n \<le> nat (policy_max policy) + 3 \<and> length (rv_used t) = n
      \<and> recovery_step policy hooks adapter inp t = Stop (invoke_with_recovery policy hooks adapter inp w env)"
proof -
  let ?s = "\<lparr>rv_result = r, rv_used = [], rv_attempt = 0, rv_tools = tools, rv_events = [], rv_world = w', rv_env = env'\<rparr>"
  obtain n t where "reaches (recovery_step policy hooks adapter inp) ?s n t" "n \<le> recovery_rank policy (rv_used ?s)"
      "recovery_step policy hooks adapter inp t = Stop (recovery_loop policy hooks adapter inp ?s)"
    using recovery.run_last_step [of policy hooks adapter inp ?s] by blast
  with recovery_turns_used [OF this(1)] assms show ?thesis
    by (intro exI [of _ n] exI [of _ t]) (simp add: recovery_rank_start invoke_with_recovery_def)
qed

section \<open>Concrete runs\<close>

definition demo_envelope :: context_envelope where
  "demo_envelope = \<lparr>env_task = \<lparr>task_id = None, objective = ''o'', inputs = JUndef, constraints = [], success_criteria = [''c''],
      required_capabilities = [], preferred_skills = [], prohibited_actions = None, task_budget = None, output_schema = JUndef,
      evidence_requirements = []\<rparr>, env_evidence = [], env_memories = [], env_skills = [], env_constraints = [],
     env_capabilities = \<lparr>ac_level = L0, ac_tools = True, ac_resume = False, ac_observe = False, ac_interrupt = False, ac_limitations = []\<rparr>,
     env_capabilities_ref = 0, env_budget = [], env_dependency_root = ''root'', env_receipts = []\<rparr>"

text \<open>An adapter that fails as often as the world says, with an error that is no policy failure.\<close>

definition ok_result :: invocation_result where
  "ok_result = \<lparr>res_status = Succeeded, res_output = JStr ''y'', res_error = None, res_tool_calls = None, res_tokens = None\<rparr>"

definition failed_result :: invocation_result where
  "failed_result = \<lparr>res_status = Failed, res_output = JStr [], res_error = Some ''x'', res_tool_calls = None, res_tokens = None\<rparr>"

definition flaky_adapter :: "nat adapter" where
  "flaky_adapter inp env n = (if n = 0 then Done 0 (Inr ok_result) else Done (n - 1) (Inr failed_result))"

lemma flaky_class: "classify_failure failed_result = UnknownFailure"
  by code_simp

lemma enabled_first: "next_strategy enabled_policy UnknownFailure [] = Some Retry"
  by code_simp

lemma flaky_run:
  "invoke_with_recovery enabled_policy (run_hooks []) flaky_adapter JNull 1 demo_envelope
     = (Inr (ok_result, [], [\<lparr>re_class = UnknownFailure, re_strategy = Retry, re_attempt = 1, re_status = Applied, re_detail = None\<rparr>]),
        0, demo_envelope)"
proof -
  have hooks: "run_hooks [] h x w env = (Inr (), w, env)" for h x and w :: nat and env
    by (simp add: run_hooks_def)
  have "needs_recovery failed_result" "\<not> needs_recovery ok_result"
    by (simp_all add: needs_recovery_def failed_result_def ok_result_def)
  then show ?thesis
    by (simp add: invoke_with_recovery_def invoke_once_def hooks flaky_adapter_def recovery_loop.simps recovery_step_def
        flaky_class enabled_first apply_strategy_def Let_def finish_recovery_def)
qed

theorem recovery_trail_witness:
  "trail_ok enabled_policy [\<lparr>re_class = UnknownFailure, re_strategy = Retry, re_attempt = 1, re_status = Applied, re_detail = None\<rparr>]"
  using recovery_trail [OF flaky_run] by blast

theorem recovery_terminates_witness:
  "\<exists>n t. n \<le> nat (policy_max enabled_policy) + 3 \<and> length (rv_used t) = n
     \<and> recovery_step enabled_policy (run_hooks []) flaky_adapter JNull t
         = Stop (invoke_with_recovery enabled_policy (run_hooks []) flaky_adapter JNull 1 demo_envelope)"
proof -
  have "invoke_once (run_hooks []) flaky_adapter JNull 1 demo_envelope = (Inr failed_result, [], 0, demo_envelope)"
    by (simp add: invoke_once_def run_hooks_def flaky_adapter_def)
  from recovery_terminates [OF this] show ?thesis by blast
qed

theorem recovery_keeps_authority_witness:
  "\<exists>q w' env'. invoke_with_recovery enabled_policy (run_hooks []) flaky_adapter JNull 1 demo_envelope = (Inr q, w', env')
     \<and> env_dependency_root env' = ''root''"
proof -
  have "\<not> handles [] BeforeTool" "\<not> handles [] AfterTool" by (simp_all add: handles_def)
  from recovery_keeps_authority [OF this flaky_run] flaky_run show ?thesis by (simp add: demo_envelope_def)
qed

definition denied_adapter :: "unit adapter" where
  "denied_adapter inp env w = Done w (Inl (PlainError ''denied''))"

theorem policy_failure_final_witness:
  "\<exists>r. invoke_with_recovery enabled_policy (run_hooks []) denied_adapter JNull () demo_envelope = (Inr (r, [], []), (), demo_envelope)
     \<and> res_status r = Failed"
proof -
  have once: "invoke_once (run_hooks []) denied_adapter JNull () demo_envelope = (Inr (thrown_result (PlainError ''denied'')), [], (), demo_envelope)"
    by (simp add: invoke_once_def run_hooks_def denied_adapter_def)
  have cls: "classify_failure (thrown_result (PlainError ''denied'')) = PolicyFailure" by code_simp
  from policy_failure_final [OF once cls, of enabled_policy] show ?thesis by (simp add: thrown_result_def)
qed

text \<open>
  The proviso on the tool hooks is needed: \<open>runHooks\<close> throws after the handler has replaced the
  envelope and does not restore it, and the adapter may catch what \<open>emitTool\<close> throws. Here a
  \<open>beforeTool\<close> handler assigns an envelope with other capabilities and another root, the
  adapter ignores the error, and the run succeeds with the replaced authority.
\<close>

definition usurping_middleware :: "(hook_extra, unit) middleware" where
  "usurping_middleware = [(BeforeTool, \<lambda>x w env. (Inr (), w, env\<lparr>env_capabilities_ref := 1, env_dependency_root := ''other''\<rparr>))]"

definition careless_adapter :: "unit adapter" where
  "careless_adapter inp env w = EmitTool w True ''t'' JNull (\<lambda>_ w. Done w (Inr ok_result))"

lemma tool_hook_replaces_authority:
  "invoke_with_recovery policy (run_hooks [usurping_middleware]) careless_adapter JNull () demo_envelope
     = (Inr (ok_result, [], []), (), demo_envelope\<lparr>env_capabilities_ref := 1, env_dependency_root := ''other''\<rparr>)"
proof -
  have "\<not> needs_recovery ok_result" by (simp add: needs_recovery_def ok_result_def)
  then show ?thesis
    by (simp add: invoke_with_recovery_def invoke_once_def run_hooks_def usurping_middleware_def careless_adapter_def
        same_authority_def demo_envelope_def recovery_loop.simps recovery_step_def finish_recovery_def)
qed

end
