(* ===== verification/Skill_Acquisition.thy ===== *)
theory Skill_Acquisition
  imports Skill_Resolver Pack_Codec Dependency_Activation Recovery
begin

text \<open>
  Acquisition of skills from a registry (\<open>skills/acquire.ts\<close>): the capabilities and pinned
  skills the local index does not provide are searched for, the hits are ranked, and packs that
  cover something within the authority are pulled, read and staged for the next run. The registry is
  a pair of operations on a state \<open>'r\<close>.
\<close>

section \<open>Queries and ranking\<close>

definition max_pulls :: nat where
  "max_pulls = 8"

type_synonym 'r search = "'r \<Rightarrow> search_query \<Rightarrow> search_hit list result \<times> 'r"
type_synonym 'r pull = "'r \<Rightarrow> pull_input \<Rightarrow> pack_bytes result \<times> 'r"

definition search_queries :: "string list \<Rightarrow> string list \<Rightarrow> string list" where
  "search_queries gaps missing =
     (let parts = sorted_set (gaps @ missing) in filter (\<lambda>q. q \<noteq> []) (sorted_set (js_join '' '' parts # parts)))"

fun put_hits :: "search_hit list \<Rightarrow> (string, search_hit) js_map \<Rightarrow> (string, search_hit) js_map" where
  "put_hits [] m = m"
| "put_hits (h # hs) m = put_hits hs (map_put (pack_key (sh_name h) (sh_version h)) h m)"

fun search_all :: "'r search \<Rightarrow> string list \<Rightarrow> (string, search_hit) js_map \<Rightarrow> 'r \<Rightarrow> (string, search_hit) js_map result \<times> 'r" where
  "search_all search [] m r = (Inr m, r)"
| "search_all search (q # qs) m r =
     (case search r \<lparr>sq_q = Some q, sq_license = None\<rparr> of
        (Inl e, r') \<Rightarrow> (Inl e, r')
      | (Inr hits, r') \<Rightarrow> search_all search qs (put_hits hits m) r')"

definition compare_hits :: "locale_compare \<Rightarrow> search_hit \<Rightarrow> search_hit \<Rightarrow> int" where
  "compare_hits lc = cmp_then (cmp_on sh_name lc) (cmp_on sh_version lc)"

definition collect_hits :: "locale_compare \<Rightarrow> 'r search \<Rightarrow> string list \<Rightarrow> 'r \<Rightarrow> search_hit list result \<times> 'r" where
  "collect_hits lc search queries r =
     (case search_all search queries [] r of
        (Inl e, r') \<Rightarrow> (Inl e, r')
      | (Inr m, r') \<Rightarrow> (Inr (js_sort (compare_hits lc) (map snd m)), r'))"

definition hit_score :: "task_v1 \<Rightarrow> string list \<Rightarrow> string list \<Rightarrow> search_hit \<Rightarrow> int" where
  "hit_score task gaps missing h =
     lexical_score (js_join '' '' ([objective task] @ gaps @ missing))
       (sh_name h @ '' '' @ sh_publisher h @ '' '' @ sh_slug h @ '' ''
          @ (case sh_description h of Some d \<Rightarrow> d | None \<Rightarrow> []) @ '' '' @ js_join '' '' gaps)"

definition rank_hits :: "locale_compare \<Rightarrow> search_hit list \<Rightarrow> task_v1 \<Rightarrow> string list \<Rightarrow> string list \<Rightarrow> (search_hit \<times> int) list" where
  "rank_hits lc hits task gaps missing =
     js_sort (cmp_then (cmp_on snd cmp_desc) (cmp_on fst (compare_hits lc))) (map (\<lambda>h. (h, hit_score task gaps missing h)) hits)"

section \<open>Looking into a pack\<close>

definition allowlisted :: "string \<Rightarrow> string \<Rightarrow> string list \<Rightarrow> bool" where
  "allowlisted name version allowlist \<longleftrightarrow> name \<in> set allowlist \<or> pack_key name version \<in> set allowlist"

text \<open>\<open>skill[field] ?? []\<close> as an array; anything else has no \<open>some\<close> and \<open>every\<close>.\<close>

definition list_at :: "string \<Rightarrow> jsval \<Rightarrow> jsval list result" where
  "list_at field v =
     (case js_get (members_of v) field of
        JUndef \<Rightarrow> Inr [] | JNull \<Rightarrow> Inr [] | JArr xs \<Rightarrow> Inr xs | _ \<Rightarrow> Inl (TypeError (field @ '' is not an array'')))"

definition among :: "string list \<Rightarrow> jsval \<Rightarrow> bool" where
  "among ss v \<longleftrightarrow> v \<in> JStr ` set ss"

definition covers :: "string list \<Rightarrow> string list \<Rightarrow> jsval \<Rightarrow> bool result" where
  "covers gaps missing v =
     bind_res (skill_key v) (\<lambda>k.
       if among missing k then Inr True
       else bind_res (list_at ''requiredCapabilities'' v) (\<lambda>cs. Inr (list_ex (among gaps) cs)))"

definition authorized_json :: "effective_authority \<Rightarrow> jsval \<Rightarrow> bool result" where
  "authorized_json authority v =
     bind_res (list_at ''requiredCapabilities'' v) (\<lambda>cs.
       if \<not> list_all (among (ea_capabilities authority)) cs then Inr False
       else bind_res (list_at ''requiredTools'' v) (\<lambda>ts. Inr (list_all (among (ea_tools authority)) ts)))"

definition inspect_pack :: "pack_host \<Rightarrow> (nat list \<Rightarrow> unit result) option \<Rightarrow> nat list \<Rightarrow> search_hit \<Rightarrow> capability_metadata option" where
  "inspect_pack host verify bytes h =
     (let text = js_trim (ph_decode host bytes);
          refused = (case verify of
              Some f \<Rightarrow> \<not> js_starts_with text ''{'' \<and> isl (f bytes) | None \<Rightarrow> False) in
      if refused then None
      else case decode_capability_pack host bytes (Some (sh_name h)) (Some (sh_sha256 h)) of Inl e \<Rightarrow> None | Inr m \<Rightarrow> Some m)"

section \<open>The loop over the hits\<close>

record 'r acquire_input =
  aqi_task :: task_v1
  aqi_index :: capability_index
  aqi_authority :: effective_authority
  aqi_trust :: trust_policy
  aqi_selected :: "string list"
  aqi_pull :: "'r pull"
  aqi_search :: "'r search"
  aqi_inspect :: "nat list \<Rightarrow> search_hit \<Rightarrow> capability_metadata option"

record 'r acquire_state =
  aqs_registry :: 'r
  aqs_activation :: activation
  aqs_candidates :: "acquisition_candidate list"
  aqs_staged :: "staged_pack list"
  aqs_packs :: "capability_metadata list"
  aqs_gaps :: "string list"
  aqs_pins :: "string list"
  aqs_pulls :: nat
  aqs_pulled :: bool

definition candidate_row :: "search_hit \<times> int \<Rightarrow> acquisition_decision \<Rightarrow> string option \<Rightarrow> acquisition_candidate" where
  "candidate_row item decision reason = \<lparr>ac_name = sh_name (fst item), ac_version = sh_version (fst item),
     ac_sha256 = sh_sha256 (fst item), ac_score = snd item, ac_decision = decision, ac_reason = nonempty_string reason\<rparr>"

definition note_candidate :: "search_hit \<times> int \<Rightarrow> acquisition_decision \<Rightarrow> string option \<Rightarrow> 'r acquire_state \<Rightarrow> 'r acquire_state" where
  "note_candidate item decision reason s = s\<lparr>aqs_candidates := aqs_candidates s @ [candidate_row item decision reason]\<rparr>"

definition hit_dependency :: "search_hit \<Rightarrow> nat \<Rightarrow> pack_dependency result" where
  "hit_dependency h bytes_length = pack_dependency_from_manifest
     \<lparr>pm_name = sh_name h, pm_version = sh_version h, pm_sha256 = sh_sha256 h, pm_state_root = nonempty_string (sh_state_root h),
      pm_url = [], pm_license = nonempty_string (sh_license h), pm_size_bytes = int bytes_length, pm_yanked = False, pm_format = None\<rparr> ''skill''"

definition skill_keys :: "jsval list \<Rightarrow> jsval list result" where
  "skill_keys = map_res skill_key"

text \<open>Some usable skill is already indexed, or has the id of a skill of a pack taken in this round.\<close>

definition already_present :: "capability_index \<Rightarrow> capability_metadata list \<Rightarrow> jsval list \<Rightarrow> bool result" where
  "already_present ix packs chosen =
     bind_res (skill_keys chosen) (\<lambda>ks.
       if list_ex (\<lambda>k. index_skill ix k \<noteq> None) ks then Inr True
       else bind_res (skill_keys (concat (map cm_skills packs))) (\<lambda>js. Inr (list_ex (\<lambda>j. j \<in> set ks) js)))"

text \<open>The usable skills passed the reads of their ids and capabilities just before, so these are total.\<close>

definition key_of :: "jsval \<Rightarrow> jsval" where
  "key_of v = (case skill_key v of Inr k \<Rightarrow> k | Inl e \<Rightarrow> JUndef)"

definition capabilities_of :: "jsval \<Rightarrow> jsval list" where
  "capabilities_of v = (case list_at ''requiredCapabilities'' v of Inr cs \<Rightarrow> cs | Inl e \<Rightarrow> [])"

definition stage_pack :: "locale_compare \<Rightarrow> search_hit \<times> int \<Rightarrow> nat list \<Rightarrow> capability_metadata \<Rightarrow> jsval list
    \<Rightarrow> 'r acquire_state \<Rightarrow> unit result \<times> 'r acquire_state" where
  "stage_pack lc item bytes m chosen s =
     (case hit_dependency (fst item) (length bytes) of
        Inl e \<Rightarrow> (Inl e, s)
      | Inr d \<Rightarrow>
          (case activation_stage lc d (aqs_activation s) of
             (Inl e, act) \<Rightarrow> (Inl e, s\<lparr>aqs_activation := act\<rparr>)
           | (Inr _, act) \<Rightarrow>
               (Inr (), note_candidate item Staged None (s\<lparr>aqs_activation := act,
                  aqs_staged := aqs_staged s @ [\<lparr>st_name = pd_name d, st_version = pd_version d, st_sha256 = pd_sha256 d\<rparr>],
                  aqs_packs := aqs_packs s @ [m],
                  aqs_gaps := filter (\<lambda>g. JStr g \<notin> set (concat (map capabilities_of chosen))) (aqs_gaps s),
                  aqs_pins := filter (\<lambda>i. JStr i \<notin> set (map key_of chosen)) (aqs_pins s)\<rparr>))))"

definition consider_pack :: "locale_compare \<Rightarrow> 'r acquire_input \<Rightarrow> search_hit \<times> int \<Rightarrow> nat list \<Rightarrow> 'r acquire_state
    \<Rightarrow> unit result \<times> 'r acquire_state" where
  "consider_pack lc inp item bytes s =
     (case aqi_inspect inp bytes (fst item) of
        None \<Rightarrow> (Inr (), note_candidate item SkippedPack (Some ''unreadable'') s)
      | Some m \<Rightarrow>
          (case filter_res (covers (aqs_gaps s) (aqs_pins s)) (cm_skills m) of
             Inl e \<Rightarrow> (Inl e, s)
           | Inr covering \<Rightarrow>
               if covering = [] then (Inr (), note_candidate item SkippedPack (Some ''no_cover'') s)
               else (case filter_res (authorized_json (aqi_authority inp)) covering of
                   Inl e \<Rightarrow> (Inl e, s)
                 | Inr chosen \<Rightarrow>
                     if chosen = [] then (Inr (), note_candidate item SkippedPack (Some ''authority'') s)
                     else (case already_present (aqi_index inp) (aqs_packs s) chosen of
                         Inl e \<Rightarrow> (Inl e, s)
                       | Inr True \<Rightarrow> (Inr (), note_candidate item SkippedPack (Some ''duplicate'') s)
                       | Inr False \<Rightarrow> stage_pack lc item bytes m chosen s))))"

definition acquire_item :: "locale_compare \<Rightarrow> 'r acquire_input \<Rightarrow> search_hit \<times> int \<Rightarrow> 'r acquire_state \<Rightarrow> unit result \<times> 'r acquire_state" where
  "acquire_item lc inp item s =
     (let h = fst item; mode = tp_registry (aqi_trust inp);
          allow = (case tp_allowlist (aqi_trust inp) of Some xs \<Rightarrow> xs | None \<Rightarrow> []) in
      if sh_yanked h then (Inr (), note_candidate item SkippedPack (Some ''yanked'') s)
      else if mode = AcquireApproved \<and> \<not> allowlisted (sh_name h) (sh_version h) allow
      then (Inr (), note_candidate item SkippedPack (Some ''policy'') s)
      else if has_pack (aqi_index inp) (sh_name h) \<or> list_ex (\<lambda>m. cm_pack_id m = sh_name h) (aqs_packs s)
      then (Inr (), note_candidate item SkippedPack (Some ''duplicate'') s)
      else if mode = Discover then (Inr (), note_candidate item Discovered None s)
      else if max_pulls \<le> aqs_pulls s then (Inr (), note_candidate item SkippedPack (Some ''budget'') s)
      else
        let s1 = s\<lparr>aqs_pulls := aqs_pulls s + 1\<rparr> in
        case aqi_pull inp (aqs_registry s1) (PullSpec (SpecText (pack_key (sh_name h) (sh_version h)))) of
          (Inl e, r) \<Rightarrow> (Inr (), note_candidate item SkippedPack (Some (error_message e)) (s1\<lparr>aqs_registry := r\<rparr>))
        | (Inr (_, bytes), r) \<Rightarrow> consider_pack lc inp item bytes (s1\<lparr>aqs_registry := r, aqs_pulled := True\<rparr>))"

fun acquire_loop :: "locale_compare \<Rightarrow> 'r acquire_input \<Rightarrow> (search_hit \<times> int) list \<Rightarrow> 'r acquire_state \<Rightarrow> unit result \<times> 'r acquire_state" where
  "acquire_loop lc inp [] s = (Inr (), s)"
| "acquire_loop lc inp (item # items) s =
     (if aqs_gaps s = [] \<and> aqs_pins s = [] then (Inr (), s)
      else case acquire_item lc inp item s of
          (Inl e, s') \<Rightarrow> (Inl e, s')
        | (Inr _, s') \<Rightarrow> acquire_loop lc inp items s')"

definition acquire_skills :: "locale_compare \<Rightarrow> 'r acquire_input \<Rightarrow> 'r \<Rightarrow> activation
    \<Rightarrow> (acquisition_receipt \<times> capability_metadata list) result \<times> 'r \<times> activation" where
  "acquire_skills lc inp r act =
     (let mode = tp_registry (aqi_trust inp); publish = normalize_publish (tp_publish (aqi_trust inp)) in
      case capability_gaps (aqi_task inp) (aqi_index inp) (aqi_selected inp) of
        Inl e \<Rightarrow> (Inl e, r, act)
      | Inr gaps \<Rightarrow>
          let missing = missing_preferred (aqi_task inp) (aqi_index inp) in
          if mode = RegistryDisabled \<or> gaps = [] \<and> missing = []
          then (Inr (empty_acquisition mode publish gaps missing, []), r, act)
          else if mode = AcquireApproved \<and> (case tp_allowlist (aqi_trust inp) of Some xs \<Rightarrow> xs = [] | None \<Rightarrow> True)
          then (harness_fail ''acquire-approved requires a pack allowlist'', r, act)
          else case collect_hits lc (aqi_search inp) (search_queries gaps missing) r of
              (Inl e, r1) \<Rightarrow> (Inl e, r1, act)
            | (Inr hits, r1) \<Rightarrow>
                (case acquire_loop lc inp (rank_hits lc hits (aqi_task inp) gaps missing)
                    \<lparr>aqs_registry = r1, aqs_activation = act, aqs_candidates = [], aqs_staged = [], aqs_packs = [],
                     aqs_gaps = gaps, aqs_pins = missing, aqs_pulls = 0, aqs_pulled = False\<rparr> of
                   (Inl e, s) \<Rightarrow> (Inl e, aqs_registry s, aqs_activation s)
                 | (Inr _, s) \<Rightarrow> (Inr (\<lparr>aq_registry = mode, aq_publish = publish, aq_gaps = gaps, aq_missing = missing,
                       aq_queried = True, aq_pulled = aqs_pulled s, aq_staged = aqs_staged s, aq_candidates = aqs_candidates s\<rparr>,
                       aqs_packs s), aqs_registry s, aqs_activation s)))"

section \<open>The invariant of the loop\<close>

lemma activation_stage_frame:
  "activation_stage lc d a = (r, a') \<Longrightarrow> da_frozen a' = da_frozen a \<and> da_active a' = da_active a \<and> da_pending a' = da_pending a"
  by (auto simp: activation_stage_def split: sum.splits)

lemma hit_dependency_Inr: "hit_dependency h n = Inr d \<Longrightarrow> pd_name d = sh_name h \<and> pd_version d = sh_version h \<and> pd_sha256 d = sh_sha256 h"
  by (auto simp: hit_dependency_def pack_dependency_from_manifest_def dest!: normalize_Inr)

text \<open>The digest that is staged is the one of the search hit; the manifest of the pulled bytes is not looked at.\<close>

lemma staged_digest_of_hit:
  "stage_pack lc item bytes m chosen s = (Inr u, s') \<Longrightarrow> st_sha256 (last (aqs_staged s')) = sh_sha256 (fst item)"
  by (auto simp: stage_pack_def note_candidate_def dest!: hit_dependency_Inr split: sum.splits prod.splits)

definition allowed_by :: "trust_policy \<Rightarrow> string \<Rightarrow> string \<Rightarrow> bool" where
  "allowed_by trust name version \<longleftrightarrow>
     tp_registry trust \<noteq> AcquireApproved
     \<or> allowlisted name version (case tp_allowlist trust of Some xs \<Rightarrow> xs | None \<Rightarrow> [])"

definition acquire_ok :: "'r acquire_input \<Rightarrow> activation \<Rightarrow> 'r acquire_state \<Rightarrow> bool" where
  "acquire_ok inp act s \<longleftrightarrow>
     da_frozen (aqs_activation s) = da_frozen act \<and> da_active (aqs_activation s) = da_active act
     \<and> length (aqs_staged s) \<le> aqs_pulls s \<and> aqs_pulls s \<le> max_pulls \<and> length (aqs_packs s) = length (aqs_staged s)
     \<and> (tp_registry (aqi_trust inp) = Discover \<longrightarrow> aqs_pulls s = 0 \<and> \<not> aqs_pulled s \<and> aqs_activation s = act)
     \<and> list_all (\<lambda>st. allowed_by (aqi_trust inp) (st_name st) (st_version st)) (aqs_staged s)
     \<and> list_all (\<lambda>m. list_ex (\<lambda>v. authorized_json (aqi_authority inp) v = Inr True) (cm_skills m)) (aqs_packs s)"

lemma note_candidate_ok [simp]: "acquire_ok inp act (note_candidate item d r s) = acquire_ok inp act s"
  by (simp add: acquire_ok_def note_candidate_def)

lemma stage_pack_ok:
  assumes "acquire_ok inp act s" "length (aqs_staged s) < aqs_pulls s" "tp_registry (aqi_trust inp) \<noteq> Discover"
    and "allowed_by (aqi_trust inp) (sh_name (fst item)) (sh_version (fst item))"
    and "list_ex (\<lambda>v. authorized_json (aqi_authority inp) v = Inr True) (cm_skills m)"
  shows "acquire_ok inp act (snd (stage_pack lc item bytes m chosen s))"
proof (cases "hit_dependency (fst item) (length bytes)")
  case (Inl e)
  with assms(1) show ?thesis by (simp add: stage_pack_def)
next
  case (Inr d)
  obtain r a where st: "activation_stage lc d (aqs_activation s) = (r, a)" by fastforce
  from activation_stage_frame [OF st] hit_dependency_Inr [OF Inr] assms show ?thesis
    by (cases r) (auto simp: stage_pack_def Inr st acquire_ok_def note_candidate_def)
qed

lemma consider_pack_ok:
  assumes "acquire_ok inp act s" "length (aqs_staged s) < aqs_pulls s" "tp_registry (aqi_trust inp) \<noteq> Discover"
    and "allowed_by (aqi_trust inp) (sh_name (fst item)) (sh_version (fst item))"
  shows "acquire_ok inp act (snd (consider_pack lc inp item bytes s))"
proof -
  have stage: "acquire_ok inp act (snd (stage_pack lc item bytes m chosen s))"
    if c: "filter_res (covers (aqs_gaps s) (aqs_pins s)) (cm_skills m) = Inr covering"
      "filter_res (authorized_json (aqi_authority inp)) covering = Inr chosen" "chosen \<noteq> []" for m covering chosen
  proof (rule stage_pack_ok [OF assms])
    have "hd chosen \<in> set chosen" using c(3) by simp
    with filter_res_in [OF c(2)] filter_res_in [OF c(1)]
    show "list_ex (\<lambda>v. authorized_json (aqi_authority inp) v = Inr True) (cm_skills m)"
      by (auto simp: list_ex_iff)
  qed
  show ?thesis
    unfolding consider_pack_def
    using assms(1) stage by (auto split: option.splits sum.splits bool.splits)
qed

lemma acquire_ok_if:
  "(c \<Longrightarrow> acquire_ok inp act (snd a)) \<Longrightarrow> (\<not> c \<Longrightarrow> acquire_ok inp act (snd b))
    \<Longrightarrow> acquire_ok inp act (snd (if c then a else b))"
  by simp

lemma acquire_item_ok:
  assumes ok: "acquire_ok inp act s"
  shows "acquire_ok inp act (snd (acquire_item lc inp item s))"
proof -
  have skip: "acquire_ok inp act (snd (Inr (), note_candidate item d r s))" for d r using ok by simp
  show ?thesis
    unfolding acquire_item_def Let_def
  proof (intro acquire_ok_if skip)
    assume gates: "tp_registry (aqi_trust inp) \<noteq> Discover" "\<not> max_pulls \<le> aqs_pulls s"
      and "\<not> (tp_registry (aqi_trust inp) = AcquireApproved \<and> \<not> allowlisted (sh_name (fst item)) (sh_version (fst item))
        (case tp_allowlist (aqi_trust inp) of None \<Rightarrow> [] | Some xs \<Rightarrow> xs))"
    then have permitted: "allowed_by (aqi_trust inp) (sh_name (fst item)) (sh_version (fst item))"
      by (auto simp: allowed_by_def)
    let ?s1 = "s\<lparr>aqs_pulls := aqs_pulls s + 1\<rparr>"
    obtain res r where pull: "aqi_pull inp (aqs_registry ?s1)
        (PullSpec (SpecText (pack_key (sh_name (fst item)) (sh_version (fst item))))) = (res, r)" by fastforce
    have room: "acquire_ok inp act (?s1\<lparr>aqs_registry := r\<rparr>)" "acquire_ok inp act (?s1\<lparr>aqs_registry := r, aqs_pulled := True\<rparr>)"
      "length (aqs_staged (?s1\<lparr>aqs_registry := r, aqs_pulled := True\<rparr>)) < aqs_pulls (?s1\<lparr>aqs_registry := r, aqs_pulled := True\<rparr>)"
      using ok gates by (simp_all add: acquire_ok_def)
    show "acquire_ok inp act (snd (case aqi_pull inp (aqs_registry ?s1)
          (PullSpec (SpecText (pack_key (sh_name (fst item)) (sh_version (fst item))))) of
        (Inl e, r) \<Rightarrow> (Inr (), note_candidate item SkippedPack (Some (error_message e)) (?s1\<lparr>aqs_registry := r\<rparr>))
      | (Inr (_, bytes), r) \<Rightarrow> consider_pack lc inp item bytes (?s1\<lparr>aqs_registry := r, aqs_pulled := True\<rparr>)))"
      unfolding pull
    proof (cases res)
      case (Inl e)
      show "acquire_ok inp act (snd (case (res, r) of
          (Inl e, r) \<Rightarrow> (Inr (), note_candidate item SkippedPack (Some (error_message e)) (?s1\<lparr>aqs_registry := r\<rparr>))
        | (Inr (_, bytes), r) \<Rightarrow> consider_pack lc inp item bytes (?s1\<lparr>aqs_registry := r, aqs_pulled := True\<rparr>)))"
        unfolding Inl prod.case sum.case snd_conv note_candidate_ok by (rule room(1))
    next
      case (Inr p)
      show "acquire_ok inp act (snd (case (res, r) of
          (Inl e, r) \<Rightarrow> (Inr (), note_candidate item SkippedPack (Some (error_message e)) (?s1\<lparr>aqs_registry := r\<rparr>))
        | (Inr (_, bytes), r) \<Rightarrow> consider_pack lc inp item bytes (?s1\<lparr>aqs_registry := r, aqs_pulled := True\<rparr>)))"
        unfolding Inr prod.case sum.case unfolding case_prod_beta
        by (rule consider_pack_ok [OF room(2,3) gates(1) permitted])
    qed
  qed
qed

lemma acquire_loop_ok: "acquire_ok inp act s \<Longrightarrow> acquire_ok inp act (snd (acquire_loop lc inp items s))"
proof (induction items arbitrary: s)
  case (Cons item items)
  obtain res s' where item: "acquire_item lc inp item s = (res, s')" by fastforce
  with acquire_item_ok [OF Cons.prems, of lc item] have ok: "acquire_ok inp act s'" by simp
  with Cons.IH [of s'] Cons.prems show ?case by (cases res) (simp_all add: item)
qed simp

lemma acquire_policy:
  assumes "acquire_skills lc inp r act = (Inr (rc, packs), r', act')"
  shows "da_frozen act' = da_frozen act \<and> da_active act' = da_active act
    \<and> length (aq_staged rc) \<le> max_pulls \<and> length packs = length (aq_staged rc)
    \<and> (\<forall>st \<in> set (aq_staged rc). allowed_by (aqi_trust inp) (st_name st) (st_version st))
    \<and> (\<forall>m \<in> set packs. \<exists>v \<in> set (cm_skills m). authorized_json (aqi_authority inp) v = Inr True)
    \<and> (tp_registry (aqi_trust inp) \<in> {RegistryDisabled, Discover} \<longrightarrow>
         aq_staged rc = [] \<and> packs = [] \<and> \<not> aq_pulled rc \<and> act' = act)"
proof -
  from assms obtain gaps where gaps: "capability_gaps (aqi_task inp) (aqi_index inp) (aqi_selected inp) = Inr gaps"
    by (auto simp: acquire_skills_def Let_def split: sum.splits)
  let ?mode = "tp_registry (aqi_trust inp)" and ?missing = "missing_preferred (aqi_task inp) (aqi_index inp)"
  show ?thesis
  proof (cases "?mode = RegistryDisabled \<or> gaps = [] \<and> ?missing = []")
    case True
    with assms gaps show ?thesis by (auto simp: acquire_skills_def Let_def empty_acquisition_def)
  next
    case False
    obtain hits r1 where hits: "collect_hits lc (aqi_search inp) (search_queries gaps ?missing) r = (Inr hits, r1)"
      using assms gaps False
      by (cases "collect_hits lc (aqi_search inp) (search_queries gaps ?missing) r")
         (auto simp: acquire_skills_def Let_def harness_fail_def split: sum.splits if_splits)
    let ?s = "\<lparr>aqs_registry = r1, aqs_activation = act, aqs_candidates = [], aqs_staged = [], aqs_packs = [],
                     aqs_gaps = gaps, aqs_pins = ?missing, aqs_pulls = 0, aqs_pulled = False\<rparr>"
    obtain u s where loop: "acquire_loop lc inp (rank_hits lc hits (aqi_task inp) gaps ?missing) ?s = (Inr u, s)"
      and out: "aq_staged rc = aqs_staged s" "aq_pulled rc = aqs_pulled s" "packs = aqs_packs s" "act' = aqs_activation s"
      using assms gaps False hits
      by (cases "acquire_loop lc inp (rank_hits lc hits (aqi_task inp) gaps ?missing) ?s")
         (auto simp: acquire_skills_def Let_def harness_fail_def split: sum.splits if_splits)
    have "acquire_ok inp act ?s" by (simp add: acquire_ok_def max_pulls_def)
    from acquire_loop_ok [OF this, of lc "rank_hits lc hits (aqi_task inp) gaps ?missing"] have ok: "acquire_ok inp act s"
      by (simp add: loop)
    have "length (aqs_staged s) \<le> aqs_pulls s" "aqs_pulls s \<le> max_pulls" using ok by (simp_all add: acquire_ok_def)
    then have "length (aqs_staged s) \<le> max_pulls" by (rule order_trans)
    moreover have "?mode = Discover \<longrightarrow> aqs_staged s = [] \<and> aqs_packs s = [] \<and> \<not> aqs_pulled s \<and> aqs_activation s = act"
      using ok by (auto simp: acquire_ok_def)
    ultimately show ?thesis
      using ok False out by (auto simp: acquire_ok_def list_all_iff list_ex_iff)
  qed
qed

section \<open>Properties\<close>

text \<open>
  C23. Acquisition stays within its policy: it never touches the frozen run (the active dependencies
  and the frozen root are as before); it stages at most eight packs, each with its metadata; every
  staged pack is on the allowlist when the mode demands one and brings a skill the effective
  authority covers; and when the registry is disabled or only to be discovered nothing is pulled or
  staged at all.
\<close>

theorem acquire_within_policy:
  assumes "acquire_skills lc inp r act = (Inr (rc, packs), r', act')"
  shows "da_frozen act' = da_frozen act \<and> da_active act' = da_active act
    \<and> length (aq_staged rc) \<le> max_pulls \<and> length packs = length (aq_staged rc)
    \<and> (\<forall>st \<in> set (aq_staged rc). allowed_by (aqi_trust inp) (st_name st) (st_version st))
    \<and> (\<forall>m \<in> set packs. \<exists>v \<in> set (cm_skills m). authorized_json (aqi_authority inp) v = Inr True)
    \<and> (tp_registry (aqi_trust inp) \<in> {RegistryDisabled, Discover} \<longrightarrow>
         aq_staged rc = [] \<and> packs = [] \<and> \<not> aq_pulled rc \<and> act' = act)"
  using assms by (rule acquire_policy)


section \<open>A concrete acquisition\<close>

text \<open>
  An index without skills, a task that pins the skill \<open>s\<close>, and a registry with one pack that
  provides it.
\<close>

definition demo_hit :: search_hit where
  "demo_hit = \<lparr>sh_name = ''acme/tax'', sh_publisher = ''acme'', sh_slug = ''tax'', sh_version = ''1.0'', sh_sha256 = some_digest,
     sh_state_root = None, sh_license = None, sh_description = None, sh_yanked = False\<rparr>"

definition demo_acquire :: "unit acquire_input" where
  "demo_acquire = \<lparr>aqi_task = skilled_task, aqi_index = empty_index,
     aqi_authority = \<lparr>ea_capabilities = [''cap''], ea_tools = [], ea_namespaces = []\<rparr>,
     aqi_trust = \<lparr>tp_registry = AcquireApproved, tp_allowlist = Some [''acme/tax''], tp_publish = None\<rparr>,
     aqi_selected = [], aqi_pull = (\<lambda>r _. (Inr (demo_manifest, [1, 2]), r)), aqi_search = (\<lambda>r _. (Inr [demo_hit], r)),
     aqi_inspect = (\<lambda>_ h. Some (definitions_pack (sh_name h) [skill_json demo_skill]))\<rparr>"

lemma demo_acquired:
  "\<exists>rc packs act'. acquire_skills code_unit_order demo_acquire () new_activation = (Inr (rc, packs), (), act') \<and> length (aq_staged rc) = 1"
proof -
  have gaps: "capability_gaps skilled_task empty_index [] = Inr []"
    by (simp add: capability_gaps_def skilled_task_def sorted_set_def js_set_def)
  have missing: "missing_preferred skilled_task empty_index = [''s'']"
    by (simp add: missing_preferred_def skilled_task_def sorted_set_def js_set_def empty_index_def index_skill_def)
  have queries: "search_queries [] [''s''] = [''s'']" by code_simp
  have hits: "collect_hits code_unit_order (aqi_search demo_acquire) [''s''] () = (Inr [demo_hit], ())"
    by (simp add: collect_hits_def demo_acquire_def map_put_def)
  have ranked: "rank_hits code_unit_order [demo_hit] skilled_task [] [''s''] = [(demo_hit, hit_score skilled_task [] [''s''] demo_hit)]"
    by (simp add: rank_hits_def)
  have dep: "\<exists>d. hit_dependency demo_hit 2 = Inr d"
  proof -
    have "is_sha256 some_digest" "js_trim ''acme/tax'' \<noteq> []" "js_trim ''1.0'' \<noteq> []" by code_simp+
    then show ?thesis
      by (simp add: hit_dependency_def pack_dependency_from_manifest_def normalize_pack_dependency_def demo_hit_def dependency_roles_def)
  qed
  then obtain d where d: "hit_dependency demo_hit 2 = Inr d" ..
  then have n: "normalize_pack_dependency d = Inr d"
    by (auto simp: hit_dependency_def pack_dependency_from_manifest_def normal_def dest!: normalize_Inr)
  obtain ds where "merge_pack_dependencies code_unit_order [] [d] = Inr ds"
    using merge_normal_total [of "[]" "[d]" code_unit_order] n by (auto simp: normal_def)
  then have staged: "activation_stage code_unit_order d new_activation = (Inr (), new_activation\<lparr>da_staged := ds\<rparr>)"
    by (simp add: activation_stage_def merge_normalized_def n new_activation_def)
  have covers: "covers [] [''s''] (skill_json demo_skill) = Inr True"
    by (simp add: covers_def demo_key among_def)
  have auth: "authorized_json \<lparr>ea_capabilities = [''cap''], ea_tools = [], ea_namespaces = []\<rparr> (skill_json demo_skill) = Inr True"
    by (simp add: authorized_json_def list_at_def skill_json_def js_get_def demo_skill_def strings_json_def string_member_def
        schemas_member_def among_def)
  have empty: "index_skill empty_index k = None" "has_pack empty_index p = False" for k p
    by (simp_all add: empty_index_def index_skill_def has_pack_def)
  have input: "aqi_task demo_acquire = skilled_task" "aqi_index demo_acquire = empty_index" "aqi_selected demo_acquire = []"
    "aqi_trust demo_acquire = \<lparr>tp_registry = AcquireApproved, tp_allowlist = Some [''acme/tax''], tp_publish = None\<rparr>"
    "aqi_authority demo_acquire = \<lparr>ea_capabilities = [''cap''], ea_tools = [], ea_namespaces = []\<rparr>"
    "aqi_pull demo_acquire () q = (Inr (demo_manifest, [1, 2]), ())"
    "aqi_inspect demo_acquire bytes h = Some (definitions_pack (sh_name h) [skill_json demo_skill])" for q bytes h
    by (simp_all add: demo_acquire_def)
  have hit: "sh_name demo_hit = ''acme/tax''" "sh_version demo_hit = ''1.0''" "\<not> sh_yanked demo_hit"
    and bytes: "length [1, 2 :: nat] = 2" "cm_skills (definitions_pack p vs) = vs" for p vs
    by (simp_all add: demo_hit_def definitions_pack_def)
  show ?thesis
    by (simp add: acquire_skills_def input gaps missing queries hits ranked acquire_item_def consider_pack_def stage_pack_def
        Let_def hit bytes d [unfolded numeral_2_eq_2] staged covers auth empty already_present_def skill_keys_def demo_key note_candidate_def
        allowlisted_def max_pulls_def)
qed

theorem acquire_within_policy_witness:
  "\<exists>rc packs act'. acquire_skills code_unit_order demo_acquire () new_activation = (Inr (rc, packs), (), act')
     \<and> length (aq_staged rc) = 1 \<and> da_active act' = [] \<and> allowed_by (aqi_trust demo_acquire) (st_name (hd (aq_staged rc))) (st_version (hd (aq_staged rc)))"
proof -
  obtain rc packs act' where r: "acquire_skills code_unit_order demo_acquire () new_activation = (Inr (rc, packs), (), act')"
    and one: "length (aq_staged rc) = 1" using demo_acquired by blast
  from one have "hd (aq_staged rc) \<in> set (aq_staged rc)" by (cases "aq_staged rc") auto
  with acquire_within_policy [OF r] r one show ?thesis by (simp add: new_activation_def)
qed

end
