(* ===== verification/Harness_Inputs.thy ===== *)
theory Harness_Inputs
  imports Experience Skill_Acquisition
begin

text \<open>
  What a harness run is fed: the skills option (\<open>parseHarnessSkills\<close> of
  \<open>skills/resolver.ts\<close>), evidence from core images and memories from a cortex
  (\<open>context/sources.ts\<close>), the lockfile option (\<open>dependencies/lockfile.ts\<close>), and the
  dependency set of a run (\<open>collectRunDependencies\<close> and \<open>bindRegistry\<close> of
  \<open>harness/session.ts\<close>, \<open>freezeDependencyRoot\<close> of \<open>harness/lifecycle.ts\<close>).
\<close>

section \<open>The skills option\<close>

text \<open>The option is untyped: absent, an array, an options object, or something else.\<close>

datatype skills_input = SkillsAbsent | SkillsArray "jsval list" | SkillsOptions skill_options | SkillsOther

datatype parsed_skills = ParsedNothing | ParsedPassthrough "skill_item list" | ParsedOptions skill_options

definition is_skill_item_like :: "jsval \<Rightarrow> bool" where
  "is_skill_item_like v = (case v of
       JObj es \<Rightarrow> is_js_string (js_get es ''id'') \<and> is_js_string (js_get es ''text'')
     | _ \<Rightarrow> False)"

definition is_skill_definition_like :: "jsval \<Rightarrow> bool" where
  "is_skill_definition_like v = (case v of
       JObj es \<Rightarrow> is_js_string (js_get es ''id'') \<and> is_js_string (js_get es ''instructions'') \<and> is_js_string (js_get es ''skillVersion'')
     | _ \<Rightarrow> False)"

text \<open>A row of the array with its declared types; scores are integers as everywhere in the context.\<close>

definition text_of :: "jsval \<Rightarrow> string" where
  "text_of v = (case v of JStr s \<Rightarrow> s | _ \<Rightarrow> [])"

definition skill_item_of :: "jsval \<Rightarrow> skill_item" where
  "skill_item_of v = (let es = members_of v in
     \<lparr>ski_id = text_of (js_get es ''id''), ski_text = text_of (js_get es ''text''), ski_required = (js_get es ''required'' = JBool True),
      ski_score = (case js_get es ''score'' of JNum n \<Rightarrow> Some n | _ \<Rightarrow> None), ski_source = some_string (js_get es ''sourceId'')\<rparr>)"

definition local_definitions :: "jsval list \<Rightarrow> skill_options" where
  "local_definitions ds = \<lparr>so_resolution = Some ResolveLocal, so_registry = Some (RegistryMode RegistryDisabled), so_allowlist = None,
     so_publish = None, so_index = NoIndex, so_packs = None, so_definitions = Some ds\<rparr>"

definition parse_harness_skills :: "skills_input \<Rightarrow> parsed_skills result" where
  "parse_harness_skills v = (case v of
       SkillsAbsent \<Rightarrow> Inr ParsedNothing
     | SkillsArray vs \<Rightarrow>
         if vs = [] then Inr (ParsedPassthrough [])
         else if list_all is_skill_definition_like vs then Inr (ParsedOptions (local_definitions vs))
         else if list_all is_skill_item_like vs then Inr (ParsedPassthrough (map skill_item_of vs))
         else harness_fail ''skills array must be SkillItemV1 or SkillDefinitionV1 objects''
     | SkillsOptions opts \<Rightarrow> Inr (ParsedOptions opts)
     | SkillsOther \<Rightarrow> harness_fail ''skills must be an array or a resolution options object'')"

section \<open>Evidence and memory sources\<close>

text \<open>
  The objects of mounted images as evidence. The query sent to the core first only reads, and its
  answer is not used; it may throw, which is what \<open>ask\<close> stands for.
\<close>

definition squeeze_query :: "string \<Rightarrow> string" where
  "squeeze_query q = js_trim (collapse_ws q)"

definition object_rows :: "pack_host \<Rightarrow> string \<Rightarrow> knowledge_handle \<Rightarrow> evidence_item list" where
  "object_rows host q h = map (\<lambda>ob. let text = ph_decode host (io_bytes ob) in
     \<lparr>ev_id = io_id ob, ev_text = text, ev_source = Some (kh_state_root h), ev_required = False,
      ev_score = Some (lexical_score q text)\<rparr>) (kh_objects h)"

fun collect_images :: "pack_host \<Rightarrow> (knowledge_handle \<Rightarrow> unit result) \<Rightarrow> string \<Rightarrow> knowledge_handle list \<Rightarrow> evidence_item list result" where
  "collect_images host ask q [] = Inr []"
| "collect_images host ask q (h # hs) =
     bind_res (ask h) (\<lambda>_. bind_res (collect_images host ask q hs) (\<lambda>rows. Inr (object_rows host q h @ rows)))"

definition knowledge_evidence :: "locale_compare \<Rightarrow> pack_host \<Rightarrow> (knowledge_handle \<Rightarrow> unit result) \<Rightarrow> knowledge_handle list \<Rightarrow> string
    \<Rightarrow> evidence_item list result" where
  "knowledge_evidence lc host ask images query =
     bind_res (collect_images host ask (squeeze_query query) images) (\<lambda>rows. Inr (js_sort (compare_evidence lc) rows))"

text \<open>\<open>JSON.stringify\<close> of a row that is \<open>undefined\<close> gives no text to score.\<close>

definition cortex_row :: "string \<Rightarrow> nat \<Rightarrow> jsval \<Rightarrow> memory_item result" where
  "cortex_row query index row =
     (let es = members_of row; id = js_get es ''id''; txt = js_get es ''text'' in
      case (if is_js_string txt then js_string txt else json_stringify row) of
        None \<Rightarrow> Inl (TypeError ''Cannot read properties of undefined (reading toLowerCase)'')
      | Some t \<Rightarrow> Inr \<lparr>mem_id = (case id of JStr s \<Rightarrow> s | _ \<Rightarrow> ''memory-'' @ dec_nat index), mem_text = t,
          mem_score = Some (lexical_score query t)\<rparr>)"

definition cortex_memory :: "(string \<Rightarrow> jsval result) \<Rightarrow> string \<Rightarrow> memory_item list result" where
  "cortex_memory ask query =
     bind_res (ask query) (\<lambda>recalled.
       case recalled of
         JArr rows \<Rightarrow> map_res (\<lambda>(i, row). cortex_row query i row) (zip [0..<length rows] rows)
       | _ \<Rightarrow> Inr [])"

section \<open>The lockfile option\<close>

text \<open>\<open>JSON.parse\<close> is a parameter that fails with \<open>None\<close>.\<close>

definition parse_lockfile_text :: "(string \<Rightarrow> jsval option) \<Rightarrow> string \<Rightarrow> lockfile result" where
  "parse_lockfile_text parse text =
     (case parse text of None \<Rightarrow> harness_fail ''knolo.lock.json must be valid JSON'' | Some v \<Rightarrow> validate_lockfile v)"

definition parse_lockfile :: "(string \<Rightarrow> jsval option) \<Rightarrow> jsval \<Rightarrow> lockfile result" where
  "parse_lockfile parse v = (case v of JStr text \<Rightarrow> parse_lockfile_text parse text | w \<Rightarrow> validate_lockfile w)"

section \<open>The registry of a session\<close>

text \<open>A registry of the host: its calls work on the world, its cache is read from it.\<close>

record 'w host_registry =
  hr_origin :: "string option"
  hr_cache :: "'w \<Rightarrow> pack_cache option"
  hr_search :: "'w search"
  hr_pull :: "'w pull"

datatype 'w registry_option = NoRegistry | NotARegistry | HostRegistry "'w host_registry"

text \<open>\<open>offlinePackRegistry\<close> around a registry with a state; a remote inner registry is not called.\<close>

definition offline_host :: "lockfile option \<Rightarrow> 'w host_registry \<Rightarrow> 'w host_registry" where
  "offline_host lock r = r\<lparr>
     hr_search := (\<lambda>w q. if is_remote (hr_origin r) then (harness_fail ''registry search is unavailable offline'', w) else hr_search r w q),
     hr_pull := (\<lambda>w i. if is_remote (hr_origin r)
        then (offline_pull (\<lambda>s. harness_fail []) (\<lambda>j. harness_fail []) (hr_origin r) (hr_cache r w) lock i, w)
        else hr_pull r w i)\<rparr>"

definition bind_registry :: "'w registry_option \<Rightarrow> bool \<Rightarrow> lockfile option \<Rightarrow> 'w host_registry option result" where
  "bind_registry registry offline lock = (case registry of
       NoRegistry \<Rightarrow> Inr None
     | NotARegistry \<Rightarrow> harness_fail ''createHarness registry must implement PackRegistryCapabilityV1''
     | HostRegistry r \<Rightarrow> Inr (Some (if offline then offline_host lock r else r)))"

text \<open>The offline wrapper answers what \<open>registry/offline.ts\<close> answers.\<close>

lemma offline_host_search:
  "\<not> is_remote (hr_origin r) \<Longrightarrow> hr_search (offline_host lock r) = hr_search r"
  "is_remote (hr_origin r) \<Longrightarrow> fst (hr_search (offline_host lock r) w q) = offline_search inner (hr_origin r) q"
  by (simp_all add: offline_host_def offline_search_def fun_eq_iff)

lemma offline_host_pull:
  assumes "is_remote (hr_origin r)"
  shows "hr_pull (offline_host lock r) w i = (offline_pull inner_resolve inner_pull (hr_origin r) (hr_cache r w) lock i, w)"
proof -
  have "offline_resolve (\<lambda>s. harness_fail []) (hr_origin r) c lock s = offline_resolve inner_resolve (hr_origin r) c lock s" for c s
    using assms by (simp add: offline_resolve_def)
  then show ?thesis
    using assms by (cases i) (simp_all add: offline_host_def offline_pull_def)
qed

section \<open>The dependencies of a run\<close>

definition local_dependency :: "sha256 \<Rightarrow> string \<Rightarrow> pack_dependency" where
  "local_dependency sha name = \<lparr>pd_name = name, pd_version = ''local'', pd_sha256 = sha (utf8 name), pd_state_root = None, pd_role = ''knowledge''\<rparr>"

definition skill_dependency :: "selected_skill \<Rightarrow> pack_dependency" where
  "skill_dependency s = \<lparr>pd_name = selected_skill.ss_id s, pd_version = ss_version s,
     pd_sha256 = (case ss_content_hash s of Some h \<Rightarrow> h | None \<Rightarrow> []), pd_state_root = None, pd_role = ''skill''\<rparr>"

definition collect_run_dependencies :: "locale_compare \<Rightarrow> sha256 \<Rightarrow> string list \<Rightarrow> lockfile option \<Rightarrow> skill_receipt option \<Rightarrow> pack_dependency list result" where
  "collect_run_dependencies lc sha knowledge lock skills =
     bind_res (pack_dependencies_from_lockfile lc lock ''knowledge'') (\<lambda>locked.
       Inr (locked
         @ map (local_dependency sha) (filter (\<lambda>name. case lock of Some l \<Rightarrow> name \<notin> fst ` set (lf_packs l) | None \<Rightarrow> True) knowledge)
         @ (case skills of Some rc \<Rightarrow> map skill_dependency (sl_selected rc) | None \<Rightarrow> [])))"

definition digest_dependency :: "string \<Rightarrow> string \<Rightarrow> string \<Rightarrow> pack_dependency" where
  "digest_dependency version role digest = \<lparr>pd_name = digest, pd_version = version, pd_sha256 = digest, pd_state_root = None, pd_role = role\<rparr>"

definition freeze_dependency_root :: "locale_compare \<Rightarrow> sha256 \<Rightarrow> string list \<Rightarrow> string list \<Rightarrow> string list \<Rightarrow> string result" where
  "freeze_dependency_root lc sha knowledge skills packs =
     bind_res (compute_dependency_root lc sha None (map (local_dependency sha) knowledge
        @ map (digest_dependency ''local'' ''skill'') skills @ map (digest_dependency ''lock'' ''knowledge'') packs)) (\<lambda>r.
       Inr (dr_root r))"

text \<open>
  The harness merges the collected dependencies with the active set of the runs before, and the
  later entry of a key wins: a skill or pack that is already active under the same role and name
  keeps its old digest.
\<close>

lemma active_entry_wins:
  assumes "normal d" "normal old" "dependency_key old = dependency_key d"
  shows "merge_pack_dependencies lc [d] [old] = Inr [old]"
proof -
  have "normalize_pack_dependency d = Inr d" "normalize_pack_dependency old = Inr old" using assms(1,2) by (simp_all add: normal_def)
  then show ?thesis
    by (simp add: merge_pack_dependencies_def assms(3) map_put_def sort_pack_dependencies_def)
qed

end
