(* ===== verification/Harness_Receipts.thy ===== *)
theory Harness_Receipts
  imports Harness_Inputs
begin

text \<open>
  The receipts a run leaves (\<open>harness/types.ts\<close>, \<open>skills/types.ts\<close>) as the JSON values that
  are digested and handed to the middleware. The order of members does not matter: digests are
  taken of the canonical form.
\<close>

section \<open>Names\<close>

fun registry_mode_name :: "registry_mode \<Rightarrow> string" where
  "registry_mode_name RegistryDisabled = ''disabled''"
| "registry_mode_name Discover = ''discover''"
| "registry_mode_name AcquireApproved = ''acquire-approved''"
| "registry_mode_name AcquireAnyVerified = ''acquire-any-verified''"

fun publish_policy_name :: "publish_policy \<Rightarrow> string" where
  "publish_policy_name ProposeOnly = ''propose-only''"
| "publish_policy_name PublishDisabled = ''disabled''"
| "publish_policy_name PublishAuthorized = ''authorized''"

fun resolution_name :: "resolution_mode \<Rightarrow> string" where
  "resolution_name ResolveNone = ''none''"
| "resolution_name ResolveLocal = ''local''"
| "resolution_name ResolveAuto = ''auto''"

fun decision_name :: "acquisition_decision \<Rightarrow> string" where
  "decision_name Staged = ''staged''"
| "decision_name Discovered = ''discover''"
| "decision_name SkippedPack = ''skipped''"

fun reject_name :: "reject_reason \<Rightarrow> string" where
  "reject_name RejectAuthority = ''authority''"
| "reject_name RejectMissing = ''missing''"
| "reject_name RejectHash = ''hash''"
| "reject_name RejectPolicy = ''policy''"

fun failure_name :: "failure_class \<Rightarrow> string" where
  "failure_name ToolFailure = ''tool''"
| "failure_name RetrievalFailure = ''retrieval''"
| "failure_name SchemaFailure = ''schema''"
| "failure_name TimeoutFailure = ''timeout''"
| "failure_name PolicyFailure = ''policy''"
| "failure_name ModelFailure = ''model''"
| "failure_name UnknownFailure = ''unknown''"

fun recovery_status_name :: "recovery_status \<Rightarrow> string" where
  "recovery_status_name Applied = ''applied''"
| "recovery_status_name Skipped = ''skipped''"
| "recovery_status_name Exhausted = ''exhausted''"

fun phase_name :: "check_phase \<Rightarrow> string" where
  "phase_name ContractPhase = ''contract''"
| "phase_name ArtifactPhase = ''artifact''"
| "phase_name TaskPhase = ''task''"
| "phase_name JudgePhase = ''judge''"

section \<open>Skill receipts\<close>

definition candidate_json :: "acquisition_candidate \<Rightarrow> jsval" where
  "candidate_json c = JObj ([(''name'', JStr (ac_name c)), (''version'', JStr (ac_version c)), (''sha256'', JStr (ac_sha256 c)),
     (''score'', JNum (ac_score c)), (''decision'', JStr (decision_name (ac_decision c)))] @ string_member ''reason'' (ac_reason c))"

definition staged_json :: "staged_pack \<Rightarrow> jsval" where
  "staged_json s = JObj [(''name'', JStr (st_name s)), (''version'', JStr (st_version s)), (''sha256'', JStr (st_sha256 s)),
     (''role'', JStr ''skill'')]"

definition acquisition_json :: "acquisition_receipt \<Rightarrow> jsval" where
  "acquisition_json a = JObj [(''version'', JNum 1), (''registry'', JStr (registry_mode_name (aq_registry a))),
     (''publish'', JStr (publish_policy_name (aq_publish a))), (''gaps'', strings_json (aq_gaps a)),
     (''missingSkills'', strings_json (aq_missing a)), (''queried'', JBool (aq_queried a)), (''pulled'', JBool (aq_pulled a)),
     (''staged'', JArr (map staged_json (aq_staged a))), (''candidates'', JArr (map candidate_json (aq_candidates a)))]"

definition selected_json :: "selected_skill \<Rightarrow> jsval" where
  "selected_json s = JObj ([(''id'', JStr (selected_skill.ss_id s)), (''skillVersion'', JStr (ss_version s)), (''packId'', JStr (ss_pack_id s)),
     (''score'', JNum (ss_score s)), (''required'', JBool (selected_skill.ss_required s))] @ string_member ''contentHash'' (ss_content_hash s))"

definition rank_json :: "string \<times> int \<Rightarrow> jsval" where
  "rank_json r = JObj [(''id'', JStr (fst r)), (''score'', JNum (snd r))]"

definition rejected_json :: "string \<times> reject_reason \<Rightarrow> jsval" where
  "rejected_json r = JObj [(''id'', JStr (fst r)), (''reason'', JStr (reject_name (snd r)))]"

definition skill_receipt_json :: "skill_receipt \<Rightarrow> jsval" where
  "skill_receipt_json s = JObj [(''version'', JNum 1), (''query'', JStr (sl_query s)), (''lexical'', JBool True),
     (''resolution'', JStr (resolution_name (sl_resolution s))), (''registry'', JStr (registry_mode_name (sl_registry s))),
     (''selected'', JArr (map selected_json (sl_selected s))), (''rejected'', JArr (map rejected_json (sl_rejected s))),
     (''candidates'', JArr (map rank_json (sl_candidates s))),
     (''authority'', JObj [(''capabilities'', strings_json (fst (sl_authority s))), (''tools'', strings_json (snd (sl_authority s)))]),
     (''acquisition'', acquisition_json (sl_acquisition s))]"

section \<open>Evaluation and recovery\<close>

definition check_json :: "evaluation_check \<Rightarrow> jsval" where
  "check_json c = JObj [(''phase'', JStr (phase_name (ck_phase c))), (''id'', JStr (ck_id c)), (''passed'', JBool (ck_passed c)),
     (''detail'', JStr (ck_detail c))]"

definition judge_json :: "judge_record option \<Rightarrow> jsval" where
  "judge_json j = (case j of
       None \<Rightarrow> JNull
     | Some r \<Rightarrow> JObj ([(''kind'', JStr ''external-effect''), (''effect'', JStr ''semantic-judge''), (''deterministic'', JBool False),
         (''passed'', JBool (jr_passed r))] @ string_member ''model'' (jr_model r) @ string_member ''notes'' (jr_notes r)))"

definition evaluation_json :: "evaluation_receipt \<Rightarrow> jsval" where
  "evaluation_json e = JObj [(''status'', JStr (status_name (er_status e))), (''successCriteriaMatched'', strings_json (er_matched e)),
     (''prohibitedViolations'', strings_json (er_violations e)), (''passed'', JBool (er_passed e)),
     (''checks'', JArr (map check_json (er_checks e))), (''judge'', judge_json (er_judge e))]"

definition recovery_event_json :: "recovery_event \<Rightarrow> jsval" where
  "recovery_event_json e = JObj ([(''version'', JNum 1), (''class'', JStr (failure_name (re_class e))),
     (''strategy'', JStr (strategy_name (re_strategy e))), (''attempt'', JNum (int (re_attempt e))),
     (''status'', JStr (recovery_status_name (re_status e)))] @ string_member ''detail'' (re_detail e))"

section \<open>The receipt of a run\<close>

record run_receipt =
  rn_run_id :: string
  rn_agent_hash :: string
  rn_task_root :: string
  rn_input_root :: string
  rn_knowledge_roots :: "string list"
  rn_dependency_root :: string
  rn_authority_root :: string
  rn_skill_receipt :: "string option"
  rn_evidence_receipts :: "string list"
  rn_tool_receipts :: "string list"
  rn_evaluation :: evaluation_receipt
  rn_recovery_events :: "jsval list"
  rn_final_status :: invocation_status
  rn_output :: jsval

definition run_receipt_json :: "run_receipt \<Rightarrow> jsval" where
  "run_receipt_json r = JObj ([(''version'', JNum 1), (''runId'', JStr (rn_run_id r)), (''agentDescriptorHash'', JStr (rn_agent_hash r)),
     (''taskRoot'', JStr (rn_task_root r)), (''inputRoot'', JStr (rn_input_root r)), (''knowledgeStateRoots'', strings_json (rn_knowledge_roots r)),
     (''harnessDependencyRoot'', JStr (rn_dependency_root r)), (''authorityRoot'', JStr (rn_authority_root r)),
     (''skillSelectionReceipt'', case rn_skill_receipt r of Some s \<Rightarrow> JStr s | None \<Rightarrow> JNull),
     (''evidenceReceipts'', strings_json (rn_evidence_receipts r)), (''toolReceipts'', strings_json (rn_tool_receipts r)),
     (''evaluationReceipt'', evaluation_json (rn_evaluation r)), (''recoveryEvents'', JArr (rn_recovery_events r)),
     (''finalStatus'', JStr (status_name (rn_final_status r)))] @ json_member ''output'' (rn_output r))"

text \<open>\<open>knowledgeStateRoots\<close>: the declared names and the string \<open>sourceId\<close>s of the evidence.\<close>

definition evidence_source :: "jsval \<Rightarrow> string option" where
  "evidence_source v = some_string (js_get (members_of v) ''sourceId'')"

definition knowledge_state_roots :: "string list \<Rightarrow> jsval list \<Rightarrow> string list" where
  "knowledge_state_roots declared evidence = sorted_set (declared @ concat (map (\<lambda>v. case evidence_source v of Some s \<Rightarrow> [s] | None \<Rightarrow> []) evidence))"

end
