(* ===== verification/Harness_Session.thy ===== *)
theory Harness_Session
  imports Harness_Receipts Agent_Score
begin

text \<open>
  The harness session of \<open>harness/session.ts\<close>: \<open>create\<close> checks the options and binds the
  registry and the learner; \<open>run\<close> resolves the skills, freezes the dependencies, acquires packs
  for the next run, compiles the context, invokes the adapter with recovery, evaluates, leaves a
  receipt, scores the run and records the experience. What lives from run to run is the session state; the hook
  context's envelope is kept in it too. The adapter, the middleware, the registry, the clock and
  \<open>remember\<close> work on the world \<open>'w\<close>. An adapter's descriptor and capabilities do not change,
  and each step of a run is awaited before the next.
\<close>

section \<open>Options, session and state\<close>

record 'w session_options =
  sn_adapter :: "'w adapter"
  sn_descriptor :: jsval
  sn_capabilities :: agent_capabilities
  sn_capabilities_ref :: nat
  sn_task :: task_v1
  sn_task_json :: jsval
  sn_knowledge :: "string list"
  sn_authority :: jsval
  sn_memory :: "(string \<Rightarrow> jsval result, 'w remember_fn) memory_option"
  sn_memories :: "memory_item source"
  sn_experience :: "experience_policy option"
  sn_evidence :: "evidence_item source"
  sn_skills :: skills_input
  sn_context_budget :: "context_budget option"
  sn_rerank :: "rerank_fn option"
  sn_rerank_model :: "string option"
  sn_registry :: "'w registry_option"
  sn_lockfile :: jsval
  sn_offline :: bool
  sn_force_registry :: bool
  sn_evaluators :: jsval
  sn_recovery :: jsval
  sn_judge :: "judge_fn option"
  sn_limits :: harness_budget
  sn_middleware :: "(hook_extra, 'w) middleware list"
  sn_clock :: "'w \<Rightarrow> int \<times> 'w"
  sn_run_id :: "string option"

text \<open>What the code takes from the platform.\<close>

record harness_host =
  hh_compare :: locale_compare
  hh_sha :: sha256
  hh_packs :: pack_host
  hh_loose :: loose_le

record 'w harness_session =
  hs_options :: "'w session_options"
  hs_lockfile :: "lockfile option"
  hs_bound :: "'w host_registry option"
  hs_learner :: "'w learner option"

record 'w session_state =
  se_activation :: activation
  se_acquired :: "capability_metadata list"
  se_store :: experience_store
  se_world :: 'w
  se_env :: context_envelope

definition lift_res :: "'a result \<Rightarrow> 'w session_state \<Rightarrow> 'a result \<times> 'w session_state" where
  "lift_res r s = (r, s)"

definition with_activation :: "(activation \<Rightarrow> 'a result \<times> activation) \<Rightarrow> 'w session_state \<Rightarrow> 'a result \<times> 'w session_state" where
  "with_activation f s = (case f (se_activation s) of (r, a) \<Rightarrow> (r, s\<lparr>se_activation := a\<rparr>))"

definition run_hook :: "'w harness_session \<Rightarrow> hook \<Rightarrow> hook_extra \<Rightarrow> 'w session_state \<Rightarrow> unit result \<times> 'w session_state" where
  "run_hook sess h x s =
     (case run_hooks (sn_middleware (hs_options sess)) h x (se_world s) (se_env s) of
        (r, w, env) \<Rightarrow> (r, s\<lparr>se_world := w, se_env := env\<rparr>))"

section \<open>Creating a session\<close>

definition check_origin :: "lockfile option \<Rightarrow> 'w host_registry option \<Rightarrow> bool \<Rightarrow> unit result" where
  "check_origin lock bound force =
     (case (lock, nonempty_string (Option.bind bound hr_origin)) of
        (Some l, Some origin) \<Rightarrow> assert_lockfile_registry l origin force
      | _ \<Rightarrow> Inr ())"

definition memory_remember :: "('q, 'r) memory_option \<Rightarrow> 'r option" where
  "memory_remember m = (case m of MemoryObject query remember \<Rightarrow> remember | _ \<Rightarrow> None)"

definition memory_query :: "('q, 'r) memory_option \<Rightarrow> 'q option" where
  "memory_query m = (case m of MemoryObject query remember \<Rightarrow> query | _ \<Rightarrow> None)"

definition create_learner :: "'w session_options \<Rightarrow> 'w learner option result" where
  "create_learner opts =
     bind_res (normalize_experience_policy (sn_experience opts) (sn_memory opts)) (\<lambda>policy.
       if lp_enabled policy
       then bind_res (new_learner (sn_experience opts) (memory_remember (sn_memory opts))
              (map_option ag_capabilities (parse_authority_grant (sn_authority opts))) (sn_memory opts)) (\<lambda>lrn. Inr (Some lrn))
       else Inr None)"

definition create_session :: "harness_host \<Rightarrow> 'w session_options \<Rightarrow> 'w harness_session result" where
  "create_session host opts =
     bind_res (validate_task (sn_task opts)) (\<lambda>task.
     bind_res (assert_adapter_supports_task (sn_capabilities opts) task) (\<lambda>_.
     bind_res (if sn_lockfile opts = JUndef then Inr None
               else bind_res (parse_lockfile (ph_parse (hh_packs host)) (sn_lockfile opts)) (\<lambda>l. Inr (Some l))) (\<lambda>lock.
     bind_res (bind_registry (sn_registry opts) (sn_offline opts) lock) (\<lambda>bound.
     bind_res (check_origin lock bound (sn_force_registry opts)) (\<lambda>_.
     bind_res (create_learner opts) (\<lambda>learner.
     Inr \<lparr>hs_options = opts, hs_lockfile = lock, hs_bound = bound, hs_learner = learner\<rparr>))))))"

definition new_session_state :: "'w session_options \<Rightarrow> 'w \<Rightarrow> 'w session_state" where
  "new_session_state opts w = \<lparr>se_activation = new_activation, se_acquired = [], se_store = new_store, se_world = w,
     se_env = empty_envelope (sn_task opts) (sn_capabilities opts) (sn_capabilities_ref opts) [] []\<rparr>"

section \<open>Skills of a run\<close>

record resolved_skills =
  rk_items :: "skill_item list"
  rk_receipt :: "skill_receipt option"
  rk_options :: "skill_options option"

definition default_skill_options :: skill_options where
  "default_skill_options = \<lparr>so_resolution = Some ResolveLocal, so_registry = Some (RegistryMode RegistryDisabled), so_allowlist = None,
     so_publish = None, so_index = NoIndex, so_packs = None, so_definitions = None\<rparr>"

definition session_authority :: "'w session_options \<Rightarrow> effective_authority" where
  "session_authority opts = intersect_authority (parse_authority_grant (sn_authority opts)) (Some (sn_capabilities opts)) None None"

fun try_add_all :: "capability_metadata list \<Rightarrow> capability_index \<Rightarrow> capability_index result" where
  "try_add_all [] ix = Inr ix"
| "try_add_all (m # ms) ix = (case index_try_add m ix of (Inl e, _) \<Rightarrow> Inl e | (Inr _, ix') \<Rightarrow> try_add_all ms ix')"

definition add_promoted :: "skill_definition list \<Rightarrow> capability_index \<Rightarrow> capability_index result" where
  "add_promoted promoted ix =
     (case filter (\<lambda>s. index_skill ix (JStr (sd_id s)) = None) promoted of
        [] \<Rightarrow> Inr ix
      | s # ss \<Rightarrow> try_add_all [definitions_pack
            (if has_pack ix ''local-experience'' then ''local-experience/'' @ sd_id s else ''local-experience'') (map skill_json (s # ss))] ix)"

definition session_index :: "harness_host \<Rightarrow> skill_options \<Rightarrow> capability_metadata list \<Rightarrow> skill_definition list \<Rightarrow> capability_index result" where
  "session_index host opts acquired promoted =
     bind_res (index_from_options (hh_compare host) opts) (\<lambda>ix. bind_res (try_add_all acquired ix) (add_promoted promoted))"

definition options_resolution :: "skill_options option \<Rightarrow> resolution_mode" where
  "options_resolution opts = (case Option.bind opts so_resolution of Some r \<Rightarrow> r | None \<Rightarrow> ResolveLocal)"

definition resolve_with :: "harness_host \<Rightarrow> 'w harness_session \<Rightarrow> skill_options \<Rightarrow> capability_metadata list \<Rightarrow> skill_definition list
    \<Rightarrow> resolved_skills result" where
  "resolve_with host sess opts acquired promoted =
     (let trust = normalize_trust (Some opts); resolution = options_resolution (Some opts) in
      if resolution = ResolveAuto \<and> tp_registry trust \<noteq> RegistryDisabled \<and> hs_bound sess = None
      then harness_fail ''skill registry is not configured; Hub acquisition requires PackRegistryCapabilityV1''
      else bind_res (session_index host opts acquired promoted) (\<lambda>ix.
        bind_res (resolve_skills (hh_compare host) (hh_sha host) \<lparr>rs_task = sn_task (hs_options sess), rs_index = ix,
            rs_authority = session_authority (hs_options sess), rs_trust = Some trust, rs_resolution = Some resolution\<rparr>) (\<lambda>(items, rc).
          Inr \<lparr>rk_items = items, rk_receipt = Some rc, rk_options = Some opts\<rparr>)))"

definition resolve_harness_skills :: "harness_host \<Rightarrow> 'w harness_session \<Rightarrow> capability_metadata list \<Rightarrow> skill_definition list
    \<Rightarrow> resolved_skills result" where
  "resolve_harness_skills host sess acquired promoted =
     bind_res (parse_harness_skills (sn_skills (hs_options sess))) (\<lambda>parsed.
       case parsed of
         ParsedPassthrough items \<Rightarrow> Inr \<lparr>rk_items = items, rk_receipt = None, rk_options = None\<rparr>
       | ParsedNothing \<Rightarrow>
           if promoted = [] then Inr \<lparr>rk_items = [], rk_receipt = None, rk_options = None\<rparr>
           else resolve_with host sess default_skill_options acquired promoted
       | ParsedOptions opts \<Rightarrow> resolve_with host sess opts acquired promoted)"

definition session_promoted :: "'w harness_session \<Rightarrow> 'w session_state \<Rightarrow> skill_definition list" where
  "session_promoted sess s = (case hs_learner sess of Some _ \<Rightarrow> xs_promoted (se_store s) | None \<Rightarrow> [])"

definition selected_rows :: "skill_receipt option \<Rightarrow> selected_skill list" where
  "selected_rows rc = (case rc of Some r \<Rightarrow> sl_selected r | None \<Rightarrow> [])"

definition acquisition_index :: "harness_host \<Rightarrow> skill_options option \<Rightarrow> capability_metadata list \<Rightarrow> capability_index result" where
  "acquisition_index host opts acquired =
     bind_res (case opts of Some o' \<Rightarrow> index_from_options (hh_compare host) o' | None \<Rightarrow> Inr empty_index) (try_add_all acquired)"

definition verify_with_core :: "harness_host \<Rightarrow> nat list \<Rightarrow> unit result" where
  "verify_with_core host bytes = bind_res (ph_verify_image (hh_packs host) bytes) (\<lambda>_. Inr ())"

definition maybe_acquire :: "harness_host \<Rightarrow> 'w harness_session \<Rightarrow> resolved_skills \<Rightarrow> 'w session_state
    \<Rightarrow> (acquisition_receipt \<times> capability_metadata list) result \<times> 'w session_state" where
  "maybe_acquire host sess resolved s =
     (let opts = hs_options sess; trust = normalize_trust (rk_options resolved) in
      if options_resolution (rk_options resolved) \<noteq> ResolveAuto \<or> tp_registry trust = RegistryDisabled
      then (Inr (case rk_receipt resolved of
             Some rc \<Rightarrow> sl_acquisition rc
           | None \<Rightarrow> empty_acquisition (tp_registry trust) (normalize_publish (tp_publish trust)) [] [], []), s)
      else case sn_registry opts of
          NoRegistry \<Rightarrow> (harness_fail ''skill registry is not configured; Hub acquisition requires PackRegistryCapabilityV1'', s)
        | NotARegistry \<Rightarrow> (Inl (TypeError ''registry.search is not a function''), s)
        | HostRegistry r \<Rightarrow>
            let registry = (if sn_offline opts then offline_host (hs_lockfile sess) r else r) in
            (case acquisition_index host (rk_options resolved) (se_acquired s) of
               Inl e \<Rightarrow> (Inl e, s)
             | Inr ix \<Rightarrow>
                 (case acquire_skills (hh_compare host)
                     \<lparr>aqi_task = sn_task opts, aqi_index = ix, aqi_authority = session_authority opts, aqi_trust = trust,
                      aqi_selected = map selected_skill.ss_id (selected_rows (rk_receipt resolved)),
                      aqi_pull = hr_pull registry, aqi_search = hr_search registry,
                      aqi_inspect = inspect_pack (hh_packs host) (Some (verify_with_core host))\<rparr> (se_world s) (se_activation s) of
                    (res, w, act) \<Rightarrow> (res, s\<lparr>se_world := w, se_activation := act\<rparr>))))"

section \<open>Preparing a run\<close>

definition start_run :: "harness_host \<Rightarrow> 'w harness_session \<Rightarrow> 'w session_state \<Rightarrow> string result \<times> 'w session_state" where
  "start_run host sess s =
     (case sn_run_id (hs_options sess) of
        Some i \<Rightarrow> (Inr i, s)
      | None \<Rightarrow>
          (case sn_clock (hs_options sess) (se_world s) of
             (t, w) \<Rightarrow> (Inr (''harness-'' @ digest_root (hh_sha host) ''run'' (JObj [(''at'', JNum t)])), s\<lparr>se_world := w\<rparr>)))"

definition run_dependencies :: "harness_host \<Rightarrow> 'w harness_session \<Rightarrow> skill_receipt option \<Rightarrow> activation \<Rightarrow> pack_dependency list result" where
  "run_dependencies host sess rc act =
     bind_res (collect_run_dependencies (hh_compare host) (hh_sha host) (sn_knowledge (hs_options sess)) (hs_lockfile sess) rc) (\<lambda>ds.
       merge_pack_dependencies (hh_compare host) ds (da_active act))"

text \<open>The skills of the run, its frozen dependencies, and what was acquired for the next one.\<close>

definition prepare_run :: "harness_host \<Rightarrow> 'w harness_session \<Rightarrow> 'w session_state
    \<Rightarrow> (resolved_skills \<times> dependency_root \<times> acquisition_receipt) result \<times> 'w session_state" where
  "prepare_run host sess s0 =
     run_then (with_activation (activate_staged (hh_compare host)) s0) (\<lambda>_ s.
     run_then (lift_res (resolve_harness_skills host sess (se_acquired s) (session_promoted sess s)) s) (\<lambda>resolved s.
     run_then (lift_res (run_dependencies host sess (rk_receipt resolved) (se_activation s)) s) (\<lambda>deps s.
     run_then (with_activation (replace_active (hh_compare host) deps) s) (\<lambda>_ s.
     run_then (with_activation (freeze (hh_compare host) (hh_sha host) None) s) (\<lambda>frozen s.
     run_then (maybe_acquire host sess resolved s) (\<lambda>(receipt, packs) s.
       (Inr (resolved\<lparr>rk_receipt := map_option (\<lambda>rc. rc\<lparr>sl_registry := aq_registry receipt, sl_acquisition := receipt\<rparr>) (rk_receipt resolved)\<rparr>,
             frozen, receipt), s\<lparr>se_acquired := se_acquired s @ packs\<rparr>)))))))"

definition merge_budget :: "harness_budget option \<Rightarrow> harness_budget \<Rightarrow> harness_budget" where
  "merge_budget base limits = foldl (\<lambda>b (k, v). map_put k v b) (case base of Some b \<Rightarrow> b | None \<Rightarrow> []) limits"

definition session_memories :: "harness_host \<Rightarrow> 'w harness_session \<Rightarrow> experience_store \<Rightarrow> memory_item source" where
  "session_memories host sess st = External (compose_memories (hh_compare host)
     [case hs_learner sess of Some _ \<Rightarrow> External (\<lambda>q. Inr (recall_experience (hh_compare host) st q)) | None \<Rightarrow> NoSource,
      sn_memories (hs_options sess),
      case memory_query (sn_memory (hs_options sess)) of Some ask \<Rightarrow> External (cortex_memory ask) | None \<Rightarrow> NoSource])"

definition session_compile_input :: "harness_host \<Rightarrow> 'w harness_session \<Rightarrow> resolved_skills \<Rightarrow> 'w session_state \<Rightarrow> compile_input" where
  "session_compile_input host sess resolved s =
     (let opts = hs_options sess in
      \<lparr>ci_task = sn_task opts, ci_capabilities = env_capabilities (se_env s), ci_capabilities_ref = env_capabilities_ref (se_env s),
       ci_budget = merge_budget (task_budget (sn_task opts)) (sn_limits opts), ci_dependency_root = env_dependency_root (se_env s),
       ci_evidence = sn_evidence opts, ci_memories = session_memories host sess (se_store s), ci_skills = rk_items resolved,
       ci_context_budget = sn_context_budget opts, ci_rerank = sn_rerank opts, ci_rerank_model = sn_rerank_model opts\<rparr>)"

definition candidate_items :: "resolved_skills \<Rightarrow> compiled_context \<Rightarrow> jsval list" where
  "candidate_items resolved compiled =
     (case rk_receipt resolved of Some rc \<Rightarrow> map rank_json (sl_candidates rc) | None \<Rightarrow> env_skills (cc_envelope compiled))"

definition selected_items :: "resolved_skills \<Rightarrow> compiled_context \<Rightarrow> jsval list" where
  "selected_items resolved compiled =
     (case rk_receipt resolved of Some rc \<Rightarrow> map selected_json (sl_selected rc) | None \<Rightarrow> env_skills (cc_envelope compiled))"

text \<open>From the first hook to the compiled envelope.\<close>

definition compile_run :: "harness_host \<Rightarrow> 'w harness_session \<Rightarrow> resolved_skills \<Rightarrow> string \<Rightarrow> 'w session_state
    \<Rightarrow> compiled_context result \<times> 'w session_state" where
  "compile_run host sess resolved run_root s0 =
     (let opts = hs_options sess;
          s1 = s0\<lparr>se_env := empty_envelope (sn_task opts) (sn_capabilities opts) (sn_capabilities_ref opts)
                 (merge_budget (task_budget (sn_task opts)) (sn_limits opts)) run_root\<rparr> in
      run_then (run_hook sess BeforeRun NoExtra s1) (\<lambda>_ s.
      run_then (run_hook sess BeforeContext NoExtra s) (\<lambda>_ s.
      run_then (lift_res (compile_context (hh_compare host) (hh_sha host) (session_compile_input host sess resolved s)) s) (\<lambda>compiled s.
      run_then (run_hook sess OnEvidence (ItemsExtra (env_evidence (cc_envelope compiled))) (s\<lparr>se_env := cc_envelope compiled\<rparr>)) (\<lambda>_ s.
      run_then (run_hook sess OnSkillCandidates (ItemsExtra (candidate_items resolved compiled)) s) (\<lambda>_ s.
      run_then (run_hook sess OnSkillSelected (ItemsExtra (selected_items resolved compiled)) s) (\<lambda>_ s.
        (Inr compiled, s))))))))"

section \<open>Invoking and evaluating\<close>

definition run_input :: "'w session_options \<Rightarrow> jsval \<Rightarrow> jsval" where
  "run_input opts inp = nullish_or inp (inputs (sn_task opts))"

definition invoke_run :: "'w harness_session \<Rightarrow> jsval \<Rightarrow> 'w session_state
    \<Rightarrow> (invocation_result \<times> string list \<times> recovery_event list) result \<times> 'w session_state" where
  "invoke_run sess inp s =
     run_then (lift_res (parse_recovery_policy (sn_recovery (hs_options sess))) s) (\<lambda>policy s.
     run_then (case invoke_with_recovery policy (run_hooks (sn_middleware (hs_options sess))) (sn_adapter (hs_options sess))
          (run_input (hs_options sess) inp) (se_world s) (se_env s) of
        (r, w, env) \<Rightarrow> (r, s\<lparr>se_world := w, se_env := env\<rparr>)) (\<lambda>(result, tools, events) s.
     run_then (run_hook sess BeforeComplete (ResultExtra result) s) (\<lambda>_ s.
       (Inr (result, tools, events), s))))"

definition tools_of :: "invocation_result \<Rightarrow> string list \<Rightarrow> string list" where
  "tools_of result receipts = (case res_tool_calls result of Some ts \<Rightarrow> ts | None \<Rightarrow> receipts)"

definition session_evaluation :: "harness_host \<Rightarrow> 'w harness_session \<Rightarrow> dependency_root \<Rightarrow> compiled_context \<Rightarrow> invocation_result \<Rightarrow> string list
    \<Rightarrow> 'w session_state \<Rightarrow> evaluation_receipt result" where
  "session_evaluation host sess frozen compiled result tools s =
     evaluate_run (hh_loose host)
       \<lparr>ei_task = sn_task (hs_options sess), ei_result = result, ei_tool_calls = tools_of result tools, ei_envelope = se_env s,
        ei_root = dr_root frozen, ei_evidence_receipts = [cc_root compiled],
        ei_suite = parse_evaluation_suite (sn_evaluators (hs_options sess)), ei_judge = sn_judge (hs_options sess)\<rparr>"

text \<open>
  The run's ACS score. The suite is read by \<open>scoreHarnessRun\<close> at its declared types; a member of
  another type is a \<open>TypeError\<close> here. The score does not read the suite's baseline.
\<close>

definition suite_strings :: "jsval \<Rightarrow> string list option result" where
  "suite_strings v = (case v of
       JUndef \<Rightarrow> Inr None
     | JNull \<Rightarrow> Inr None
     | JArr xs \<Rightarrow> (case strings_of xs of Some ss \<Rightarrow> Inr (Some ss) | None \<Rightarrow> Inl (TypeError ''needle.toLowerCase is not a function''))
     | _ \<Rightarrow> Inl (TypeError ''filter is not a function''))"

definition acs_suite_of :: "jsval \<Rightarrow> acs_suite result" where
  "acs_suite_of v =
     (let es = members_of v; task = members_of (js_get es ''task'') in
      bind_res (suite_strings (js_get task ''successCriteria'')) (\<lambda>criteria.
      bind_res (suite_strings (js_get task ''requiredEvidence'')) (\<lambda>evidence.
      bind_res (suite_strings (js_get task ''expectedTools'')) (\<lambda>tools.
      bind_res (suite_strings (js_get task ''prohibitedActions'')) (\<lambda>prohibited.
        Inr \<lparr>au_id = text_of (js_get es ''id''), au_success_criteria = or_empty criteria, au_required_evidence = evidence,
             au_expected_tools = tools, au_prohibited_actions = prohibited,
             au_target_tokens = (case js_get task ''targetTokens'' of JNum n \<Rightarrow> Some n | _ \<Rightarrow> None),
             au_injected_failure = some_string (js_get task ''injectedFailure''),
             au_baseline = recorded_run_from_harness (optional_get (js_get es ''baseline'') ''output'') None None None\<rparr>)))))"

definition session_acs :: "'w harness_session \<Rightarrow> invocation_result \<Rightarrow> string list \<Rightarrow> run_receipt \<Rightarrow> acs_score option result" where
  "session_acs sess result tools receipt =
     (case parse_evaluation_suite (sn_evaluators (hs_options sess)) of
        None \<Rightarrow> Inr None
      | Some v \<Rightarrow>
          if is_acs_suite v
          then bind_res (acs_suite_of v) (\<lambda>suite.
            Inr (Some (score_harness_run suite (res_output result) (Some (tools_of result tools)) (Some (rn_final_status receipt))
              (res_tokens result))))
          else Inr None)"

definition or_null :: "jsval \<Rightarrow> jsval" where
  "or_null v = nullish_or v JNull"

definition make_receipt :: "harness_host \<Rightarrow> 'w harness_session \<Rightarrow> string \<Rightarrow> jsval \<Rightarrow> resolved_skills \<Rightarrow> dependency_root \<Rightarrow> compiled_context
    \<Rightarrow> invocation_result \<Rightarrow> string list \<Rightarrow> recovery_event list \<Rightarrow> evaluation_receipt \<Rightarrow> run_receipt" where
  "make_receipt host sess run_id inp resolved frozen compiled result tools events evaluation =
     (let opts = hs_options sess; sha = hh_sha host in
      \<lparr>rn_run_id = run_id, rn_agent_hash = digest_root sha ''agent'' (sn_descriptor opts),
       rn_task_root = digest_root sha ''task'' (sn_task_json opts),
       rn_input_root = digest_root sha ''input'' (or_null (run_input opts inp)),
       rn_knowledge_roots = knowledge_state_roots (sn_knowledge opts) (env_evidence (cc_envelope compiled)),
       rn_dependency_root = dr_root frozen, rn_authority_root = digest_root sha ''authority'' (or_null (sn_authority opts)),
       rn_skill_receipt = (case rk_receipt resolved of
           Some rc \<Rightarrow> Some (digest_root sha ''skill-selection'' (skill_receipt_json rc))
         | None \<Rightarrow> if env_skills (cc_envelope compiled) \<noteq> [] then Some (digest_root sha ''skills'' (JArr (env_skills (cc_envelope compiled)))) else None),
       rn_evidence_receipts = [cc_root compiled], rn_tool_receipts = tools_of result tools, rn_evaluation = evaluation,
       rn_recovery_events = map recovery_event_json events,
       rn_final_status = (if er_violations evaluation \<noteq> [] then Failed else res_status result), rn_output = res_output result\<rparr>)"

definition session_experience :: "'w harness_session \<Rightarrow> string \<Rightarrow> resolved_skills \<Rightarrow> dependency_root \<Rightarrow> compiled_context \<Rightarrow> run_receipt \<Rightarrow> experience_input" where
  "session_experience sess run_id resolved frozen compiled receipt =
     \<lparr>xi_run_id = run_id, xi_task = sn_task (hs_options sess), xi_status = rn_final_status receipt, xi_output = rn_output receipt,
      xi_matched = er_matched (rn_evaluation receipt), xi_violations = er_violations (rn_evaluation receipt),
      xi_skill_ids = map selected_skill.ss_id (selected_rows (rk_receipt resolved)),
      xi_evidence_ids = map se_id (filter (\<lambda>e. se_kind e = Evidence) (sel_selected (cc_selection compiled))),
      xi_dependency_root = dr_root frozen, xi_labels = []\<rparr>"

definition record_run :: "harness_host \<Rightarrow> 'w harness_session \<Rightarrow> experience_input \<Rightarrow> 'w session_state \<Rightarrow> experience_receipt option result \<times> 'w session_state" where
  "record_run host sess inp s =
     (case hs_learner sess of
        None \<Rightarrow> (Inr None, s)
      | Some lrn \<Rightarrow>
          (case record_experience (hh_sha host) lrn inp (se_store s) (se_world s) of
             (Inl e, st, w) \<Rightarrow> (Inl e, s\<lparr>se_store := st, se_world := w\<rparr>)
           | (Inr rc, st, w) \<Rightarrow> (Inr (Some rc), s\<lparr>se_store := st, se_world := w\<rparr>)))"

section \<open>The run\<close>

record harness_run =
  hn_result :: invocation_result
  hn_receipt :: run_receipt
  hn_envelope :: context_envelope
  hn_selection :: selection_receipt
  hn_skills :: "skill_receipt option"
  hn_acquisition :: "acquisition_receipt option"
  hn_experience :: "experience_receipt option"
  hn_acs :: "acs_score option"
  hn_dependencies :: dependency_root
  hn_staged :: "pack_dependency list"

definition finish_run :: "harness_host \<Rightarrow> 'w harness_session \<Rightarrow> string \<Rightarrow> jsval \<Rightarrow> resolved_skills \<times> dependency_root \<times> acquisition_receipt
    \<Rightarrow> compiled_context \<Rightarrow> invocation_result \<times> string list \<times> recovery_event list \<Rightarrow> 'w session_state
    \<Rightarrow> harness_run result \<times> 'w session_state" where
  "finish_run host sess run_id inp prepared compiled invoked s0 =
     (case (prepared, invoked) of ((resolved, frozen, acquired), (result, tools, events)) \<Rightarrow>
      run_then (lift_res (session_evaluation host sess frozen compiled result tools s0) s0) (\<lambda>evaluation s.
        let receipt = make_receipt host sess run_id inp resolved frozen compiled result tools events evaluation in
        run_then (record_run host sess (session_experience sess run_id resolved frozen compiled receipt) s) (\<lambda>experience s.
        run_then (lift_res (session_acs sess result tools receipt) s) (\<lambda>acs s.
        run_then (run_hook sess AfterComplete (JsonExtra (run_receipt_json receipt)) s) (\<lambda>_ s.
          (Inr \<lparr>hn_result = result\<lparr>res_status := rn_final_status receipt\<rparr>, hn_receipt = receipt, hn_envelope = se_env s,
               hn_selection = cc_selection compiled, hn_skills = rk_receipt resolved,
               hn_acquisition = (case rk_receipt resolved of Some _ \<Rightarrow> Some acquired | None \<Rightarrow> None),
               hn_experience = experience, hn_acs = acs, hn_dependencies = frozen,
               hn_staged = da_staged (se_activation s)\<rparr>, s))))))"

definition run_session :: "harness_host \<Rightarrow> 'w harness_session \<Rightarrow> jsval \<Rightarrow> 'w session_state \<Rightarrow> harness_run result \<times> 'w session_state" where
  "run_session host sess inp s0 =
     run_then (start_run host sess s0) (\<lambda>run_id s.
     run_then (prepare_run host sess s) (\<lambda>prepared s.
     run_then (compile_run host sess (fst prepared) (dr_root (fst (snd prepared))) s) (\<lambda>compiled s.
     run_then (invoke_run sess inp s) (\<lambda>invoked s.
       finish_run host sess run_id inp prepared compiled invoked s))))"

fun run_many :: "harness_host \<Rightarrow> 'w harness_session \<Rightarrow> jsval list \<Rightarrow> 'w session_state \<Rightarrow> 'w session_state" where
  "run_many host sess [] s = s"
| "run_many host sess (inp # inps) s = run_many host sess inps (snd (run_session host sess inp s))"

section \<open>Between the runs\<close>

text \<open>\<open>session.registry.pull\<close>: the bound registry is wrapped by \<open>freezeAwareRegistry\<close>.\<close>

definition session_pull :: "harness_host \<Rightarrow> 'w harness_session \<Rightarrow> pull_input \<Rightarrow> 'w session_state \<Rightarrow> pack_bytes result \<times> 'w session_state" where
  "session_pull host sess i s =
     (case hs_bound sess of
        None \<Rightarrow> (Inl (TypeError ''session.registry is undefined''), s)
      | Some r \<Rightarrow>
          (case freeze_aware_pull (hh_compare host) (hr_pull r) ''knowledge'' i (se_world s, se_activation s) of
             (res, w, act) \<Rightarrow> (res, s\<lparr>se_world := w, se_activation := act\<rparr>)))"

text \<open>\<open>session.experience.approve\<close>\<close>

definition session_approve :: "harness_host \<Rightarrow> 'w harness_session \<Rightarrow> string \<Rightarrow> 'w session_state
    \<Rightarrow> skill_candidate option result \<times> 'w session_state" where
  "session_approve host sess i s =
     (case hs_learner sess of
        None \<Rightarrow> (Inl (TypeError ''session.experience is undefined''), s)
      | Some lrn \<Rightarrow> (case approve_lesson (hh_sha host) lrn i (se_store s) of (res, st) \<Rightarrow> (res, s\<lparr>se_store := st\<rparr>)))"

text \<open>What the client of a session may do, one call at a time.\<close>

inductive session_reachable :: "harness_host \<Rightarrow> 'w session_options \<Rightarrow> 'w harness_session \<Rightarrow> 'w session_state \<Rightarrow> bool"
  for host opts sess where
  session_created: "create_session host opts = Inr sess \<Longrightarrow> session_reachable host opts sess (new_session_state opts w)"
| session_ran: "session_reachable host opts sess s \<Longrightarrow> run_session host sess inp s = (res, s') \<Longrightarrow> session_reachable host opts sess s'"
| session_pulled: "session_reachable host opts sess s \<Longrightarrow> session_pull host sess i s = (res, s') \<Longrightarrow> session_reachable host opts sess s'"
| session_approved: "session_reachable host opts sess s \<Longrightarrow> session_approve host sess i s = (res, s') \<Longrightarrow> session_reachable host opts sess s'"

end
