(* ===== verification/Session_Safety.thy ===== *)
theory Session_Safety
  imports Harness_Session
begin

text \<open>
  What holds of a harness session over all its runs. A run reaches the activation only through the
  operations of \<open>DependencyActivation\<close>, so its invariant is the session's; the receipt of a run,
  its frozen dependencies and its envelope agree; and what a run acquires waits for the next one.
\<close>

section \<open>The session drives the activation\<close>

text \<open>With no freeze in flight, the second state follows from the first by operations of the activation, and none is left in flight.\<close>

definition driven :: "locale_compare \<Rightarrow> sha256 \<Rightarrow> activation \<Rightarrow> activation \<Rightarrow> bool" where
  "driven lc sha a b \<longleftrightarrow> (da_pending a = [] \<longrightarrow> (\<exists>ops. b = activation_run lc sha None ops a) \<and> da_pending b = [])"

lemma activation_run_append:
  "activation_run lc sha codec (xs @ ys) a = activation_run lc sha codec ys (activation_run lc sha codec xs a)"
  by (induction xs arbitrary: a) simp_all

lemma driven_refl [simp]: "driven lc sha a a"
  unfolding driven_def by (intro impI conjI exI [of _ "[]"]) simp_all

lemma driven_trans [trans]: "driven lc sha a b \<Longrightarrow> driven lc sha b c \<Longrightarrow> driven lc sha a c"
  unfolding driven_def by (metis activation_run_append)

lemma driven_op:
  assumes "x \<noteq> FreezeStart" "\<And>i. x \<noteq> FreezeEnd i" "activation_apply lc sha None x a = (r, b)"
  shows "driven lc sha a b"
proof -
  have "da_pending b = da_pending a"
    using assms
    by (cases x) (auto simp: activation_add_def replace_active_def activation_stage_def activate_staged_def Let_def split: sum.splits if_splits)
  moreover have "b = activation_run lc sha None [x] a" using assms(3) by simp
  ultimately show ?thesis unfolding driven_def by metis
qed

lemma driven_ops:
  "activate_staged lc a = (r, b) \<Longrightarrow> driven lc sha a b"
  "replace_active lc ds a = (r, b) \<Longrightarrow> driven lc sha a b"
  "activation_stage lc d a = (r, b) \<Longrightarrow> driven lc sha a b"
  "activation_add lc d a = (r, b) \<Longrightarrow> driven lc sha a b"
  by (rule driven_op [of ActivateStaged] driven_op [of "ReplaceActive ds"] driven_op [of "Stage d"] driven_op [of "Add d"]; simp)+

lemma driven_freeze:
  assumes "freeze lc sha None a = (r, b)"
  shows "driven lc sha a b"
proof -
  consider (same) "b = a" | (frozen) root where "da_frozen a = None" "r = Inr root"
    using assms by (cases r; cases "da_frozen a") (auto simp: freeze_def split: sum.splits)
  then show ?thesis
  proof cases
    case same
    then show ?thesis by simp
  next
    case frozen
    then have "da_pending b = da_pending a" using assms by (auto simp: freeze_def split: sum.splits)
    with freeze_awaited [OF frozen(1) _ assms [unfolded frozen(2)]] show ?thesis unfolding driven_def by metis
  qed
qed

lemma driven_pull:
  assumes "freeze_aware_pull lc pull role i (w, a) = (res, w', b)"
  shows "driven lc sha a b"
proof -
  have "driven lc sha a b'" if "record_pull lc role m a = (r, b')" for m r b'
    using that by (auto simp: record_pull_def intro: driven_ops split: sum.splits if_splits)
  with assms show ?thesis by (auto simp: freeze_aware_pull_def split: prod.splits sum.splits)
qed

text \<open>Acquisition stages, and does nothing else to the activation, also when it fails.\<close>

definition stages :: "locale_compare \<Rightarrow> sha256 \<Rightarrow> activation \<Rightarrow> activation \<Rightarrow> bool" where
  "stages lc sha a b \<longleftrightarrow> (\<exists>ds. b = activation_run lc sha None (map Stage ds) a)"

lemma stages_refl [simp]: "stages lc sha a a"
  unfolding stages_def by (rule exI [of _ "[]"]) simp

lemma stages_trans [trans]: "stages lc sha a b \<Longrightarrow> stages lc sha b c \<Longrightarrow> stages lc sha a c"
  unfolding stages_def by (metis activation_run_append map_append)

lemma stages_one: "activation_stage lc d a = (r, b) \<Longrightarrow> stages lc sha a b"
  unfolding stages_def by (rule exI [of _ "[d]"]) simp

lemma stages_frame:
  assumes "stages lc sha a b"
  shows "da_frozen b = da_frozen a \<and> da_active b = da_active a \<and> da_pending b = da_pending a"
proof -
  have "da_frozen c = da_frozen a \<and> da_active c = da_active a \<and> da_pending c = da_pending a"
    if "c = activation_run lc sha None (map Stage ds) a" for ds a c
    using that
    by (induction ds arbitrary: a) (auto simp: activation_stage_frame [OF surjective_pairing])
  with assms show ?thesis unfolding stages_def by blast
qed

lemma stages_driven:
  assumes "stages lc sha a b" shows "driven lc sha a b"
  using assms stages_frame [OF assms] unfolding stages_def driven_def by metis

lemma stages_stage_pack: "stage_pack lc item bytes m chosen s = (r, s') \<Longrightarrow> stages lc sha (aqs_activation s) (aqs_activation s')"
  by (auto simp: stage_pack_def note_candidate_def intro: stages_one split: sum.splits prod.splits)

lemma note_activation [simp]: "aqs_activation (note_candidate item d r s) = aqs_activation s"
  by (simp add: note_candidate_def)

lemma stages_consider_pack:
  "consider_pack lc inp item bytes s = (r, s') \<Longrightarrow> stages lc sha (aqs_activation s) (aqs_activation s')"
  unfolding consider_pack_def by (auto intro: stages_stage_pack split: option.splits sum.splits bool.splits if_splits)

lemma stages_acquire_item:
  assumes "acquire_item lc inp item s = (r, s')"
  shows "stages lc sha (aqs_activation s) (aqs_activation s')"
proof -
  have c: "stages lc sha (aqs_activation s) (aqs_activation (snd (consider_pack lc inp item bytes (s\<lparr>aqs_pulls := n, aqs_registry := x, aqs_pulled := p\<rparr>))))"
    for bytes n x p
    using stages_consider_pack [of lc inp item bytes "s\<lparr>aqs_pulls := n, aqs_registry := x, aqs_pulled := p\<rparr>"]
    by (metis acquire_state.select_convs(2) acquire_state.surjective acquire_state.update_convs(1,8,9) prod.collapse)
  obtain res x where pull: "aqi_pull inp (aqs_registry s) (PullSpec (SpecText (pack_key (sh_name (fst item)) (sh_version (fst item))))) = (res, x)"
    by fastforce
  have "stages lc sha (aqs_activation s) (aqs_activation (snd (acquire_item lc inp item s)))"
    unfolding acquire_item_def Let_def
    by (simp add: pull c split: sum.splits prod.splits)
  with assms show ?thesis by simp
qed

lemma stages_acquire_loop:
  "acquire_loop lc inp items s = (r, s') \<Longrightarrow> stages lc sha (aqs_activation s) (aqs_activation s')"
proof (induction items arbitrary: s)
  case (Cons item items)
  obtain x t where item: "acquire_item lc inp item s = (x, t)" by fastforce
  with Cons show ?case
    by (auto split: if_splits sum.splits intro: stages_trans [OF stages_acquire_item [OF item]] stages_acquire_item)
qed simp

lemma stages_acquire_skills:
  "acquire_skills lc inp w a = (r, w', b) \<Longrightarrow> stages lc sha a b"
  unfolding acquire_skills_def Let_def
  by (auto split: sum.splits prod.splits if_splits dest!: stages_acquire_loop [where sha = sha] simp: harness_fail_def)

section \<open>What a step of a run may do\<close>

definition session_moves :: "harness_host \<Rightarrow> 'w harness_session \<Rightarrow> 'w session_state \<Rightarrow> 'w session_state \<Rightarrow> bool" where
  "session_moves host sess s s' \<longleftrightarrow>
     driven (hh_compare host) (hh_sha host) (se_activation s) (se_activation s')
     \<and> (\<forall>lrn. hs_learner sess = Some lrn \<longrightarrow> store_reachable (hh_sha host) lrn (se_store s) \<longrightarrow> store_reachable (hh_sha host) lrn (se_store s'))
     \<and> (\<exists>packs. se_acquired s' = se_acquired s @ packs)"

text \<open>The steps that leave the activation, the store and the acquired packs alone.\<close>

definition session_same :: "'w session_state \<Rightarrow> 'w session_state \<Rightarrow> bool" where
  "session_same s s' \<longleftrightarrow> se_activation s' = se_activation s \<and> se_store s' = se_store s \<and> se_acquired s' = se_acquired s"

lemma session_same_refl [simp]: "session_same s s"
  by (simp add: session_same_def)

lemma same_moves: "session_same s s' \<Longrightarrow> session_moves host sess s s'"
  by (simp add: session_moves_def session_same_def)

lemma session_moves_refl [simp]: "session_moves host sess s s"
  by (simp add: same_moves)

lemma session_moves_trans: "session_moves host sess s t \<Longrightarrow> session_moves host sess t u \<Longrightarrow> session_moves host sess s u"
  unfolding session_moves_def by (metis append.assoc driven_trans)

lemma session_same_trans: "session_same s t \<Longrightarrow> session_same t u \<Longrightarrow> session_same s u"
  by (simp add: session_same_def)

lemma run_then_moves:
  assumes "session_moves host sess s (snd m)" "\<And>a t. m = (Inr a, t) \<Longrightarrow> session_moves host sess t (snd (f a t))"
  shows "session_moves host sess s (snd (run_then m f))"
  using assms by (cases m; cases "fst m") (auto intro: session_moves_trans)

lemma run_then_same:
  assumes "session_same s (snd m)" "\<And>a t. m = (Inr a, t) \<Longrightarrow> session_same t (snd (f a t))"
  shows "session_same s (snd (run_then m f))"
  using assms by (cases m; cases "fst m") (auto intro: session_same_trans)

lemma with_activation_moves:
  assumes "\<And>a r b. f a = (r, b) \<Longrightarrow> driven (hh_compare host) (hh_sha host) a b"
  shows "session_moves host sess s (snd (with_activation f s))"
  using assms by (auto simp: with_activation_def session_moves_def split: prod.splits)

lemma lift_res_same [simp]: "snd (lift_res r s) = s"
  by (simp add: lift_res_def)

lemma run_hook_same: "session_same s (snd (run_hook sess h x s))"
  by (simp add: run_hook_def session_same_def split: prod.splits)

lemma start_run_same: "session_same s (snd (start_run host sess s))"
  by (simp add: start_run_def session_same_def split: prod.splits option.splits)

lemma maybe_acquire_stages:
  assumes "maybe_acquire host sess resolved s = (res, t)"
  shows "stages (hh_compare host) (hh_sha host) (se_activation s) (se_activation t) \<and> se_store t = se_store s \<and> se_acquired t = se_acquired s"
  using assms unfolding maybe_acquire_def Let_def
  by (auto simp: harness_fail_def dest!: stages_acquire_skills [where sha = "hh_sha host"] split: if_splits registry_option.splits sum.splits prod.splits)

lemma maybe_acquire_moves: "session_moves host sess s (snd (maybe_acquire host sess resolved s))"
  using maybe_acquire_stages [of host sess resolved s] by (cases "maybe_acquire host sess resolved s") (simp add: session_moves_def stages_driven)

lemma prepare_run_moves: "session_moves host sess s (snd (prepare_run host sess s))"
  unfolding prepare_run_def
  by (intro run_then_moves with_activation_moves maybe_acquire_moves driven_ops driven_freeze)
     (auto simp: session_moves_def split: prod.splits intro: driven_ops driven_freeze)

lemma compile_run_same: "session_same s (snd (compile_run host sess resolved run_root s))"
  unfolding compile_run_def Let_def
  by (intro run_then_same run_hook_same [THEN session_same_trans [rotated]]) (simp_all add: session_same_def)

lemma invoke_run_same: "session_same s (snd (invoke_run sess inp s))"
  unfolding invoke_run_def
  by (intro run_then_same) (auto simp: session_same_def run_hook_def run_then_def split: prod.splits sum.splits)

lemma record_run_moves: "session_moves host sess s (snd (record_run host sess x s))"
proof (cases "hs_learner sess")
  case None
  then show ?thesis by (simp add: record_run_def)
next
  case (Some lrn)
  obtain r st w where rec: "record_experience (hh_sha host) lrn x (se_store s) (se_world s) = (r, st, w)" by (metis prod_cases3)
  then have "store_reachable (hh_sha host) lrn (se_store s) \<Longrightarrow> store_reachable (hh_sha host) lrn st" by (blast intro: store_record)
  with Some rec show ?thesis by (cases r) (auto simp: record_run_def session_moves_def)
qed

lemma finish_run_moves: "session_moves host sess s (snd (finish_run host sess run_id inp prepared compiled invoked s))"
proof -
  obtain resolved frozen acquired where p: "prepared = (resolved, frozen, acquired)" by (metis prod_cases3)
  obtain result tools events where i: "invoked = (result, tools, events)" by (metis prod_cases3)
  show ?thesis
    unfolding finish_run_def p i prod.case Let_def
    by (intro run_then_moves record_run_moves same_moves [OF run_hook_same]) (simp_all)
qed

lemma run_session_moves: "session_moves host sess s (snd (run_session host sess inp s))"
  unfolding run_session_def
  by (intro run_then_moves prepare_run_moves finish_run_moves same_moves start_run_same compile_run_same invoke_run_same)

lemma session_pull_moves: "session_pull host sess i s = (r, s') \<Longrightarrow> session_moves host sess s s'"
  by (auto simp: session_pull_def session_moves_def dest: driven_pull split: option.splits prod.splits)

lemma session_approve_moves: "session_approve host sess i s = (r, s') \<Longrightarrow> session_moves host sess s s'"
  by (auto simp: session_approve_def session_moves_def intro: store_approve split: option.splits prod.splits)

text \<open>In every reachable state the activation and the store are ones their own operations reach.\<close>

lemma session_reachable_parts:
  assumes "session_reachable host opts sess s"
  shows "driven (hh_compare host) (hh_sha host) new_activation (se_activation s)
    \<and> (\<forall>lrn. hs_learner sess = Some lrn \<longrightarrow> store_reachable (hh_sha host) lrn (se_store s))
    \<and> create_session host opts = Inr sess"
  using assms
proof (induction rule: session_reachable.induct)
  case (session_created w)
  then show ?case by (simp add: new_session_state_def store_new)
next
  case (session_ran s inp res s')
  with run_session_moves [of host sess s inp] show ?case
    unfolding session_moves_def by (auto intro: driven_trans)
next
  case (session_pulled s i res s')
  with session_pull_moves [of host sess i s res s'] show ?case
    unfolding session_moves_def by (auto intro: driven_trans)
next
  case (session_approved s i res s')
  with session_approve_moves [of host sess i s res s'] show ?case
    unfolding session_moves_def by (auto intro: driven_trans)
qed

lemma session_activation_ok:
  assumes "session_reachable host opts sess s" "comparator (hh_compare host)"
  shows "activation_ok (hh_compare host) (hh_sha host) None (se_activation s)" "da_pending (se_activation s) = []"
proof -
  have "da_pending new_activation = []" by (simp add: new_activation_def)
  with session_reachable_parts [OF assms(1)] obtain ops
    where ops: "se_activation s = activation_run (hh_compare host) (hh_sha host) None ops new_activation" and idle: "da_pending (se_activation s) = []"
    unfolding driven_def by blast
  show "da_pending (se_activation s) = []" by (rule idle)
  show "activation_ok (hh_compare host) (hh_sha host) None (se_activation s)"
    unfolding ops by (rule activation_run_ok [OF assms(2) new_activation_ok])
qed

lemma session_learner_new:
  assumes "create_session host opts = Inr sess" "hs_learner sess = Some lrn"
  shows "new_learner (sn_experience opts) (memory_remember (sn_memory opts))
    (map_option ag_capabilities (parse_authority_grant (sn_authority opts))) (sn_memory opts) = Inr lrn"
  using assms by (auto simp: create_session_def create_learner_def bind_res_eq_Inr split: if_splits)

lemma session_store_ok:
  assumes "session_reachable host opts sess s" "hs_learner sess = Some lrn"
  shows "\<exists>h. store_trace (hh_sha host) lrn h (se_store s) \<and> store_ok (hh_sha host) lrn h (se_store s)"
proof -
  have parts: "store_reachable (hh_sha host) lrn (se_store s)" "create_session host opts = Inr sess"
    using session_reachable_parts [OF assms(1)] assms(2) by simp_all
  from store_reachable_ok [OF parts(1) new_learner_bounds [OF session_learner_new [OF parts(2) assms(2)]]] show ?thesis by blast
qed

section \<open>The dependencies of a run\<close>

text \<open>Merging and sorting keep the roles and names.\<close>

abbreviation keys :: "pack_dependency list \<Rightarrow> string set" where
  "keys ds \<equiv> dependency_key ` set ds"

lemma merge_keys:
  assumes "merge_pack_dependencies lc base extra = Inr merged"
  shows "keys merged = keys base \<union> keys extra"
proof -
  from assms obtain ns where ns: "map_res normalize_pack_dependency (base @ extra) = Inr ns"
    by (auto simp: merge_pack_dependencies_def bind_res_eq_Inr)
  then have "map dependency_key ns = map dependency_key (base @ extra)" by (rule normalize_list [THEN conjunct2])
  then have k: "keys ns = keys base \<union> keys extra" by (metis image_Un set_append set_map)
  have "k \<in> keys merged \<longleftrightarrow> k \<in> keys ns" for k
  proof
    assume "k \<in> keys ns"
    then obtain d where d: "find (\<lambda>e. dependency_key e = k) (rev ns) = Some d"
      by (cases "find (\<lambda>e. dependency_key e = k) (rev ns)") (auto simp: find_None_iff)
    from find_in_set [OF d] have k: "dependency_key d = k" by simp
    from d have "d \<in> set merged" unfolding merge_members [OF assms ns] k .
    from imageI [OF this, of dependency_key] show "k \<in> keys merged" unfolding k .
  next
    assume "k \<in> keys merged"
    then obtain d where d: "d \<in> set merged" "k = dependency_key d" by blast
    from d(1) have "find (\<lambda>e. dependency_key e = dependency_key d) (rev ns) = Some d" unfolding merge_members [OF assms ns] .
    from find_in_set [OF this] have "d \<in> set ns" unfolding set_rev by (rule conjunct1)
    then show "k \<in> keys ns" unfolding d(2) by (rule imageI)
  qed
  then have "keys merged = keys ns" by (rule set_eqI)
  then show ?thesis unfolding k .
qed

lemma sort_keys: "sort_pack_dependencies lc ds = Inr es \<Longrightarrow> keys es = keys ds"
  by (drule sort_pack_dependencies_Inr(2)) (metis set_map set_mset_mset)

lemma root_keys: "compute_dependency_root lc sha codec ds = Inr r \<Longrightarrow> keys (dr_dependencies r) = keys ds"
  by (auto simp: compute_dependency_root_def bind_res_eq_Inr dest!: sort_keys)

lemma lockfile_keys:
  assumes "pack_dependencies_from_lockfile lc (Some l) role = Inr ds" "name \<in> fst ` set (lf_packs l)"
  shows "role @ '':'' @ name \<in> keys ds"
proof -
  obtain pin where pin: "(name, pin) \<in> set (lf_packs l)" using assms(2) by auto
  let ?dep = "\<lambda>(name, pin). \<lparr>pd_name = name, pd_version = lp_version pin, pd_sha256 = lp_sha256 pin,
    pd_state_root = nonempty_string (lp_state_root pin), pd_role = role\<rparr>"
  have "?dep (name, pin) \<in> set (map ?dep (lf_packs l))" unfolding set_map using pin by (rule imageI)
  then have "dependency_key (?dep (name, pin)) \<in> keys (map ?dep (lf_packs l))" by (rule imageI)
  moreover have "keys ds = keys (map ?dep (lf_packs l))"
    using assms(1) unfolding pack_dependencies_from_lockfile_def option.case by (rule sort_keys)
  ultimately show ?thesis by (simp add: dependency_key_def)
qed

lemma collected_keys:
  assumes "collect_run_dependencies lc sha knowledge lock skills = Inr ds"
  shows "name \<in> set knowledge \<Longrightarrow> ''knowledge:'' @ name \<in> keys ds"
    and "skills = Some rc \<Longrightarrow> k \<in> set (sl_selected rc) \<Longrightarrow> ''skill:'' @ selected_skill.ss_id k \<in> keys ds"
proof -
  from assms obtain locked where locked: "pack_dependencies_from_lockfile lc lock ''knowledge'' = Inr locked"
    and ds: "ds = locked @ map (local_dependency sha) (filter (\<lambda>name. case lock of Some l \<Rightarrow> name \<notin> fst ` set (lf_packs l) | None \<Rightarrow> True) knowledge)
         @ (case skills of Some rc \<Rightarrow> map skill_dependency (sl_selected rc) | None \<Rightarrow> [])"
    by (auto simp: collect_run_dependencies_def bind_res_eq_Inr)
  have skill: "dependency_key (skill_dependency k) = ''skill:'' @ selected_skill.ss_id k" for k
    by (simp add: dependency_key_def skill_dependency_def)
  have local: "dependency_key (local_dependency sha name) = ''knowledge:'' @ name"
    by (simp add: dependency_key_def local_dependency_def)
  show "''skill:'' @ selected_skill.ss_id k \<in> keys ds" if "skills = Some rc" "k \<in> set (sl_selected rc)"
    using that unfolding ds skill [symmetric] by simp
  show "''knowledge:'' @ name \<in> keys ds" if "name \<in> set knowledge"
  proof (cases "\<exists>l. lock = Some l \<and> name \<in> fst ` set (lf_packs l)")
    case True
    then obtain l where l: "lock = Some l" "name \<in> fst ` set (lf_packs l)" by blast
    from lockfile_keys [OF locked [unfolded l(1)] l(2)] show ?thesis unfolding ds set_append image_Un append.simps by (rule UnI1)
  next
    case False
    with that have "name \<in> set (filter (\<lambda>name. case lock of Some l \<Rightarrow> name \<notin> fst ` set (lf_packs l) | None \<Rightarrow> True) knowledge)"
      by (auto split: option.splits)
    then show ?thesis unfolding ds local [symmetric] by auto
  qed
qed

section \<open>A run that returns\<close>

lemma with_activation_Inr:
  "with_activation f s = (Inr x, t) \<longleftrightarrow> (\<exists>b. f (se_activation s) = (Inr x, b) \<and> t = s\<lparr>se_activation := b\<rparr>)"
  by (cases "f (se_activation s)") (auto simp: with_activation_def)

lemma lift_res_Inr: "lift_res r s = (Inr x, t) \<longleftrightarrow> r = Inr x \<and> t = s"
  by (auto simp: lift_res_def)

definition with_acquisition :: "acquisition_receipt \<Rightarrow> skill_receipt \<Rightarrow> skill_receipt" where
  "with_acquisition rc = (\<lambda>r. r\<lparr>sl_registry := aq_registry rc, sl_acquisition := rc\<rparr>)"

lemma session_promoted_activation [simp]: "session_promoted sess (s\<lparr>se_activation := a\<rparr>) = session_promoted sess s"
  by (simp add: session_promoted_def split: option.split)

lemma prepare_run_Inr:
  assumes "prepare_run host sess s0 = (Inr (resolved, frozen, rc), s)"
  obtains a1 r0 deps a2 a3 packs t where
    "activate_staged (hh_compare host) (se_activation s0) = (Inr (), a1)"
    "resolve_harness_skills host sess (se_acquired s0) (session_promoted sess s0) = Inr r0"
    "run_dependencies host sess (rk_receipt r0) a1 = Inr deps"
    "replace_active (hh_compare host) deps a1 = (Inr (), a2)"
    "freeze (hh_compare host) (hh_sha host) None a2 = (Inr frozen, a3)"
    "maybe_acquire host sess r0 (s0\<lparr>se_activation := a3\<rparr>) = (Inr (rc, packs), t)"
    "s = t\<lparr>se_acquired := se_acquired t @ packs\<rparr>"
    "resolved = r0\<lparr>rk_receipt := map_option (with_acquisition rc) (rk_receipt r0)\<rparr>"
  using assms
  by (auto simp: prepare_run_def run_then_Inr with_activation_Inr lift_res_Inr with_acquisition_def
      split: prod.splits)

lemma run_session_Inr:
  assumes "run_session host sess inp s0 = (Inr run, s')"
  obtains run_id s1 resolved frozen rc s2 compiled s3 result tools events s4 where
    "start_run host sess s0 = (Inr run_id, s1)" "session_same s0 s1"
    "prepare_run host sess s1 = (Inr (resolved, frozen, rc), s2)"
    "compile_run host sess resolved (dr_root frozen) s2 = (Inr compiled, s3)" "session_same s2 s3"
    "invoke_run sess inp s3 = (Inr (result, tools, events), s4)" "session_same s3 s4"
    "finish_run host sess run_id inp (resolved, frozen, rc) compiled (result, tools, events) s4 = (Inr run, s')"
proof -
  from assms obtain run_id s1 resolved frozen rc s2 compiled s3 result tools events s4 where
    r: "start_run host sess s0 = (Inr run_id, s1)"
    "prepare_run host sess s1 = (Inr (resolved, frozen, rc), s2)"
    "compile_run host sess resolved (dr_root frozen) s2 = (Inr compiled, s3)"
    "invoke_run sess inp s3 = (Inr (result, tools, events), s4)"
    "finish_run host sess run_id inp (resolved, frozen, rc) compiled (result, tools, events) s4 = (Inr run, s')"
    by (auto simp: run_session_def run_then_Inr)
  from that [OF r(1) _ r(2,3) _ r(4) _ r(5)] show ?thesis
    using start_run_same [of s0 host sess] compile_run_same [of s2 host sess resolved "dr_root frozen"] invoke_run_same [of s3 sess inp]
    unfolding r(1,3,4) by simp
qed

text \<open>What a returned run reports comes from its parts.\<close>

lemma finish_run_Inr:
  assumes "finish_run host sess run_id inp (resolved, frozen, rc) compiled (result, tools, events) s = (Inr run, s')"
  obtains evaluation t where
    "session_evaluation host sess frozen compiled result tools s = Inr evaluation"
    "hn_receipt run = make_receipt host sess run_id inp resolved frozen compiled result tools events evaluation"
    "hn_result run = result\<lparr>res_status := rn_final_status (hn_receipt run)\<rparr>"
    "hn_dependencies run = frozen" "hn_skills run = rk_receipt resolved" "hn_selection run = cc_selection compiled"
    "hn_envelope run = se_env s'" "hn_staged run = da_staged (se_activation s')"
    "hn_acquisition run = (case rk_receipt resolved of Some _ \<Rightarrow> Some rc | None \<Rightarrow> None)"
    "se_activation s' = se_activation s" "se_acquired s' = se_acquired s"
    "run_hook sess AfterComplete (JsonExtra (run_receipt_json (hn_receipt run))) t = (Inr (), s')" "se_env t = se_env s"
proof -
  from assms obtain evaluation x t u acs where
    f: "session_evaluation host sess frozen compiled result tools s = Inr evaluation"
    "record_run host sess (session_experience sess run_id resolved frozen compiled
       (make_receipt host sess run_id inp resolved frozen compiled result tools events evaluation)) s = (Inr x, t)"
    "run_hook sess AfterComplete (JsonExtra (run_receipt_json
       (make_receipt host sess run_id inp resolved frozen compiled result tools events evaluation))) t = (Inr (), s')"
    "run = \<lparr>hn_result = result\<lparr>res_status := rn_final_status (make_receipt host sess run_id inp resolved frozen compiled result tools events evaluation)\<rparr>,
       hn_receipt = make_receipt host sess run_id inp resolved frozen compiled result tools events evaluation, hn_envelope = se_env s',
       hn_selection = cc_selection compiled, hn_skills = rk_receipt resolved,
       hn_acquisition = (case rk_receipt resolved of Some _ \<Rightarrow> Some rc | None \<Rightarrow> None), hn_experience = x, hn_acs = acs, hn_dependencies = frozen,
       hn_staged = da_staged (se_activation s')\<rparr>"
    by (auto simp: finish_run_def Let_def run_then_Inr lift_res_Inr)
  from f(2) have t: "se_env t = se_env s" "se_activation t = se_activation s" "se_acquired t = se_acquired s"
    by (auto simp: record_run_def split: option.splits prod.splits sum.splits)
  from run_hook_same [of t sess AfterComplete] have "session_same t s'" by (metis f(3) snd_conv)
  with that [OF f(1)] f(3,4) t show ?thesis by (simp add: session_same_def)
qed

lemma activate_staged_Inr:
  assumes "activate_staged lc a = (Inr (), b)"
  shows "keys (da_active b) = keys (da_active a) \<union> keys (da_staged a)" "da_frozen b = None" "da_staged b = []"
proof -
  from assms obtain ds where ds: "merge_pack_dependencies lc (da_active a) (da_staged a) = Inr ds"
    and b: "b = a\<lparr>da_frozen := None, da_active := ds, da_staged := []\<rparr>"
    by (auto simp: activate_staged_def Let_def split: sum.splits)
  from merge_keys [OF ds] show "keys (da_active b) = keys (da_active a) \<union> keys (da_staged a)" unfolding b by simp
  show "da_frozen b = None" "da_staged b = []" unfolding b by simp_all
qed

lemma replace_active_Inr:
  assumes "replace_active lc ds a = (Inr (), b)"
  shows "keys (da_active b) = keys ds" "da_frozen b = None" "da_staged b = da_staged a"
proof -
  from assms obtain es where es: "merge_pack_dependencies lc [] ds = Inr es" and b: "b = a\<lparr>da_active := es\<rparr>" "da_frozen a = None"
    by (auto simp: replace_active_def frozen_error_def harness_fail_def split: sum.splits if_splits)
  from merge_keys [OF es] show "keys (da_active b) = keys ds" unfolding b by simp
  show "da_frozen b = None" "da_staged b = da_staged a" using b by simp_all
qed

lemma freeze_Inr:
  assumes "freeze lc sha codec a = (Inr r, b)" "da_frozen a = None"
  shows "compute_dependency_root lc sha codec (da_active a) = Inr r" "da_frozen b = Some r" "da_active b = dr_dependencies r"
  using assms by (auto simp: freeze_def split: sum.splits)

text \<open>
  A prepared run: its frozen root is the root of the set it lists, that set is what stays active,
  and it has an entry for what the session declares, selected, and had activated or staged before.
\<close>

lemma prepared_run:
  assumes "comparator (hh_compare host)" "prepare_run host sess s0 = (Inr (resolved, frozen, rc), s)"
  shows "compute_dependency_root (hh_compare host) (hh_sha host) None (dr_dependencies frozen) = Inr frozen
    \<and> da_frozen (se_activation s) = Some frozen \<and> da_active (se_activation s) = dr_dependencies frozen
    \<and> keys (da_active (se_activation s0)) \<union> keys (da_staged (se_activation s0)) \<subseteq> keys (dr_dependencies frozen)
    \<and> (\<forall>name \<in> set (sn_knowledge (hs_options sess)). ''knowledge:'' @ name \<in> keys (dr_dependencies frozen))
    \<and> (\<forall>k \<in> set (selected_rows (rk_receipt resolved)). ''skill:'' @ selected_skill.ss_id k \<in> keys (dr_dependencies frozen))"
  using assms(2)
proof (cases rule: prepare_run_Inr)
  case (1 a1 r0 deps a2 a3 packs t)
  note a1 = activate_staged_Inr [OF 1(1)] and a2 = replace_active_Inr [OF 1(4)]
  note fr = freeze_Inr [OF 1(5) a2(2)]
  from 1(3) obtain ds where ds: "collect_run_dependencies (hh_compare host) (hh_sha host) (sn_knowledge (hs_options sess)) (hs_lockfile sess) (rk_receipt r0) = Inr ds"
    "merge_pack_dependencies (hh_compare host) ds (da_active a1) = Inr deps"
    by (auto simp: run_dependencies_def bind_res_eq_Inr)
  have k: "keys (dr_dependencies frozen) = keys ds \<union> keys (da_active (se_activation s0)) \<union> keys (da_staged (se_activation s0))"
    unfolding root_keys [OF fr(1)] a2(1) merge_keys [OF ds(2)] a1(1) by (rule Un_assoc [symmetric])
  have rows: "selected_rows (rk_receipt resolved) = selected_rows (rk_receipt r0)"
    unfolding 1(8) by (simp add: selected_rows_def with_acquisition_def split: option.splits)
  have "compute_dependency_root (hh_compare host) (hh_sha host) None (dr_dependencies frozen) = Inr frozen"
    by (rule root_of_its_dependencies [OF assms(1) fr(1)])
  moreover have "da_frozen (se_activation s) = Some frozen \<and> da_active (se_activation s) = dr_dependencies frozen"
    using stages_frame [OF maybe_acquire_stages [OF 1(6), THEN conjunct1]] fr(2,3) 1(7) by simp
  moreover have "keys (da_active (se_activation s0)) \<union> keys (da_staged (se_activation s0)) \<subseteq> keys (dr_dependencies frozen)"
    unfolding k by blast
  moreover have "\<forall>name \<in> set (sn_knowledge (hs_options sess)). ''knowledge:'' @ name \<in> keys (dr_dependencies frozen)"
    using collected_keys(1) [OF ds(1)] unfolding k by blast
  moreover have "\<forall>k \<in> set (selected_rows (rk_receipt resolved)). ''skill:'' @ selected_skill.ss_id k \<in> keys (dr_dependencies frozen)"
  proof
    fix x assume "x \<in> set (selected_rows (rk_receipt resolved))"
    then obtain r where "rk_receipt r0 = Some r" "x \<in> set (sl_selected r)"
      unfolding rows by (cases "rk_receipt r0") (simp_all add: selected_rows_def)
    from collected_keys(2) [OF ds(1) this] show "''skill:'' @ selected_skill.ss_id x \<in> keys (dr_dependencies frozen)"
      unfolding k by blast
  qed
  ultimately show ?thesis by blast
qed

text \<open>The hooks that return, and the compilation and the invocation between them, keep the authority.\<close>

lemma run_hook_keeps:
  assumes "run_hook sess h x s = (Inr u, t)"
  shows "same_authority (se_env t) (se_env s)"
proof -
  obtain w env where h: "run_hooks (sn_middleware (hs_options sess)) h x (se_world s) (se_env s) = (Inr u, w, env)"
    and t: "t = s\<lparr>se_world := w, se_env := env\<rparr>"
    using assms by (auto simp: run_hook_def split: prod.splits)
  from pipeline.run_keeps [OF h] show ?thesis unfolding t by simp
qed

lemma compile_run_authority:
  assumes "compile_run host sess resolved run_root s0 = (Inr compiled, s)"
  shows "env_capabilities_ref (se_env s) = sn_capabilities_ref (hs_options sess) \<and> env_dependency_root (se_env s) = run_root"
proof -
  let ?opts = "hs_options sess"
  let ?s1 = "s0\<lparr>se_env := empty_envelope (sn_task ?opts) (sn_capabilities ?opts) (sn_capabilities_ref ?opts)
                 (merge_budget (task_budget (sn_task ?opts)) (sn_limits ?opts)) run_root\<rparr>"
  from assms obtain a b c d where h: "run_hook sess BeforeRun NoExtra ?s1 = (Inr (), a)" "run_hook sess BeforeContext NoExtra a = (Inr (), b)"
    and comp: "compile_context (hh_compare host) (hh_sha host) (session_compile_input host sess resolved b) = Inr compiled"
    and h': "run_hook sess OnEvidence (ItemsExtra (env_evidence (cc_envelope compiled))) (b\<lparr>se_env := cc_envelope compiled\<rparr>) = (Inr (), c)"
      "run_hook sess OnSkillCandidates (ItemsExtra (candidate_items resolved compiled)) c = (Inr (), d)"
      "run_hook sess OnSkillSelected (ItemsExtra (selected_items resolved compiled)) d = (Inr (), s)"
    by (auto simp: compile_run_def Let_def run_then_Inr lift_res_Inr)
  have "same_authority (se_env b) (se_env ?s1)" using run_hook_keeps [OF h(1)] run_hook_keeps [OF h(2)] same_authority_trans by blast
  moreover have "same_authority (se_env s) (cc_envelope compiled)"
    using run_hook_keeps [OF h'(1)] run_hook_keeps [OF h'(2)] run_hook_keeps [OF h'(3)] by (simp add: same_authority_def)
  moreover have "same_authority (cc_envelope compiled) (se_env b)"
    using comp by (auto simp: session_compile_input_def Let_def same_authority_def assemble_def elim!: compile_context_Inr)
  ultimately show ?thesis by (simp add: same_authority_def empty_envelope_def)
qed

lemma invoke_run_authority:
  assumes "\<not> handles (sn_middleware (hs_options sess)) BeforeTool" "\<not> handles (sn_middleware (hs_options sess)) AfterTool"
    and "invoke_run sess inp s = (Inr (result, tools, events), t)"
  shows "same_authority (se_env t) (se_env s)"
proof -
  let ?invoke = "\<lambda>policy. invoke_with_recovery policy (run_hooks (sn_middleware (hs_options sess))) (sn_adapter (hs_options sess))
          (run_input (hs_options sess) inp) (se_world s) (se_env s)"
  from assms(3) obtain policy where p: "parse_recovery_policy (sn_recovery (hs_options sess)) = Inr policy"
    by (auto simp: invoke_run_def run_then_Inr lift_res_Inr)
  obtain r w env where r: "?invoke policy = (r, w, env)" by (metis prod_cases3)
  with assms(3) p have inv: "?invoke policy = (Inr (result, tools, events), w, env)"
    and h: "run_hook sess BeforeComplete (ResultExtra result) (s\<lparr>se_world := w, se_env := env\<rparr>) = (Inr (), t)"
    by (auto simp: invoke_run_def run_then_Inr lift_res_def)
  from hooked.recovery_keeps [OF assms(1,2) inv] run_hook_keeps [OF h] show ?thesis
    by (simp add: same_authority_def)
qed

text \<open>Recording a run adds at most its own record.\<close>

lemma sync_candidate_records: "sync_candidate sha lrn ls st = (r, st') \<Longrightarrow> xs_records st' = xs_records st"
  by (auto simp: sync_candidate_def draft_candidate_def promote_skill_def Let_def split: option.splits sum.splits prod.splits if_splits)

lemma learn_from_records: "learn_from sha lrn x st = (r, st') \<Longrightarrow> xs_records st' = xs_records st"
  by (auto simp: learn_from_def Let_def dest!: sync_candidate_records split: option.splits sum.splits prod.splits if_splits)

lemma record_experience_records:
  assumes "record_experience sha lrn inp st w = (r, st', w')"
  shows "set (xs_records st') \<subseteq> insert (new_record sha inp st) (set (xs_records st))"
proof -
  have "xs_records st' = xs_records st \<or> xs_records st' = keep_record (ln_policy lrn) (new_record sha inp st) (xs_records st)"
    using assms by (auto simp: record_experience_def Let_def dest!: learn_from_records split: if_splits option.splits sum.splits prod.splits)
  with keep_record_set [of "ln_policy lrn" "new_record sha inp st" "xs_records st"] show ?thesis by auto
qed

text \<open>A run with a prohibited violation adds no useful record.\<close>

lemma finish_run_useful:
  assumes "finish_run host sess run_id inp (resolved, frozen, rc) compiled (result, tools, events) s = (Inr run, s')"
    and "er_violations (rn_evaluation (hn_receipt run)) \<noteq> []"
  shows "\<forall>r \<in> set (xs_records (se_store s')). xr_useful r \<longrightarrow> r \<in> set (xs_records (se_store s))"
proof -
  from assms(1) obtain evaluation x t where
    rec: "record_run host sess (session_experience sess run_id resolved frozen compiled (hn_receipt run)) s = (Inr x, t)"
    and hook: "run_hook sess AfterComplete (JsonExtra (run_receipt_json (hn_receipt run))) t = (Inr (), s')"
    by (auto simp: finish_run_def Let_def run_then_Inr lift_res_Inr)
  from run_hook_same [of t sess AfterComplete] hook have store: "se_store s' = se_store t" by (metis session_same_def snd_conv)
  show ?thesis
  proof (cases "hs_learner sess")
    case None
    with rec store show ?thesis by (simp add: record_run_def)
  next
    case (Some lrn)
    let ?x = "session_experience sess run_id resolved frozen compiled (hn_receipt run)"
    obtain res st w where r: "record_experience (hh_sha host) lrn ?x (se_store s) (se_world s) = (res, st, w)" by (metis prod_cases3)
    with rec Some have t: "se_store t = st" by (cases res) (auto simp: record_run_def)
    have "\<not> xr_useful (new_record (hh_sha host) ?x (se_store s))"
      using assms(2) by (simp add: new_record_def Let_def session_experience_def is_useful_experience_def)
    with record_experience_records [OF r] show ?thesis unfolding store t by blast
  qed
qed

lemma prepare_run_store:
  assumes "prepare_run host sess s0 = (Inr (resolved, frozen, rc), s)"
  shows "se_store s = se_store s0"
  using assms
proof (cases rule: prepare_run_Inr)
  case (1 a1 r0 deps a2 a3 packs t)
  from maybe_acquire_stages [OF 1(6)] show ?thesis unfolding 1(7) by simp
qed

text \<open>Freezing valid dependencies can only fail on a CBOR length beyond 32 bits.\<close>

definition cbor_too_long :: js_error where
  "cbor_too_long = PlainError ''canonical CBOR length exceeds 32-bit encoding''"

lemma map_res_Inl: "map_res f xs = Inl e \<Longrightarrow> \<exists>x \<in> set xs. f x = Inl e"
  by (induction xs) (auto simp: bind_res_def split: sum.splits)

lemma bind_res_Inl: "bind_res r f = Inl e \<longleftrightarrow> r = Inl e \<or> (\<exists>x. r = Inr x \<and> f x = Inl e)"
  by (cases r) simp_all

lemma encode_length_Inl: "encode_length m n = Inl e \<Longrightarrow> e = cbor_too_long"
  by (auto simp: encode_length_def Let_def cbor_too_long_def split: if_splits)

lemma encode_text_Inl: "encode_text s = Inl e \<Longrightarrow> e = cbor_too_long"
  by (auto simp: encode_text_def bind_res_Inl dest: encode_length_Inl)

lemma encode_Inl: "encode v = Inl e \<Longrightarrow> e = cbor_too_long"
proof (induction v arbitrary: e rule: encode.induct)
  case (5 xs)
  then show ?case by (auto simp: bind_res_Inl dest!: encode_length_Inl map_res_Inl)
next
  case (6 es)
  then show ?case by (auto simp: bind_res_Inl dest!: encode_length_Inl encode_text_Inl map_res_Inl)
qed (auto dest: encode_length_Inl encode_text_Inl split: if_splits)

lemma root_total:
  assumes "comparator lc" "list_all normal ds"
  shows "(\<exists>r. compute_dependency_root lc sha None ds = Inr r) \<or> compute_dependency_root lc sha None ds = Inl cbor_too_long"
proof -
  from assms(2) have s: "sort_pack_dependencies lc ds = Inr (js_sort (compare_dependency lc) ds)"
    by (simp only: sort_pack_dependencies_def normal_list bind_res_simps)
  note p = dependency_payload_normal [OF assms(1) s]
  show ?thesis
  proof (cases "canonical_cbor (JArr (map dependency_json (js_sort (compare_dependency lc) ds)))")
    case (Inl e)
    then have "e = cbor_too_long" unfolding canonical_cbor_def as_cbor_dependencies bind_res_simps by (rule encode_Inl)
    with Inl show ?thesis by (simp add: compute_dependency_root_def s p)
  next
    case (Inr b)
    then show ?thesis by (simp add: compute_dependency_root_def s p)
  qed
qed

section \<open>Properties\<close>

text \<open>
  C27. The receipt of a run binds the packs the run was made with. Its dependency root is the root of
  the dependency set the run returns, recomputing the root of that set gives it again, and the set
  stays active and frozen when the run is over. It has an entry for every declared knowledge name,
  for every selected skill, and for everything that was active or staged when the run began, so a
  pack staged by an earlier run takes part in this one.
\<close>

theorem run_receipt_binds:
  assumes "comparator (hh_compare host)" "run_session host sess inp s = (Inr run, s')"
  shows "let deps = hn_dependencies run; names = dependency_key ` set (dr_dependencies deps) in
    rn_dependency_root (hn_receipt run) = dr_root deps
    \<and> compute_dependency_root (hh_compare host) (hh_sha host) None (dr_dependencies deps) = Inr deps
    \<and> da_frozen (se_activation s') = Some deps \<and> da_active (se_activation s') = dr_dependencies deps
    \<and> (\<forall>name \<in> set (sn_knowledge (hs_options sess)). ''knowledge:'' @ name \<in> names)
    \<and> (\<forall>k \<in> set (selected_rows (hn_skills run)). ''skill:'' @ selected_skill.ss_id k \<in> names)
    \<and> dependency_key ` set (da_active (se_activation s) @ da_staged (se_activation s)) \<subseteq> names"
proof -
  from assms(2) obtain run_id s1 resolved frozen rc s2 compiled s3 result tools events s4 where
    r: "session_same s s1" "prepare_run host sess s1 = (Inr (resolved, frozen, rc), s2)" "session_same s2 s3" "session_same s3 s4"
    and fin: "finish_run host sess run_id inp (resolved, frozen, rc) compiled (result, tools, events) s4 = (Inr run, s')"
    by (rule run_session_Inr)
  from fin obtain evaluation t where f: "hn_receipt run = make_receipt host sess run_id inp resolved frozen compiled result tools events evaluation"
    "hn_dependencies run = frozen" "hn_skills run = rk_receipt resolved" "se_activation s' = se_activation s4"
    by (rule finish_run_Inr)
  have root: "rn_dependency_root (hn_receipt run) = dr_root frozen" unfolding f(1) by (simp add: make_receipt_def Let_def)
  from prepared_run [OF assms(1) r(2)] root r(1,3,4) show ?thesis
    unfolding Let_def f(2-4) set_append image_Un by (simp add: session_same_def)
qed

text \<open>
  C28. Middleware cannot change what a run is held to. If no middleware handles \<open>beforeTool\<close> or
  \<open>afterTool\<close>, the envelope of a run that returns has the dependency root of its receipt and
  the capabilities of the adapter, whatever the other hooks, the compiler and the recovery did.
\<close>

theorem run_keeps_authority:
  assumes "\<not> handles (sn_middleware (hs_options sess)) BeforeTool" "\<not> handles (sn_middleware (hs_options sess)) AfterTool"
    and "run_session host sess inp s = (Inr run, s')"
  shows "env_dependency_root (hn_envelope run) = rn_dependency_root (hn_receipt run)
    \<and> env_capabilities_ref (hn_envelope run) = sn_capabilities_ref (hs_options sess)"
proof -
  from assms(3) obtain run_id s1 resolved frozen rc s2 compiled s3 result tools events s4 where
    r: "compile_run host sess resolved (dr_root frozen) s2 = (Inr compiled, s3)" "invoke_run sess inp s3 = (Inr (result, tools, events), s4)"
    and fin: "finish_run host sess run_id inp (resolved, frozen, rc) compiled (result, tools, events) s4 = (Inr run, s')"
    by (rule run_session_Inr)
  from fin obtain evaluation t where f: "hn_receipt run = make_receipt host sess run_id inp resolved frozen compiled result tools events evaluation"
    "hn_envelope run = se_env s'" "run_hook sess AfterComplete (JsonExtra (run_receipt_json (hn_receipt run))) t = (Inr (), s')" "se_env t = se_env s4"
    by (rule finish_run_Inr)
  have root: "rn_dependency_root (hn_receipt run) = dr_root frozen" unfolding f(1) by (simp add: make_receipt_def Let_def)
  from compile_run_authority [OF r(1)] invoke_run_authority [OF assms(1,2) r(2)] run_hook_keeps [OF f(3)] f(4)
  show ?thesis unfolding root f(2) by (simp add: same_authority_def)
qed

lemma maybe_acquire_packs:
  fixes sess :: "'w harness_session"
  assumes "maybe_acquire host sess r0 s = (Inr (rc, packs), t)"
  shows "length packs \<le> max_pulls \<and> (packs \<noteq> [] \<longrightarrow> options_resolution (rk_options r0) = ResolveAuto)
    \<and> (\<forall>m \<in> set packs. \<exists>v \<in> set (cm_skills m). authorized_json (session_authority (hs_options sess)) v = Inr True)"
proof -
  let ?opts = "hs_options sess" and ?trust = "normalize_trust (rk_options r0)"
  consider (idle) "packs = []"
    | (asked) inp :: "'w acquire_input" and w w' act where "acquire_skills (hh_compare host) inp w (se_activation s) = (Inr (rc, packs), w', act)"
        "aqi_authority inp = session_authority ?opts" "options_resolution (rk_options r0) = ResolveAuto"
  proof (cases "options_resolution (rk_options r0) \<noteq> ResolveAuto \<or> tp_registry ?trust = RegistryDisabled")
    case True
    with assms have "packs = []" by (auto simp: maybe_acquire_def Let_def)
    then show thesis by (rule idle)
  next
    case False
    with assms obtain r where r: "sn_registry ?opts = HostRegistry r"
      by (auto simp: maybe_acquire_def Let_def harness_fail_def split: registry_option.splits)
    from False assms r obtain ix where ix: "acquisition_index host (rk_options r0) (se_acquired s) = Inr ix"
      by (auto simp: maybe_acquire_def Let_def split: sum.splits)
    let ?registry = "if sn_offline ?opts then offline_host (hs_lockfile sess) r else r"
    let ?inp = "\<lparr>aqi_task = sn_task ?opts, aqi_index = ix, aqi_authority = session_authority ?opts, aqi_trust = ?trust,
                  aqi_selected = map selected_skill.ss_id (selected_rows (rk_receipt r0)),
                  aqi_pull = hr_pull ?registry, aqi_search = hr_search ?registry,
                  aqi_inspect = inspect_pack (hh_packs host) (Some (verify_with_core host))\<rparr>"
    obtain res w' act where a: "acquire_skills (hh_compare host) ?inp (se_world s) (se_activation s) = (res, w', act)" by (metis prod_cases3)
    with False assms r ix have "res = Inr (rc, packs)" by (simp add: maybe_acquire_def Let_def)
    with a False show thesis by (intro asked [of ?inp]) simp_all
  qed
  then show ?thesis
  proof cases
    case idle
    then show ?thesis by simp
  next
    case asked
    from acquire_policy [OF asked(1)] asked(2,3) show ?thesis by simp
  qed
qed

text \<open>
  What a run acquires waits for the next one. The skills a run reports are those the resolver
  selects with the packs acquired, and the skills promoted, before the run; the packs acquired during
  it are only appended to the session's, at most eight of them, each with a skill within the
  session's authority, and none unless the skills are resolved automatically.
\<close>

theorem acquired_packs_wait:
  assumes "run_session host sess inp s = (Inr run, s')"
  shows "\<exists>r0 rc packs. resolve_harness_skills host sess (se_acquired s) (session_promoted sess s) = Inr r0
    \<and> hn_skills run = map_option (with_acquisition rc) (rk_receipt r0)
    \<and> se_acquired s' = se_acquired s @ packs \<and> length packs \<le> max_pulls
    \<and> (packs \<noteq> [] \<longrightarrow> options_resolution (rk_options r0) = ResolveAuto)
    \<and> (\<forall>m \<in> set packs. \<exists>v \<in> set (cm_skills m). authorized_json (session_authority (hs_options sess)) v = Inr True)"
proof -
  from assms obtain run_id s1 resolved frozen rc s2 compiled s3 result tools events s4 where
    r: "session_same s s1" "prepare_run host sess s1 = (Inr (resolved, frozen, rc), s2)" "session_same s2 s3" "session_same s3 s4"
    and fin: "finish_run host sess run_id inp (resolved, frozen, rc) compiled (result, tools, events) s4 = (Inr run, s')"
    by (rule run_session_Inr)
  from fin obtain evaluation t where f: "hn_skills run = rk_receipt resolved" "se_acquired s' = se_acquired s4"
    by (rule finish_run_Inr)
  from r(2) obtain r0 packs a3 t where
    p: "resolve_harness_skills host sess (se_acquired s1) (session_promoted sess s1) = Inr r0"
    "maybe_acquire host sess r0 (s1\<lparr>se_activation := a3\<rparr>) = (Inr (rc, packs), t)" "s2 = t\<lparr>se_acquired := se_acquired t @ packs\<rparr>"
    "resolved = r0\<lparr>rk_receipt := map_option (with_acquisition rc) (rk_receipt r0)\<rparr>"
    by (rule prepare_run_Inr)
  have same: "se_acquired s1 = se_acquired s" "session_promoted sess s1 = session_promoted sess s"
    using r(1) by (simp_all add: session_same_def session_promoted_def split: option.split)
  have "se_acquired s' = se_acquired s @ packs"
    using maybe_acquire_stages [OF p(2)] p(3) r(3,4) f(2) same by (simp add: session_same_def)
  moreover have "hn_skills run = map_option (with_acquisition rc) (rk_receipt r0)" using f(1) p(4) by simp
  ultimately show ?thesis
    using p(1) maybe_acquire_packs [OF p(2)] unfolding same by blast
qed

text \<open>
  C29. A run that does what the task prohibits teaches nothing. When the evaluation of a run finds a
  prohibited action, the run is reported failed in its result and in its receipt, and no record the
  store holds after it as useful is new.
\<close>

theorem violations_teach_nothing:
  assumes "run_session host sess inp s = (Inr run, s')" "er_violations (rn_evaluation (hn_receipt run)) \<noteq> []"
  shows "res_status (hn_result run) = Failed \<and> rn_final_status (hn_receipt run) = Failed
    \<and> (\<forall>r \<in> set (xs_records (se_store s')). xr_useful r \<longrightarrow> r \<in> set (xs_records (se_store s)))"
proof -
  from assms(1) obtain run_id s1 resolved frozen rc s2 compiled s3 result tools events s4 where
    r: "session_same s s1" "prepare_run host sess s1 = (Inr (resolved, frozen, rc), s2)" "session_same s2 s3" "session_same s3 s4"
    and fin: "finish_run host sess run_id inp (resolved, frozen, rc) compiled (result, tools, events) s4 = (Inr run, s')"
    by (rule run_session_Inr)
  from fin obtain evaluation t where f: "hn_receipt run = make_receipt host sess run_id inp resolved frozen compiled result tools events evaluation"
    "hn_result run = result\<lparr>res_status := rn_final_status (hn_receipt run)\<rparr>"
    by (rule finish_run_Inr)
  have failed: "rn_final_status (hn_receipt run) = Failed"
    using assms(2) unfolding f(1) by (simp add: make_receipt_def Let_def)
  have store: "se_store s4 = se_store s"
    using r(1,3,4) prepare_run_store [OF r(2)] by (simp add: session_same_def)
  from finish_run_useful [OF fin assms(2)] failed show ?thesis unfolding store f(2) by simp
qed

text \<open>
  C30. Whatever its client does, run after run, a session keeps its parts in order: no freeze is left
  in flight, the active and staged dependencies are valid with one entry per role and name, a frozen
  root is the root of the active ones, and the learner, for the runs it was told of in their order, holds
  no more records than its policy allows, each lesson resting on clean ones of these runs and each
  promoted skill earned by them.
\<close>

theorem session_invariant:
  assumes "session_reachable host opts sess s" "comparator (hh_compare host)"
  shows "da_pending (se_activation s) = [] \<and> activation_ok (hh_compare host) (hh_sha host) None (se_activation s)
    \<and> (case hs_learner sess of
         Some lrn \<Rightarrow> \<exists>h. store_trace (hh_sha host) lrn h (se_store s) \<and> store_ok (hh_sha host) lrn h (se_store s)
       | None \<Rightarrow> True)"
  using session_activation_ok [OF assms] session_store_ok [OF assms(1)] by (simp split: option.split)

text \<open>
  C31. What came before does not keep a session from its next run. Whatever it was (runs that failed
  in any step included), once the skills of the next run resolve and its declared dependencies are
  valid, the session prepares it: the frozen set of the last run does not stand in the way. There are two ways out only: a dependency
  set too long for the 32-bit lengths of its CBOR payload, and, in a session that acquires packs, an
  acquisition that fails with the error the run then reports.
\<close>

theorem session_never_stuck:
  assumes "session_reachable host opts sess s" "comparator (hh_compare host)"
    and "resolve_harness_skills host sess (se_acquired s) (session_promoted sess s) = Inr r0"
    and "collect_run_dependencies (hh_compare host) (hh_sha host) (sn_knowledge (hs_options sess)) (hs_lockfile sess) (rk_receipt r0) = Inr ds"
    and "list_all normal ds"
  shows "(\<exists>p s'. prepare_run host sess s = (Inr p, s')) \<or> fst (prepare_run host sess s) = Inl cbor_too_long
    \<or> options_resolution (rk_options r0) = ResolveAuto
      \<and> (\<exists>u e. fst (maybe_acquire host sess r0 u) = Inl e \<and> fst (prepare_run host sess s) = Inl e)"
proof -
  let ?lc = "hh_compare host" and ?a = "se_activation s"
  from session_activation_ok(1) [OF assms(1,2)] have ok: "list_all normal (da_active ?a)" "list_all normal (da_staged ?a)"
    by (simp_all add: activation_ok_def one_per_key_def)
  obtain as where as: "merge_pack_dependencies ?lc (da_active ?a) (da_staged ?a) = Inr as" using ok by (rule merge_normal_total)
  then obtain a1 where act: "activate_staged ?lc ?a = (Inr (), a1)" "da_frozen a1 = None" "da_active a1 = as"
    by (simp add: activate_staged_def)
  have "list_all normal as" using merge_one_per_key [OF as] by (simp add: one_per_key_def)
  with assms(5) obtain deps where deps: "merge_pack_dependencies ?lc ds as = Inr deps" by (rule merge_normal_total)
  then have rd: "run_dependencies host sess (rk_receipt r0) a1 = Inr deps" by (simp add: run_dependencies_def assms(4) act(3))
  have "list_all normal deps" using merge_one_per_key [OF deps] by (simp add: one_per_key_def)
  then obtain es where es: "merge_pack_dependencies ?lc [] deps = Inr es" using merge_normal_total [of "[]" deps] by auto
  then obtain a2 where rep: "replace_active ?lc deps a1 = (Inr (), a2)" "da_frozen a2 = None" "da_active a2 = es"
    by (simp add: replace_active_def act(2))
  have "list_all normal es" using merge_one_per_key [OF es] by (simp add: one_per_key_def)
  from root_total [OF assms(2) this, of "hh_sha host"] have fr:
    "(\<exists>r b. freeze ?lc (hh_sha host) None a2 = (Inr r, b))
     \<or> (\<exists>b. freeze ?lc (hh_sha host) None a2 = (Inl cbor_too_long, b))"
    by (auto simp: freeze_def rep)
  have idle: "\<exists>rc packs. maybe_acquire host sess r0 u = (Inr (rc, packs), u)"
    if "options_resolution (rk_options r0) \<noteq> ResolveAuto" for u
    using that by (simp add: maybe_acquire_def Let_def)
  from fr show ?thesis
  proof (elim disjE exE)
    fix r b assume r: "freeze ?lc (hh_sha host) None a2 = (Inr r, b)"
    let ?u = "s\<lparr>se_activation := b\<rparr>"
    have run: "fst (prepare_run host sess s) = Inl e" if "fst (maybe_acquire host sess r0 ?u) = Inl e" for e
      using that by (cases "maybe_acquire host sess r0 ?u")
        (simp add: prepare_run_def with_activation_def lift_res_def act(1) assms(3) rd rep(1) r)
    show ?thesis
    proof (cases "fst (maybe_acquire host sess r0 ?u)")
      case (Inl e)
      then have "options_resolution (rk_options r0) = ResolveAuto" using idle [of ?u] by fastforce
      then show ?thesis using Inl run by blast
    next
      case (Inr q)
      then obtain rc packs u where "maybe_acquire host sess r0 ?u = (Inr (rc, packs), u)" by (metis prod.collapse)
      then show ?thesis by (simp add: prepare_run_def with_activation_def lift_res_def act(1) assms(3) rd rep(1) r)
    qed
  next
    fix b assume "freeze ?lc (hh_sha host) None a2 = (Inl cbor_too_long, b)"
    then show ?thesis by (simp add: prepare_run_def with_activation_def lift_res_def act(1) assms(3) rd rep(1))
  qed
qed

section \<open>A concrete session\<close>

text \<open>
  One declared knowledge name, a learner, no skills, and an adapter whose output has the prohibited word.
\<close>

definition paying_options :: "unit session_options" where
  "paying_options = \<lparr>sn_adapter = (\<lambda>_ _ w. Done w (Inr \<lparr>res_status = Succeeded, res_output = JStr ''pay done'', res_error = None,
       res_tool_calls = None, res_tokens = None\<rparr>)),
     sn_descriptor = JObj [], sn_capabilities = demo_capabilities, sn_capabilities_ref = 7, sn_task = judged_task,
     sn_task_json = JObj [], sn_knowledge = [''k''], sn_authority = JUndef, sn_memory = MemoryOther, sn_memories = NoSource,
     sn_experience = Some demo_experience_policy, sn_evidence = NoSource, sn_skills = SkillsAbsent, sn_context_budget = None,
     sn_rerank = None, sn_rerank_model = None, sn_registry = NoRegistry, sn_lockfile = JUndef, sn_offline = False,
     sn_force_registry = False, sn_evaluators = JUndef, sn_recovery = JUndef, sn_judge = None, sn_limits = [],
     sn_middleware = [], sn_clock = (\<lambda>w. (0, w)), sn_run_id = Some ''r1''\<rparr>"

definition demo_host :: harness_host where
  "demo_host = \<lparr>hh_compare = code_unit_order, hh_sha = const_sha,
     hh_packs = \<lparr>ph_decode = (\<lambda>_. []), ph_parse = (\<lambda>_. None), ph_verify_image = (\<lambda>_. Inr []), ph_mount_image = (\<lambda>_. Inr []),
       ph_create_image = (\<lambda>_ _. Inr [])\<rparr>,
     hh_loose = (\<lambda>_ _. False)\<rparr>"

definition paying_session :: "unit harness_session" where
  "paying_session = \<lparr>hs_options = paying_options, hs_lockfile = None, hs_bound = None, hs_learner = Some demo_learner\<rparr>"

lemma paying_parts:
  "sn_skills (hs_options paying_session) = SkillsAbsent" "sn_knowledge (hs_options paying_session) = [''k'']"
  "hs_lockfile paying_session = None" "hh_compare demo_host = code_unit_order" "hh_sha demo_host = const_sha"
  by (simp_all add: paying_session_def paying_options_def demo_host_def)

lemma resolve_nothing:
  "sn_skills (hs_options sess) = SkillsAbsent
    \<Longrightarrow> resolve_harness_skills host sess acquired [] = Inr \<lparr>rk_items = [], rk_receipt = None, rk_options = None\<rparr>"
  by (simp add: resolve_harness_skills_def parse_harness_skills_def)

lemma paying_runs:
  "case run_session demo_host paying_session JUndef (new_session_state paying_options ()) of
     (Inl e, s') \<Rightarrow> False
   | (Inr run, s') \<Rightarrow> er_violations (rn_evaluation (hn_receipt run)) = [''pay'']
       \<and> session_promoted paying_session s' = [] \<and> \<not> Option.is_none (da_frozen (se_activation s'))"
  by code_simp

lemma paying_run:
  obtains run s' where "run_session demo_host paying_session JUndef (new_session_state paying_options ()) = (Inr run, s')"
    "er_violations (rn_evaluation (hn_receipt run)) = [''pay'']"
  using paying_runs by (auto split: prod.splits sum.splits)

lemma demo_host_comparator: "comparator (hh_compare demo_host)"
  unfolding demo_host_def by (simp add: code_unit.comparator_axioms)

lemma paying_created: "create_session demo_host paying_options = Inr paying_session"
proof -
  have "js_trim ''tax'' \<noteq> []" "js_trim ''done'' \<noteq> []" by code_simp+
  then have t: "validate_task judged_task = Inr judged_task" by (simp add: validate_task_def judged_task_def)
  have a: "assert_adapter_supports_task demo_capabilities judged_task = Inr ()"
    by (simp add: assert_adapter_supports_task_def judged_task_def demo_capabilities_def)
  have l: "create_learner paying_options = Inr (Some demo_learner)"
    by (simp add: create_learner_def paying_options_def memory_remember_def new_learner_def
        normalize_experience_policy_def demo_experience_policy_def demo_learner_def or_num_def at_least_one_def
        is_safe_integer_def max_safe_integer_def)
  have "sn_task paying_options = judged_task" "sn_capabilities paying_options = demo_capabilities" "sn_lockfile paying_options = JUndef"
    "sn_registry paying_options = NoRegistry" by (simp_all add: paying_options_def)
  then show ?thesis
    by (simp add: create_session_def t a l bind_registry_def check_origin_def nonempty_string_def paying_session_def)
qed

theorem run_receipt_binds_witness:
  "\<exists>run s'. run_session demo_host paying_session JUndef (new_session_state paying_options ()) = (Inr run, s')
     \<and> rn_dependency_root (hn_receipt run) = dr_root (hn_dependencies run)
     \<and> ''knowledge:k'' \<in> dependency_key ` set (dr_dependencies (hn_dependencies run))"
proof -
  obtain run s' where run: "run_session demo_host paying_session JUndef (new_session_state paying_options ()) = (Inr run, s')"
    by (rule paying_run)
  have "''k'' \<in> set (sn_knowledge (hs_options paying_session))" by (simp add: paying_session_def paying_options_def)
  with run_receipt_binds [OF demo_host_comparator run] run show ?thesis unfolding Let_def by force
qed

theorem run_keeps_authority_witness:
  "\<exists>run s'. run_session demo_host paying_session JUndef (new_session_state paying_options ()) = (Inr run, s')
     \<and> env_capabilities_ref (hn_envelope run) = 7"
proof -
  obtain run s' where run: "run_session demo_host paying_session JUndef (new_session_state paying_options ()) = (Inr run, s')"
    by (rule paying_run)
  have no: "\<not> handles (sn_middleware (hs_options paying_session)) h" for h
    by (simp add: handles_def paying_session_def paying_options_def)
  from run_keeps_authority [OF no no run] run show ?thesis by (auto simp: paying_session_def paying_options_def)
qed

theorem acquired_packs_wait_witness:
  "\<exists>run s'. run_session demo_host paying_session JUndef (new_session_state paying_options ()) = (Inr run, s')
     \<and> hn_skills run = None \<and> length (se_acquired s') \<le> max_pulls"
proof -
  obtain run s' where run: "run_session demo_host paying_session JUndef (new_session_state paying_options ()) = (Inr run, s')"
    by (rule paying_run)
  have new: "session_promoted paying_session (new_session_state paying_options ()) = []" "se_acquired (new_session_state paying_options ()) = []"
    by (simp_all add: session_promoted_def new_session_state_def new_store_def split: option.split)
  have "resolve_harness_skills demo_host paying_session (se_acquired (new_session_state paying_options ()))
      (session_promoted paying_session (new_session_state paying_options ())) = Inr \<lparr>rk_items = [], rk_receipt = None, rk_options = None\<rparr>"
    unfolding new by (rule resolve_nothing [OF paying_parts(1)])
  with acquired_packs_wait [OF run] run show ?thesis by (auto simp: new(2))
qed

theorem violations_teach_nothing_witness:
  "\<exists>run s'. run_session demo_host paying_session JUndef (new_session_state paying_options ()) = (Inr run, s')
     \<and> rn_final_status (hn_receipt run) = Failed \<and> (\<forall>r \<in> set (xs_records (se_store s')). \<not> xr_useful r)"
proof -
  obtain run s' where run: "run_session demo_host paying_session JUndef (new_session_state paying_options ()) = (Inr run, s')"
    and pay: "er_violations (rn_evaluation (hn_receipt run)) = [''pay'']" by (rule paying_run)
  have "er_violations (rn_evaluation (hn_receipt run)) \<noteq> []" "xs_records (se_store (new_session_state paying_options ())) = []"
    using pay by (simp_all add: new_session_state_def new_store_def)
  with violations_teach_nothing [OF run] run show ?thesis by auto
qed

lemma paying_reached:
  obtains s where "session_reachable demo_host paying_options paying_session s" "da_frozen (se_activation s) \<noteq> None"
    "session_promoted paying_session s = []"
proof -
  obtain run s' where run: "run_session demo_host paying_session JUndef (new_session_state paying_options ()) = (Inr run, s')"
    by (rule paying_run)
  with paying_runs have "da_frozen (se_activation s') \<noteq> None" "session_promoted paying_session s' = []"
    by (simp_all add: Option.is_none_def)
  with that [OF session_ran [OF session_created [OF paying_created] run]] show ?thesis by blast
qed

theorem session_invariant_witness:
  "\<exists>s. session_reachable demo_host paying_options paying_session s \<and> da_frozen (se_activation s) \<noteq> None
     \<and> activation_ok code_unit_order const_sha None (se_activation s)
     \<and> (\<exists>h. store_trace const_sha demo_learner h (se_store s) \<and> store_ok const_sha demo_learner h (se_store s))"
proof -
  obtain s where s: "session_reachable demo_host paying_options paying_session s" "da_frozen (se_activation s) \<noteq> None"
    by (rule paying_reached)
  from session_invariant [OF s(1) demo_host_comparator] s show ?thesis by (auto simp: paying_session_def demo_host_def)
qed

lemma knowledge_normal: "normal (local_dependency const_sha ''k'')"
proof -
  have "js_trim ''k'' \<noteq> []" "js_trim ''local'' \<noteq> []" "is_sha256 some_digest" by code_simp+
  then show ?thesis
    by (simp add: normal_def normalize_pack_dependency_def local_dependency_def const_sha_def dependency_roles_def nonempty_string_def)
qed

theorem session_never_stuck_witness:
  "\<exists>s. session_reachable demo_host paying_options paying_session s \<and> da_frozen (se_activation s) \<noteq> None
     \<and> ((\<exists>p s'. prepare_run demo_host paying_session s = (Inr p, s')) \<or> fst (prepare_run demo_host paying_session s) = Inl cbor_too_long)"
proof -
  obtain s where s: "session_reachable demo_host paying_options paying_session s" "da_frozen (se_activation s) \<noteq> None"
    "session_promoted paying_session s = []"
    by (rule paying_reached)
  let ?r0 = "\<lparr>rk_items = [], rk_receipt = None, rk_options = None\<rparr>"
  have "resolve_harness_skills demo_host paying_session (se_acquired s) (session_promoted paying_session s) = Inr ?r0"
    unfolding s(3) by (rule resolve_nothing [OF paying_parts(1)])
  moreover have local: "options_resolution (rk_options ?r0) \<noteq> ResolveAuto" by (simp add: options_resolution_def)
  moreover have "collect_run_dependencies (hh_compare demo_host) (hh_sha demo_host) (sn_knowledge (hs_options paying_session))
      (hs_lockfile paying_session) (rk_receipt ?r0) = Inr [local_dependency const_sha ''k'']"
    by (simp add: paying_parts collect_run_dependencies_def pack_dependencies_from_lockfile_def)
  moreover have "list_all normal [local_dependency const_sha ''k'']" using knowledge_normal by simp
  ultimately show ?thesis using session_never_stuck [OF s(1) demo_host_comparator] s(1,2) local by blast
qed

end
