(* ===== verification/Skill_Publishing.thy ===== *)
theory Skill_Publishing
  imports Experience Pack_Codec "HOL-Library.Sublist"
begin

text \<open>
  Publishing a learned skill (\<open>skills/publish.ts\<close>): the secret patterns and
  \<open>assertNoSecrets\<close>, \<open>buildCapabilityPack\<close> over the image functions of
  \<open>@knolo/core\<close>, and \<open>publishLearnedSkill\<close> over a registry with a state \<open>'r\<close>.
\<close>

section \<open>Regular expressions\<close>

text \<open>
  A pattern is a sequence of character classes, each once, any number of times, or at most once;
  \<open>test\<close> searches a match anywhere.
\<close>

datatype re_item = One "char \<Rightarrow> bool" | Many "char \<Rightarrow> bool" | Maybe "char \<Rightarrow> bool"

fun match_here :: "re_item list \<Rightarrow> string \<Rightarrow> bool" where
  "match_here [] s = True"
| "match_here (One p # r) [] = False"
| "match_here (One p # r) (c # cs) = (p c \<and> match_here r cs)"
| "match_here (Maybe p # r) [] = match_here r []"
| "match_here (Maybe p # r) (c # cs) = (match_here r (c # cs) \<or> p c \<and> match_here r cs)"
| "match_here (Many p # r) [] = match_here r []"
| "match_here (Many p # r) (c # cs) = (match_here r (c # cs) \<or> p c \<and> match_here (Many p # r) cs)"

fun re_test :: "re_item list \<Rightarrow> string \<Rightarrow> bool" where
  "re_test r [] = match_here r []"
| "re_test r (c # cs) = (match_here r (c # cs) \<or> re_test r cs)"

definition lit :: "string \<Rightarrow> re_item list" where
  "lit s = map (\<lambda>c. One (\<lambda>d. d = c)) s"

text \<open>A literal under the flag \<open>i\<close>, given in both cases.\<close>

definition lit_ci :: "string \<Rightarrow> string \<Rightarrow> re_item list" where
  "lit_ci lower upper = map (\<lambda>(a, b). One (\<lambda>d. d = a \<or> d = b)) (zip lower upper)"

definition plus :: "(char \<Rightarrow> bool) \<Rightarrow> re_item list" where
  "plus p = [One p, Many p]"

definition at_least :: "nat \<Rightarrow> (char \<Rightarrow> bool) \<Rightarrow> re_item list" where
  "at_least n p = replicate n (One p) @ [Many p]"

definition alnum :: "char \<Rightarrow> bool" where
  "alnum c \<longleftrightarrow> (let n = (of_char c :: nat) in 48 \<le> n \<and> n \<le> 57 \<or> 65 \<le> n \<and> n \<le> 90 \<or> 97 \<le> n \<and> n \<le> 122)"

definition bearer_char :: "char \<Rightarrow> bool" where
  "bearer_char c \<longleftrightarrow> alnum c \<or> c \<in> set ''-._~+/''"

definition key_space :: "char \<Rightarrow> bool" where
  "key_space c \<longleftrightarrow> (let n = (of_char c :: nat) in 65 \<le> n \<and> n \<le> 90 \<or> n = 32)"

definition assigned :: "re_item list" where
  "assigned = [Many js_ws, One (\<lambda>c. c = CHR '':'' \<or> c = CHR ''=''), Many js_ws] @ plus (\<lambda>c. \<not> js_ws c)"

definition secret_patterns :: "re_item list list" where
  "secret_patterns =
     [lit ''sk-'' @ at_least 16 alnum,
      lit ''kno_'' @ at_least 8 alnum,
      lit ''xai-'' @ at_least 8 alnum,
      lit_ci ''bearer'' ''BEARER'' @ plus js_ws @ plus bearer_char @ [Many (\<lambda>c. c = CHR ''='')],
      lit_ci ''api'' ''API'' @ [Maybe (\<lambda>c. c = CHR ''_'' \<or> c = CHR ''-'')] @ lit_ci ''key'' ''KEY'' @ assigned,
      lit ''-----BEGIN '' @ [Many key_space] @ lit ''PRIVATE KEY-----'',
      lit_ci ''password'' ''PASSWORD'' @ assigned]"

definition has_secret :: "string \<Rightarrow> bool" where
  "has_secret text = list_ex (\<lambda>r. re_test r text) secret_patterns"

definition assert_no_secrets :: "jsval \<Rightarrow> unit result" where
  "assert_no_secrets v =
     (if has_secret (case v of JStr s \<Rightarrow> s | w \<Rightarrow> canonical_json w)
      then harness_fail ''capability pack contains a secret; secrets never enter .knolo bytes'' else Inr ())"

section \<open>Building a pack\<close>

record built_pack =
  bk_spec :: pack_spec
  bk_pack :: jsval
  bk_description :: string
  bk_bytes :: "nat list"
  bk_sha256 :: string
  bk_state_root :: string
  bk_manifest :: pack_manifest
  bk_metadata :: capability_metadata

text \<open>\<open>knowledge\<close>, the adapter over the core, is the record of host functions.\<close>

record build_input =
  bi_spec :: spec_input
  bi_skill :: skill_definition
  bi_description :: "string option"
  bi_license :: "string option"

definition pack_provenance :: "pack_spec \<Rightarrow> skill_provenance" where
  "pack_provenance spec = \<lparr>sp_pack_id = ps_name spec, sp_digest = None, sp_publisher = Some (ps_publisher spec)\<rparr>"

definition or_text :: "string option \<Rightarrow> string \<Rightarrow> string" where
  "or_text v d = (case v of Some s \<Rightarrow> s | None \<Rightarrow> d)"

definition pack_description :: "skill_definition \<Rightarrow> string option \<Rightarrow> string" where
  "pack_description skill description = js_join '' '' [sd_id skill, or_text description (sd_instructions skill)]"

definition pack_json :: "pack_spec \<Rightarrow> skill_definition \<Rightarrow> string option \<Rightarrow> string option \<Rightarrow> jsval" where
  "pack_json spec skill description license =
     JObj [(''version'', JNum 1), (''id'', JStr (ps_name spec)),
       (''metadata'', JObj [(''name'', JStr (or_text (sd_name skill) (sd_id skill))),
          (''description'', JStr (pack_description skill description))]),
       (''authority'', JObj [(''capabilities'', strings_json (sd_required_capabilities skill)), (''namespaces'', JArr [])]),
       (''tools'', strings_json (sd_required_tools skill)), (''namespaces'', JArr []),
       (''license'', JStr (or_text license ''Apache-2.0'')), (''role'', JStr ''skill''),
       (''skills'', JArr [skill_json (skill\<lparr>sd_provenance := pack_provenance spec\<rparr>)])]"

definition pack_objects :: "pack_spec \<Rightarrow> skill_definition \<Rightarrow> jsval \<Rightarrow> (string \<times> nat list \<times> jsval) list" where
  "pack_objects spec skill pack =
     [(''knolo.pack'', utf8 (canonical_json pack),
         JObj [(''packId'', JStr (ps_name spec)), (''role'', JStr ''skill''), (''skillId'', JStr (sd_id skill))]),
      (''knolo.skill'', utf8 (canonical_json (skill_json skill)), JObj [(''skillId'', JStr (sd_id skill))])]"

definition pack_manifest_of :: "pack_spec \<Rightarrow> skill_definition \<Rightarrow> string option \<Rightarrow> string \<Rightarrow> knowledge_handle \<Rightarrow> pack_manifest" where
  "pack_manifest_of spec skill license digest handle =
     \<lparr>pm_name = ps_name spec, pm_version = (if ps_version spec = ''latest'' then sd_version skill else ps_version spec),
      pm_sha256 = digest, pm_state_root = Some (kh_state_root handle), pm_url = ''memory://packs/sha256/'' @ digest,
      pm_license = Some (or_text license ''Apache-2.0''), pm_size_bytes = int (length (kh_bytes handle)), pm_yanked = False,
      pm_format = Some V5\<rparr>"

definition pack_skill :: "sha256 \<Rightarrow> pack_spec \<Rightarrow> skill_definition \<Rightarrow> skill_definition result" where
  "pack_skill sha spec skill =
     normalize_skill_definition sha (skill_json (skill\<lparr>sd_content_hash := None, sd_provenance := pack_provenance spec\<rparr>))"

definition build_capability_pack :: "sha256 \<Rightarrow> pack_host \<Rightarrow> build_input \<Rightarrow> built_pack result" where
  "build_capability_pack sha host inp =
     bind_res (parse_pack_spec (bi_spec inp)) (\<lambda>spec.
     bind_res (pack_skill sha spec (bi_skill inp)) (\<lambda>skill.
     let pack = pack_json spec skill (bi_description inp) (bi_license inp) in
     bind_res (assert_no_secrets pack) (\<lambda>_.
     bind_res (create_image host (pack_objects spec skill pack) (ps_publisher spec)) (\<lambda>handle.
     bind_res (ph_verify_image host (kh_bytes handle)) (\<lambda>verified.
     bind_res (guard_harness (verified \<noteq> kh_state_root handle) ''capability pack Core stateRoot mismatch after verify'') (\<lambda>_.
     let digest = sha (kh_bytes handle); manifest = pack_manifest_of spec skill (bi_license inp) digest handle in
     bind_res (capability_metadata_from_pack pack) (\<lambda>metadata.
       Inr \<lparr>bk_spec = spec\<lparr>ps_version := pm_version manifest\<rparr>, bk_pack = pack,
            bk_description = pack_description skill (bi_description inp), bk_bytes = kh_bytes handle, bk_sha256 = digest,
            bk_state_root = kh_state_root handle, bk_manifest = manifest, bk_metadata = metadata\<rparr>)))))))"

section \<open>Publishing\<close>

datatype publish_decision = Proposed | Published | Denied

record skill_publish_receipt =
  pr_decision :: publish_decision
  pr_policy :: publish_policy
  pr_spec :: string
  pr_skill_id :: string
  pr_lesson_id :: "string option"
  pr_sha256 :: string
  pr_state_root :: "string option"
  pr_gates :: "promotion_gates option"
  pr_manifest :: "pack_manifest option"

record 'r learned_input =
  li_candidate :: skill_candidate
  li_spec :: spec_input
  li_publish :: "('r \<Rightarrow> publish_input \<Rightarrow> pack_manifest result \<times> 'r) option"
  li_policy :: "publish_policy option"
  li_passed :: bool
  li_approval :: bool
  li_description :: "string option"
  li_license :: "string option"

definition publish_gate :: "'r learned_input \<Rightarrow> unit result" where
  "publish_gate inp =
     (let policy = normalize_publish (li_policy inp); c = li_candidate inp in
      if policy = PublishDisabled then harness_fail ''skill publish is disabled''
      else if sc_status c \<noteq> PromotedSkill then harness_fail ''only a promoted skill candidate can be published''
      else if \<not> gates_pass (sc_gates c) \<or> \<not> li_passed inp
      then harness_fail ''skill publish requires usefulness, evaluation, provenance, and a passing evaluation receipt''
      else if policy = PublishAuthorized \<and> \<not> li_approval inp
      then harness_fail ''authorized skill publish requires explicit approval''
      else Inr ())"

definition learned_receipt :: "'r learned_input \<Rightarrow> pack_spec \<Rightarrow> built_pack \<Rightarrow> publish_decision \<Rightarrow> pack_manifest \<Rightarrow> skill_publish_receipt" where
  "learned_receipt inp spec built decision manifest =
     (let c = li_candidate inp in
      \<lparr>pr_decision = decision, pr_policy = normalize_publish (li_policy inp),
       pr_spec = pack_key (ps_name spec) (if ps_version spec = ''latest'' then sd_version (sc_skill c) else ps_version spec),
       pr_skill_id = sd_id (sc_skill c), pr_lesson_id = Some (sc_lesson_id c), pr_sha256 = bk_sha256 built,
       pr_state_root = Some (bk_state_root built), pr_gates = Some (sc_gates c), pr_manifest = Some manifest\<rparr>)"

text \<open>The answer of the registry's \<open>publish\<close> goes through \<open>validatePackManifest\<close>.\<close>

definition publish_learned_skill :: "sha256 \<Rightarrow> pack_host \<Rightarrow> 'r learned_input \<Rightarrow> 'r \<Rightarrow> skill_publish_receipt result \<times> 'r" where
  "publish_learned_skill sha host inp r =
     (case bind_res (parse_pack_spec (li_spec inp)) (\<lambda>spec. bind_res (publish_gate inp) (\<lambda>_.
         bind_res (build_capability_pack sha host \<lparr>bi_spec = SpecObject spec, bi_skill = sc_skill (li_candidate inp),
             bi_description = li_description inp, bi_license = li_license inp\<rparr>) (\<lambda>built. Inr (spec, built)))) of
        Inl e \<Rightarrow> (Inl e, r)
      | Inr (spec, built) \<Rightarrow>
          if normalize_publish (li_policy inp) = ProposeOnly then (Inr (learned_receipt inp spec built Proposed (bk_manifest built)), r)
          else (case li_publish inp of
              None \<Rightarrow> (harness_fail ''registry publish is not available; authorized publish requires PackRegistryCapabilityV1.publish'', r)
            | Some publish \<Rightarrow>
                (case publish r \<lparr>pi_manifest = bk_manifest built, pi_bytes = bk_bytes built,
                     pi_description = Some (or_text (li_description inp) (bk_description built))\<rparr> of
                   (Inl e, r') \<Rightarrow> (Inl e, r')
                 | (Inr answer, r') \<Rightarrow>
                     (bind_res (check_manifest answer) (\<lambda>m.
                        if pm_sha256 m \<noteq> bk_sha256 built then harness_fail ''published manifest sha256 does not match built capability pack''
                        else Inr (learned_receipt inp spec built Published m)), r'))))"

section \<open>Searching\<close>

lemma match_here_append: "match_here r s \<Longrightarrow> match_here r (s @ t)"
proof (induction r s rule: match_here.induct)
  case (4 p r)
  then show ?case by (cases t) auto
next
  case (6 p r)
  then show ?case by (cases t) auto
qed auto

lemma re_test_here: "match_here r s \<Longrightarrow> re_test r s"
  by (cases s) simp_all

lemma re_test_append: "re_test r s \<Longrightarrow> re_test r (s @ t)"
proof (induction s)
  case Nil
  then show ?case using match_here_append [of r "[]" t] by (simp add: re_test_here)
next
  case (Cons c s)
  then show ?case using match_here_append [of r "c # s" t] by auto
qed

lemma re_test_prepend: "re_test r s \<Longrightarrow> re_test r (p @ s)"
  by (induction p) simp_all

text \<open>A text that holds a part with a secret has it too.\<close>

lemma has_secret_sublist: "sublist s t \<Longrightarrow> has_secret s \<Longrightarrow> has_secret t"
  unfolding sublist_def has_secret_def list_ex_iff by (auto intro: re_test_append re_test_prepend)

section \<open>The texts of a pack\<close>

lemma sublist_quoted: "sublist x s \<Longrightarrow> sublist x (p @ s @ q)"
  by (rule sublist_order.order_trans [OF _ sublist_appendI])

lemma sublist_join: "x \<in> set xs \<Longrightarrow> sublist x (js_join sep xs)"
proof (induction sep xs rule: js_join.induct)
  case (3 sep a b xs)
  show ?case
  proof (cases "x = a")
    case True
    then show ?thesis using sublist_appendI [of a "[]" "sep @ js_join sep (b # xs)"] by simp
  next
    case False
    with 3 have "sublist x (js_join sep (b # xs))" by simp
    from sublist_quoted [OF this, of "a @ sep" "[]"] show ?thesis by simp
  qed
qed simp_all

lemma canonicalize_defined [simp]: "canonicalize v \<noteq> JUndef"
  by (cases v) simp_all

lemma canonical_json_text: "json_stringify (canonicalize v) = Some (canonical_json v)"
  using json_stringify_canonicalize [of v] by (auto simp: canonical_json_def)

lemma canonical_json_item: "v \<in> set vs \<Longrightarrow> sublist (canonical_json v) (canonical_json (JArr vs))"
proof -
  assume v: "v \<in> set vs"
  let ?texts = "map (\<lambda>v. case json_stringify v of None \<Rightarrow> ''null'' | Some s \<Rightarrow> s) (map canonicalize vs)"
  have "canonical_json v \<in> set ?texts" using v by (force simp: canonical_json_text)
  then have "sublist (canonical_json v) (js_join '','' ?texts)" by (rule sublist_join)
  then have "sublist (canonical_json v) (''['' @ js_join '','' ?texts @ '']'')" by (rule sublist_quoted)
  then show ?thesis by (simp add: canonical_json_def [of "JArr vs"] comp_def)
qed

lemma canonical_json_member: "(k, v) \<in> set es \<Longrightarrow> sublist (canonical_json v) (canonical_json (JObj es))"
proof -
  assume e: "(k, v) \<in> set es"
  let ?es = "own_order (js_sort (cmp_on fst code_unit_order) (map (\<lambda>e. (fst e, canonicalize (snd e))) es))"
  let ?texts = "concat (map (\<lambda>e. case json_stringify (snd e) of None \<Rightarrow> [] | Some s \<Rightarrow> [json_quote (fst e) @ '':'' @ s]) ?es)"
  have "(k, canonicalize v) \<in> set ?es" using e by force
  then have "json_quote k @ '':'' @ canonical_json v \<in> set ?texts"
    unfolding set_concat set_map by (intro UN_I [of "[json_quote k @ '':'' @ canonical_json v]"] image_eqI [of _ _ "(k, canonicalize v)"])
      (simp_all add: canonical_json_text)
  then have "sublist (json_quote k @ '':'' @ canonical_json v) (js_join '','' ?texts)" by (rule sublist_join)
  moreover have "sublist (canonical_json v) ((json_quote k @ '':'') @ canonical_json v @ [])" by (rule sublist_appendI)
  ultimately have "sublist (canonical_json v) (js_join '','' ?texts)" by (auto intro: sublist_order.order_trans)
  then have "sublist (canonical_json v) (''{'' @ js_join '','' ?texts @ ''}'')" by (rule sublist_quoted)
  then show ?thesis by (simp add: canonical_json_def [of "JObj es"])
qed

text \<open>Normalising a skill for a pack gives it the provenance of the pack.\<close>

lemma validate_skill_provenance:
  "validate_skill_shape v = Inr t \<Longrightarrow> \<exists>i. validate_provenance i (js_get (members_of v) ''provenance'') = Inr (sd_provenance t)"
  unfolding validate_skill_shape_def Let_def by (elim bind_res_InrE) auto

lemma pack_skill_provenance:
  assumes "pack_skill sha spec skill = Inr s" "ps_publisher spec \<noteq> []"
  shows "s\<lparr>sd_provenance := pack_provenance spec\<rparr> = s"
proof -
  let ?v = "skill_json (skill\<lparr>sd_content_hash := None, sd_provenance := pack_provenance spec\<rparr>)"
  from assms(1) obtain t where t: "validate_skill_shape ?v = Inr t" "sd_provenance s = sd_provenance t"
    by (auto simp: pack_skill_def normalize_skill_definition_def bind_res_eq_Inr Let_def split: option.splits if_splits)
  have "js_get (members_of ?v) ''provenance'' = skill_provenance_json (pack_provenance spec)"
    by (simp add: skill_json_def js_get_rules js_get_schemas_member js_get_last_member)
  with validate_skill_provenance [OF t(1)] obtain i
    where "validate_provenance i (skill_provenance_json (pack_provenance spec)) = Inr (sd_provenance t)" by auto
  then have "sd_provenance t = pack_provenance spec"
    using assms(2) by (auto simp: validate_provenance_def skill_provenance_json_def pack_provenance_def js_get_def string_member_def
        bind_res_eq_Inr identifier_string_Inr some_string_def nonempty_string_def)
  with t(2) show ?thesis by simp
qed

lemma skill_text_in_pack:
  assumes "pack_skill sha spec skill = Inr s" "ps_publisher spec \<noteq> []"
  shows "sublist (canonical_json (skill_json s)) (canonical_json (pack_json spec s description license))"
proof -
  let ?row = "skill_json (s\<lparr>sd_provenance := pack_provenance spec\<rparr>)"
  have "sublist (canonical_json ?row) (canonical_json (JArr [?row]))" by (rule canonical_json_item) simp
  moreover have "sublist (canonical_json (JArr [?row])) (canonical_json (pack_json spec s description license))"
    unfolding pack_json_def by (rule canonical_json_member [of "''skills''"]) simp
  ultimately show ?thesis unfolding pack_skill_provenance [OF assms] by (rule sublist_order.order_trans)
qed

lemma parse_pack_spec_publisher: "parse_pack_spec i = Inr s \<Longrightarrow> ps_publisher s \<noteq> []"
  by (cases i) (auto simp: match_pack_spec_def Let_def harness_fail_def split: if_splits option.splits list.splits)

section \<open>Properties\<close>

lemma build_Inr:
  assumes "build_capability_pack sha host inp = Inr built"
  obtains spec skill handle where "parse_pack_spec (bi_spec inp) = Inr spec" "pack_skill sha spec (bi_skill inp) = Inr skill"
    "bk_pack built = pack_json spec skill (bi_description inp) (bi_license inp)" "assert_no_secrets (bk_pack built) = Inr ()"
    "create_image host (pack_objects spec skill (bk_pack built)) (ps_publisher spec) = Inr handle"
    "bk_bytes built = kh_bytes handle" "bk_sha256 built = sha (kh_bytes handle)"
    "bk_manifest built = pack_manifest_of spec skill (bi_license inp) (sha (kh_bytes handle)) handle"
  using assms unfolding build_capability_pack_def Let_def
  by (elim bind_res_InrE) auto

text \<open>
  C32. Secrets never enter the bytes of a pack. Every object handed to the core when a pack is built,
  the pack document and the skill document, is the encoding of a text in which none of the secret
  patterns has a match, and what is published are the bytes the core made of these objects.
\<close>

theorem built_pack_clean:
  assumes "build_capability_pack sha host inp = Inr built"
  shows "\<exists>publisher objects handle. create_image host objects publisher = Inr handle \<and> bk_bytes built = kh_bytes handle
    \<and> bk_sha256 built = sha (bk_bytes built) \<and> pm_sha256 (bk_manifest built) = bk_sha256 built
    \<and> (\<forall>(kind, bytes, meta) \<in> set objects. \<exists>text. bytes = utf8 text \<and> \<not> has_secret text)"
proof -
  from assms obtain spec skill handle where b: "parse_pack_spec (bi_spec inp) = Inr spec" "pack_skill sha spec (bi_skill inp) = Inr skill"
    "bk_pack built = pack_json spec skill (bi_description inp) (bi_license inp)" "assert_no_secrets (bk_pack built) = Inr ()"
    "create_image host (pack_objects spec skill (bk_pack built)) (ps_publisher spec) = Inr handle"
    "bk_bytes built = kh_bytes handle" "bk_sha256 built = sha (kh_bytes handle)"
    "bk_manifest built = pack_manifest_of spec skill (bi_license inp) (sha (kh_bytes handle)) handle"
    by (rule build_Inr)
  have pack: "\<not> has_secret (canonical_json (bk_pack built))"
    using b(3,4) by (simp add: assert_no_secrets_def pack_json_def split: if_splits)
  have "\<not> has_secret (canonical_json (skill_json skill))"
    using has_secret_sublist [OF skill_text_in_pack [OF b(2) parse_pack_spec_publisher [OF b(1)]]] pack unfolding b(3) by blast
  with pack b(5-8) show ?thesis
    by (intro exI [of _ "ps_publisher spec"] exI [of _ "pack_objects spec skill (bk_pack built)"] exI [of _ handle])
       (auto simp: pack_objects_def pack_manifest_of_def)
qed

text \<open>
  C33. A learned skill leaves the machine only with everybody's consent. A receipt is given only for a
  promoted candidate whose gates pass and whose evaluation passed, under a policy that is not
  disabled. It says \<open>published\<close> only under the authorized policy with an approval, after the
  registry accepted the built bytes under their own digest; otherwise the skill was only proposed,
  and the registry was not called.
\<close>

theorem publish_needs_consent:
  assumes "publish_learned_skill sha host inp r = (Inr rc, r')"
  shows "sc_status (li_candidate inp) = PromotedSkill \<and> gates_pass (sc_gates (li_candidate inp)) \<and> li_passed inp
    \<and> (case pr_decision rc of
         Published \<Rightarrow> normalize_publish (li_policy inp) = PublishAuthorized \<and> li_approval inp
           \<and> (\<exists>publish p m. li_publish inp = Some publish \<and> publish r p = (Inr m, r') \<and> sha (pi_bytes p) = pr_sha256 rc
                \<and> pm_sha256 (pi_manifest p) = pr_sha256 rc \<and> pr_manifest rc = Some m \<and> pm_sha256 m = pr_sha256 rc)
       | Proposed \<Rightarrow> normalize_publish (li_policy inp) = ProposeOnly \<and> r' = r
       | Denied \<Rightarrow> False)"
proof -
  from assms obtain spec built where parsed: "parse_pack_spec (li_spec inp) = Inr spec" and b: "publish_gate inp = Inr ()"
    "build_capability_pack sha host \<lparr>bi_spec = SpecObject spec, bi_skill = sc_skill (li_candidate inp),
       bi_description = li_description inp, bi_license = li_license inp\<rparr> = Inr built"
    by (auto simp: publish_learned_skill_def bind_res_eq_Inr split: sum.splits)
  have gate: "sc_status (li_candidate inp) = PromotedSkill" "gates_pass (sc_gates (li_candidate inp))" "li_passed inp"
    "normalize_publish (li_policy inp) \<noteq> PublishDisabled"
    "normalize_publish (li_policy inp) = PublishAuthorized \<longrightarrow> li_approval inp"
    using b(1) by (auto simp: publish_gate_def Let_def harness_fail_def split: if_splits)
  from b(2) have digest: "bk_sha256 built = sha (bk_bytes built)" "pm_sha256 (bk_manifest built) = sha (bk_bytes built)"
    by (auto simp: pack_manifest_of_def elim!: build_Inr)
  show ?thesis
  proof (cases "normalize_publish (li_policy inp) = ProposeOnly")
    case True
    with assms gate show ?thesis
      by (auto simp: publish_learned_skill_def bind_res_eq_Inr learned_receipt_def Let_def split: sum.splits)
  next
    case False
    then have auth: "normalize_publish (li_policy inp) = PublishAuthorized" using gate(4) by (cases "normalize_publish (li_policy inp)") auto
    obtain publish where publish: "li_publish inp = Some publish"
      using assms b parsed auth
      by (auto simp: publish_learned_skill_def harness_fail_def split: option.splits)
    let ?p = "\<lparr>pi_manifest = bk_manifest built, pi_bytes = bk_bytes built,
                pi_description = Some (or_text (li_description inp) (bk_description built))\<rparr>"
    obtain res s where sent: "publish r ?p = (res, s)" by fastforce
    with assms b parsed auth publish obtain m where m: "res = Inr m" "s = r'" "pm_sha256 m = bk_sha256 built"
        "rc = learned_receipt inp spec built Published m"
      by (cases res) (auto simp: publish_learned_skill_def bind_res_eq_Inr harness_fail_def dest: check_manifest_Inr split: if_splits)
    have "publish r ?p = (Inr m, r')" "sha (pi_bytes ?p) = pr_sha256 rc" "pm_sha256 (pi_manifest ?p) = pr_sha256 rc"
      using sent m digest by (simp_all add: learned_receipt_def Let_def)
    with publish gate auth m show ?thesis by (auto simp: learned_receipt_def Let_def)
  qed
qed

section \<open>What the patterns miss\<close>

text \<open>
  The patterns are matched against the JSON text. A member named like a secret is written with a
  quotation mark between the name and the colon, and a line break is written as an escape, so neither
  of these is found, although \<open>password: hunter2\<close> and the unescaped text are.
\<close>

lemma secret_member_missed:
  "assert_no_secrets (JObj [(''password'', JStr ''hunter2'')]) = Inr ()"
  "assert_no_secrets (JObj [(''instructions'', JStr ''password: hunter2'')]) \<noteq> Inr ()"
  by code_simp+

lemma secret_line_break_missed:
  "assert_no_secrets (JObj [(''instructions'', JStr (''Bearer'' @ [char_of (10::nat)] @ ''abc''))]) = Inr ()"
  "assert_no_secrets (JStr (''Bearer'' @ [char_of (10::nat)] @ ''abc'')) \<noteq> Inr ()"
  by code_simp+

section \<open>A concrete publication\<close>

definition demo_codec :: pack_host where
  "demo_codec = \<lparr>ph_decode = (\<lambda>_. []), ph_parse = (\<lambda>_. None), ph_verify_image = (\<lambda>_. Inr ''root''), ph_mount_image = (\<lambda>_. Inr []),
     ph_create_image = (\<lambda>_ _. Inr [7, 9])\<rparr>"

definition tax_spec :: pack_spec where
  "tax_spec = \<lparr>ps_publisher = ''acme'', ps_slug = ''tax'', ps_version = ''latest'', ps_name = ''acme/tax''\<rparr>"

definition demo_packed :: skill_definition where
  "demo_packed = demo_skill\<lparr>sd_provenance := pack_provenance tax_spec\<rparr>"

definition tax_pack :: jsval where
  "tax_pack = pack_json tax_spec (demo_packed\<lparr>sd_content_hash := Some some_digest\<rparr>) None None"

definition demo_build :: build_input where
  "demo_build = \<lparr>bi_spec = SpecObject tax_spec, bi_skill = demo_skill, bi_description = None, bi_license = None\<rparr>"

definition demo_learned :: "mem_registry learned_input" where
  "demo_learned = \<lparr>li_candidate = \<lparr>sc_id = ''s'', sc_lesson_id = ''l'', sc_skill = demo_skill,
        sc_gates = \<lparr>pg_usefulness = True, pg_evaluation = True, pg_provenance = True, pg_approval = True\<rparr>, sc_status = PromotedSkill\<rparr>,
     li_spec = SpecText ''acme/tax'', li_publish = Some (registry_publish const_sha), li_policy = Some PublishAuthorized,
     li_passed = True, li_approval = True, li_description = None, li_license = None\<rparr>"

lemma demo_parsed: "parse_pack_spec (SpecText ''acme/tax'') = Inr tax_spec" "parse_pack_spec (SpecObject tax_spec) = Inr tax_spec"
  by code_simp+

lemma demo_packed_skill: "pack_skill const_sha tax_spec demo_skill = Inr (demo_packed\<lparr>sd_content_hash := Some some_digest\<rparr>)"
proof -
  have "is_identifier ''s''" "is_identifier ''acme/tax''" "js_trim ''1'' = ''1''" "js_trim ''file tax'' \<noteq> []" "js_trim ''acme'' \<noteq> []"
    by code_simp+
  then have "valid_skill demo_packed" by (simp add: valid_skill_def demo_packed_def demo_skill_def pack_provenance_def tax_spec_def)
  from validate_skill_json [OF this] show ?thesis
    by (simp add: pack_skill_def demo_packed_def normalize_skill_definition_def hash_skill_definition_def sha256_hex_def const_sha_def
        demo_skill_def)
qed

lemma demo_clean: "assert_no_secrets tax_pack = Inr ()"
  by code_simp

lemma demo_metadata: "\<exists>m. capability_metadata_from_pack tax_pack = Inr m"
proof -
  have "case capability_metadata_from_pack tax_pack of Inl e \<Rightarrow> False | Inr m \<Rightarrow> True" by code_simp
  then show ?thesis by (simp split: sum.splits)
qed

lemma demo_built:
  "\<exists>built. build_capability_pack const_sha demo_codec demo_build = Inr built \<and> bk_bytes built = [7, 9] \<and> bk_sha256 built = some_digest
     \<and> bk_manifest built = pack_manifest_of tax_spec demo_skill None some_digest \<lparr>kh_state_root = ''root'', kh_bytes = [7, 9], kh_objects = []\<rparr>"
proof -
  obtain m where m: "capability_metadata_from_pack tax_pack = Inr m" using demo_metadata by auto
  have image: "create_image demo_codec objects actor = Inr \<lparr>kh_state_root = ''root'', kh_bytes = [7, 9], kh_objects = []\<rparr>"
      "ph_verify_image demo_codec bytes = Inr ''root''" for objects actor bytes
    by (simp_all add: create_image_def mount_def demo_codec_def)
  have manifest: "pack_manifest_of tax_spec (demo_packed\<lparr>sd_content_hash := h\<rparr>) l d k = pack_manifest_of tax_spec demo_skill l d k" for h l d k
    by (simp add: pack_manifest_of_def demo_packed_def)
  from m demo_packed_skill demo_clean demo_parsed(2) show ?thesis
    by (simp add: build_capability_pack_def demo_build_def tax_pack_def [symmetric] image manifest guard_harness_def const_sha_def Let_def
        del: parse_pack_spec.simps)
qed

theorem built_pack_clean_witness:
  "\<exists>built. build_capability_pack const_sha demo_codec demo_build = Inr built \<and> bk_sha256 built = const_sha [7, 9]"
proof -
  obtain built where b: "build_capability_pack const_sha demo_codec demo_build = Inr built" "bk_bytes built = [7, 9]"
    using demo_built by auto
  from built_pack_clean [OF b(1)] b show ?thesis by auto
qed

lemma demo_publishes:
  "\<exists>rc r'. publish_learned_skill const_sha demo_codec demo_learned empty_registry = (Inr rc, r') \<and> pr_decision rc = Published"
proof -
  let ?m = "pack_manifest_of tax_spec demo_skill None some_digest \<lparr>kh_state_root = ''root'', kh_bytes = [7, 9], kh_objects = []\<rparr>"
  obtain built where b: "build_capability_pack const_sha demo_codec demo_build = Inr built" "bk_bytes built = [7, 9]"
      "bk_sha256 built = some_digest" "bk_manifest built = ?m"
    using demo_built by auto
  let ?p = "\<lparr>pi_manifest = ?m, pi_bytes = [7, 9], pi_description = Some (or_text None (bk_description built))\<rparr>"
  have "case registry_publish const_sha empty_registry \<lparr>pi_manifest = ?m, pi_bytes = [7, 9], pi_description = d\<rparr> of
      (Inl e, r') \<Rightarrow> False | (Inr m, r') \<Rightarrow> check_manifest m = Inr m \<and> pm_sha256 m = some_digest" for d
    by code_simp
  from this [of "pi_description ?p"] obtain m r' where p: "registry_publish const_sha empty_registry ?p = (Inr m, r')"
      "check_manifest m = Inr m" "pm_sha256 m = some_digest"
    by (auto split: prod.splits sum.splits)
  show ?thesis
    unfolding publish_learned_skill_def demo_learned_def
    by (simp add: demo_parsed(1) publish_gate_def gates_pass_def normalize_publish_def demo_build_def [symmetric] b p
        learned_receipt_def Let_def del: parse_pack_spec.simps)
qed

theorem publish_needs_consent_witness:
  "\<exists>rc r'. publish_learned_skill const_sha demo_codec demo_learned empty_registry = (Inr rc, r')
     \<and> pr_decision rc = Published \<and> li_approval demo_learned \<and> (\<exists>m. pr_manifest rc = Some m \<and> pm_sha256 m = pr_sha256 rc)"
proof -
  obtain rc r' where p: "publish_learned_skill const_sha demo_codec demo_learned empty_registry = (Inr rc, r')" "pr_decision rc = Published"
    using demo_publishes by blast
  from publish_needs_consent [OF p(1)] p show ?thesis by auto
qed

end
