(* ===== verification/Http_Host.thy ===== *)
theory Http_Host
  imports JS_Value
begin

text \<open>
  The host's \<open>fetch\<close>, which \<open>registry/http.ts\<close> and \<open>adapters/http.ts\<close> are given by
  the caller: what the code hands to it and what it reads of the answer. A request may fail, and so
  may reading the body. The world \<open>'w\<close> is whatever the host's answers depend on.
\<close>

record http_request =
  rq_url :: string
  rq_method :: string
  rq_headers :: "(string, string) js_map"
  rq_body :: "string option"

record http_response =
  fr_status :: int
  fr_ok :: bool
  fr_text :: "string result"
  fr_bytes :: "nat list result"

type_synonym 'w fetch = "http_request \<Rightarrow> 'w \<Rightarrow> http_response result \<times> 'w"

text \<open>Headers merged by spreading the second over the first.\<close>

definition merge_headers :: "(string, string) js_map \<Rightarrow> (string, string) js_map \<Rightarrow> (string, string) js_map" where
  "merge_headers base extra = foldl (\<lambda>m e. map_put (fst e) (snd e) m) base extra"

end
