(* ===== verification/Http_Registry.thy ===== *)
theory Http_Registry
  imports Pack_Registry Http_Host
begin

text \<open>
  The registry client over HTTP (\<open>registry/http.ts\<close>): search, resolve, pull and yank over a fetch
  given by the host, with a cache and a lockfile. The client is a record with the host's world in it;
  \<open>JSON.parse\<close>, the \<open>URL\<close> class, \<open>localeCompare\<close> and SHA-256 are those of the platform.
\<close>

section \<open>The client\<close>

record web =
  wp_parse :: "string \<Rightarrow> jsval option"
  wp_url :: "string \<Rightarrow> (string \<times> string) list \<Rightarrow> string result"
  wp_compare :: locale_compare
  wp_sha :: sha256

record 'w http_options =
  ho_base_url :: string
  ho_fetch :: "'w fetch option"
  ho_token :: "string option"
  ho_force :: bool
  ho_cache :: "pack_cache option"
  ho_lockfile :: "lockfile option"
  ho_offline :: bool

record 'w http_registry =
  hg_origin :: string
  hg_fetch :: "'w fetch"
  hg_token :: "string option"
  hg_force :: bool
  hg_lockfile :: "lockfile option"
  hg_offline :: bool
  hg_cache :: pack_cache
  hg_world :: 'w

definition new_http_registry :: "'w http_options \<Rightarrow> 'w \<Rightarrow> 'w http_registry result" where
  "new_http_registry opts w =
     (case ho_fetch opts of
        None \<Rightarrow> harness_fail ''httpPackRegistry requires a host-provided fetch''
      | Some fetch \<Rightarrow>
          let origin = normalize_registry_url (ho_base_url opts) in
          if origin = [] then harness_fail ''httpPackRegistry requires a registry baseUrl''
          else Inr \<lparr>hg_origin = origin, hg_fetch = fetch, hg_token = ho_token opts, hg_force = ho_force opts,
                 hg_lockfile = ho_lockfile opts, hg_offline = ho_offline opts,
                 hg_cache = (case ho_cache opts of Some c \<Rightarrow> c | None \<Rightarrow> empty_cache), hg_world = w\<rparr>)"

definition assert_online :: "'w http_registry \<Rightarrow> string \<Rightarrow> unit result" where
  "assert_online r action = guard_harness (hg_offline r) (''registry '' @ action @ '' is unavailable offline'')"

definition send :: "http_request \<Rightarrow> 'w http_registry \<Rightarrow> http_response result \<times> 'w http_registry" where
  "send request r = (case hg_fetch r request (hg_world r) of (answer, w) \<Rightarrow> (answer, r\<lparr>hg_world := w\<rparr>))"

text \<open>\<open>request\<close>: status and body, the body parsed when it is JSON.\<close>

definition http_exchange :: "web \<Rightarrow> string \<Rightarrow> string \<Rightarrow> (string, string) js_map \<Rightarrow> 'w http_registry
    \<Rightarrow> (int \<times> jsval) result \<times> 'w http_registry" where
  "http_exchange web url verb extra r =
     run_then (send \<lparr>rq_url = url, rq_method = verb,
         rq_headers = merge_headers [(''accept'', ''application/json'')] extra, rq_body = None\<rparr> r) (\<lambda>response r.
       (bind_res (fr_text response) (\<lambda>text. Inr (fr_status response, parse_or_text (wp_parse web) text)), r))"

definition registry_http_error :: "int \<Rightarrow> jsval \<Rightarrow> 'a result" where
  "registry_http_error status body =
     (let es = (case body of JObj es \<Rightarrow> es | _ \<Rightarrow> []);
          code = (case js_get es ''code'' of JStr s \<Rightarrow> s | _ \<Rightarrow> ''error'');
          message = (case js_get es ''error'' of JStr s \<Rightarrow> s | _ \<Rightarrow> ''HTTP '' @ dec_int status)
      in harness_fail (''registry '' @ dec_int status @ '' '' @ code @ '': '' @ message))"

text \<open>Reading a member of an unchecked value.\<close>

fun member_of_value :: "jsval \<Rightarrow> string \<Rightarrow> jsval result" where
  "member_of_value JUndef k = Inl (TypeError (''Cannot read properties of undefined (reading '' @ k @ '')''))"
| "member_of_value JNull k = Inl (TypeError (''Cannot read properties of null (reading '' @ k @ '')''))"
| "member_of_value (JObj es) k = Inr (js_get es k)"
| "member_of_value _ k = Inr JUndef"

section \<open>search\<close>

record http_query = search_query +
  sq_format :: "string option"
  sq_agents :: bool
  sq_official :: bool
  sq_verified :: bool
  sq_sort :: "string option"

definition search_params :: "http_query \<Rightarrow> (string \<times> string) list" where
  "search_params query =
     (let given = (\<lambda>k v. case nonempty_string v of Some s \<Rightarrow> [(k, s)] | None \<Rightarrow> []);
          flag = (\<lambda>k b. if b then [(k, ''true'')] else [])
      in given ''q'' (sq_q query) @ given ''format'' (sq_format query) @ given ''license'' (sq_license query)
         @ flag ''agents'' (sq_agents query) @ flag ''official'' (sq_official query) @ flag ''verified'' (sq_verified query)
         @ given ''sort'' (sq_sort query))"

definition hit_name :: "(string \<times> jsval) list \<Rightarrow> string" where
  "hit_name es =
     (let other = (case js_get es ''id'' of JStr i \<Rightarrow> i
        | _ \<Rightarrow> js_to_string (js_get es ''publisher'') @ ''/'' @ js_to_string (js_get es ''slug''))
      in case js_get es ''name'' of JStr s \<Rightarrow> if js_includes s ''/'' then s else other | _ \<Rightarrow> other)"

definition or_string :: "jsval \<Rightarrow> string \<Rightarrow> string" where
  "or_string v d = (case js_string v of Some s \<Rightarrow> s | None \<Rightarrow> d)"

fun as_search_hit :: "jsval \<Rightarrow> search_hit result" where
  "as_search_hit (JObj es) =
     bind_res (parse_pack_spec (SpecText (hit_name es))) (\<lambda>parsed.
       case js_get es ''sha256'' of
         JStr digest \<Rightarrow>
           Inr \<lparr>sh_name = ps_name parsed, sh_publisher = or_string (js_get es ''publisher'') (ps_publisher parsed),
             sh_slug = or_string (js_get es ''slug'') (ps_slug parsed), sh_version = or_string (js_get es ''version'') (ps_version parsed),
             sh_sha256 = digest, sh_state_root = js_string (js_get es ''stateRoot''), sh_license = js_string (js_get es ''license''),
             sh_description = js_string (js_get es ''description''), sh_yanked = (js_get es ''yanked'' = JBool True)\<rparr>
       | _ \<Rightarrow> harness_fail ''registry search hit is missing sha256'')"
| "as_search_hit _ = harness_fail ''registry search returned an invalid pack''"

definition http_search :: "web \<Rightarrow> 'w http_registry \<Rightarrow> http_query \<Rightarrow> search_hit list result \<times> 'w http_registry" where
  "http_search web r query =
     (case bind_res (assert_online r ''search'') (\<lambda>_. wp_url web (hg_origin r @ ''/api/v1/packs'') (search_params query)) of
        Inl e \<Rightarrow> (Inl e, r)
      | Inr url \<Rightarrow> run_then (http_exchange web url ''GET'' [] r) (\<lambda>(status, body) r.
          (if status \<noteq> 200 then registry_http_error status body
           else bind_res (member_of_value body ''packs'') (\<lambda>v.
             bind_res (map_res as_search_hit (case v of JArr packs \<Rightarrow> packs | _ \<Rightarrow> [])) (\<lambda>hits.
             Inr (js_sort (cmp_on sh_name (wp_compare web)) hits))), r)))"

section \<open>resolve\<close>

definition deny_yanked :: "pack_manifest \<Rightarrow> bool \<Rightarrow> pack_manifest result" where
  "deny_yanked m force = (if pm_yanked m \<and> \<not> force then yanked_error m else Inr m)"

definition remember_manifest :: "pack_manifest \<Rightarrow> 'w http_registry \<Rightarrow> 'w http_registry" where
  "remember_manifest m r = r\<lparr>hg_cache := set_manifest (hg_cache r) m\<rparr>"

definition version_url :: "'w http_registry \<Rightarrow> pack_spec \<Rightarrow> string" where
  "version_url r s = hg_origin r @ ''/api/v1/packs/'' @ ps_publisher s @ ''/'' @ ps_slug s @ ''/'' @ ps_version s"

definition resolve_answer :: "pack_spec \<Rightarrow> int \<Rightarrow> jsval \<Rightarrow> pack_manifest result" where
  "resolve_answer s status body =
     (let expected = (if ps_version s = ''latest'' then None else Some (ps_version s)) in
      if status = 410 then
        bind_res (validate_pack_manifest body (Some (ps_name s)) expected) (\<lambda>m. Inr (m\<lparr>pm_yanked := True\<rparr>))
      else if status = 404 then not_found (ps_name s) (ps_version s)
      else if status \<noteq> 200 then registry_http_error status body
      else validate_pack_manifest body (Some (ps_name s)) expected)"

definition http_resolve :: "web \<Rightarrow> 'w http_registry \<Rightarrow> spec_input \<Rightarrow> pack_manifest result \<times> 'w http_registry" where
  "http_resolve web r spec =
     (case parse_pack_spec spec of
        Inl e \<Rightarrow> (Inl e, r)
      | Inr s \<Rightarrow>
          if hg_offline r then
            (case get_manifest (hg_cache r) (ps_name s) (ps_version s) of
               Some cached \<Rightarrow> (deny_yanked cached (hg_force r), r)
             | None \<Rightarrow> (harness_fail (''registry is offline; no cached manifest for '' @ pack_key (ps_name s) (ps_version s)), r))
          else run_then (http_exchange web (version_url r s) ''GET'' [] r) (\<lambda>(status, body) r.
            run_then (resolve_answer s status body, r) (\<lambda>m r. (deny_yanked m (hg_force r), remember_manifest m r))))"

section \<open>pull\<close>

definition assert_digest :: "sha256 \<Rightarrow> nat list \<Rightarrow> pack_manifest \<Rightarrow> unit result" where
  "assert_digest sha bytes m = (if sha bytes \<noteq> pm_sha256 m then digest_mismatch m (sha bytes) else Inr ())"

definition pulled_manifest :: "web \<Rightarrow> 'w http_registry \<Rightarrow> pull_input \<Rightarrow> pack_manifest result \<times> 'w http_registry" where
  "pulled_manifest web r i =
     (case i of
        PullManifest m \<Rightarrow> (bind_res (check_manifest m) (\<lambda>m. deny_yanked m (hg_force r)), r)
      | PullSpec s \<Rightarrow> http_resolve web r s)"

definition accept_artifact :: "web \<Rightarrow> pack_manifest \<Rightarrow> http_response \<Rightarrow> nat list result" where
  "accept_artifact web m response =
     bind_res (fr_bytes response) (\<lambda>bytes.
     bind_res (guard_harness (\<not> fr_ok response) (''registry blob '' @ dec_int (fr_status response) @ '': failed to download ''
         @ pack_key (pm_name m) (pm_version m))) (\<lambda>_.
     bind_res (guard_harness (0 < pm_size_bytes m \<and> int (length bytes) \<noteq> pm_size_bytes m)
         (''registry size mismatch: expected '' @ dec_int (pm_size_bytes m) @ '' bytes, got '' @ dec_int (int (length bytes)))) (\<lambda>_.
     bind_res (assert_digest (wp_sha web) bytes m) (\<lambda>_. Inr bytes))))"

definition download :: "web \<Rightarrow> pack_manifest \<Rightarrow> 'w http_registry \<Rightarrow> pack_bytes result \<times> 'w http_registry" where
  "download web m r =
     run_then (bind_res (assert_online r ''pull'') (\<lambda>_.
         guard_harness (pm_url m = []) (''artifact bytes are not stored yet '' @ at_version (pm_name m) (pm_version m))), r) (\<lambda>_ r.
     run_then (send \<lparr>rq_url = pm_url m, rq_method = ''GET'', rq_headers = [], rq_body = None\<rparr> r) (\<lambda>response r.
     run_then (accept_artifact web m response, r) (\<lambda>bytes r.
       (Inr (m, bytes), r\<lparr>hg_cache := set_manifest (set_bytes (hg_cache r) (pm_sha256 m) bytes) m\<rparr>))))"

definition http_pull :: "web \<Rightarrow> 'w http_registry \<Rightarrow> pull_input \<Rightarrow> pack_bytes result \<times> 'w http_registry" where
  "http_pull web r i =
     run_then (pulled_manifest web r i) (\<lambda>m r.
     run_then (assert_lockfile_pin (hg_lockfile r) (pm_name m) (pm_sha256 m) (hg_force r), r) (\<lambda>_ r.
       case get_bytes (hg_cache r) (pm_sha256 m) of
         Some cached \<Rightarrow> (bind_res (assert_digest (wp_sha web) cached m) (\<lambda>_. Inr (m, cached)), r)
       | None \<Rightarrow> download web m r))"

section \<open>yank\<close>

definition yank_answer :: "pack_spec \<Rightarrow> int \<Rightarrow> jsval \<Rightarrow> pack_manifest result" where
  "yank_answer s status body =
     (if status \<noteq> 200 then registry_http_error status body
      else bind_res (member_of_value body ''manifest'') (\<lambda>v.
        bind_res (validate_pack_manifest (if v = JUndef \<or> v = JNull then body else v) (Some (ps_name s)) None) (\<lambda>m.
        Inr (m\<lparr>pm_yanked := True\<rparr>))))"

definition http_yank :: "web \<Rightarrow> 'w http_registry \<Rightarrow> spec_input \<Rightarrow> pack_manifest result \<times> 'w http_registry" where
  "http_yank web r spec =
     run_then (assert_online r ''yank'', r) (\<lambda>_ r.
       case nonempty_string (hg_token r) of
         None \<Rightarrow> (harness_fail ''registry yank requires a host-provided token'', r)
       | Some token \<Rightarrow>
           run_then (parse_pack_spec spec, r) (\<lambda>s r.
           run_then (http_exchange web (version_url r s @ ''/yank'') ''POST''
               [(''authorization'', ''Bearer '' @ token), (''accept'', ''application/json'')] r) (\<lambda>(status, body) r.
           run_then (yank_answer s status body, r) (\<lambda>m r. (Inr m, remember_manifest m r)))))"

section \<open>What every call keeps\<close>

text \<open>No call changes how the client was set up, and the manifests in its cache stay valid.\<close>

definition config :: "'w http_registry \<Rightarrow> string \<times> 'w fetch \<times> bool \<times> lockfile option \<times> bool" where
  "config r = (hg_origin r, hg_fetch r, hg_force r, hg_lockfile r, hg_offline r)"

definition cached_valid :: "'w http_registry \<Rightarrow> bool" where
  "cached_valid r \<longleftrightarrow> (\<forall>m \<in> snd ` set (pc_manifests (hg_cache r)). valid_manifest m)"

definition client_ok :: "'w http_registry \<Rightarrow> 'w http_registry \<Rightarrow> bool" where
  "client_ok start r \<longleftrightarrow> config r = config start \<and> cached_valid r"

lemma client_ok_world [simp]: "client_ok start (r\<lparr>hg_world := w\<rparr>) = client_ok start r"
  by (simp add: client_ok_def config_def cached_valid_def)

lemma set_manifest_values: "snd ` set (pc_manifests (set_manifest c m)) \<subseteq> insert m (snd ` set (pc_manifests c))"
proof -
  let ?m1 = "map_put (pack_key (pm_name m) (pm_version m)) m (pc_manifests c)"
  let ?m2 = "map_put (pack_key (pm_name m) ''latest'') m ?m1"
  have "snd ` set (map_put (pm_name m) m ?m2) \<subseteq> insert m (snd ` set ?m2)"
    "snd ` set ?m2 \<subseteq> insert m (snd ` set ?m1)" "snd ` set ?m1 \<subseteq> insert m (snd ` set (pc_manifests c))"
    by (rule values_map_put)+
  then have "snd ` set (map_put (pm_name m) m ?m2) \<subseteq> insert m (snd ` set (pc_manifests c))" by blast
  then show ?thesis by (simp add: set_manifest_def)
qed

lemma client_ok_remember: "client_ok start r \<Longrightarrow> valid_manifest m \<Longrightarrow> client_ok start (remember_manifest m r)"
proof -
  assume r: "client_ok start r" and m: "valid_manifest m"
  have "valid_manifest m'" if "m' \<in> snd ` set (pc_manifests (set_manifest (hg_cache r) m))" for m'
    using subsetD [OF set_manifest_values that] r m unfolding client_ok_def cached_valid_def by (elim insertE) (simp, blast)
  with r show ?thesis unfolding client_ok_def cached_valid_def remember_manifest_def by (simp add: config_def)
qed

lemma client_ok_cache:
  "client_ok start r \<Longrightarrow> valid_manifest m \<Longrightarrow> client_ok start (r\<lparr>hg_cache := set_manifest (set_bytes (hg_cache r) d b) m\<rparr>)"
  using client_ok_remember [of start "r\<lparr>hg_cache := set_bytes (hg_cache r) d b\<rparr>" m]
  by (simp add: remember_manifest_def) (simp add: client_ok_def config_def cached_valid_def set_bytes_def)

lemma client_ok_send: "client_ok start r \<Longrightarrow> client_ok start (snd (send request r))"
  by (simp add: send_def split: prod.split)

lemma client_ok_exchange: "client_ok start r \<Longrightarrow> client_ok start (snd (http_exchange web url verb extra r))"
  unfolding http_exchange_def by (rule run_then_keeps) (simp_all add: client_ok_send)

lemma get_manifest_stored: "get_manifest c name version = Some m \<Longrightarrow> m \<in> snd ` set (pc_manifests c)"
  by (auto simp: get_manifest_def dest!: map_of_SomeD intro: rev_image_eqI split: if_splits option.splits)

lemma deny_yanked_Inr: "deny_yanked m force = Inr m' \<longleftrightarrow> m' = m \<and> (pm_yanked m \<longrightarrow> force)"
  by (auto simp: deny_yanked_def yanked_error_def)

lemma valid_manifest_yanked [simp]: "valid_manifest (m\<lparr>pm_yanked := y\<rparr>) = valid_manifest m"
  by (simp add: valid_manifest_def)

lemma resolve_answer_valid: "resolve_answer s status body = Inr m \<Longrightarrow> valid_manifest m"
  by (auto simp: resolve_answer_def Let_def not_found_def registry_http_error_def bind_res_eq_Inr dest: validate_pack_manifest_valid
      split: if_splits)

lemma yank_answer_valid: "yank_answer s status body = Inr m \<Longrightarrow> valid_manifest m"
  by (auto simp: yank_answer_def registry_http_error_def Let_def bind_res_eq_Inr dest: validate_pack_manifest_valid split: if_splits)

lemma client_ok_resolve: "client_ok start r \<Longrightarrow> client_ok start (snd (http_resolve web r spec))"
  unfolding http_resolve_def
  by (auto split: sum.split option.split intro!: run_then_keeps [of "client_ok start"] client_ok_exchange client_ok_remember
      dest: resolve_answer_valid)

lemma http_resolve_Inr:
  assumes "http_resolve web r spec = (Inr m, r')" "cached_valid r"
  shows "valid_manifest m \<and> (pm_yanked m \<longrightarrow> hg_force r) \<and> (hg_offline r \<longrightarrow> r' = r)"
proof -
  have force: "hg_force r1 = hg_force r" if "http_exchange web url verb extra r = (res, r1)" for url verb extra res r1
    using client_ok_exchange [of r r web url verb extra] assms(2) that by (simp add: client_ok_def config_def)
  from assms show ?thesis
    by (auto simp: http_resolve_def run_then_Inr deny_yanked_Inr harness_fail_def cached_valid_def
        dest!: resolve_answer_valid get_manifest_stored dest: force split: sum.splits option.splits if_splits)
qed

lemma pulled_manifest_Inr:
  assumes "pulled_manifest web r i = (Inr m, r')" "cached_valid r"
  shows "valid_manifest m \<and> (pm_yanked m \<longrightarrow> hg_force r) \<and> (hg_offline r \<longrightarrow> r' = r) \<and> client_ok r r'"
proof (cases i)
  case (PullSpec s)
  with assms http_resolve_Inr [of web r s m r'] client_ok_resolve [of r r web s] show ?thesis
    by (simp add: pulled_manifest_def client_ok_def)
next
  case (PullManifest m')
  with assms check_manifest_Inr show ?thesis
    by (auto simp: pulled_manifest_def deny_yanked_Inr bind_res_eq_Inr client_ok_def)
qed

lemma client_ok_pulled_manifest: "client_ok start r \<Longrightarrow> client_ok start (snd (pulled_manifest web r i))"
  by (simp add: pulled_manifest_def client_ok_resolve split: pull_input.split)

lemma accept_artifact_Inr:
  "accept_artifact web m response = Inr bytes \<Longrightarrow> wp_sha web bytes = pm_sha256 m \<and> fr_ok response
     \<and> (0 < pm_size_bytes m \<longrightarrow> int (length bytes) = pm_size_bytes m)"
  by (auto simp: accept_artifact_def bind_res_eq_Inr guard_harness_def assert_digest_def digest_mismatch_def split: if_splits)

lemma download_Inr:
  assumes "download web m r = (Inr (m', bytes), r')"
  shows "m' = m \<and> \<not> hg_offline r \<and> wp_sha web bytes = pm_sha256 m \<and> (0 < pm_size_bytes m \<longrightarrow> int (length bytes) = pm_size_bytes m)
    \<and> get_bytes (hg_cache r') (pm_sha256 m) = Some bytes"
  using assms by (auto simp: download_def run_then_Inr bind_res_eq_Inr assert_online_def guard_harness_def memory_cache.bytes_put
      memory_cache.bytes_put_manifest dest!: accept_artifact_Inr split: if_splits)

lemma client_ok_download: "client_ok start r \<Longrightarrow> valid_manifest m \<Longrightarrow> client_ok start (snd (download web m r))"
  unfolding download_def
  by (rule run_then_keeps [of "client_ok start"], simp, rule run_then_keeps [of "client_ok start"], simp add: client_ok_send,
      rule run_then_keeps [of "client_ok start"]) (simp_all add: client_ok_cache)

text \<open>The stages of a pull that succeeds.\<close>

lemma http_pull_Inr:
  assumes "http_pull web r i = (Inr (m, bytes), r')"
  obtains r1 where "pulled_manifest web r i = (Inr m, r1)"
    "assert_lockfile_pin (hg_lockfile r1) (pm_name m) (pm_sha256 m) (hg_force r1) = Inr ()"
    "get_bytes (hg_cache r1) (pm_sha256 m) = Some bytes \<and> wp_sha web bytes = pm_sha256 m \<and> r' = r1
       \<or> get_bytes (hg_cache r1) (pm_sha256 m) = None \<and> download web m r1 = (Inr (m, bytes), r')"
proof -
  obtain m1 r1 where p: "pulled_manifest web r i = (Inr m1, r1)"
    "assert_lockfile_pin (hg_lockfile r1) (pm_name m1) (pm_sha256 m1) (hg_force r1) = Inr ()"
    and rest: "(case get_bytes (hg_cache r1) (pm_sha256 m1) of
         Some cached \<Rightarrow> (bind_res (assert_digest (wp_sha web) cached m1) (\<lambda>_. Inr (m1, cached)), r1)
       | None \<Rightarrow> download web m1 r1) = (Inr (m, bytes), r')"
    using assms by (auto simp: http_pull_def run_then_Inr)
  show thesis
  proof (cases "get_bytes (hg_cache r1) (pm_sha256 m1)")
    case None
    with rest have d: "download web m1 r1 = (Inr (m, bytes), r')" by simp
    from download_Inr [OF this] have "m = m1" by blast
    with None d p show thesis by (intro that [of r1]) auto
  next
    case (Some cached)
    with rest have "m = m1" "bytes = cached" "r' = r1" "wp_sha web cached = pm_sha256 m1"
      by (auto simp: bind_res_eq_Inr assert_digest_def digest_mismatch_def split: if_splits)
    with Some p show thesis by (intro that [of r1]) auto
  qed
qed

lemma client_ok_pull:
  assumes "client_ok start r"
  shows "client_ok start (snd (http_pull web r i))"
  unfolding http_pull_def
proof (rule run_then_keeps)
  show "client_ok start (snd (pulled_manifest web r i))" using assms by (rule client_ok_pulled_manifest)
next
  fix m r1
  assume m: "pulled_manifest web r i = (Inr m, r1)" and ok: "client_ok start r1"
  have v: "valid_manifest m" using pulled_manifest_Inr [OF m] assms by (simp add: client_ok_def)
  show "client_ok start (snd (run_then (assert_lockfile_pin (hg_lockfile r1) (pm_name m) (pm_sha256 m) (hg_force r1), r1) (\<lambda>_ r.
       case get_bytes (hg_cache r) (pm_sha256 m) of
         Some cached \<Rightarrow> (bind_res (assert_digest (wp_sha web) cached m) (\<lambda>_. Inr (m, cached)), r)
       | None \<Rightarrow> download web m r)))"
    by (rule run_then_keeps) (use ok v in \<open>auto simp: client_ok_download split: option.split\<close>)
qed

interpretation http_client: verified_registry "http_pull web" "wp_sha web" cached_valid for web :: web
proof
  fix r :: "'w http_registry" and i m bytes r'
  assume ok: "cached_valid r" and p: "http_pull web r i = (Inr (m, bytes), r')"
  from p show "wp_sha web bytes = pm_sha256 m" by (rule http_pull_Inr) (auto dest: download_Inr)
  from p show "valid_manifest m" by (rule http_pull_Inr) (auto dest: pulled_manifest_Inr [OF _ ok])
next
  fix r :: "'w http_registry" and i
  show "cached_valid r \<Longrightarrow> cached_valid (snd (http_pull web r i))"
    using client_ok_pull [of r r web i] by (simp add: client_ok_def)
qed

section \<open>Properties\<close>

text \<open>
  C35. Whatever the server answers, a pull over HTTP that succeeds returns bytes with the digest of
  the manifest it returns, and the cache then serves these bytes. Without \<open>force\<close> the manifest is
  not yanked and agrees with the lockfile. An offline client answers from its cache alone: the
  request is made of nobody and the client is left as it was.
\<close>

theorem http_pull_verified:
  assumes "cached_valid r" "http_pull web r i = (Inr (m, bytes), r')"
  shows "wp_sha web bytes = pm_sha256 m \<and> get_bytes (hg_cache r') (pm_sha256 m) = Some bytes
    \<and> (\<not> hg_force r \<longrightarrow> \<not> pm_yanked m
        \<and> (\<forall>l p. hg_lockfile r = Some l \<longrightarrow> map_of (lf_packs l) (pm_name m) = Some p \<longrightarrow> lp_sha256 p = [] \<or> lp_sha256 p = pm_sha256 m))
    \<and> (hg_offline r \<longrightarrow> r' = r \<and> get_bytes (hg_cache r) (pm_sha256 m) = Some bytes)"
proof -
  obtain r1 where p: "pulled_manifest web r i = (Inr m, r1)"
    "assert_lockfile_pin (hg_lockfile r1) (pm_name m) (pm_sha256 m) (hg_force r1) = Inr ()"
    "get_bytes (hg_cache r1) (pm_sha256 m) = Some bytes \<and> wp_sha web bytes = pm_sha256 m \<and> r' = r1
       \<or> get_bytes (hg_cache r1) (pm_sha256 m) = None \<and> download web m r1 = (Inr (m, bytes), r')"
    using assms(2) by (rule http_pull_Inr)
  from pulled_manifest_Inr [OF p(1) assms(1)] have m: "pm_yanked m \<longrightarrow> hg_force r" "hg_offline r \<longrightarrow> r1 = r" "config r1 = config r"
    by (simp_all add: client_ok_def)
  then have same: "hg_force r1 = hg_force r" "hg_lockfile r1 = hg_lockfile r" "hg_offline r1 = hg_offline r"
    by (simp_all add: config_def)
  have "wp_sha web bytes = pm_sha256 m" "get_bytes (hg_cache r') (pm_sha256 m) = Some bytes" "hg_offline r \<longrightarrow> r' = r1"
    using p(3) same by (auto dest: download_Inr)
  with p(2) m same show ?thesis by (auto simp: assert_lockfile_pin_iff)
qed

text \<open>
  The cache's entry for \<open>latest\<close> is the manifest seen last: after resolving a newer and then an older
  version of a pack, a client that goes offline resolves the pack without a version to the older one.
\<close>

lemma cached_latest_is_last_seen:
  assumes "parse_pack_spec spec = Inr s" "ps_version s = ''latest''" "ps_name s = pm_name older" "\<not> pm_yanked older"
  shows "http_resolve web ((remember_manifest older (remember_manifest newer r))\<lparr>hg_offline := True\<rparr>) spec
    = (Inr older, (remember_manifest older (remember_manifest newer r))\<lparr>hg_offline := True\<rparr>)"
  using assms by (simp add: http_resolve_def remember_manifest_def memory_cache.manifest_put deny_yanked_def)

section \<open>A concrete pull\<close>

text \<open>A server with one pack: it answers every request with the manifest in its JSON and the bytes.\<close>

definition demo_server :: "nat fetch" where
  "demo_server request n =
     (Inr \<lparr>fr_status = 200, fr_ok = True, fr_text = Inr ''manifest'', fr_bytes = Inr [1, 2]\<rparr>, n + 1)"

definition demo_web :: web where
  "demo_web = \<lparr>wp_parse = (\<lambda>_. Some (manifest_json demo_manifest)), wp_url = (\<lambda>base params. Inr base), wp_compare = (\<lambda>_ _. 0),
     wp_sha = const_sha\<rparr>"

definition demo_client :: "nat http_registry" where
  "demo_client = \<lparr>hg_origin = ''https://hub'', hg_fetch = demo_server, hg_token = None, hg_force = False, hg_lockfile = None,
     hg_offline = False, hg_cache = empty_cache, hg_world = 0\<rparr>"

lemma demo_http_resolves:
  "http_resolve demo_web demo_client (SpecText ''acme/tax'')
     = (Inr demo_manifest, (remember_manifest demo_manifest demo_client)\<lparr>hg_world := 1\<rparr>)"
proof -
  have spec: "parse_pack_spec (SpecText ''acme/tax'') = Inr (demo_spec_input\<lparr>ps_version := ''latest''\<rparr>)" by code_simp
  have "validate_pack_manifest (manifest_json demo_manifest) (Some ''acme/tax'') None = Inr demo_manifest" by code_simp
  then show ?thesis
    by (simp add: http_resolve_def spec demo_client_def http_exchange_def send_def demo_server_def demo_web_def parse_or_text_def
        resolve_answer_def deny_yanked_def remember_manifest_def demo_spec_input_def Let_def del: parse_pack_spec.simps)
       (simp add: demo_manifest_def)
qed

lemma demo_http_pull:
  "\<exists>r'. http_pull demo_web demo_client (PullSpec (SpecText ''acme/tax'')) = (Inr (demo_manifest, [1, 2]), r') \<and> hg_world r' = 2"
proof -
  have "\<not> pm_yanked demo_manifest" "pm_url demo_manifest = ''u''" "pm_size_bytes demo_manifest = 2" "pm_sha256 demo_manifest = some_digest"
    by (simp_all add: demo_manifest_def)
  note m = this
  have c: "hg_force demo_client = False" "hg_lockfile demo_client = None" "hg_cache demo_client = empty_cache" "hg_offline demo_client = False"
      "hg_fetch demo_client = demo_server"
    by (simp_all add: demo_client_def)
  have "get_bytes (set_manifest empty_cache demo_manifest) some_digest = None"
    by (simp add: get_bytes_def set_manifest_def empty_cache_def)
  then have "http_pull demo_web demo_client (PullSpec (SpecText ''acme/tax''))
      = download demo_web demo_manifest ((remember_manifest demo_manifest demo_client)\<lparr>hg_world := 1\<rparr>)"
    by (simp add: http_pull_def pulled_manifest_def demo_http_resolves remember_manifest_def c m assert_lockfile_pin_def)
  then show ?thesis
    by (simp add: download_def assert_online_def guard_harness_def send_def remember_manifest_def c m demo_server_def accept_artifact_def
        assert_digest_def demo_web_def const_sha_def)
qed

theorem http_pull_verified_witness:
  "\<exists>r'. http_pull demo_web demo_client (PullSpec (SpecText ''acme/tax'')) = (Inr (demo_manifest, [1, 2]), r')
     \<and> get_bytes (hg_cache r') some_digest = Some [1, 2] \<and> const_sha [1, 2] = some_digest"
proof -
  obtain r' where p: "http_pull demo_web demo_client (PullSpec (SpecText ''acme/tax'')) = (Inr (demo_manifest, [1, 2]), r')"
    using demo_http_pull by blast
  have "cached_valid demo_client" by (simp add: cached_valid_def demo_client_def empty_cache_def)
  from http_pull_verified [OF this p] p show ?thesis by (auto simp: demo_manifest_def const_sha_def)
qed

end
