(* ===== verification/Adapters.thy ===== *)
theory Adapters
  imports Recovery Http_Host
begin

text \<open>
  The adapters that need no engine (\<open>adapters/callable.ts\<close>, \<open>tool.ts\<close>, \<open>http.ts\<close>,
  \<open>process.ts\<close>): what an agent answers and how it becomes an invocation result, the bridge
  through which an agent calls tools, a request over the host's fetch and a child process. Each is an
  \<open>invoke\<close> function over the context of the run; the harness runs it as an \<open>adapter\<close> of
  the recovery model. An agent is third-party code with finitely many calls into the harness.
\<close>

section \<open>Invocations\<close>

text \<open>\<open>hc_task_json\<close> is the task as JSON, with the members in the order of the caller's object.\<close>

record harness_context =
  hc_run_id :: string
  hc_task :: task_v1
  hc_task_json :: jsval
  hc_envelope :: context_envelope

type_synonym 'w invoke = "jsval \<Rightarrow> harness_context \<Rightarrow> 'w \<Rightarrow> 'w act"

text \<open>The context object is built for every invocation from the envelope of that moment.\<close>

definition bound_adapter :: "string \<Rightarrow> task_v1 \<Rightarrow> jsval \<Rightarrow> 'w invoke \<Rightarrow> 'w adapter" where
  "bound_adapter run_id task json invoke inp env w =
     invoke inp \<lparr>hc_run_id = run_id, hc_task = task, hc_task_json = json, hc_envelope = env\<rparr> w"

record agent_descriptor =
  ad_id :: string
  ad_name :: string
  ad_level :: assurance_level

text \<open>Code that runs with the context at hand and may call \<open>emitTool\<close> before it returns a value.\<close>

datatype 'w code_run =
    Returned 'w "jsval result"
  | Emits 'w bool string jsval "unit result \<Rightarrow> 'w \<Rightarrow> 'w code_run"

type_synonym 'w agent_code = "jsval \<Rightarrow> harness_context \<Rightarrow> 'w \<Rightarrow> 'w code_run"

primrec then_run :: "'w code_run \<Rightarrow> (jsval result \<Rightarrow> 'w \<Rightarrow> 'w act) \<Rightarrow> 'w act" where
  "then_run (Returned w v) rest = rest v w"
| "then_run (Emits w before tool payload k) rest = EmitTool w before tool payload (\<lambda>r w. then_run (k r w) rest)"

section \<open>normalizeInvocation\<close>

definition has_member :: "(string \<times> jsval) list \<Rightarrow> string \<Rightarrow> bool" where
  "has_member es k = (map_of es k \<noteq> None)"

definition status_of :: "jsval \<Rightarrow> invocation_status option" where
  "status_of v = find (\<lambda>s. v = JStr (status_name s)) [Succeeded, Partial, Failed, Suspended]"

definition wrap_output :: "jsval \<Rightarrow> jsval" where
  "wrap_output v = JObj [(''status'', JStr ''succeeded''), (''output'', v)]"

definition normalize_invocation :: "jsval \<Rightarrow> jsval" where
  "normalize_invocation v =
     (case v of
        JObj es \<Rightarrow> if has_member es ''status'' \<and> has_member es ''output'' \<and> status_of (js_get es ''status'') \<noteq> None
                   then v else wrap_output v
      | _ \<Rightarrow> wrap_output v)"

text \<open>
  The normalised object as the harness reads it, under the types of \<open>AgentInvocationResultV1\<close>: a
  member of another type counts as absent, and \<open>events\<close> are not kept.
\<close>

definition read_invocation :: "jsval \<Rightarrow> invocation_result" where
  "read_invocation v =
     (let es = (case v of JObj es \<Rightarrow> es | _ \<Rightarrow> []) in
      \<lparr>res_status = (case status_of (js_get es ''status'') of Some s \<Rightarrow> s | None \<Rightarrow> Succeeded),
       res_output = js_get es ''output'', res_error = js_string (js_get es ''error''),
       res_tool_calls = (case js_get es ''toolCalls'' of JArr vs \<Rightarrow> strings_of vs | _ \<Rightarrow> None),
       res_tokens = (case js_get es ''tokens'' of JNum n \<Rightarrow> Some n | _ \<Rightarrow> None)\<rparr>)"

definition invocation_of :: "jsval \<Rightarrow> invocation_result" where
  "invocation_of v = read_invocation (normalize_invocation v)"

section \<open>Callable agents\<close>

record agent_options =
  ag_id :: "string option"
  ag_name :: "string option"

definition describe :: "string \<Rightarrow> assurance_level \<Rightarrow> agent_options \<Rightarrow> agent_descriptor" where
  "describe fallback level opts =
     (let i = (case ag_id opts of Some i \<Rightarrow> i | None \<Rightarrow> fallback) in
      \<lparr>ad_id = i, ad_name = (case ag_name opts of Some n \<Rightarrow> n | None \<Rightarrow> i), ad_level = level\<rparr>)"

definition limited_capabilities :: "assurance_level \<Rightarrow> bool \<Rightarrow> bool \<Rightarrow> bool \<Rightarrow> string list \<Rightarrow> agent_capabilities" where
  "limited_capabilities level tools resume observe limitations =
     \<lparr>ac_level = level, ac_tools = tools, ac_resume = resume, ac_observe = observe, ac_interrupt = False,
      ac_limitations = limitations\<rparr>"

definition callable_descriptor :: "agent_options \<Rightarrow> agent_descriptor" where
  "callable_descriptor = describe ''callable'' L0"

definition callable_capabilities :: agent_capabilities where
  "callable_capabilities = limited_capabilities L0 False False False [''black-box callable; no tool interception'']"

definition callable_agent :: "'w agent_code \<Rightarrow> 'w invoke" where
  "callable_agent fn inp ctx w = then_run (fn inp ctx w) (\<lambda>v w. Done w (bind_res v (\<lambda>v. Inr (invocation_of v))))"

section \<open>Tool-aware agents\<close>

text \<open>An agent with a tool bridge: besides its own code it may call a tool and go on with the outcome.\<close>

datatype 'w tool_run =
    Answers 'w "jsval result"
  | CallsTool 'w string jsval "jsval result \<Rightarrow> 'w \<Rightarrow> 'w tool_run"
  | EmitsTool 'w bool string jsval "unit result \<Rightarrow> 'w \<Rightarrow> 'w tool_run"

type_synonym 'w tools = "(string, 'w agent_code) js_map"

definition tool_aware_descriptor :: "agent_options \<Rightarrow> agent_descriptor" where
  "tool_aware_descriptor = describe ''tool-aware'' L1"

definition tool_aware_capabilities :: agent_capabilities where
  "tool_aware_capabilities = limited_capabilities L1 True False False [''tool calls are intercepted; model internals are not'']"

text \<open>\<open>call\<close> up to the tool's own code: the tool is registered and the task does not prohibit it.\<close>

definition task_prohibitions :: "harness_context \<Rightarrow> string list" where
  "task_prohibitions ctx = (case prohibited_actions (hc_task ctx) of None \<Rightarrow> [] | Some ps \<Rightarrow> ps)"

definition permitted_tool :: "'w tools \<Rightarrow> harness_context \<Rightarrow> string \<Rightarrow> 'w agent_code result" where
  "permitted_tool tools ctx tool =
     (case map_of tools tool of
        None \<Rightarrow> Inl (HarnessError (''tool is not registered: '' @ tool))
      | Some handler \<Rightarrow>
          if tool \<in> set (task_prohibitions ctx)
          then Inl (HarnessError (''tool is prohibited by task policy: '' @ tool))
          else Inr handler)"

definition args_or_null :: "jsval \<Rightarrow> jsval" where
  "args_or_null v = (if v = JUndef then JNull else v)"

definition append_calls :: "string list \<Rightarrow> invocation_result \<Rightarrow> invocation_result" where
  "append_calls calls r = r\<lparr>res_tool_calls := Some ((case res_tool_calls r of None \<Rightarrow> [] | Some own \<Rightarrow> own) @ calls)\<rparr>"

primrec serve :: "'w tools \<Rightarrow> harness_context \<Rightarrow> 'w tool_run \<Rightarrow> string list \<Rightarrow> 'w act" where
  "serve tools ctx (Answers w v) calls = Done w (bind_res v (\<lambda>v. Inr (append_calls calls (invocation_of v))))"
| "serve tools ctx (EmitsTool w before tool payload k) calls =
     EmitTool w before tool payload (\<lambda>r w. serve tools ctx (k r w) calls)"
| "serve tools ctx (CallsTool w tool args k) calls =
     (case permitted_tool tools ctx tool of
        Inl e \<Rightarrow> serve tools ctx (k (Inl e) w) calls
      | Inr handler \<Rightarrow> EmitTool w True tool (args_or_null args) (\<lambda>r w.
          case r of
            Inl e \<Rightarrow> serve tools ctx (k (Inl e) w) calls
          | Inr _ \<Rightarrow> then_run (handler (args_or_null args) ctx w) (\<lambda>v w.
              case v of
                Inl e \<Rightarrow> serve tools ctx (k (Inl e) w) calls
              | Inr v \<Rightarrow> EmitTool w False tool v (\<lambda>r w.
                  serve tools ctx (k (bind_res r (\<lambda>_. Inr v)) w) (calls @ [tool])))))"

definition tool_aware_agent :: "'w tools \<Rightarrow> (jsval \<Rightarrow> harness_context \<Rightarrow> 'w \<Rightarrow> 'w tool_run) \<Rightarrow> 'w invoke" where
  "tool_aware_agent tools agent inp ctx w = serve tools ctx (agent inp ctx w) []"

section \<open>HTTP agents\<close>

record 'w http_agent_options =
  ha_url :: string
  ha_fetch :: "'w fetch option"
  ha_method :: "string option"
  ha_headers :: "(string, string) js_map"
  ha_map_request :: "(jsval \<Rightarrow> harness_context \<Rightarrow> jsval result) option"
  ha_map_response :: "(jsval \<Rightarrow> jsval result) option"

definition http_descriptor :: "string option \<Rightarrow> agent_descriptor" where
  "http_descriptor i = describe ''http'' L0 \<lparr>ag_id = i, ag_name = None\<rparr>"

definition http_capabilities :: agent_capabilities where
  "http_capabilities = limited_capabilities L0 False False False
     [''HTTP request/response only; tool gating requires a tool-aware adapter'']"

definition input_and_task :: "jsval \<Rightarrow> harness_context \<Rightarrow> jsval" where
  "input_and_task inp ctx = JObj [(''input'', inp), (''task'', hc_task_json ctx)]"

definition http_answer :: "(string \<Rightarrow> jsval option) \<Rightarrow> 'w http_agent_options \<Rightarrow> http_response \<Rightarrow> invocation_result result" where
  "http_answer parse opts response =
     bind_res (fr_text response) (\<lambda>text.
     let parsed = parse_or_text parse text in
     if \<not> fr_ok response
     then Inr \<lparr>res_status = Failed, res_output = parsed, res_error = Some (''http '' @ dec_int (fr_status response)),
            res_tool_calls = None, res_tokens = None\<rparr>
     else bind_res (case ha_map_response opts of Some f \<Rightarrow> f parsed | None \<Rightarrow> Inr parsed) (\<lambda>v. Inr (invocation_of v)))"

definition http_agent :: "(string \<Rightarrow> jsval option) \<Rightarrow> 'w http_agent_options \<Rightarrow> 'w invoke result" where
  "http_agent parse opts =
     (case ha_fetch opts of
        None \<Rightarrow> Inl (HarnessError ''httpAgent requires a host-provided fetch'')
      | Some fetch \<Rightarrow> Inr (\<lambda>inp ctx w.
          case (case ha_map_request opts of Some f \<Rightarrow> f inp ctx | None \<Rightarrow> Inr (input_and_task inp ctx)) of
            Inl e \<Rightarrow> Done w (Inl e)
          | Inr body \<Rightarrow>
              (case fetch \<lparr>rq_url = ha_url opts, rq_method = (case ha_method opts of Some m \<Rightarrow> m | None \<Rightarrow> ''POST''),
                   rq_headers = merge_headers [(''content-type'', ''application/json'')] (ha_headers opts),
                   rq_body = json_stringify body\<rparr> w of
                 (answer, w) \<Rightarrow> Done w (bind_res answer (http_answer parse opts)))))"

section \<open>Process agents\<close>

record process_request =
  pq_command :: string
  pq_args :: "string list"
  pq_input :: string
  pq_timeout_ms :: "js_num option"

record process_result =
  px_stdout :: string
  px_stderr :: string
  px_exit_code :: "int option"

type_synonym 'w spawner = "process_request \<Rightarrow> 'w \<Rightarrow> process_result result \<times> 'w"

definition process_descriptor :: "string option \<Rightarrow> agent_descriptor" where
  "process_descriptor i = describe ''process'' L0 \<lparr>ag_id = i, ag_name = None\<rparr>"

definition process_capabilities :: agent_capabilities where
  "process_capabilities = limited_capabilities L0 False False False [''process stdin/stdout only; no shell invocation'']"

definition process_answer :: "(string \<Rightarrow> jsval option) \<Rightarrow> process_result \<Rightarrow> invocation_result" where
  "process_answer parse r =
     (if px_exit_code r \<noteq> Some 0
      then \<lparr>res_status = Failed, res_output = JObj [(''stdout'', JStr (px_stdout r)), (''stderr'', JStr (px_stderr r))],
             res_error = Some (''process exit '' @ (case px_exit_code r of Some n \<Rightarrow> dec_int n | None \<Rightarrow> ''null'')),
             res_tool_calls = None, res_tokens = None\<rparr>
      else invocation_of (parse_or_text parse (px_stdout r)))"

text \<open>An argument that is \<open>null\<close> or \<open>undefined\<close> is \<open>None\<close>.\<close>

definition process_agent :: "(string \<Rightarrow> jsval option) \<Rightarrow> 'w spawner \<Rightarrow> string \<Rightarrow> string option list \<Rightarrow> 'w invoke result" where
  "process_agent parse spawn command args =
     (if command = [] then Inl (HarnessError ''processAgent requires an explicit command'')
      else if None \<in> set args then Inl (HarnessError ''processAgent args must be explicit strings'')
      else Inr (\<lambda>inp ctx w.
        case spawn \<lparr>pq_command = command, pq_args = map the args,
            pq_input = (case json_stringify (input_and_task inp ctx) of Some s \<Rightarrow> s | None \<Rightarrow> []),
            pq_timeout_ms = Option.bind (map_of (env_budget (hc_envelope ctx)) ''timeoutMs'') id\<rparr> w of
          (answer, w) \<Rightarrow> Done w (bind_res answer (\<lambda>r. Inr (process_answer parse r)))))"

text \<open>
  \<open>nodeSpawn\<close>: what the child process, the timer and the abort signal do to the promise. A promise
  is settled by the first resolve or reject. The time limit is a positive integer when it is given, as
  \<open>validateTask\<close> has checked; working directory and environment are only handed on.
\<close>

datatype child_event = StdoutData string | StderrData string | ChildError js_error | Closed "int option" | TimerFires | Aborted

record child_state =
  cs_stdout :: string
  cs_stderr :: string
  cs_timer :: bool
  cs_listening :: bool
  cs_kills :: nat
  cs_settled :: "process_result result option"

definition settle_once :: "process_result result \<Rightarrow> child_state \<Rightarrow> child_state" where
  "settle_once r s = s\<lparr>cs_settled := (case cs_settled s of None \<Rightarrow> Some r | Some old \<Rightarrow> Some old)\<rparr>"

fun child_step :: "child_state \<Rightarrow> child_event \<Rightarrow> child_state" where
  "child_step s (StdoutData chunk) = s\<lparr>cs_stdout := cs_stdout s @ chunk\<rparr>"
| "child_step s (StderrData chunk) = s\<lparr>cs_stderr := cs_stderr s @ chunk\<rparr>"
| "child_step s TimerFires =
     (if cs_timer s then settle_once (Inl (HarnessError ''processAgent timed out'')) (s\<lparr>cs_timer := False, cs_kills := cs_kills s + 1\<rparr>)
      else s)"
| "child_step s Aborted = (if cs_listening s then s\<lparr>cs_listening := False, cs_kills := cs_kills s + 1\<rparr> else s)"
| "child_step s (ChildError e) = settle_once (Inl e) (s\<lparr>cs_timer := False, cs_listening := False\<rparr>)"
| "child_step s (Closed code) =
     settle_once (Inr \<lparr>px_stdout = cs_stdout s, px_stderr = cs_stderr s, px_exit_code = code\<rparr>)
       (s\<lparr>cs_timer := False, cs_listening := False\<rparr>)"

definition spawned_child :: "process_request \<Rightarrow> bool \<Rightarrow> child_state" where
  "spawned_child request signal = \<lparr>cs_stdout = [], cs_stderr = [],
     cs_timer = (case pq_timeout_ms request of Some n \<Rightarrow> is_positive_num n | None \<Rightarrow> False),
     cs_listening = signal, cs_kills = 0, cs_settled = None\<rparr>"

definition node_spawn :: "process_request \<Rightarrow> bool \<Rightarrow> child_event list \<Rightarrow> child_state" where
  "node_spawn request signal events = foldl child_step (spawned_child request signal) events"

section \<open>Invocation results\<close>

lemma status_of_name [simp]: "status_of (JStr (status_name s)) = Some s"
  by (cases s) (simp_all add: status_of_def)

lemma normalize_wrapped [simp]: "normalize_invocation (wrap_output v) = wrap_output v"
  by (simp add: normalize_invocation_def wrap_output_def has_member_def js_get_def status_of_def)

lemma normalize_invocation_idem: "normalize_invocation (normalize_invocation v) = normalize_invocation v"
proof (cases "normalize_invocation v = v")
  case False
  then have "normalize_invocation v = wrap_output v" by (cases v) (auto simp: normalize_invocation_def split: if_splits)
  then show ?thesis by simp
qed simp

lemma normalize_invocation_status:
  "\<exists>es s. normalize_invocation v = JObj es \<and> has_member es ''output'' \<and> js_get es ''status'' = JStr (status_name s)"
proof -
  have w: "\<exists>es s. wrap_output v = JObj es \<and> has_member es ''output'' \<and> js_get es ''status'' = JStr (status_name s)" for v
    by (rule exI [of _ "[(''status'', JStr ''succeeded''), (''output'', v)]"], rule exI [of _ Succeeded])
       (simp add: wrap_output_def has_member_def js_get_def)
  have st: "\<exists>s. x = JStr (status_name s)" if "status_of x \<noteq> None" for x
    using that by (auto simp: status_of_def split: if_splits intro: exI [of _ Succeeded] exI [of _ Partial] exI [of _ Failed] exI [of _ Suspended])
  show ?thesis
  proof (cases v)
    case (JObj es)
    with w [of v] st show ?thesis by (auto simp: normalize_invocation_def)
  qed (use w in \<open>simp_all add: normalize_invocation_def\<close>)
qed

text \<open>
  An answer that names a failing status but has no \<open>output\<close> is not recognised and counts as a success:
  the guard asks for both members.
\<close>

lemma failure_without_output_succeeds:
  "res_status (invocation_of (JObj [(''status'', JStr ''failed''), (''error'', JStr ''boom'')])) = Succeeded"
  "res_error (invocation_of (JObj [(''status'', JStr ''failed''), (''error'', JStr ''boom'')])) = None"
  by (simp_all add: invocation_of_def read_invocation_def normalize_invocation_def has_member_def wrap_output_def js_get_def
      status_of_def)

section \<open>The tool bridge\<close>

text \<open>The bridge looks at a tool only after it has seen that the tool may be called.\<close>

lemma permitted_tool_Inr:
  "permitted_tool tools ctx tool = Inr handler \<longleftrightarrow> map_of tools tool = Some handler
     \<and> tool \<notin> set (task_prohibitions ctx)"
  by (auto simp: permitted_tool_def split: option.splits if_splits)

definition same_bridge :: "harness_context \<Rightarrow> 'w tools \<Rightarrow> 'w tools \<Rightarrow> bool" where
  "same_bridge ctx tools tools' \<longleftrightarrow> (\<forall>tool. (map_of tools tool = None \<longleftrightarrow> map_of tools' tool = None)
     \<and> (tool \<notin> set (task_prohibitions ctx) \<longrightarrow> map_of tools tool = map_of tools' tool))"

lemma same_bridge_permitted: "same_bridge ctx tools tools' \<Longrightarrow> permitted_tool tools ctx tool = permitted_tool tools' ctx tool"
  by (cases "map_of tools tool"; cases "map_of tools' tool") (auto simp: same_bridge_def permitted_tool_def dest!: spec [of _ tool])

lemma serve_same_bridge:
  assumes "same_bridge ctx tools tools'"
  shows "serve tools ctx run calls = serve tools' ctx run calls"
proof (induction run arbitrary: calls)
  case (CallsTool w tool args k)
  have "serve tools ctx (k v w) = serve tools' ctx (k v w)" for v w using CallsTool [OF rangeI rangeI] by (simp add: fun_eq_iff)
  then show ?case by (simp add: same_bridge_permitted [OF assms] cong: sum.case_cong)
next
  case (EmitsTool w before tool payload k)
  have "serve tools ctx (k v w) = serve tools' ctx (k v w)" for v w using EmitsTool [OF rangeI rangeI] by (simp add: fun_eq_iff)
  then show ?case by simp
qed simp

text \<open>
  C36. A tool the task prohibits is never run by a tool-aware agent. Whatever the agent does, the
  invocation is the same when the code of prohibited tools is replaced by any other code: with the same
  names registered and the same code for the tools that are not prohibited, every step of the
  invocation, and so its result, its events and the world after it, is the same.
\<close>

theorem prohibited_tools_never_run:
  assumes "\<forall>tool. map_of tools tool = None \<longleftrightarrow> map_of tools' tool = None"
    and "\<forall>tool. tool \<notin> set (task_prohibitions ctx) \<longrightarrow> map_of tools tool = map_of tools' tool"
  shows "tool_aware_agent tools agent inp ctx w = tool_aware_agent tools' agent inp ctx w"
  unfolding tool_aware_agent_def by (rule serve_same_bridge) (use assms in \<open>auto simp: same_bridge_def\<close>)

text \<open>The calls a result reports, and the receipts the harness keeps, for code that does not emit by itself.\<close>

primrec quiet_run :: "'w code_run \<Rightarrow> bool" where
  "quiet_run (Returned w v) = True"
| "quiet_run (Emits w before tool payload k) = False"

primrec quiet_agent :: "'w tool_run \<Rightarrow> bool" where
  "quiet_agent (Answers w v) = True"
| "quiet_agent (EmitsTool w before tool payload k) = False"
| "quiet_agent (CallsTool w tool args k) = (\<forall>v w. quiet_agent (k v w))"

definition quiet_tools :: "'w tools \<Rightarrow> bool" where
  "quiet_tools tools \<longleftrightarrow> (\<forall>tool handler. map_of tools tool = Some handler \<longrightarrow> (\<forall>args ctx w. quiet_run (handler args ctx w)))"

definition reported_calls :: "invocation_result \<Rightarrow> string list" where
  "reported_calls r = (case res_tool_calls r of None \<Rightarrow> [] | Some cs \<Rightarrow> cs)"

lemma reported_calls_append [simp]: "reported_calls (append_calls calls r) = reported_calls r @ calls"
  by (simp add: reported_calls_def append_calls_def)

lemma quiet_then_run: "quiet_run run \<Longrightarrow> \<exists>v w. \<forall>rest. then_run run rest = rest v w"
  by (cases run) auto

text \<open>The calls made by a part of an invocation: all permitted, and the receipts are among them.\<close>

definition audited :: "'w tools \<Rightarrow> harness_context \<Rightarrow> string list \<Rightarrow> string list \<Rightarrow> string list \<Rightarrow> bool" where
  "audited tools ctx before calls receipts \<longleftrightarrow> (\<exists>more. receipts = before @ more \<and> subseq more calls
     \<and> (\<forall>tool \<in> set calls. map_of tools tool \<noteq> None \<and> tool \<notin> set (task_prohibitions ctx)))"

lemma audited_refl: "audited tools ctx before [] before"
  by (simp add: audited_def)

lemma audited_Cons:
  assumes "audited tools ctx (before @ pre) calls receipts" "permitted_tool tools ctx tool = Inr handler" "pre = [] \<or> pre = [tool]"
  shows "audited tools ctx before (tool # calls) receipts"
  using assms by (auto simp: audited_def permitted_tool_Inr)

lemma serve_audited:
  assumes "quiet_tools tools" "quiet_agent run" "run_act hooks (serve tools ctx run calls) env receipts = (res, receipts', w', env')"
  shows "\<exists>new. audited tools ctx receipts new receipts' \<and> (\<forall>r. res = Inr r \<longrightarrow> (\<exists>own. reported_calls r = own @ calls @ new))"
  using assms(2,3)
proof (induction run arbitrary: calls env receipts)
  case (Answers w v)
  then show ?case by (intro exI [of _ "[]"]) (auto simp: bind_res_eq_Inr audited_refl)
next
  case (EmitsTool w before tool payload k)
  then show ?case by simp
next
  case (CallsTool w tool args k)
  have quiet: "quiet_agent (k v w)" for v w using CallsTool.prems(1) by simp
  have ih: "\<exists>new. audited tools ctx before new receipts' \<and> (\<forall>r. res = Inr r \<longrightarrow> (\<exists>own. reported_calls r = own @ cs @ new))"
    if "run_act hooks (serve tools ctx (k v w) cs) e before = (res, receipts', w', env')" for v w cs e before
    using CallsTool.IH [OF rangeI rangeI quiet that] .
  show ?case
  proof (cases "permitted_tool tools ctx tool")
    case (Inl e)
    with CallsTool.prems(2) ih show ?thesis by simp
  next
    case (Inr handler)
    obtain r1 w1 env1 where before: "hooks BeforeTool (ToolExtra tool (args_or_null args)) w env = (r1, w1, env1)" by (metis surj_pair)
    show ?thesis
    proof (cases r1)
      case (Inl e)
      with CallsTool.prems(2) Inr before ih show ?thesis by simp
    next
      case (Inr u)
      have "quiet_run (handler (args_or_null args) ctx w1)"
        using assms(1) \<open>permitted_tool tools ctx tool = Inr handler\<close> by (auto simp: quiet_tools_def permitted_tool_Inr)
      then obtain v w2 where ran: "then_run (handler (args_or_null args) ctx w1) rest = rest v w2" for rest
        using quiet_then_run by blast
      show ?thesis
      proof (cases v)
        case (Inl e)
        with CallsTool.prems(2) Inr before ran ih \<open>permitted_tool tools ctx tool = Inr handler\<close> show ?thesis by simp
      next
        case (Inr x)
        obtain r2 w3 env2 where after: "hooks AfterTool (ToolExtra tool x) w2 env1 = (r2, w3, env2)" by (metis surj_pair)
        let ?pre = "case r2 of Inl e \<Rightarrow> [] | Inr u \<Rightarrow> [tool]"
        have "run_act hooks (serve tools ctx (k (bind_res r2 (\<lambda>_. Inr x)) w3) (calls @ [tool])) env2 (receipts @ ?pre) = (res, receipts', w', env')"
          using CallsTool.prems(2) Inr \<open>r1 = Inr u\<close> before after ran \<open>permitted_tool tools ctx tool = Inr handler\<close>
          by (cases r2) simp_all
        from ih [OF this] obtain new where new: "audited tools ctx (receipts @ ?pre) new receipts'"
          "\<forall>r. res = Inr r \<longrightarrow> (\<exists>own. reported_calls r = own @ (calls @ [tool]) @ new)" by blast
        have "audited tools ctx receipts (tool # new) receipts'"
          by (rule audited_Cons [OF new(1) \<open>permitted_tool tools ctx tool = Inr handler\<close>]) (cases r2; simp)
        with new(2) show ?thesis by (intro exI [of _ "tool # new"]) simp
      qed
    qed
  qed
qed

text \<open>
  The record of a tool-aware run is complete. When the agent and its tools call no hooks by
  themselves, the invocation returns a result whose reported calls end with the tools the bridge ran,
  or the result of an error; every one of them is registered and not prohibited by the task, and the
  receipts the harness keeps are these calls in their order, up to calls whose \<open>afterTool\<close> hook
  failed.
\<close>

theorem tool_calls_audited:
  assumes "quiet_tools tools" "\<forall>inp ctx w. quiet_agent (agent inp ctx w)"
    and "invoke_once hooks (bound_adapter run_id task json (tool_aware_agent tools agent)) inp w env = (Inr r, receipts, w', env')"
  shows "\<exists>calls. subseq receipts calls
    \<and> (\<forall>tool \<in> set calls. map_of tools tool \<noteq> None \<and> tool \<notin> set (case prohibited_actions task of None \<Rightarrow> [] | Some ps \<Rightarrow> ps))
    \<and> ((\<exists>own. reported_calls r = own @ calls) \<or> (\<exists>e. r = thrown_result e))"
proof -
  let ?ctx = "\<lparr>hc_run_id = run_id, hc_task = task, hc_task_json = json, hc_envelope = env\<rparr>"
  obtain u w1 env1 where before: "hooks BeforeAgent NoExtra w env = (Inr u, w1, env1)"
    using assms(3) by (auto simp: invoke_once_def split: prod.splits sum.splits)
  obtain res receipts0 w2 env2 where ran: "run_act hooks (serve tools ?ctx (agent inp ?ctx w1) []) env1 [] = (res, receipts0, w2, env2)"
    by (metis surj_pair)
  from serve_audited [OF assms(1) _ ran] assms(2) obtain calls where calls: "audited tools ?ctx [] calls receipts0"
    "\<forall>r. res = Inr r \<longrightarrow> (\<exists>own. reported_calls r = own @ calls)" by auto
  have "receipts = receipts0 \<and> (res = Inr r \<or> (\<exists>e. r = thrown_result e))"
    using assms(3) before ran
    by (auto simp: invoke_once_def bound_adapter_def tool_aware_agent_def split: prod.splits sum.splits)
  with calls show ?thesis by (intro exI [of _ calls]) (auto simp: audited_def task_prohibitions_def)
qed

section \<open>Child processes\<close>

lemma settle_once_keeps [simp]: "cs_settled s = Some r \<Longrightarrow> settle_once r' s = s"
  by (simp add: settle_once_def)

lemma child_step_settled: "cs_settled s = Some r \<Longrightarrow> cs_settled (child_step s e) = Some r"
  by (cases "(s, e)" rule: child_step.cases) (simp_all add: settle_once_def)

lemma child_steps_settled: "cs_settled s = Some r \<Longrightarrow> cs_settled (foldl child_step s events) = Some r"
  by (induction events arbitrary: s) (simp_all add: child_step_settled)

lemma child_steps_quiet:
  "\<not> cs_timer s \<Longrightarrow> \<not> cs_listening s \<Longrightarrow> cs_kills (foldl child_step s events) = cs_kills s"
proof (induction events arbitrary: s)
  case (Cons e events)
  then have "\<not> cs_timer (child_step s e)" "\<not> cs_listening (child_step s e)" "cs_kills (child_step s e) = cs_kills s"
    by (cases "(s, e)" rule: child_step.cases; simp add: settle_once_def)+
  with Cons.IH [of "child_step s e"] show ?case by simp
qed simp

text \<open>The promise of \<open>nodeSpawn\<close> settles at the latest when the child closes, once, and a closed child is not killed.\<close>

lemma closed_child_settled:
  "\<exists>r. cs_settled (node_spawn request signal (events @ [Closed code] @ later)) = Some r
     \<and> (cs_settled (node_spawn request signal events) = None \<longrightarrow>
          r = Inr \<lparr>px_stdout = cs_stdout (node_spawn request signal events), px_stderr = cs_stderr (node_spawn request signal events),
            px_exit_code = code\<rparr>)
     \<and> cs_kills (node_spawn request signal (events @ [Closed code] @ later)) = cs_kills (node_spawn request signal events)"
proof -
  let ?s = "node_spawn request signal events"
  let ?t = "child_step ?s (Closed code)"
  have node: "node_spawn request signal (events @ [Closed code] @ later) = foldl child_step ?t later" by (simp add: node_spawn_def)
  obtain r where r: "cs_settled ?t = Some r" "cs_settled ?s = None \<longrightarrow>
      r = Inr \<lparr>px_stdout = cs_stdout ?s, px_stderr = cs_stderr ?s, px_exit_code = code\<rparr>"
    by (cases "cs_settled ?s") (simp_all add: settle_once_def)
  have "\<not> cs_timer ?t" "\<not> cs_listening ?t" "cs_kills ?t = cs_kills ?s" by (simp_all add: settle_once_def)
  with child_steps_quiet [of ?t later] child_steps_settled [OF r(1), of later] r(2) show ?thesis unfolding node by auto
qed

section \<open>Concrete agents\<close>

definition careful_task :: task_v1 where
  "careful_task = (env_task demo_envelope)\<lparr>prohibited_actions := Some [''rm'']\<rparr>"

definition careful_context :: harness_context where
  "careful_context = \<lparr>hc_run_id = ''r'', hc_task = careful_task, hc_task_json = JObj [], hc_envelope = demo_envelope\<rparr>"

text \<open>Two tools on a counter, and an agent that calls each of them and answers with what the second gave.\<close>

definition counting_tool :: "nat agent_code" where
  "counting_tool args ctx n = Returned (n + 1) (Inr (JNum (int n)))"

definition idle_tool :: "nat agent_code" where
  "idle_tool args ctx n = Returned n (Inr JNull)"

definition eager_agent :: "jsval \<Rightarrow> harness_context \<Rightarrow> nat \<Rightarrow> nat tool_run" where
  "eager_agent inp ctx n = CallsTool n ''rm'' JUndef (\<lambda>_ n. CallsTool n ''count'' inp (\<lambda>v n. Answers n v))"

theorem prohibited_tools_never_run_witness:
  "tool_aware_agent [(''rm'', counting_tool), (''count'', counting_tool)] eager_agent JNull careful_context 5
     = tool_aware_agent [(''rm'', idle_tool), (''count'', counting_tool)] eager_agent JNull careful_context 5
   \<and> counting_tool JNull careful_context 5 \<noteq> idle_tool JNull careful_context 5"
proof
  show "tool_aware_agent [(''rm'', counting_tool), (''count'', counting_tool)] eager_agent JNull careful_context 5
     = tool_aware_agent [(''rm'', idle_tool), (''count'', counting_tool)] eager_agent JNull careful_context 5"
    by (rule prohibited_tools_never_run) (simp_all add: task_prohibitions_def careful_context_def careful_task_def)
  show "counting_tool JNull careful_context 5 \<noteq> idle_tool JNull careful_context 5"
    by (simp add: counting_tool_def idle_tool_def)
qed

lemma eager_run:
  "invoke_once (run_hooks []) (bound_adapter ''r'' careful_task (JObj []) (tool_aware_agent [(''rm'', counting_tool), (''count'', counting_tool)] eager_agent))
      JNull 5 demo_envelope
    = (Inr \<lparr>res_status = Succeeded, res_output = JNum 5, res_error = None, res_tool_calls = Some [''count''], res_tokens = None\<rparr>,
       [''count''], 6, demo_envelope)"
proof -
  have permitted: "permitted_tool [(''rm'', counting_tool), (''count'', counting_tool)] ctx ''rm'' = Inl (HarnessError ''tool is prohibited by task policy: rm'')"
      "permitted_tool [(''rm'', counting_tool), (''count'', counting_tool)] ctx ''count'' = Inr counting_tool"
      if "hc_task ctx = careful_task" for ctx
    using that by (simp_all add: permitted_tool_def task_prohibitions_def careful_task_def)
  show ?thesis
    by (simp add: invoke_once_def run_hooks_def bound_adapter_def tool_aware_agent_def eager_agent_def permitted counting_tool_def
        args_or_null_def append_calls_def invocation_of_def read_invocation_def normalize_invocation_def wrap_output_def js_get_def
        status_of_def)
qed

theorem tool_calls_audited_witness:
  "\<exists>calls. subseq [''count''] calls \<and> (\<forall>tool \<in> set calls. tool \<noteq> ''rm'')"
proof -
  have "quiet_tools [(''rm'', counting_tool), (''count'', counting_tool)]"
    by (simp add: quiet_tools_def counting_tool_def)
  moreover have "\<forall>inp ctx w. quiet_agent (eager_agent inp ctx w)" by (simp add: eager_agent_def)
  ultimately show ?thesis using tool_calls_audited [OF _ _ eager_run] by (auto simp: careful_task_def)
qed

end
