(* ===== verification/Mcp.thy ===== *)
theory Mcp
  imports Adapters Harness_Receipts
begin

text \<open>
  The tool and resource surface of the Model Context Protocol (\<open>adapters/mcp.ts\<close>): the bridge with
  its three tools and those of the caller, the resources, and the JSON-RPC requests it answers. A tool
  handler and a resource reader are code of the host on the world \<open>'w\<close>.
\<close>

section \<open>JSON.parse after JSON.stringify\<close>

fun json_clean :: "jsval \<Rightarrow> jsval" where
  "json_clean JUndef = JNull"
| "json_clean (JArr xs) = JArr (map json_clean xs)"
| "json_clean (JObj es) = JObj (map (\<lambda>e. (fst e, json_clean (snd e))) (filter (\<lambda>e. snd e \<noteq> JUndef) es))"
| "json_clean v = v"

lemma stringify_json_clean: "stringify_output (json_clean v) \<noteq> None"
  by (cases v) simp_all

section \<open>The bridge\<close>

text \<open>The context of a run with its envelope as JSON, in the order of the object's members.\<close>

record mcp_context = harness_context +
  hc_envelope_json :: jsval

record mcp_tool =
  mt_name :: string
  mt_description :: string
  mt_schema :: jsval

record mcp_resource =
  mr_uri :: string
  mr_title :: string

type_synonym 'w mcp_handler = "jsval \<Rightarrow> mcp_context option \<Rightarrow> 'w \<Rightarrow> jsval result \<times> 'w"
type_synonym 'w mcp_reader = "'w \<Rightarrow> jsval result \<times> 'w"

datatype 'w resource_value = Fixed jsval | Computed "'w mcp_reader"

record 'w mcp_options =
  mo_ctx :: "mcp_context option"
  mo_retrieve :: "'w mcp_handler option"
  mo_resolve_skills :: "'w mcp_handler option"
  mo_evaluate :: "'w mcp_handler option"
  mo_resources :: "(string, 'w resource_value) js_map"
  mo_extra_tools :: "mcp_tool list"
  mo_extra_handlers :: "(string, 'w mcp_handler) js_map"
  mo_server_name :: "string option"
  mo_server_version :: "string option"

record 'w mcp_server =
  ms_ctx :: "mcp_context option"
  ms_tools :: "(string, mcp_tool \<times> 'w mcp_handler) js_map"
  ms_readers :: "(string, 'w mcp_reader) js_map"
  ms_resources :: "mcp_resource list"
  ms_name :: string
  ms_version :: string

definition query_schema :: "string \<Rightarrow> jsval" where
  "query_schema description = JObj [(''type'', JStr ''object''),
     (''properties'', JObj [(''query'', JObj [(''type'', JStr ''string''), (''description'', JStr description)])])]"

definition retrieve_schema :: jsval where
  "retrieve_schema = query_schema ''Lexical query over compiled evidence''"

definition skills_schema :: jsval where
  "skills_schema = query_schema ''Optional filter over selected skills''"

definition evaluate_schema :: jsval where
  "evaluate_schema = JObj [(''type'', JStr ''object''), (''required'', JArr [JStr ''output'']),
     (''properties'', JObj [
        (''output'', JObj [(''description'', JStr ''Proposed agent output to score against the frozen task'')]),
        (''status'', JObj [(''type'', JStr ''string''),
           (''enum'', JArr [JStr ''succeeded'', JStr ''partial'', JStr ''failed'', JStr ''suspended''])]),
        (''toolCalls'', JObj [(''type'', JStr ''array''), (''items'', JObj [(''type'', JStr ''string'')])])])]"

text \<open>\<open>record(v)\<close>: the members of an object, none for anything else.\<close>

fun record_of :: "jsval \<Rightarrow> (string \<times> jsval) list" where
  "record_of (JObj es) = es"
| "record_of _ = []"

definition mcp_fail :: "string \<Rightarrow> 'a result" where
  "mcp_fail message = Inl (HarnessError message)"

definition with_context :: "string \<Rightarrow> (jsval \<Rightarrow> mcp_context \<Rightarrow> jsval result) \<Rightarrow> 'w mcp_handler" where
  "with_context name f args ctx w =
     (case ctx of None \<Rightarrow> mcp_fail (name @ '' requires a harness context'') | Some c \<Rightarrow> f args c, w)"

definition matching_items :: "string \<Rightarrow> jsval list \<Rightarrow> jsval list result" where
  "matching_items needle = filter_res (\<lambda>item. output_contains (stringify_output item) needle)"

definition default_retrieve :: "'w mcp_handler" where
  "default_retrieve = with_context ''knolo.retrieve'' (\<lambda>args c.
     let query = (case js_get (record_of args) ''query'' of JStr q \<Rightarrow> q | _ \<Rightarrow> objective (hc_task c));
         evidence = env_evidence (hc_envelope c)
     in bind_res (matching_items query evidence) (\<lambda>found.
        Inr (JObj [(''query'', JStr query), (''evidence'', JArr (if found \<noteq> [] then found else evidence))])))"

definition default_resolve_skills :: "'w mcp_handler" where
  "default_resolve_skills = with_context ''knolo.resolve_skills'' (\<lambda>args c.
     let query = (case js_get (record_of args) ''query'' of JStr q \<Rightarrow> q | _ \<Rightarrow> []); skills = env_skills (hc_envelope c)
     in bind_res (if query \<noteq> [] then matching_items query skills else Inr skills) (\<lambda>found.
        Inr (JObj [(''skills'', JArr found)])))"

definition parse_status :: "jsval \<Rightarrow> invocation_status" where
  "parse_status v = (case status_of v of Some s \<Rightarrow> s | None \<Rightarrow> Succeeded)"

definition default_evaluate :: "'w mcp_handler" where
  "default_evaluate = with_context ''knolo.evaluate'' (\<lambda>args c.
     let body = record_of args in
     if \<not> has_member body ''output'' then mcp_fail ''invalid params: knolo.evaluate requires output''
     else bind_res (evaluate_invocation (hc_task c) (parse_status (js_get body ''status'')) (js_get body ''output'')
            (case js_get body ''toolCalls'' of JArr vs \<Rightarrow> map js_to_string vs | _ \<Rightarrow> [])) (\<lambda>receipt.
        Inr (evaluation_json receipt)))"

definition or_handler :: "'w mcp_handler option \<Rightarrow> 'w mcp_handler \<Rightarrow> 'w mcp_handler" where
  "or_handler given fallback = (case given of Some h \<Rightarrow> h | None \<Rightarrow> fallback)"

definition register_tool :: "string \<Rightarrow> string \<Rightarrow> jsval \<Rightarrow> 'w mcp_handler
    \<Rightarrow> (string, mcp_tool \<times> 'w mcp_handler) js_map \<Rightarrow> (string, mcp_tool \<times> 'w mcp_handler) js_map" where
  "register_tool name description schema handler tools =
     map_put name (\<lparr>mt_name = name, mt_description = description, mt_schema = schema\<rparr>, handler) tools"

definition own_tools :: "'w mcp_options \<Rightarrow> (string, mcp_tool \<times> 'w mcp_handler) js_map" where
  "own_tools opts =
     register_tool ''knolo.evaluate'' ''Run deterministic Knolo evaluation against a proposed output.'' evaluate_schema
       (or_handler (mo_evaluate opts) default_evaluate)
     (register_tool ''knolo.resolve_skills'' ''Return selected Knolo skills for the current task.'' skills_schema
       (or_handler (mo_resolve_skills opts) default_resolve_skills)
     (register_tool ''knolo.retrieve'' ''Retrieve compiled Knolo evidence for the current task.'' retrieve_schema
       (or_handler (mo_retrieve opts) default_retrieve) []))"

fun add_extra_tools :: "(string, 'w mcp_handler) js_map \<Rightarrow> mcp_tool list \<Rightarrow> (string, mcp_tool \<times> 'w mcp_handler) js_map
    \<Rightarrow> (string, mcp_tool \<times> 'w mcp_handler) js_map result" where
  "add_extra_tools handlers [] tools = Inr tools"
| "add_extra_tools handlers (extra # rest) tools =
     (case map_of handlers (mt_name extra) of
        None \<Rightarrow> mcp_fail (''mcp extra tool is missing a handler: '' @ mt_name extra)
      | Some handler \<Rightarrow>
          if map_of tools (mt_name extra) \<noteq> None then mcp_fail (''mcp tool is already registered: '' @ mt_name extra)
          else add_extra_tools handlers rest (map_put (mt_name extra) (extra, handler) tools))"

fun check_extra_handlers :: "(string, 'w mcp_handler) js_map \<Rightarrow> (string, mcp_tool \<times> 'w mcp_handler) js_map \<Rightarrow> unit result" where
  "check_extra_handlers [] tools = Inr ()"
| "check_extra_handlers ((name, handler) # rest) tools =
     (if map_of tools name \<noteq> None then check_extra_handlers rest tools
      else mcp_fail (''mcp extra handler has no tool definition: '' @ name))"

definition fixed_reader :: "jsval \<Rightarrow> 'w mcp_reader" where
  "fixed_reader v w = (Inr v, w)"

definition resource_reader :: "'w resource_value \<Rightarrow> 'w mcp_reader" where
  "resource_reader v = (case v of Fixed j \<Rightarrow> fixed_reader j | Computed f \<Rightarrow> f)"

definition resource_readers :: "'w mcp_options \<Rightarrow> (string, 'w mcp_reader) js_map" where
  "resource_readers opts =
     foldl (\<lambda>m e. map_put (fst e) (resource_reader (snd e)) m)
       [(''knolo://task'', fixed_reader (json_clean (case mo_ctx opts of Some c \<Rightarrow> hc_task_json c | None \<Rightarrow> JNull))),
        (''knolo://context'', fixed_reader (json_clean (case mo_ctx opts of Some c \<Rightarrow> hc_envelope_json c | None \<Rightarrow> JNull))),
        (''knolo://skills'', fixed_reader (json_clean (JArr (case mo_ctx opts of Some c \<Rightarrow> env_skills (hc_envelope c) | None \<Rightarrow> []))))]
       (mo_resources opts)"

definition resource_of :: "string \<Rightarrow> mcp_resource" where
  "resource_of uri = \<lparr>mr_uri = uri, mr_title = (if js_starts_with uri ''knolo://'' then drop 8 uri else uri)\<rparr>"

definition knolo_mcp_bridge :: "'w mcp_options \<Rightarrow> 'w mcp_server result" where
  "knolo_mcp_bridge opts =
     bind_res (add_extra_tools (mo_extra_handlers opts) (mo_extra_tools opts) (own_tools opts)) (\<lambda>tools.
     bind_res (check_extra_handlers (mo_extra_handlers opts) tools) (\<lambda>_.
     let readers = resource_readers opts in
     Inr \<lparr>ms_ctx = mo_ctx opts, ms_tools = tools, ms_readers = readers,
          ms_resources = map resource_of (js_sort code_unit_order (map fst readers)),
          ms_name = (case mo_server_name opts of Some n \<Rightarrow> n | None \<Rightarrow> ''knolo-mcp-bridge''),
          ms_version = (case mo_server_version opts of Some v \<Rightarrow> v | None \<Rightarrow> ''1'')\<rparr>))"

section \<open>Calling tools and reading resources\<close>

record mcp_call_result =
  mc_text :: string
  mc_is_error :: bool
  mc_structured :: jsval

definition error_result :: "string \<Rightarrow> mcp_call_result" where
  "error_result message = \<lparr>mc_text = message, mc_is_error = True, mc_structured = JObj [(''error'', JStr message)]\<rparr>"

definition text_result :: "jsval \<Rightarrow> mcp_call_result" where
  "text_result v = \<lparr>mc_text = (case stringify_output v of Some t \<Rightarrow> t | None \<Rightarrow> []), mc_is_error = False, mc_structured = v\<rparr>"

definition list_tools :: "'w mcp_server \<Rightarrow> mcp_tool list" where
  "list_tools server = map (fst \<circ> snd) (ms_tools server)"

text \<open>An argument that is left out is \<open>null\<close>; a call without a context of its own has the bridge's.\<close>

definition call_tool :: "'w mcp_server \<Rightarrow> string \<Rightarrow> jsval \<Rightarrow> mcp_context option \<Rightarrow> 'w \<Rightarrow> mcp_call_result \<times> 'w" where
  "call_tool server name args ctx w =
     (let bound = (case ctx of Some c \<Rightarrow> Some c | None \<Rightarrow> ms_ctx server) in
      if name \<in> set (case bound of Some c \<Rightarrow> prohibited_of (hc_task c) | None \<Rightarrow> [])
      then (error_result (''tool is prohibited by task policy: '' @ name), w)
      else case map_of (ms_tools server) name of
          None \<Rightarrow> (error_result (''unknown mcp tool: '' @ name), w)
        | Some (definition, handler) \<Rightarrow>
            (case handler (args_or_null args) bound w of
               (Inl e, w) \<Rightarrow> (error_result (error_message e), w)
             | (Inr v, w) \<Rightarrow> (text_result (json_clean v), w)))"

definition read_resource :: "'w mcp_server \<Rightarrow> string \<Rightarrow> 'w \<Rightarrow> jsval result \<times> 'w" where
  "read_resource server uri w =
     (case map_of (ms_readers server) uri of
        None \<Rightarrow> (mcp_fail (''unknown mcp resource: '' @ uri), w)
      | Some reader \<Rightarrow> run_then (reader w) (\<lambda>v w. (Inr (json_clean v), w)))"

section \<open>JSON-RPC\<close>

datatype rpc_input = RpcText string | RpcObject jsval

record rpc_request =
  rq_id :: jsval
  rq_call :: string
  rq_params :: jsval

datatype rpc_response = RpcSuccess jsval jsval | RpcError jsval int string

fun rpc_id :: "rpc_response \<Rightarrow> jsval" where
  "rpc_id (RpcSuccess i v) = i"
| "rpc_id (RpcError i code message) = i"

definition parse_request :: "(string \<Rightarrow> jsval option) \<Rightarrow> rpc_input \<Rightarrow> rpc_request option" where
  "parse_request parse request =
     (case (case request of RpcText text \<Rightarrow> parse text | RpcObject v \<Rightarrow> Some v) of
        Some (JObj es) \<Rightarrow>
          (case js_get es ''method'' of
             JStr m \<Rightarrow> Some \<lparr>rq_id = js_get es ''id'', rq_call = m, rq_params = js_get es ''params''\<rparr>
           | _ \<Rightarrow> None)
      | _ \<Rightarrow> None)"

definition tool_json :: "mcp_tool \<Rightarrow> jsval" where
  "tool_json t = JObj [(''name'', JStr (mt_name t)), (''description'', JStr (mt_description t)), (''inputSchema'', mt_schema t)]"

definition resource_json :: "mcp_resource \<Rightarrow> jsval" where
  "resource_json r = JObj [(''uri'', JStr (mr_uri r)), (''name'', JStr (mr_title r)), (''mimeType'', JStr ''application/json'')]"

definition call_result_json :: "mcp_call_result \<Rightarrow> jsval" where
  "call_result_json r = JObj ([(''content'', JArr [JObj [(''type'', JStr ''text''), (''text'', JStr (mc_text r))]])]
     @ (if mc_is_error r then [(''isError'', JBool True)] else []) @ [(''structured'', mc_structured r)])"

definition nonempty_member :: "jsval \<Rightarrow> string \<Rightarrow> string \<Rightarrow> string result" where
  "nonempty_member params key message =
     (case js_get (record_of params) key of JStr s \<Rightarrow> if s = [] then mcp_fail message else Inr s | _ \<Rightarrow> mcp_fail message)"

definition initialize_result :: "'w mcp_server \<Rightarrow> jsval" where
  "initialize_result server = JObj [(''protocolVersion'', JStr ''2024-11-05''),
     (''capabilities'', JObj [(''tools'', JObj [(''listChanged'', JBool False)]), (''resources'', JObj [(''listChanged'', JBool False)])]),
     (''serverInfo'', JObj [(''name'', JStr (ms_name server)), (''version'', JStr (ms_version server))])]"

definition dispatch_call :: "'w mcp_server \<Rightarrow> jsval \<Rightarrow> 'w \<Rightarrow> jsval result \<times> 'w" where
  "dispatch_call server params w =
     (case nonempty_member params ''name'' ''invalid params: tools/call requires name'' of
        Inl e \<Rightarrow> (Inl e, w)
      | Inr name \<Rightarrow>
          (case call_tool server name
              (if has_member (record_of params) ''arguments'' then js_get (record_of params) ''arguments'' else JNull) None w of
             (r, w) \<Rightarrow> (Inr (call_result_json r), w)))"

definition dispatch_read :: "'w mcp_server \<Rightarrow> jsval \<Rightarrow> 'w \<Rightarrow> jsval result \<times> 'w" where
  "dispatch_read server params w =
     (case nonempty_member params ''uri'' ''invalid params: resources/read requires uri'' of
        Inl e \<Rightarrow> (Inl e, w)
      | Inr uri \<Rightarrow> run_then (read_resource server uri w) (\<lambda>v w.
          (Inr (JObj [(''contents'', JArr [JObj [(''uri'', JStr uri), (''mimeType'', JStr ''application/json''),
             (''text'', JStr (case stringify_output v of Some t \<Rightarrow> t | None \<Rightarrow> []))]])]), w)))"

definition dispatch_rpc :: "'w mcp_server \<Rightarrow> string \<Rightarrow> jsval \<Rightarrow> 'w \<Rightarrow> jsval result \<times> 'w" where
  "dispatch_rpc server call params w =
     (if call = ''initialize'' then (Inr (initialize_result server), w)
      else if call = ''notifications/initialized'' \<or> call = ''ping'' then (Inr (JObj []), w)
      else if call = ''tools/list'' then (Inr (JObj [(''tools'', JArr (map tool_json (list_tools server)))]), w)
      else if call = ''tools/call'' then dispatch_call server params w
      else if call = ''resources/list'' then (Inr (JObj [(''resources'', JArr (map resource_json (ms_resources server)))]), w)
      else if call = ''resources/read'' then dispatch_read server params w
      else (mcp_fail (''method not found: '' @ call), w))"

definition error_code :: "string \<Rightarrow> int" where
  "error_code message = (if js_starts_with message ''method not found'' then - 32601
     else if js_starts_with message ''invalid params'' then - 32602 else - 32603)"

definition handle_mcp_request :: "(string \<Rightarrow> jsval option) \<Rightarrow> 'w mcp_server \<Rightarrow> rpc_input \<Rightarrow> 'w \<Rightarrow> rpc_response option \<times> 'w" where
  "handle_mcp_request parse server request w =
     (case parse_request parse request of
        None \<Rightarrow> (Some (RpcError JNull (- 32600) ''invalid request''), w)
      | Some r \<Rightarrow>
          (case dispatch_rpc server (rq_call r) (rq_params r) w of
             (answer, w) \<Rightarrow>
               (if rq_id r = JUndef then None
                else case answer of
                    Inr v \<Rightarrow> Some (RpcSuccess (rq_id r) v)
                  | Inl e \<Rightarrow> Some (RpcError (rq_id r) (error_code (error_message e)) (error_message e)), w)))"

section \<open>The tools of a bridge\<close>

definition tools_named :: "(string, mcp_tool \<times> 'w mcp_handler) js_map \<Rightarrow> bool" where
  "tools_named tools \<longleftrightarrow> distinct (map fst tools) \<and> (\<forall>(name, t, h) \<in> set tools. mt_name t = name)"

lemma tools_named_put: "tools_named tools \<Longrightarrow> mt_name t = name \<Longrightarrow> tools_named (map_put name (t, h) tools)"
  using set_map_put_subset [of name "(t, h)" tools] by (auto simp: tools_named_def)

lemma own_tools_named: "tools_named (own_tools opts)"
  unfolding own_tools_def register_tool_def
  by (intro tools_named_put) (simp_all add: tools_named_def)

lemma add_extra_tools_named: "add_extra_tools handlers extras tools = Inr tools' \<Longrightarrow> tools_named tools \<Longrightarrow> tools_named tools'"
  by (induction handlers extras tools rule: add_extra_tools.induct)
     (auto simp: mcp_fail_def tools_named_put split: option.splits if_splits)

lemma check_extra_handlers_Inr:
  "check_extra_handlers handlers tools = Inr u \<longleftrightarrow> (\<forall>name \<in> fst ` set handlers. map_of tools name \<noteq> None)"
  by (induction handlers tools rule: check_extra_handlers.induct) (auto simp: mcp_fail_def)

text \<open>A bridge lists every tool once under its name, and every handler it was given belongs to a tool.\<close>

lemma bridge_tools:
  assumes "knolo_mcp_bridge opts = Inr server"
  shows "distinct (map mt_name (list_tools server)) \<and> fst ` set (mo_extra_handlers opts) \<subseteq> set (map mt_name (list_tools server))
    \<and> ms_ctx server = mo_ctx opts"
proof -
  from assms obtain tools where t: "add_extra_tools (mo_extra_handlers opts) (mo_extra_tools opts) (own_tools opts) = Inr tools"
    "check_extra_handlers (mo_extra_handlers opts) tools = Inr ()" "ms_tools server = tools" "ms_ctx server = mo_ctx opts"
    by (auto simp: knolo_mcp_bridge_def bind_res_eq_Inr Let_def)
  from add_extra_tools_named [OF t(1) own_tools_named] have named: "tools_named tools" .
  then have "map mt_name (list_tools server) = map fst tools"
    unfolding list_tools_def t(3) by (auto simp: tools_named_def)
  with named t(2,4) show ?thesis
    by (auto simp: tools_named_def check_extra_handlers_Inr map_of_eq_None_iff image_image subset_iff)
qed

section \<open>Properties\<close>

definition mcp_methods :: "string list" where
  "mcp_methods = [''initialize'', ''notifications/initialized'', ''ping'', ''tools/list'', ''tools/call'', ''resources/list'', ''resources/read'']"

lemma error_code_cases: "error_code message \<in> {- 32601, - 32602, - 32603}"
  by (simp add: error_code_def)

lemma dispatch_unknown:
  "call \<notin> set mcp_methods \<Longrightarrow> dispatch_rpc server call params w = (mcp_fail (''method not found: '' @ call), w)"
  by (simp add: dispatch_rpc_def mcp_methods_def)

lemma dispatch_call_Inl:
  "dispatch_call server params w = (Inl e, w') \<Longrightarrow> e = HarnessError ''invalid params: tools/call requires name'' \<and> w' = w"
  by (auto simp: dispatch_call_def nonempty_member_def mcp_fail_def split: sum.splits prod.splits jsval.splits if_splits)

lemma dispatch_known:
  assumes "call \<in> set mcp_methods" "call \<noteq> ''resources/read''" "dispatch_rpc server call params w = (Inl e, w')"
  shows "call = ''tools/call'' \<and> e = HarnessError ''invalid params: tools/call requires name'' \<and> w' = w"
  using assms by (auto simp: dispatch_rpc_def mcp_methods_def dest: dispatch_call_Inl split: if_splits)

lemma error_codes:
  "error_code (''method not found: '' @ call) = - 32601" "error_code ''invalid params: tools/call requires name'' = - 32602"
  by (simp_all add: error_code_def js_starts_with_def)

text \<open>
  C37. How the bridge answers JSON-RPC requests. A text or value that is no request gets the error -32600
  and changes nothing; a request without an id gets no answer; every other request gets one answer, with
  its own id, whose error code is one of the three of the bridge. An unknown method gets -32601 and
  changes nothing. A known method other than \<open>resources/read\<close> succeeds, whatever the tools of the
  host do, except for a tool call without the name of a tool, which gets -32602 and changes nothing.
\<close>

theorem mcp_requests_answered:
  "case parse_request parse request of
     None \<Rightarrow> handle_mcp_request parse server request w = (Some (RpcError JNull (- 32600) ''invalid request''), w)
   | Some r \<Rightarrow> (case handle_mcp_request parse server request w of
        (None, w') \<Rightarrow> rq_id r = JUndef
      | (Some answer, w') \<Rightarrow> rq_id r \<noteq> JUndef \<and> rpc_id answer = rq_id r
          \<and> (\<forall>i code m. answer = RpcError i code m \<longrightarrow> code \<in> {- 32601, - 32602, - 32603})
          \<and> (rq_call r \<notin> set mcp_methods \<longrightarrow> answer = RpcError (rq_id r) (- 32601) (''method not found: '' @ rq_call r) \<and> w' = w)
          \<and> (rq_call r \<in> set mcp_methods \<and> rq_call r \<noteq> ''resources/read'' \<longrightarrow>
               (\<exists>v. answer = RpcSuccess (rq_id r) v)
               \<or> rq_call r = ''tools/call'' \<and> w' = w
                   \<and> answer = RpcError (rq_id r) (- 32602) ''invalid params: tools/call requires name''))"
proof (cases "parse_request parse request")
  case None
  then show ?thesis by (simp add: handle_mcp_request_def)
next
  case (Some r)
  obtain res w' where d: "dispatch_rpc server (rq_call r) (rq_params r) w = (res, w')" by (metis surj_pair)
  show ?thesis
  proof (cases "rq_id r = JUndef")
    case True
    with Some d show ?thesis by (simp add: handle_mcp_request_def)
  next
    case False
    let ?answer = "case res of Inr v \<Rightarrow> RpcSuccess (rq_id r) v | Inl e \<Rightarrow> RpcError (rq_id r) (error_code (error_message e)) (error_message e)"
    have handle: "handle_mcp_request parse server request w = (Some ?answer, w')"
      using Some d False by (cases res) (simp_all add: handle_mcp_request_def)
    have id: "rpc_id ?answer = rq_id r" by (cases res) simp_all
    have codes: "?answer = RpcError i code m \<longrightarrow> code \<in> {- 32601, - 32602, - 32603}" for i code m
      using error_code_cases by (cases res) auto
    have unknown: "?answer = RpcError (rq_id r) (- 32601) (''method not found: '' @ rq_call r) \<and> w' = w" if "rq_call r \<notin> set mcp_methods"
    proof -
      have "res = mcp_fail (''method not found: '' @ rq_call r)" "w' = w"
        using d dispatch_unknown [OF that, of server "rq_params r" w] by simp_all
      then show ?thesis by (simp only: mcp_fail_def sum.case error_message.simps error_codes simp_thms)
    qed
    have known: "(\<exists>v. ?answer = RpcSuccess (rq_id r) v)
        \<or> rq_call r = ''tools/call'' \<and> w' = w \<and> ?answer = RpcError (rq_id r) (- 32602) ''invalid params: tools/call requires name''"
      if "rq_call r \<in> set mcp_methods" "rq_call r \<noteq> ''resources/read''"
    proof (cases res)
      case (Inl e)
      from dispatch_known [OF that d [unfolded Inl]] Inl show ?thesis by (simp add: error_codes)
    qed simp
    show ?thesis unfolding Some handle using False id codes unknown known by simp
  qed
qed

text \<open>A tool the task prohibits is not called: the world is left alone and the answer says why.\<close>

lemma mcp_prohibited_tool:
  assumes "parse_request parse request = Some r" "rq_call r = ''tools/call''" "js_get (record_of (rq_params r)) ''name'' = JStr name" "name \<noteq> []"
    and "ms_ctx server = Some c" "name \<in> set (prohibited_of (hc_task c))"
  shows "handle_mcp_request parse server request w
    = ((if rq_id r = JUndef then None
        else Some (RpcSuccess (rq_id r) (call_result_json (error_result (''tool is prohibited by task policy: '' @ name))))), w)"
  using assms by (simp add: handle_mcp_request_def dispatch_rpc_def dispatch_call_def nonempty_member_def call_tool_def Let_def)

section \<open>A concrete bridge\<close>

definition demo_mcp_options :: "nat mcp_options" where
  "demo_mcp_options = \<lparr>mo_ctx = None, mo_retrieve = None, mo_resolve_skills = None,
     mo_evaluate = Some (\<lambda>args ctx n. (Inr (JNum (int n)), n + 1)), mo_resources = [], mo_extra_tools = [], mo_extra_handlers = [],
     mo_server_name = None, mo_server_version = None\<rparr>"

definition call_evaluate :: rpc_input where
  "call_evaluate = RpcObject (JObj [(''id'', JNum 7), (''method'', JStr ''tools/call''),
     (''params'', JObj [(''name'', JStr ''knolo.evaluate'')])])"

lemma demo_parse: "parse_request parse call_evaluate = Some \<lparr>rq_id = JNum 7, rq_call = ''tools/call'', rq_params = JObj [(''name'', JStr ''knolo.evaluate'')]\<rparr>"
  by (simp add: parse_request_def call_evaluate_def js_get_def)

theorem mcp_requests_answered_witness:
  "\<exists>server v n. knolo_mcp_bridge demo_mcp_options = Inr server
     \<and> handle_mcp_request (\<lambda>_. None) server call_evaluate 3 = (Some (RpcSuccess (JNum 7) v), n)"
proof -
  obtain server where s: "knolo_mcp_bridge demo_mcp_options = Inr server"
    by (auto simp: knolo_mcp_bridge_def demo_mcp_options_def Let_def)
  obtain answer n where h: "handle_mcp_request (\<lambda>_. None) server call_evaluate 3 = (answer, n)" by (metis surj_pair)
  from mcp_requests_answered [where parse = "\<lambda>_. None" and request = call_evaluate and server = server and w = 3] h
  have "\<exists>a. answer = Some a \<and> rpc_id a = JNum 7 \<and> ((\<exists>v. a = RpcSuccess (JNum 7) v) \<or> a = RpcError (JNum 7) (- 32602) ''invalid params: tools/call requires name'')"
    by (auto simp: demo_parse mcp_methods_def split: option.splits)
  moreover have "answer \<noteq> Some (RpcError (JNum 7) (- 32602) ''invalid params: tools/call requires name'')"
    using h by (auto simp: handle_mcp_request_def demo_parse dispatch_rpc_def dispatch_call_def nonempty_member_def js_get_def
        split: prod.splits)
  ultimately show ?thesis using s h by blast
qed

end
