(* ===== verification/Wasm_Engine.thy ===== *)
theory Wasm_Engine
  imports Graph_Replay
begin

text \<open>
  The client of the WASM engine (\<open>engine/wasm/index.ts\<close>) with the command and response
  envelopes of \<open>contracts/index.ts\<close>. The engine behind the adapter is not part of the sources: it is a
  function from the text of a request to a text on the world \<open>'w\<close>, and \<open>wa_read\<close> is
  \<open>JSON.parse\<close> of its answer, read at the type \<open>EngineResponse\<close>. One turn of the
  \<open>while (true)\<close> is \<open>drive_step\<close>. The adapter decides how often the loop turns, so the loop is a
  partial function: \<open>None\<close> is a run that never returns.
\<close>

section \<open>Envelopes\<close>

datatype failure = DefinitionFailure string | UnsupportedFailure string string | ExecutionFailure string | CancelledFailure string

fun engine_failure_text :: "failure \<Rightarrow> string" where
  "engine_failure_text (DefinitionFailure m) = ''definition: '' @ m"
| "engine_failure_text (UnsupportedFailure engine capability) = ''unsupported: '' @ capability"
| "engine_failure_text (ExecutionFailure m) = ''execution: '' @ m"
| "engine_failure_text (CancelledFailure m) = ''cancelled: '' @ m"

datatype engine_command =
    RunCommand string jsval
  | ResumeCommand checkpoint jsval
  | ContinueCommand jsval node_execution

datatype engine_response =
    EventResponse execution_event
  | DispatchResponse string jsval int jsval
  | ReportResponse execution_report
  | InspectionResponse inspection
  | ErrorResponse failure

section \<open>Commands as JSON\<close>

definition schema_json :: "state_schema \<Rightarrow> jsval" where
  "schema_json s = JObj [(''version'', JNum 1), (''id'', JStr (ss_id s)),
     (''paths'', JObj (map (\<lambda>(p, t). (p, JStr (value_type_name t))) (ss_paths s))), (''required'', strs_json (ss_required s))]"

definition checkpoint_json :: "checkpoint \<Rightarrow> jsval" where
  "checkpoint_json c = JObj [(''version'', JNum 1), (''execution_id'', JStr (cp_execution_id c)),
     (''graph_hash'', JStr (cp_graph_hash c)), (''pack_hash'', JStr (cp_pack_hash c)), (''policy_hash'', JStr (cp_policy_hash c)),
     (''node_implementation_hash'', JStr (cp_node_implementation_hash c)), (''contract_hash'', JStr (cp_contract_hash c)),
     (''state'', JObj [(''schema_id'', JStr (sn_schema_id (cp_state c))), (''revision'', JNum (sn_revision (cp_state c))),
        (''value'', sn_value (cp_state c)), (''provenance'', provenance_json (sn_provenance (cp_state c)))]),
     (''pending_node'', JStr (cp_pending_node c)), (''event_cursor'', JNum (cp_event_cursor c)), (''steps'', JNum (cp_steps c)),
     (''tokens'', JNum (cp_tokens c)), (''cost_micros'', JNum (cp_cost_micros c))]"

definition patch_json :: "state_update option \<Rightarrow> (string \<times> jsval) list" where
  "patch_json p = (case p of Some (Update v) \<Rightarrow> [(''patch'', v)] | _ \<Rightarrow> [])"

fun outcome_json :: "node_outcome \<Rightarrow> jsval" where
  "outcome_json (OContinue p) = JObj ((''type'', JStr ''continue'') # patch_json p)"
| "outcome_json (ORoute r p) = JObj ([(''type'', JStr ''route''), (''route'', JStr r)] @ patch_json p)"
| "outcome_json (OSuspend r p) = JObj ([(''type'', JStr ''suspend''), (''reason'', JStr r)] @ patch_json p)"
| "outcome_json (OTerminate v p) = JObj ([(''type'', JStr ''terminate''), (''result'', v)] @ patch_json p)"
| "outcome_json (OFail e retryable) = JObj [(''type'', JStr ''fail''), (''error'', JStr e), (''retryable'', JBool retryable)]"

definition optional_int :: "int option \<Rightarrow> jsval" where
  "optional_int n = (case n of Some i \<Rightarrow> JNum i | None \<Rightarrow> JUndef)"

definition execution_json :: "node_execution \<Rightarrow> jsval" where
  "execution_json e = JObj [(''outcome'', outcome_json (ne_outcome e)), (''tokens'', optional_int (ne_tokens e)),
     (''cost_micros'', optional_int (ne_cost_micros e))]"

fun command_json :: "engine_command \<Rightarrow> jsval" where
  "command_json (RunCommand i state) = JObj [(''type'', JStr ''run''), (''execution_id'', JStr i), (''state'', state)]"
| "command_json (ResumeCommand c inp) = JObj [(''type'', JStr ''resume''), (''checkpoint'', checkpoint_json c), (''input'', inp)]"
| "command_json (ContinueCommand session e) =
     JObj [(''type'', JStr ''continue''), (''session'', session), (''execution'', execution_json e)]"

definition request_text :: "'w compiled_agent \<Rightarrow> engine_command \<Rightarrow> int \<Rightarrow> string" where
  "request_text agent command now =
     (case json_stringify (JObj [(''version'', JNum 1), (''command'', command_json command),
        (''graph'', graph_json (ad_graph (ca_definition agent))), (''schema'', schema_json (ad_schema (ca_definition agent))),
        (''now_ms'', JNum now)]) of Some s \<Rightarrow> s | None \<Rightarrow> [])"

section \<open>The loop\<close>

record 'w wasm_adapter =
  wa_command :: "string \<Rightarrow> 'w \<Rightarrow> string result \<times> 'w"
  wa_read :: "string \<Rightarrow> engine_response list option"

record 'w wasm_engine =
  we_agent :: "'w compiled_agent"
  we_adapter :: "'w wasm_adapter"
  we_host :: "'w host"
  we_resume_input :: jsval

text \<open>A run ends with a report or an error, after the events it has yielded.\<close>

datatype 'w wasm_result =
    WasmReport execution_report "execution_event list" 'w
  | WasmError js_error "execution_event list" 'w

record 'w drive_state =
  dv_command :: engine_command
  dv_events :: "execution_event list"
  dv_world :: 'w

definition cancelled_report :: execution_report where
  "cancelled_report = \<lparr>rp_status = StCancelled,
     rp_state = \<lparr>sn_schema_id = ''cancelled'', sn_revision = 0, sn_value = JUndef, sn_provenance = None\<rparr>, rp_events = [],
     rp_steps = 0, rp_tokens = 0, rp_cost_micros = 0, rp_snapshots = Some []\<rparr>"

text \<open>\<open>protocolExecution\<close>: a patch that is a function is applied to the state it was dispatched with.\<close>

definition plain_update :: "state_update option \<Rightarrow> jsval \<Rightarrow> state_update option result" where
  "plain_update p state = (case p of Some (Updater f) \<Rightarrow> bind_res (f state) (\<lambda>v. Inr (Some (Update v))) | _ \<Rightarrow> Inr p)"

fun protocol_outcome :: "node_outcome \<Rightarrow> jsval \<Rightarrow> node_outcome result" where
  "protocol_outcome (OContinue p) state = bind_res (plain_update p state) (\<lambda>p. Inr (OContinue p))"
| "protocol_outcome (ORoute r p) state = bind_res (plain_update p state) (\<lambda>p. Inr (ORoute r p))"
| "protocol_outcome (OSuspend r p) state = bind_res (plain_update p state) (\<lambda>p. Inr (OSuspend r p))"
| "protocol_outcome (OTerminate v p) state = bind_res (plain_update p state) (\<lambda>p. Inr (OTerminate v p))"
| "protocol_outcome (OFail e r) state = Inr (OFail e r)"

definition protocol_execution :: "node_execution \<Rightarrow> jsval \<Rightarrow> node_execution result" where
  "protocol_execution e state = bind_res (protocol_outcome (ne_outcome e) state) (\<lambda>out. Inr (e\<lparr>ne_outcome := out\<rparr>))"

text \<open>What a handler throws leaves the generator as it is; its message is kept.\<close>

definition call_handler :: "'w wasm_engine \<Rightarrow> string \<Rightarrow> jsval \<Rightarrow> int \<Rightarrow> 'w \<Rightarrow> node_execution result \<times> 'w" where
  "call_handler engine node state attempt w =
     (case map_of (ad_handlers (ca_definition (we_agent engine))) node of
        None \<Rightarrow> (Inl (DefinitionError (''node '' @ node @ '' has no handler'')), w)
      | Some handler \<Rightarrow>
          (case handler w \<lparr>nc_state = state, nc_attempt = attempt, nc_resume_input = we_resume_input engine\<rparr> of
             (Inl message, w) \<Rightarrow> (Inl (PlainError message), w)
           | (Inr e, w) \<Rightarrow> (protocol_execution e state, w)))"

text \<open>The responses to one command: the report among them and the next command, in that order of preference.\<close>

fun read_responses :: "'w wasm_engine \<Rightarrow> engine_response list \<Rightarrow> execution_report option \<Rightarrow> engine_command option
    \<Rightarrow> execution_event list \<Rightarrow> 'w \<Rightarrow> ('w drive_state, 'w wasm_result) outcome" where
  "read_responses engine [] final following events w =
     (case final of
        Some r \<Rightarrow> Stop (WasmReport (r\<lparr>rp_snapshots := Some (case rp_snapshots r of Some ss \<Rightarrow> ss | None \<Rightarrow> [])\<rparr>) events w)
      | None \<Rightarrow> (case following of
            None \<Rightarrow> Stop (WasmError (DefinitionError ''wasm adapter returned no report'') events w)
          | Some c \<Rightarrow> Next \<lparr>dv_command = c, dv_events = events, dv_world = w\<rparr>))"
| "read_responses engine (response # rest) final following events w =
     (if h_aborted (we_host engine) w then Stop (WasmReport cancelled_report events w)
      else case response of
          EventResponse e \<Rightarrow> read_responses engine rest final following (events @ [e]) w
        | ReportResponse r \<Rightarrow> read_responses engine rest (Some r) following events w
        | ErrorResponse f \<Rightarrow> Stop (WasmError (DefinitionError (engine_failure_text f)) events w)
        | DispatchResponse node state attempt session \<Rightarrow>
            (case call_handler engine node state attempt w of
               (Inl e, w) \<Rightarrow> Stop (WasmError e events w)
             | (Inr x, w) \<Rightarrow> read_responses engine rest final (Some (ContinueCommand session x)) events w)
        | InspectionResponse i \<Rightarrow>
            Stop (WasmError (DefinitionError ''wasm adapter returned inspection during execute/resume'') events w))"

definition drive_step :: "'w wasm_engine \<Rightarrow> 'w drive_state \<Rightarrow> ('w drive_state, 'w wasm_result) outcome" where
  "drive_step engine s =
     (if h_aborted (we_host engine) (dv_world s) then Stop (WasmReport cancelled_report (dv_events s) (dv_world s))
      else case h_now (we_host engine) (dv_world s) of (now, w) \<Rightarrow>
        (case wa_command (we_adapter engine) (request_text (we_agent engine) (dv_command s) now) w of
           (Inl e, w) \<Rightarrow> Stop (WasmError e (dv_events s) w)
         | (Inr raw, w) \<Rightarrow>
             (case wa_read (we_adapter engine) raw of
                None \<Rightarrow> Stop (WasmError (PlainError ''SyntaxError: invalid JSON'') (dv_events s) w)
              | Some responses \<Rightarrow> read_responses engine responses None None (dv_events s) w)))"

partial_function (option) drive :: "'w wasm_engine \<Rightarrow> 'w drive_state \<Rightarrow> 'w wasm_result option" where
  "drive engine s = (case drive_step engine s of Stop r \<Rightarrow> Some r | Next s' \<Rightarrow> drive engine s')"

section \<open>Inspection, execute and resume\<close>

definition make_wasm_engine :: "'w compiled_agent \<Rightarrow> 'w wasm_adapter option \<Rightarrow> 'w host \<Rightarrow> 'w wasm_engine result" where
  "make_wasm_engine agent adapter host =
     (case adapter of
        None \<Rightarrow> Inl (DefinitionError ''wasm engine requires an explicit adapter; no fallback is performed'')
      | Some a \<Rightarrow> Inr \<lparr>we_agent = agent, we_adapter = a, we_host = host, we_resume_input = JUndef\<rparr>)"

definition inspect_wasm :: "'w wasm_engine \<Rightarrow> inspection" where
  "inspect_wasm engine = \<lparr>in_engine = ''wasm'', in_graph = ad_graph (ca_definition (we_agent engine)), in_capabilities = supported,
     in_limitations = [''host node handlers use the versioned continue boundary'',
       ''tools, retrieval, and durable effects stay host-bound'']\<rparr>"

definition start_drive :: "engine_command \<Rightarrow> 'w \<Rightarrow> 'w drive_state" where
  "start_drive command w = \<lparr>dv_command = command, dv_events = [], dv_world = w\<rparr>"

definition wasm_execute :: "'w wasm_engine \<Rightarrow> jsval \<Rightarrow> string option \<Rightarrow> jsval \<Rightarrow> 'w \<Rightarrow> 'w wasm_result option" where
  "wasm_execute engine initial execution_id resume_input w =
     (case (case execution_id of Some i \<Rightarrow> (i, w)
        | None \<Rightarrow> (case h_now (we_host engine) w of (now, w) \<Rightarrow> (''wasm-'' @ dec_int now, w))) of
       (i, w) \<Rightarrow> drive (engine\<lparr>we_resume_input := resume_input\<rparr>) (start_drive (RunCommand i initial) w))"

definition wasm_resume :: "'w wasm_engine \<Rightarrow> checkpoint \<Rightarrow> jsval \<Rightarrow> 'w \<Rightarrow> 'w wasm_result option" where
  "wasm_resume engine cp inp w = drive (engine\<lparr>we_resume_input := inp\<rparr>) (start_drive (ResumeCommand cp inp) w)"

section \<open>When a run returns\<close>

lemma drive_steps: "reaches (drive_step engine) s n t \<Longrightarrow> drive engine s = drive engine t"
proof (induction rule: reaches.induct)
  case (reaches_step s t n u)
  then show ?case by (simp add: drive.simps [of engine s])
qed simp

lemma drive_returns: "reaches (drive_step engine) s n t \<Longrightarrow> drive_step engine t = Stop r \<Longrightarrow> drive engine s = Some r"
  by (simp add: drive_steps) (simp add: drive.simps)

lemma drive_turns:
  assumes "drive engine s = Some r"
  shows "\<exists>n t. reaches (drive_step engine) s n t \<and> drive_step engine t = Stop r"
proof -
  have turn: "\<exists>n t. reaches (drive_step engine) s n t \<and> drive_step engine t = Stop r"
    if ih: "\<And>engine s r. rest engine s = Some r \<Longrightarrow> \<exists>n t. reaches (drive_step engine) s n t \<and> drive_step engine t = Stop r"
      and "(case drive_step engine s of Next s' \<Rightarrow> rest engine s' | Stop r \<Rightarrow> Some r) = Some r"
    for rest :: "'a wasm_engine \<Rightarrow> 'a drive_state \<Rightarrow> 'a wasm_result option" and engine s r
  proof (cases "drive_step engine s")
    case (Next s')
    with that(2) have "rest engine s' = Some r" by simp
    from ih [OF this] obtain n t where "reaches (drive_step engine) s' n t" "drive_step engine t = Stop r" by blast
    with Next show ?thesis by (blast intro: reaches_step)
  next
    case (Stop r')
    with that show ?thesis by (auto intro: reaches_refl)
  qed
  show ?thesis
    by (rule drive.raw_induct [where P = "\<lambda>engine s r. \<exists>n t. reaches (drive_step engine) s n t \<and> drive_step engine t = Stop r", OF turn assms])
qed

text \<open>A run returns exactly when after finitely many commands the adapter's answer ends it, with what that answer gives.\<close>

lemma drive_iff: "drive engine s = Some r \<longleftrightarrow> (\<exists>n t. reaches (drive_step engine) s n t \<and> drive_step engine t = Stop r)"
  using drive_turns drive_returns by metis

end
