(* ===== verification/Agent_Runtime.thy ===== *)
theory Agent_Runtime
  imports Wasm_Engine Adapters
begin

text \<open>
  A loaded agent (\<open>agent/index.ts\<close>) and its adapter for the harness (\<open>adapters/native.ts\<close>):
  a compiled definition bound to the TypeScript engine or to the WASM client. An operation of an agent is
  a function on the world that gives a report or an error; \<open>None\<close> is a WASM engine that never answers
  with a report.
\<close>

section \<open>Loading\<close>

datatype engine_name = TypeScriptName | WasmName

datatype 'w agent_source = Uncompiled "'w agent_definition" | Compiled "'w compiled_agent"

datatype 'w agent_engine = TypeScriptRuntime | WasmRuntime "'w wasm_engine"

text \<open>\<open>lg_random\<close> draws the id of an execution that is started without one.\<close>

record 'w loaded_agent =
  lg_agent :: "'w compiled_agent"
  lg_engine :: "'w agent_engine"
  lg_host :: "'w host"
  lg_random :: "'w \<Rightarrow> string \<times> 'w"

definition source_definition :: "(string \<Rightarrow> string) \<Rightarrow> 'w agent_source \<Rightarrow> 'w compiled_agent result" where
  "source_definition stable_hash source = (case source of Compiled c \<Rightarrow> Inr c | Uncompiled d \<Rightarrow> compile_agent stable_hash d)"

definition load_agent :: "(string \<Rightarrow> string) \<Rightarrow> 'w host \<Rightarrow> ('w \<Rightarrow> string \<times> 'w) \<Rightarrow> 'w agent_source \<Rightarrow> engine_name
    \<Rightarrow> 'w wasm_adapter option \<Rightarrow> 'w loaded_agent result" where
  "load_agent stable_hash host random source engine wasm =
     bind_res (source_definition stable_hash source) (\<lambda>c.
       case engine of
         TypeScriptName \<Rightarrow> bind_res (make_engine c) (\<lambda>c.
             Inr \<lparr>lg_agent = c, lg_engine = TypeScriptRuntime, lg_host = host, lg_random = random\<rparr>)
       | WasmName \<Rightarrow>
           if wasm = None then Inl (DefinitionError ''wasm was selected but no adapter was supplied; engines never silently fall back'')
           else bind_res (make_wasm_engine c wasm host) (\<lambda>we.
             Inr \<lparr>lg_agent = c, lg_engine = WasmRuntime we, lg_host = host, lg_random = random\<rparr>))"

section \<open>Running\<close>

text \<open>What is consumed of a run: the events on the way, and the report or error at the end.\<close>

type_synonym 'w consumed = "execution_event list \<times> execution_report result \<times> 'w"

fun consume_run :: "'w run_result \<Rightarrow> 'w consumed" where
  "consume_run (Finished status s) = (en_events s, Inr (make_report status s), en_world s)"
| "consume_run (Thrown e s) = (en_events s, Inl e, en_world s)"

fun consume_wasm :: "'w wasm_result \<Rightarrow> 'w consumed" where
  "consume_wasm (WasmReport r events w) = (events, Inr r, w)"
| "consume_wasm (WasmError e events w) = (events, Inl e, w)"

record run_options =
  ro_execution_id :: "string option"
  ro_resume_input :: jsval

definition consume_result :: "'w run_result result \<Rightarrow> 'w \<Rightarrow> 'w consumed" where
  "consume_result r w = (case r of Inl e \<Rightarrow> ([], Inl e, w) | Inr run \<Rightarrow> consume_run run)"

definition execute_agent :: "'w loaded_agent \<Rightarrow> jsval \<Rightarrow> run_options \<Rightarrow> 'w \<Rightarrow> 'w consumed option" where
  "execute_agent ag initial opts w =
     (case lg_engine ag of
        WasmRuntime we \<Rightarrow> map_option consume_wasm (wasm_execute we initial (ro_execution_id opts) (ro_resume_input opts) w)
      | TypeScriptRuntime \<Rightarrow>
          (case validate_state (ad_schema (ca_definition (lg_agent ag))) initial of
             Inl e \<Rightarrow> Some ([], Inl e, w)
           | Inr _ \<Rightarrow>
               (case (case ro_execution_id opts of Some i \<Rightarrow> (i, w) | None \<Rightarrow> lg_random ag w) of
                  (i, w) \<Rightarrow> Some (consume_result (execute (lg_agent ag) (lg_host ag) initial i (ro_resume_input opts) w) w))))"

definition agent_stream :: "'w loaded_agent \<Rightarrow> jsval \<Rightarrow> run_options \<Rightarrow> 'w \<Rightarrow> (execution_event list \<times> unit result \<times> 'w) option" where
  "agent_stream ag initial opts w =
     map_option (\<lambda>(events, r, w). (events, bind_res r (\<lambda>_. Inr ()), w)) (execute_agent ag initial opts w)"

definition agent_run :: "'w loaded_agent \<Rightarrow> jsval \<Rightarrow> run_options \<Rightarrow> 'w \<Rightarrow> (execution_report result \<times> 'w) option" where
  "agent_run ag initial opts w = map_option snd (execute_agent ag initial opts w)"

definition agent_resume :: "'w loaded_agent \<Rightarrow> checkpoint \<Rightarrow> jsval \<Rightarrow> 'w \<Rightarrow> (execution_report result \<times> 'w) option" where
  "agent_resume ag cp inp w =
     map_option snd (case lg_engine ag of
        WasmRuntime we \<Rightarrow> map_option consume_wasm (wasm_resume we cp inp w)
      | TypeScriptRuntime \<Rightarrow> Some (consume_result (resume (lg_agent ag) (lg_host ag) cp inp w) w))"

definition agent_inspect :: "'w loaded_agent \<Rightarrow> inspection" where
  "agent_inspect ag = (case lg_engine ag of WasmRuntime we \<Rightarrow> inspect_wasm we | TypeScriptRuntime \<Rightarrow> inspect_engine (lg_agent ag))"

definition agent_serialized :: "'w loaded_agent \<Rightarrow> graph_definition" where
  "agent_serialized ag = ad_graph (ca_definition (lg_agent ag))"

section \<open>Replaying\<close>

definition agent_replay :: "execution_event list \<Rightarrow> execution_event list result" where
  "agent_replay events = bind_res (validate_replay_events events) (\<lambda>_. Inr events)"

datatype expected_run = RecordedEvents "execution_event list" | RecordedTrace replay_trace

definition expected_trace :: "expected_run \<Rightarrow> replay_trace" where
  "expected_trace expected = (case expected of RecordedTrace t \<Rightarrow> t | RecordedEvents events \<Rightarrow> \<lparr>rt_events = events, rt_snapshots = None\<rparr>)"

definition first_execution_id :: "execution_event list \<Rightarrow> string option" where
  "first_execution_id events = (case events of [] \<Rightarrow> None | e # es \<Rightarrow> Some (ev_execution_id e))"

definition replay_deterministic :: "'w loaded_agent \<Rightarrow> jsval \<Rightarrow> expected_run \<Rightarrow> 'w \<Rightarrow> (execution_report result \<times> 'w) option" where
  "replay_deterministic ag initial expected w =
     (let trace = expected_trace expected in
      case bind_res (validate_replay_events (rt_events trace)) (\<lambda>_.
          validate_state (ad_schema (ca_definition (lg_agent ag))) initial) of
        Inl e \<Rightarrow> Some (Inl e, w)
      | Inr _ \<Rightarrow>
          map_option (\<lambda>(r, w). (bind_res r (\<lambda>report. bind_res (assert_replay_match report trace) (\<lambda>_. Inr report)), w))
            (agent_run ag initial \<lparr>ro_execution_id = first_execution_id (rt_events trace), ro_resume_input = JUndef\<rparr> w))"

section \<open>The native adapter\<close>

record native_options =
  no_id :: "string option"
  no_initial_state :: jsval
  no_map_input :: "(jsval \<Rightarrow> jsval result) option"

definition native_descriptor :: "'w loaded_agent \<Rightarrow> native_options \<Rightarrow> agent_descriptor" where
  "native_descriptor ag opts = describe (gd_id (in_graph (agent_inspect ag))) L3 \<lparr>ag_id = no_id opts, ag_name = None\<rparr>"

definition native_capabilities :: "'w loaded_agent \<Rightarrow> agent_capabilities" where
  "native_capabilities ag = limited_capabilities L3 False True False (in_limitations (agent_inspect ag))"

definition resolve_state :: "jsval \<Rightarrow> native_options \<Rightarrow> jsval result" where
  "resolve_state inp opts =
     (case no_map_input opts of
        Some f \<Rightarrow> f inp
      | None \<Rightarrow>
          if inp \<noteq> JUndef \<and> inp \<noteq> JNull then Inr inp
          else if no_initial_state opts \<noteq> JUndef then Inr (no_initial_state opts)
          else Inl (HarnessError ''nativeKnoloAgent requires input state or initialState''))"

definition from_report :: "execution_report \<Rightarrow> invocation_result" where
  "from_report r =
     (let make = (\<lambda>status output error. \<lparr>res_status = status, res_output = output, res_error = error, res_tool_calls = None,
            res_tokens = Some (rp_tokens r)\<rparr>)
      in case rp_status r of
           StTerminated v \<Rightarrow> make Succeeded v None
         | StSuspended reason \<Rightarrow> make Suspended (sn_value (rp_state r)) (Some reason)
         | StCancelled \<Rightarrow> make Failed (sn_value (rp_state r)) (Some ''cancelled'')
         | StFailed error \<Rightarrow> make Failed (sn_value (rp_state r)) (Some error))"

definition native_outcome :: "execution_report result \<times> 'w \<Rightarrow> invocation_result result \<times> 'w" where
  "native_outcome out = (case out of (r, w) \<Rightarrow> (bind_res r (\<lambda>report. Inr (from_report report)), w))"

definition native_invoke :: "'w loaded_agent \<Rightarrow> native_options \<Rightarrow> jsval \<Rightarrow> harness_context \<Rightarrow> 'w \<Rightarrow> (invocation_result result \<times> 'w) option" where
  "native_invoke ag opts inp ctx w =
     (case resolve_state inp opts of
        Inl e \<Rightarrow> Some (Inl e, w)
      | Inr state \<Rightarrow> map_option native_outcome (agent_run ag state \<lparr>ro_execution_id = Some (hc_run_id ctx), ro_resume_input = JUndef\<rparr> w))"

text \<open>\<open>native_payload\<close> is the checkpoint's payload: the graph checkpoint, when it has one, and the input.\<close>

definition native_resume :: "'w loaded_agent \<Rightarrow> (checkpoint option \<times> jsval) \<Rightarrow> 'w \<Rightarrow> (invocation_result result \<times> 'w) option" where
  "native_resume ag payload w =
     (case payload of
        (None, inp) \<Rightarrow> Some (Inl (HarnessError ''nativeKnoloAgent resume requires a graph checkpoint payload''), w)
      | (Some cp, inp) \<Rightarrow> map_option native_outcome (agent_resume ag cp inp w))"

text \<open>On the TypeScript engine, where a run always returns, the invocation is an adapter of the harness.\<close>

definition native_agent :: "'w loaded_agent \<Rightarrow> native_options \<Rightarrow> 'w invoke" where
  "native_agent ag opts inp ctx w = (case the (native_invoke ag opts inp ctx w) of (r, w) \<Rightarrow> Done w r)"

section \<open>The TypeScript engine returns\<close>

lemma typescript_returns:
  assumes "lg_engine ag = TypeScriptRuntime"
  shows "\<exists>events r w'. execute_agent ag initial opts w = Some (events, r, w')"
  using assms by (cases "execute_agent ag initial opts w") (auto simp: execute_agent_def split: sum.splits prod.splits)

lemma native_returns:
  assumes "lg_engine ag = TypeScriptRuntime"
  shows "\<exists>r w'. native_invoke ag opts inp ctx w = Some (r, w')"
proof (cases "resolve_state inp opts")
  case (Inr state)
  obtain events r w' where "execute_agent ag state \<lparr>ro_execution_id = Some (hc_run_id ctx), ro_resume_input = JUndef\<rparr> w = Some (events, r, w')"
    using typescript_returns [OF assms] by blast
  with Inr show ?thesis by (simp add: native_invoke_def agent_run_def native_outcome_def)
qed (simp add: native_invoke_def)

text \<open>A native invocation succeeds exactly when the run of the graph terminates, with the result of the graph.\<close>

lemma from_report_succeeds: "res_status (from_report r) = Succeeded \<longleftrightarrow> rp_status r = StTerminated (res_output (from_report r))"
  by (cases "rp_status r") (simp_all add: from_report_def)

lemma native_succeeds_iff:
  assumes "native_invoke ag opts inp ctx w = Some (Inr r, w')" "resolve_state inp opts = Inr state"
  shows "\<exists>report. agent_run ag state \<lparr>ro_execution_id = Some (hc_run_id ctx), ro_resume_input = JUndef\<rparr> w = Some (Inr report, w')
    \<and> r = from_report report \<and> (res_status r = Succeeded \<longleftrightarrow> rp_status report = StTerminated (res_output r))"
proof -
  from assms obtain out where out: "agent_run ag state \<lparr>ro_execution_id = Some (hc_run_id ctx), ro_resume_input = JUndef\<rparr> w = Some out"
    "native_outcome out = (Inr r, w')" by (auto simp: native_invoke_def)
  then obtain report where "out = (Inr report, w')" "r = from_report report"
    by (cases out) (auto simp: native_outcome_def bind_res_eq_Inr)
  with out(1) from_report_succeeds [of report] show ?thesis by simp
qed

section \<open>A recorded run replays\<close>

lemma run_has_events:
  assumes "run_from agent host state start 0 steps tokens eid inp w = Finished status s"
  shows "\<exists>e es. en_events s = e # es \<and> ev_execution_id e = eid"
proof -
  obtain rc s0 where r: "run_from agent host state start 0 steps tokens eid inp w = run_loop rc s0"
    "rc_execution_id rc = eid" "numbered rc 0 s0"
    using run_from_run_loop [of agent host state start 0] by metis
  have "run_loop rc s0 = Finished status s" using r(1) assms by simp
  with numbering.run_keeps [OF r(3)] have "numbered rc 0 s" by simp
  with r(2) obtain kts where kts: "en_events s = number_events eid 0 kts" by (auto simp: numbered_def)
  have "closed_by (Finished status s)" using run_from_flow [OF assms] by (auto simp: flow_done_def Let_def)
  then have "en_events s \<noteq> []" by (auto simp: closed_by_def)
  with kts show ?thesis by (cases kts) auto
qed

lemma agent_run_typescript:
  assumes "lg_engine ag = TypeScriptRuntime" "agent_run ag initial \<lparr>ro_execution_id = Some eid, ro_resume_input = inp\<rparr> w = Some (Inr report, w')"
  shows "\<exists>status s. validate_state (ad_schema (ca_definition (lg_agent ag))) initial = Inr () \<and> report = make_report status s
    \<and> w' = en_world s
    \<and> run_from (lg_agent ag) (lg_host ag) (initial_snapshot (lg_agent ag) initial) (gd_entry (ad_graph (ca_definition (lg_agent ag))))
        0 0 0 eid inp w = Finished status s"
proof -
  let ?run = "run_from (lg_agent ag) (lg_host ag) (initial_snapshot (lg_agent ag) initial) (gd_entry (ad_graph (ca_definition (lg_agent ag))))
        0 0 0 eid inp w"
  have valid: "validate_state (ad_schema (ca_definition (lg_agent ag))) initial = Inr ()"
    using assms by (auto simp: agent_run_def execute_agent_def split: sum.splits)
  with assms have "snd (consume_run ?run) = (Inr report, w')"
    by (simp add: agent_run_def execute_agent_def execute_def consume_result_def)
  with valid show ?thesis by (cases ?run) auto
qed

text \<open>
  C38. A recorded run replays. If an agent on the TypeScript engine, started without resume input, returned a report, then replaying the
  trace recorded from it, from the same state, on an agent with the same graph and schema whose
  handlers and abort signal answer alike in related worlds and whose clock agrees on when the time is
  up, returns a report with the same status and is never refused as diverged.
\<close>

theorem recorded_run_replays:
  assumes "lg_engine ag1 = TypeScriptRuntime" "lg_engine ag2 = TypeScriptRuntime"
    and "runs_agree W (start_context (lg_agent ag1) (lg_host ag1) eid JUndef w1) (start_context (lg_agent ag2) (lg_host ag2) eid JUndef w2)"
    and "W w1 w2"
    and "agent_run ag1 initial \<lparr>ro_execution_id = Some eid, ro_resume_input = JUndef\<rparr> w1 = Some (Inr report, w1')"
  shows "\<exists>report2 w2'. replay_deterministic ag2 initial (RecordedTrace (record_replay_trace report)) w2 = Some (Inr report2, w2')
    \<and> rp_status report2 = rp_status report"
proof -
  let ?a1 = "lg_agent ag1" and ?a2 = "lg_agent ag2"
  obtain status s1 where run1: "validate_state (ad_schema (ca_definition ?a1)) initial = Inr ()" "report = make_report status s1"
    "run_from ?a1 (lg_host ag1) (initial_snapshot ?a1 initial) (gd_entry (ad_graph (ca_definition ?a1))) 0 0 0 eid JUndef w1 = Finished status s1"
    using agent_run_typescript [OF assms(1,5)] by blast
  from assms(3) have same: "ad_graph (ca_definition ?a2) = ad_graph (ca_definition ?a1)" "ad_schema (ca_definition ?a2) = ad_schema (ca_definition ?a1)"
    by (simp_all add: runs_agree_def start_context_def)
  then have snapshot: "initial_snapshot ?a2 initial = initial_snapshot ?a1 initial" by (simp add: initial_snapshot_def)
  from replay_matches_recording [OF assms(3,4) run1(3)] obtain s2 where
    run2: "run_from ?a2 (lg_host ag2) (initial_snapshot ?a1 initial) (gd_entry (ad_graph (ca_definition ?a1))) 0 0 0 eid JUndef w2 = Finished status s2"
    and match: "assert_replay_match (make_report status s2) (record_replay_trace (make_report status s1)) = Inr ()" by blast
  have valid: "validate_replay_events (en_events s1) = Inr ()"
  proof -
    have "result_state (run_from ?a1 (lg_host ag1) (initial_snapshot ?a1 initial) (gd_entry (ad_graph (ca_definition ?a1)))
        (int (length ([] :: execution_event list))) 0 0 eid JUndef w1) = s1"
      using run1(3) by simp
    from run_events_valid [OF _ _ this] show ?thesis by (simp add: validate_replay_events_def)
  qed
  obtain e es where events: "en_events s1 = e # es" "ev_execution_id e = eid" using run_has_events [OF run1(3)] by blast
  have trace: "expected_trace (RecordedTrace (record_replay_trace report)) = record_replay_trace (make_report status s1)"
    "rt_events (record_replay_trace (make_report status s1)) = en_events s1"
    by (simp_all add: expected_trace_def run1(2) record_replay_trace_def make_report_def)
  have "agent_run ag2 initial \<lparr>ro_execution_id = Some eid, ro_resume_input = JUndef\<rparr> w2 = Some (Inr (make_report status s2), en_world s2)"
    using assms(2) run1(1) run2 same snapshot
    by (simp add: agent_run_def execute_agent_def execute_def consume_result_def)
  then have "replay_deterministic ag2 initial (RecordedTrace (record_replay_trace report)) w2 = Some (Inr (make_report status s2), en_world s2)"
    using valid events run1(1) same(2) match unfolding replay_deterministic_def trace(1) Let_def trace(2)
    by (simp add: first_execution_id_def)
  then show ?thesis by (simp add: run1(2) make_report_def)
qed

section \<open>A concrete replay\<close>

definition count_loaded :: "nat host \<Rightarrow> nat loaded_agent" where
  "count_loaded host = \<lparr>lg_agent = count_agent, lg_engine = TypeScriptRuntime, lg_host = host, lg_random = (\<lambda>w. (''run-2'', w))\<rparr>"

lemma count_run_reported:
  "\<exists>report w'. agent_run (count_loaded tick_host) (JObj [(''count'', JNum 0)]) \<lparr>ro_execution_id = Some ''run-1'', ro_resume_input = JUndef\<rparr> 0
     = Some (Inr report, w') \<and> rp_status report = StTerminated (JObj [(''count'', JNum 1)])"
proof -
  obtain s where s: "count_run = Finished (StTerminated (JObj [(''count'', JNum 1)])) s"
    using count_run_status by (auto simp only: final_status_Some)
  have "validate_state (ad_schema (ca_definition count_agent)) (JObj [(''count'', JNum 0)]) = Inr ()"
    "initial_snapshot count_agent (JObj [(''count'', JNum 0)]) = zero_state"
    "gd_entry (ad_graph (ca_definition count_agent)) = ''start''"
    by code_simp+
  with s [unfolded count_run_def] show ?thesis
    by (simp add: agent_run_def execute_agent_def count_loaded_def execute_def consume_result_def make_report_def)
qed

theorem recorded_run_replays_witness:
  "\<exists>report w' report2 w2'. agent_run (count_loaded tick_host) (JObj [(''count'', JNum 0)]) \<lparr>ro_execution_id = Some ''run-1'', ro_resume_input = JUndef\<rparr> 0
       = Some (Inr report, w')
     \<and> replay_deterministic (count_loaded late_host) (JObj [(''count'', JNum 0)]) (RecordedTrace (record_replay_trace report)) 0 = Some (Inr report2, w2')
     \<and> rp_status report2 = StTerminated (JObj [(''count'', JNum 1)])"
proof -
  obtain report w' where run: "agent_run (count_loaded tick_host) (JObj [(''count'', JNum 0)]) \<lparr>ro_execution_id = Some ''run-1'', ro_resume_input = JUndef\<rparr> 0
       = Some (Inr report, w')" "rp_status report = StTerminated (JObj [(''count'', JNum 1)])"
    using count_run_reported by blast
  have "runs_agree (=) (start_context (lg_agent (count_loaded tick_host)) (lg_host (count_loaded tick_host)) ''run-1'' JUndef 0)
      (start_context (lg_agent (count_loaded late_host)) (lg_host (count_loaded late_host)) ''run-1'' JUndef 0)"
    using late_agrees by (simp add: count_loaded_def)
  from recorded_run_replays [OF _ _ this refl run(1)] run show ?thesis by (auto simp: count_loaded_def)
qed

end
