(* ===== verification/Stable_Hash.thy ===== *)
theory Stable_Hash
  imports Graph_Builder "HOL-Library.Word"
begin

unbundle bit_operations_syntax

text \<open>
  \<open>stableHash\<close> of \<open>builder/index.ts\<close>: SHA-256 written out in JavaScript, over the numbers of the
  language, where a bitwise operator works on 32 bits and gives a signed number, and only \<open>>>> 0\<close> and
  storing into a \<open>Uint32Array\<close> make it unsigned again. The second half of the theory is the
  hash function of FIPS 180-4 on 32-bit words, with its constants computed from the roots of the first
  primes, and the proof that the code computes it on every text.
\<close>

section \<open>Bitwise operators of the language\<close>

text \<open>Operands are integers below \<open>2 ^ 53\<close> in absolute value, on which numbers are exact.\<close>

abbreviation word32 :: "int \<Rightarrow> 32 word" where
  "word32 n \<equiv> word_of_int n"

definition js_ushr :: "int \<Rightarrow> nat \<Rightarrow> int" where
  "js_ushr a n = uint (drop_bit n (word32 a))"

definition js_shl :: "int \<Rightarrow> nat \<Rightarrow> int" where
  "js_shl a n = sint (push_bit n (word32 a))"

definition js_bit_or :: "int \<Rightarrow> int \<Rightarrow> int" where
  "js_bit_or a b = sint (word32 a OR word32 b)"

definition js_bit_xor :: "int \<Rightarrow> int \<Rightarrow> int" where
  "js_bit_xor a b = sint (word32 a XOR word32 b)"

definition js_bit_and :: "int \<Rightarrow> int \<Rightarrow> int" where
  "js_bit_and a b = sint (word32 a AND word32 b)"

definition js_bit_not :: "int \<Rightarrow> int" where
  "js_bit_not a = sint (NOT (word32 a))"

lemma word32_ops [simp]:
  "word32 (js_ushr a n) = drop_bit n (word32 a)"
  "word32 (js_shl a n) = push_bit n (word32 a)"
  "word32 (js_bit_or a b) = word32 a OR word32 b"
  "word32 (js_bit_xor a b) = word32 a XOR word32 b"
  "word32 (js_bit_and a b) = word32 a AND word32 b"
  "word32 (js_bit_not a) = NOT (word32 a)"
  by (simp_all add: js_ushr_def js_shl_def js_bit_or_def js_bit_xor_def js_bit_and_def js_bit_not_def)

section \<open>The code\<close>

definition rotate_bits :: "int \<Rightarrow> nat \<Rightarrow> int" where
  "rotate_bits x n = js_bit_or (js_ushr x n) (js_shl x (32 - n))"

definition sha256_k :: "int list" where
  "sha256_k =
     [0x428a2f98, 0x71374491, 0xb5c0fbcf, 0xe9b5dba5] @
     [0x3956c25b, 0x59f111f1, 0x923f82a4, 0xab1c5ed5] @
     [0xd807aa98, 0x12835b01, 0x243185be, 0x550c7dc3] @
     [0x72be5d74, 0x80deb1fe, 0x9bdc06a7, 0xc19bf174] @
     [0xe49b69c1, 0xefbe4786, 0x0fc19dc6, 0x240ca1cc] @
     [0x2de92c6f, 0x4a7484aa, 0x5cb0a9dc, 0x76f988da] @
     [0x983e5152, 0xa831c66d, 0xb00327c8, 0xbf597fc7] @
     [0xc6e00bf3, 0xd5a79147, 0x06ca6351, 0x14292967] @
     [0x27b70a85, 0x2e1b2138, 0x4d2c6dfc, 0x53380d13] @
     [0x650a7354, 0x766a0abb, 0x81c2c92e, 0x92722c85] @
     [0xa2bfe8a1, 0xa81a664b, 0xc24b8b70, 0xc76c51a3] @
     [0xd192e819, 0xd6990624, 0xf40e3585, 0x106aa070] @
     [0x19a4c116, 0x1e376c08, 0x2748774c, 0x34b0bcb5] @
     [0x391c0cb3, 0x4ed8aa4a, 0x5b9cca4f, 0x682e6ff3] @
     [0x748f82ee, 0x78a5636f, 0x84c87814, 0x8cc70208] @
     [0x90befffa, 0xa4506ceb, 0xbef9a3f7, 0xc67178f2]"

definition sha256_h :: "int list" where
  "sha256_h =
     [0x6a09e667, 0xbb67ae85, 0x3c6ef372, 0xa54ff53a] @
     [0x510e527f, 0x9b05688c, 0x1f83d9ab, 0x5be0cd19]"

text \<open>\<open>setUint32\<close> and \<open>getUint32\<close> of a \<open>DataView\<close>: big-endian, the value modulo \<open>2 ^ 32\<close>.\<close>

definition set_uint32 :: "int list \<Rightarrow> nat \<Rightarrow> int \<Rightarrow> int list" where
  "set_uint32 data at v =
     data[at := v div 2 ^ 24 mod 256, at + 1 := v div 2 ^ 16 mod 256, at + 2 := v div 2 ^ 8 mod 256, at + 3 := v mod 256]"

definition get_uint32 :: "int list \<Rightarrow> nat \<Rightarrow> int" where
  "get_uint32 data at = data ! at * 2 ^ 24 + data ! (at + 1) * 2 ^ 16 + data ! (at + 2) * 2 ^ 8 + data ! (at + 3)"

text \<open>\<open>Math.ceil((n + 9) / 64) * 64\<close>.\<close>

definition padded_length :: "nat \<Rightarrow> nat" where
  "padded_length n = (n + 9 + 63) div 64 * 64"

definition padded_data :: "nat list \<Rightarrow> int list" where
  "padded_data bytes =
     (let n = length bytes; bits = int n * 8; p = padded_length n;
          data = (map int bytes @ replicate (p - n) 0)[n := 0x80];
          data = set_uint32 data (p - 4) (js_ushr bits 0)
      in set_uint32 data (p - 8) (bits div 0x100000000))"

text \<open>The two loops over \<open>w\<close>, which is kept from block to block.\<close>

definition load_words :: "int list \<Rightarrow> nat \<Rightarrow> int list \<Rightarrow> int list" where
  "load_words data offset w = foldl (\<lambda>w i. w[i := get_uint32 data (offset + i * 4)]) w [0..<16]"

definition schedule_word :: "int list \<Rightarrow> nat \<Rightarrow> int" where
  "schedule_word w i =
     (let a = w ! (i - 15); b = w ! (i - 2);
          s0 = js_bit_xor (js_bit_xor (rotate_bits a 7) (rotate_bits a 18)) (js_ushr a 3);
          s1 = js_bit_xor (js_bit_xor (rotate_bits b 17) (rotate_bits b 19)) (js_ushr b 10)
      in js_ushr (w ! (i - 16) + s0 + w ! (i - 7) + s1) 0)"

definition extend_words :: "int list \<Rightarrow> int list" where
  "extend_words w = foldl (\<lambda>w i. w[i := schedule_word w i]) w [16..<64]"

type_synonym 'a registers = "'a \<times> 'a \<times> 'a \<times> 'a \<times> 'a \<times> 'a \<times> 'a \<times> 'a"

fun sha_round :: "int list \<Rightarrow> int registers \<Rightarrow> nat \<Rightarrow> int registers" where
  "sha_round w (a, b, c, d, e, f, g, hh) i =
     (let s1 = js_bit_xor (js_bit_xor (rotate_bits e 6) (rotate_bits e 11)) (rotate_bits e 25);
          ch = js_bit_xor (js_bit_and e f) (js_bit_and (js_bit_not e) g);
          t1 = js_ushr (hh + s1 + ch + sha256_k ! i + w ! i) 0;
          s0 = js_bit_xor (js_bit_xor (rotate_bits a 2) (rotate_bits a 13)) (rotate_bits a 22);
          maj = js_bit_xor (js_bit_xor (js_bit_and a b) (js_bit_and a c)) (js_bit_and b c);
          t2 = js_ushr (s0 + maj) 0
      in (js_ushr (t1 + t2) 0, a, b, c, js_ushr (d + t1) 0, e, f, g))"

definition registers_of :: "'a list \<Rightarrow> 'a registers" where
  "registers_of h = (h ! 0, h ! 1, h ! 2, h ! 3, h ! 4, h ! 5, h ! 6, h ! 7)"

fun list_of_registers :: "'a registers \<Rightarrow> 'a list" where
  "list_of_registers (a, b, c, d, e, f, g, hh) = [a, b, c, d, e, f, g, hh]"

definition hash_block :: "int list \<Rightarrow> int list \<times> int list \<Rightarrow> nat \<Rightarrow> int list \<times> int list" where
  "hash_block data hw offset =
     (let w = extend_words (load_words data offset (snd hw));
          after = list_of_registers (foldl (sha_round w) (registers_of (fst hw)) [0..<64])
      in (map2 (\<lambda>x y. js_ushr (x + y) 0) (fst hw) after, w))"

text \<open>\<open>x.toString(16).padStart(8, "0")\<close>.\<close>

function to_string_16 :: "nat \<Rightarrow> string" where
  "to_string_16 n = (if n < 16 then [hex_char n] else to_string_16 (n div 16) @ [hex_char (n mod 16)])"
  by pat_completeness auto
termination
  by (relation "measure id") auto

declare to_string_16.simps [simp del]

definition pad_start :: "nat \<Rightarrow> char \<Rightarrow> string \<Rightarrow> string" where
  "pad_start n c s = replicate (n - length s) c @ s"

definition hash_bytes :: "nat list \<Rightarrow> string" where
  "hash_bytes bytes =
     (let data = padded_data bytes;
          h = fst (foldl (hash_block data) (sha256_h, replicate 64 0) (map (\<lambda>i. 64 * i) [0..<(length data + 63) div 64]))
      in concat (map (\<lambda>x. pad_start 8 CHR ''0'' (to_string_16 (nat x))) h))"

definition stable_hash_text :: "string \<Rightarrow> string" where
  "stable_hash_text s = hash_bytes (utf8 s)"

definition stable_hash :: "jsval \<Rightarrow> string" where
  "stable_hash v = stable_hash_text (given_or [] (json_stringify v))"

section \<open>The standard\<close>

text \<open>
  The constants of FIPS 180-4: the first 32 bits of the fractional parts of the square and cube roots of
  the first primes. \<open>root_below k n\<close> is the largest \<open>r\<close> with \<open>r ^ k \<le> n\<close>, found bit by bit.
\<close>

definition root_below :: "nat \<Rightarrow> int \<Rightarrow> int" where
  "root_below k n = foldl (\<lambda>r b. if (r + 2 ^ b) ^ k \<le> n then r + 2 ^ b else r) 0 (rev [0..<37])"

text \<open>The sieve of Eratosthenes.\<close>

function sieve :: "int list \<Rightarrow> int list" where
  "sieve [] = []"
| "sieve (p # ns) = p # sieve (filter (\<lambda>n. n mod p \<noteq> 0) ns)"
  by pat_completeness auto
termination
  by (relation "measure length") (auto simp: less_Suc_eq_le)

definition primes_upto :: "int \<Rightarrow> int list" where
  "primes_upto n = sieve [2..n]"

definition root_bits :: "nat \<Rightarrow> int \<Rightarrow> 32 word" where
  "root_bits k p = word_of_int (root_below k (p * 2 ^ (32 * k)))"

definition fips_k :: "32 word list" where
  "fips_k = map (root_bits 3) (primes_upto 311)"

definition fips_h :: "32 word list" where
  "fips_h = map (root_bits 2) (primes_upto 19)"

definition be_bytes :: "nat \<Rightarrow> nat \<Rightarrow> nat list" where
  "be_bytes k n = map (\<lambda>i. n div 256 ^ i mod 256) (rev [0..<k])"

text \<open>A one bit, the fewest zeros that leave 8 bytes of the last block, and the length in bits.\<close>

definition fips_pad :: "nat list \<Rightarrow> nat list" where
  "fips_pad bytes =
     bytes @ [128] @ replicate (nat ((55 - int (length bytes)) mod 64)) 0 @ be_bytes 8 (8 * length bytes)"

definition fips_word :: "nat list \<Rightarrow> 32 word" where
  "fips_word bs = word_of_nat (foldl (\<lambda>n b. n * 256 + b) 0 bs)"

definition fips_block :: "nat list \<Rightarrow> nat \<Rightarrow> 32 word list" where
  "fips_block padded i = map (\<lambda>t. fips_word (take 4 (drop (64 * i + 4 * t) padded))) [0..<16]"

definition small_sigma0 :: "32 word \<Rightarrow> 32 word" where
  "small_sigma0 x = word_rotr 7 x XOR word_rotr 18 x XOR drop_bit 3 x"

definition small_sigma1 :: "32 word \<Rightarrow> 32 word" where
  "small_sigma1 x = word_rotr 17 x XOR word_rotr 19 x XOR drop_bit 10 x"

definition big_sigma0 :: "32 word \<Rightarrow> 32 word" where
  "big_sigma0 x = word_rotr 2 x XOR word_rotr 13 x XOR word_rotr 22 x"

definition big_sigma1 :: "32 word \<Rightarrow> 32 word" where
  "big_sigma1 x = word_rotr 6 x XOR word_rotr 11 x XOR word_rotr 25 x"

definition choose_bits :: "32 word \<Rightarrow> 32 word \<Rightarrow> 32 word \<Rightarrow> 32 word" where
  "choose_bits x y z = (x AND y) XOR (NOT x AND z)"

definition majority :: "32 word \<Rightarrow> 32 word \<Rightarrow> 32 word \<Rightarrow> 32 word" where
  "majority x y z = (x AND y) XOR (x AND z) XOR (y AND z)"

definition fips_schedule :: "32 word list \<Rightarrow> 32 word list" where
  "fips_schedule block = foldl (\<lambda>ws t. ws @ [small_sigma1 (ws ! (t - 2)) + ws ! (t - 7) + small_sigma0 (ws ! (t - 15)) + ws ! (t - 16)])
     block [16..<64]"

fun fips_round :: "32 word list \<Rightarrow> 32 word registers \<Rightarrow> nat \<Rightarrow> 32 word registers" where
  "fips_round ws (a, b, c, d, e, f, g, h) t =
     (let t1 = h + big_sigma1 e + choose_bits e f g + fips_k ! t + ws ! t;
          t2 = big_sigma0 a + majority a b c
      in (t1 + t2, a, b, c, d + t1, e, f, g))"

definition fips_compress :: "32 word list \<Rightarrow> 32 word list \<Rightarrow> 32 word list" where
  "fips_compress h block =
     map2 (+) h (list_of_registers (foldl (fips_round (fips_schedule block)) (registers_of h) [0..<64]))"

definition fips_sha256 :: "nat list \<Rightarrow> 32 word list" where
  "fips_sha256 bytes = foldl fips_compress fips_h (map (fips_block (fips_pad bytes)) [0..<length (fips_pad bytes) div 64])"

text \<open>A digest is written as eight hexadecimal digits for each of its words.\<close>

definition hex_digits :: "nat \<Rightarrow> nat \<Rightarrow> string" where
  "hex_digits k n = map (\<lambda>i. hex_char (n div 16 ^ i mod 16)) (rev [0..<k])"

definition hex_digest :: "32 word list \<Rightarrow> string" where
  "hex_digest ws = concat (map (\<lambda>x. hex_digits 8 (unat x)) ws)"

section \<open>The constants\<close>

text \<open>\<open>root_below\<close> is the root: the largest \<open>r\<close> with \<open>r ^ k \<le> n\<close>.\<close>

lemma root_below_steps:
  assumes "n < (2 ^ 37) ^ k" "0 \<le> n" "0 < k" "m \<le> 37"
  defines "r \<equiv> \<lambda>m. foldl (\<lambda>r b. if (r + 2 ^ b) ^ k \<le> n then r + 2 ^ b else r) (0 :: int) (rev [m..<37])"
  shows "0 \<le> r m \<and> r m ^ k \<le> n \<and> n < (r m + 2 ^ m) ^ k"
  using assms(4)
proof (induction rule: inc_induct)
  case base
  then show ?case using assms(1-3) by (simp add: r_def zero_power)
next
  case (step m)
  then have "r m = (if (r (Suc m) + 2 ^ m) ^ k \<le> n then r (Suc m) + 2 ^ m else r (Suc m))"
    by (simp add: r_def upt_conv_Cons)
  with step.IH show ?case by (auto simp: algebra_simps)
qed

lemma root_below_eq:
  assumes "0 \<le> r" "r ^ k \<le> n" "n < (r + 1) ^ k" "n < (2 ^ 37) ^ k" "0 < k"
  shows "root_below k n = r"
proof -
  have "0 \<le> n" using assms(1,2) by (meson order_trans zero_le_power)
  then have root: "0 \<le> root_below k n" "root_below k n ^ k \<le> n" "n < (root_below k n + 1) ^ k"
    using root_below_steps [OF assms(4) _ assms(5), of 0] by (simp_all add: root_below_def)
  have "root_below k n < r + 1"
    using root assms(1,3) by (intro power_less_imp_less_base [of "root_below k n" k "r + 1"]) auto
  moreover have "r < root_below k n + 1"
    using root assms(1,2) by (intro power_less_imp_less_base [of r k "root_below k n + 1"]) auto
  ultimately show ?thesis by simp
qed

text \<open>A constant is right when it is the fraction of a root, whose integer part is at most 6.\<close>

definition root_word :: "nat \<Rightarrow> int \<Rightarrow> int \<Rightarrow> bool" where
  "root_word k p c \<longleftrightarrow> 0 \<le> c \<and> p < 32 ^ k \<and> list_ex (\<lambda>q. (q * 2 ^ 32 + c) ^ k \<le> p * 2 ^ (32 * k)
     \<and> p * 2 ^ (32 * k) < (q * 2 ^ 32 + c + 1) ^ k) [0, 1, 2, 3, 4, 5, 6]"

lemma root_word_bits:
  assumes "root_word k p c" "0 < k"
  shows "root_bits k p = word32 c"
proof -
  obtain q where q: "q \<in> set [0, 1, 2, 3, 4, 5, 6]" "(q * 2 ^ 32 + c) ^ k \<le> p * 2 ^ (32 * k)" "p * 2 ^ (32 * k) < (q * 2 ^ 32 + c + 1) ^ k"
    and c: "0 \<le> c" "p < 32 ^ k"
    using assms(1) unfolding root_word_def list_ex_iff by blast
  have "p * 2 ^ (32 * k) < 32 ^ k * 2 ^ (32 * k)" using c by simp
  also have "\<dots> = (2 ^ 37) ^ k" by (simp add: power_mult power_mult_distrib [symmetric])
  finally have "root_below k (p * 2 ^ (32 * k)) = q * 2 ^ 32 + c"
    using q c(1) assms(2) by (intro root_below_eq) auto
  moreover have "word32 (q * 2 ^ 32) = 0"
    by (simp only: word_of_int_eq_0_iff) simp
  ultimately show ?thesis by (simp add: root_bits_def)
qed

lemma constants_roots: "list_all2 (root_word 3) (primes_upto 311) sha256_k" "list_all2 (root_word 2) (primes_upto 19) sha256_h"
  by (code_simp, code_simp)

lemma constants_fips: "map word32 sha256_k = fips_k" "map word32 sha256_h = fips_h"
  using constants_roots by (auto simp: fips_k_def fips_h_def list_all2_conv_all_nth root_word_bits intro!: nth_equalityI)

section \<open>Bit by bit\<close>

lemma word32_rotate:
  assumes "0 < n" "n < 32"
  shows "word32 (rotate_bits x n) = word_rotr n (word32 x)"
proof -
  have "drop_bit n v OR push_bit (32 - n) v = word_rotr n v" for v :: "32 word"
  proof (rule bit_word_eqI)
    fix m assume "m < LENGTH(32)"
    then show "bit (drop_bit n v OR push_bit (32 - n) v) m \<longleftrightarrow> bit (word_rotr n v) m"
      using assms bit_imp_le_length [of v "m + n"]
      by (cases "m + n < 32") (auto simp: bit_simps le_mod_geq add.commute)
  qed
  then show ?thesis by (simp add: rotate_bits_def)
qed

lemma schedule_word_fips:
  "word32 (schedule_word w i) = word32 (w ! (i - 16)) + small_sigma0 (word32 (w ! (i - 15)))
     + word32 (w ! (i - 7)) + small_sigma1 (word32 (w ! (i - 2)))"
  by (simp add: schedule_word_def Let_def small_sigma0_def small_sigma1_def word32_rotate xor.assoc)

lemma length_constants [simp]: "length sha256_k = 64" "length sha256_h = 8"
  by (simp_all add: sha256_k_def sha256_h_def)

fun map_registers :: "('a \<Rightarrow> 'b) \<Rightarrow> 'a registers \<Rightarrow> 'b registers" where
  "map_registers p (a, b, c, d, e, f, g, h) = (p a, p b, p c, p d, p e, p f, p g, p h)"

lemma map_registers_list:
  "length h = 8 \<Longrightarrow> map_registers p (registers_of h) = registers_of (map p h)"
  "map p (list_of_registers r) = list_of_registers (map_registers p r)"
  by (simp add: registers_of_def, cases r rule: list_of_registers.cases, simp)

lemma sha_round_fips:
  assumes "i < 64" "length w = 64"
  shows "map_registers word32 (sha_round w r i) = fips_round (map word32 w) (map_registers word32 r) i"
proof -
  have "fips_k ! i = word32 (sha256_k ! i)" using assms(1) by (simp flip: constants_fips(1))
  then show ?thesis using assms
    by (cases r rule: list_of_registers.cases) (simp add: Let_def big_sigma0_def big_sigma1_def choose_bits_def majority_def word32_rotate xor.assoc)
qed

lemma rounds_fips:
  assumes "length w = 64" "n \<le> 64"
  shows "map_registers word32 (foldl (sha_round w) r [0..<n]) = foldl (fips_round (map word32 w)) (map_registers word32 r) [0..<n]"
  using assms(2) by (induction n) (simp_all add: sha_round_fips assms(1))

section \<open>The schedule\<close>

lemma foldl_fill: "n \<le> length w \<Longrightarrow> foldl (\<lambda>w i. w[i := f i]) w [0..<n] = map f [0..<n] @ drop n w"
proof (induction n)
  case (Suc n)
  then have "foldl (\<lambda>w i. w[i := f i]) w [0..<Suc n] = (map f [0..<n] @ drop n w)[n := f n]" by simp
  also have "drop n w = w ! n # drop (Suc n) w" using Suc.prems by (simp add: Cons_nth_drop_Suc)
  finally show ?case by (simp add: list_update_append)
qed simp

lemma load_words_eq: "length w = 64 \<Longrightarrow> load_words data offset w = map (\<lambda>i. get_uint32 data (offset + i * 4)) [0..<16] @ drop 16 w"
  unfolding load_words_def by (rule foldl_fill) simp

lemma extend_words_steps:
  assumes "length w = 64" "n \<le> 48"
  defines "w' \<equiv> foldl (\<lambda>w i. w[i := schedule_word w i]) w [16..<16 + n]"
  shows "length w' = 64 \<and> map word32 (take (16 + n) w') =
     foldl (\<lambda>ws t. ws @ [small_sigma1 (ws ! (t - 2)) + ws ! (t - 7) + small_sigma0 (ws ! (t - 15)) + ws ! (t - 16)])
       (map word32 (take 16 w)) [16..<16 + n]"
  using assms(2) unfolding w'_def
proof (induction n)
  case 0
  then show ?case by (simp add: assms(1))
next
  case (Suc n)
  let ?code = "\<lambda>n. foldl (\<lambda>w i. w[i := schedule_word w i]) w [16..<16 + n]"
  let ?ws = "map word32 (take (16 + n) (?code n))"
  have len: "length (?code n) = 64" and n: "16 + n < 64" using Suc by simp_all
  have nth: "?ws ! j = word32 (?code n ! j)" if "j < 16 + n" for j using that len n by simp
  have upt: "[16..<16 + Suc n] = [16..<16 + n] @ [16 + n]" using upt_Suc_append [of 16 "16 + n"] by simp
  have take_last: "take (17 + n) xs = take (16 + n) xs @ [xs ! (16 + n)]" if "length xs = 64" for xs :: "int list"
    using that n take_Suc_conv_app_nth [of "16 + n" xs] by simp
  have "map word32 (take (16 + Suc n) (?code (Suc n))) = ?ws @ [word32 (schedule_word (?code n) (16 + n))]"
    unfolding upt foldl_append using len n by (simp add: take_last del: add_Suc_right)
  also have "word32 (schedule_word (?code n) (16 + n))
      = small_sigma1 (?ws ! (16 + n - 2)) + ?ws ! (16 + n - 7) + small_sigma0 (?ws ! (16 + n - 15)) + ?ws ! (16 + n - 16)"
    by (simp only: schedule_word_fips) (simp add: nth)
  finally show ?case using Suc len unfolding upt by simp
qed

lemma extend_words_fips:
  assumes "length w = 64"
  shows "length (extend_words w) = 64" "map word32 (extend_words w) = fips_schedule (map word32 (take 16 w))"
proof -
  have sum: "16 + 48 = (64 :: nat)" by simp
  note all = extend_words_steps [OF assms order_refl, unfolded sum, folded extend_words_def fips_schedule_def]
  then show len: "length (extend_words w) = 64" by blast
  show "map word32 (extend_words w) = fips_schedule (map word32 (take 16 w))"
    using all len by (metis order_refl take_all)
qed

section \<open>Padding\<close>

lemma fips_pad_length: "length (fips_pad bytes) mod 64 = 0" "length (fips_pad bytes) = padded_length (length bytes)"
proof -
  let ?n = "length bytes"
  define q r where qr: "q = (?n + 72) div 64" "r = (?n + 72) mod 64"
  then have n: "?n + 72 = 64 * q + r" "r < 64" by simp_all
  have "int ?n + 72 = 64 * int q + int r" using arg_cong [OF n(1), of int] by simp
  then have "55 - int ?n = (63 - int r) + (1 - int q) * 64" by (simp add: algebra_simps)
  also have "\<dots> mod 64 = (63 - int r) mod 64" by (rule mod_mult_self1)
  also have "\<dots> = 63 - int r" using n(2) by simp
  finally have "?n + 9 + nat ((55 - int ?n) mod 64) = 64 * q" using n by linarith
  then show len: "length (fips_pad bytes) = padded_length ?n"
    using qr(1) by (simp add: fips_pad_def be_bytes_def padded_length_def ac_simps)
  show "length (fips_pad bytes) mod 64 = 0" unfolding len by (simp add: padded_length_def)
qed

lemma whole_blocks: "(padded_length n + 63) div 64 = padded_length n div 64" "64 * (padded_length n div 64) \<le> padded_length n"
  by (simp_all add: padded_length_def)

lemma set_uint32_append:
  assumes "length xs = at"
  shows "set_uint32 (xs @ a # b # c # d # ys) at v
     = xs @ v div 2 ^ 24 mod 256 # v div 2 ^ 16 mod 256 # v div 2 ^ 8 mod 256 # v mod 256 # ys"
  using assms by (simp add: set_uint32_def list_update_append)

lemma be_bytes_int:
  "int n = m \<Longrightarrow> map int (be_bytes 8 n) =
     [m div 2 ^ 56 mod 256, m div 2 ^ 48 mod 256, m div 2 ^ 40 mod 256, m div 2 ^ 32 mod 256,
      m div 2 ^ 24 mod 256, m div 2 ^ 16 mod 256, m div 2 ^ 8 mod 256, m mod 256]"
  by (auto simp: be_bytes_def upt_rec zdiv_int zmod_int)

lemma low_byte: "(m :: int) mod 2 ^ 32 div 2 ^ k mod 256 = m div 2 ^ k mod 256" if "k \<le> 24"
proof -
  have "take_bit 8 (drop_bit k (take_bit 32 m)) = take_bit 8 (drop_bit k m)"
    by (rule bit_eqI) (use that in \<open>auto simp: bit_simps\<close>)
  then show ?thesis by (simp add: take_bit_eq_mod drop_bit_eq_div)
qed

lemmas low_bytes = low_byte [of 24, simplified] low_byte [of 16, simplified] low_byte [of 8, simplified] low_byte [of 0, simplified]

lemma js_ushr_0: "js_ushr a 0 = a mod 2 ^ 32"
  by (simp add: js_ushr_def uint_word_of_int)

lemma high_bytes:
  fixes m :: int
  shows "m div 4294967296 div 16777216 = m div 72057594037927936" "m div 4294967296 div 65536 = m div 281474976710656"
    "m div 4294967296 div 256 = m div 1099511627776"
  by (simp_all add: zdiv_zmult2_eq [symmetric])

lemma padded_data_fips: "padded_data bytes = map int (fips_pad bytes)"
proof -
  let ?n = "length bytes" let ?k = "nat ((55 - int ?n) mod 64)" let ?bits = "int ?n * 8"
  have p: "padded_length ?n = ?n + 9 + ?k"
    using fips_pad_length(2) [of bytes] by (simp add: fips_pad_def be_bytes_def)
  let ?front = "map int bytes @ 128 # replicate ?k 0"
  have "replicate (padded_length ?n - ?n) (0 :: int) = 0 # replicate ?k 0 @ [0, 0, 0, 0, 0, 0, 0, 0]"
    by (simp add: p numeral_eq_Suc replicate_app_Cons_same)
  then have start: "(map int bytes @ replicate (padded_length ?n - ?n) 0)[?n := 0x80] = ?front @ 0 # 0 # 0 # 0 # [0, 0, 0, 0]"
    by (simp add: list_update_append)
  have len: "length (?front @ [0, 0, 0, 0]) = padded_length ?n - 4" "length ?front = padded_length ?n - 8"
    by (simp_all add: p)
  have low: "set_uint32 ((map int bytes @ replicate (padded_length ?n - ?n) 0)[?n := 0x80]) (padded_length ?n - 4) v
      = (?front @ [0, 0, 0, 0]) @ v div 2 ^ 24 mod 256 # v div 2 ^ 16 mod 256 # v div 2 ^ 8 mod 256 # v mod 256 # []" for v
    using set_uint32_append [OF len(1), of 0 0 0 0 "[]" v] unfolding start by simp
  have high: "set_uint32 (?front @ 0 # 0 # 0 # 0 # rest) (padded_length ?n - 8) v
      = ?front @ v div 2 ^ 24 mod 256 # v div 2 ^ 16 mod 256 # v div 2 ^ 8 mod 256 # v mod 256 # rest" for v rest
    by (rule set_uint32_append [OF len(2)])
  obtain m where m: "?bits = m" by simp
  then have bytes: "map int (be_bytes 8 (8 * ?n)) =
     [m div 2 ^ 56 mod 256, m div 2 ^ 48 mod 256, m div 2 ^ 40 mod 256, m div 2 ^ 32 mod 256,
      m div 2 ^ 24 mod 256, m div 2 ^ 16 mod 256, m div 2 ^ 8 mod 256, m mod 256]"
    by (intro be_bytes_int) simp
  show ?thesis
    unfolding padded_data_def Let_def low m
    using high [of "[js_ushr m 0 div 2 ^ 24 mod 256, js_ushr m 0 div 2 ^ 16 mod 256, js_ushr m 0 div 2 ^ 8 mod 256,
        js_ushr m 0 mod 256]" "m div 0x100000000"]
    by (simp add: fips_pad_def bytes js_ushr_0 low_bytes high_bytes)
qed

section \<open>Blocks\<close>

lemma get_uint32_fips:
  assumes "at + 4 \<le> length padded"
  shows "word32 (get_uint32 (map int padded) at) = fips_word (take 4 (drop at padded))"
proof -
  have "take 4 (drop at padded) = [padded ! at, padded ! (at + 1), padded ! (at + 2), padded ! (at + 3)]"
    using assms by (intro nth_equalityI) (auto simp: less_Suc_eq numeral_eq_Suc)
  moreover have "word32 (int n) = word_of_nat n" for n by simp
  ultimately show ?thesis using assms by (simp add: fips_word_def get_uint32_def algebra_simps)
qed

lemma hash_block_fips:
  assumes "length h = 8" "length w = 64" "64 * i + 64 \<le> length padded"
    and "hash_block (map int padded) (h, w) (64 * i) = (h', w')"
  shows "length h' = 8 \<and> length w' = 64 \<and> (\<forall>x \<in> set h'. 0 \<le> x \<and> x < 2 ^ 32)
    \<and> map word32 h' = fips_compress (map word32 h) (fips_block padded i)"
proof -
  let ?loaded = "load_words (map int padded) (64 * i) w"
  have loaded: "length ?loaded = 64" "map word32 (take 16 ?loaded) = fips_block padded i"
    using assms(2,3) by (auto simp: load_words_eq fips_block_def get_uint32_fips mult.commute)
  have w': "w' = extend_words ?loaded"
    and h': "h' = map2 (\<lambda>x y. js_ushr (x + y) 0) h (list_of_registers (foldl (sha_round w') (registers_of h) [0..<64]))"
    using assms(4) by (auto simp: hash_block_def Let_def)
  have schedule: "length w' = 64" "map word32 w' = fips_schedule (fips_block padded i)"
    using extend_words_fips [OF loaded(1)] loaded(2) w' by simp_all
  have len: "length (list_of_registers r) = 8" for r :: "'a registers"
    by (cases r rule: list_of_registers.cases) simp
  have words: "map word32 (list_of_registers (foldl (sha_round w') (registers_of h) [0..<64]))
      = list_of_registers (foldl (fips_round (fips_schedule (fips_block padded i))) (registers_of (map word32 h)) [0..<64])"
    using rounds_fips [OF schedule(1) order_refl] schedule(2) assms(1) by (simp only: map_registers_list)
  have add: "map word32 (map2 (\<lambda>x y. js_ushr (x + y) 0) xs ys) = map2 (+) (map word32 xs) (map word32 ys)" for xs ys
    by (simp add: zip_map_map comp_def case_prod_unfold)
  have bound: "0 \<le> x \<and> x < 2 ^ 32" if "x \<in> set (map2 (\<lambda>x y. js_ushr (x + y) 0) xs ys)" for x xs ys
    using that by (auto simp: js_ushr_0)
  show ?thesis
    using bound unfolding h' add words fips_compress_def by (simp add: assms(1) schedule(1) len)
qed

lemma hash_blocks_fips:
  assumes "64 * m \<le> length padded"
    and "foldl (hash_block (map int padded)) (sha256_h, replicate 64 0) (map (\<lambda>i. 64 * i) [0..<m]) = (h, w)"
  shows "length h = 8 \<and> length w = 64 \<and> (\<forall>x \<in> set h. 0 \<le> x \<and> x < 2 ^ 32)
    \<and> map word32 h = foldl fips_compress fips_h (map (fips_block padded) [0..<m])"
  using assms
proof (induction m arbitrary: h w)
  case 0
  have "\<forall>x \<in> set sha256_h. 0 \<le> x \<and> x < 2 ^ 32" by (simp add: sha256_h_def)
  with 0 show ?case using constants_fips(2) by (auto simp del: of_int_eq_iff)
next
  case (Suc m)
  obtain h0 w0 where before: "foldl (hash_block (map int padded)) (sha256_h, replicate 64 0) (map (\<lambda>i. 64 * i) [0..<m]) = (h0, w0)"
    by force
  with Suc.prems(2) have step: "hash_block (map int padded) (h0, w0) (64 * m) = (h, w)" by simp
  from Suc.IH [OF _ before] Suc.prems(1) have "length h0 = 8" "length w0 = 64"
    "map word32 h0 = foldl fips_compress fips_h (map (fips_block padded) [0..<m])" by simp_all
  with hash_block_fips [OF _ _ _ step] Suc.prems(1) show ?case by simp
qed

section \<open>Hexadecimal\<close>

lemma hex_digits_Suc: "hex_digits (Suc k) n = hex_digits k (n div 16) @ [hex_char (n mod 16)]"
proof -
  have "rev [0..<Suc k] = map Suc (rev [0..<k]) @ [0]" by (simp add: upt_conv_Cons map_Suc_upt [symmetric] rev_map del: upt_Suc)
  then show ?thesis by (simp add: hex_digits_def div_mult2_eq)
qed

lemma hex_digits_0: "hex_digits k 0 = replicate k CHR ''0''"
proof (induction k)
  case (Suc k)
  have "hex_char 0 = CHR ''0''" by code_simp
  with Suc show ?case by (simp add: hex_digits_Suc replicate_append_same)
qed (simp add: hex_digits_def)

lemma pad_start_hex:
  assumes "n < 16 ^ Suc k"
  shows "pad_start (Suc k) CHR ''0'' (to_string_16 n) = hex_digits (Suc k) n"
  using assms
proof (induction n arbitrary: k rule: to_string_16.induct)
  case (1 n)
  show ?case
  proof (cases "n < 16")
    case True
    then show ?thesis by (subst to_string_16.simps) (simp add: pad_start_def hex_digits_Suc hex_digits_0)
  next
    case False
    with 1(2) obtain k' where k: "k = Suc k'" by (cases k) auto
    with 1 False have "pad_start k CHR ''0'' (to_string_16 (n div 16)) = hex_digits k (n div 16)"
      by (simp add: less_mult_imp_div_less mult.commute)
    with False show ?thesis
      by (subst to_string_16.simps) (simp add: pad_start_def hex_digits_Suc)
  qed
qed

text \<open>
  C6. The hash that \<open>compile\<close> computes with its own code is SHA-256: for every value, the number
  arithmetic of \<open>stableHash\<close> (padding, message schedule, 64 rounds for each block, all modulo
  \<open>2 ^ 32\<close> through signed intermediate values) gives, for the UTF-8
  bytes of its JSON text, the hexadecimal digest that FIPS 180-4 defines on 32-bit words, with the constants
  of the standard.
\<close>

theorem stable_hash_sha256: "stable_hash v = hex_digest (fips_sha256 (utf8 (given_or [] (json_stringify v))))"
proof -
  let ?bytes = "utf8 (given_or [] (json_stringify v))"
  let ?p = "fips_pad ?bytes" let ?m = "length ?p div 64"
  have len: "(length ?p + 63) div 64 = ?m" "64 * ?m \<le> length ?p"
    by (simp_all only: fips_pad_length whole_blocks)
  obtain h w where run: "foldl (hash_block (map int ?p)) (sha256_h, replicate 64 0) (map (\<lambda>i. 64 * i) [0..<?m]) = (h, w)"
    by (rule prod.exhaust)
  from hash_blocks_fips [OF len(2) run]
  have h: "\<forall>x \<in> set h. 0 \<le> x \<and> x < 2 ^ 32" "map word32 h = fips_sha256 ?bytes" by (simp_all add: fips_sha256_def)
  have "pad_start 8 CHR ''0'' (to_string_16 (nat x)) = hex_digits 8 (unat (word32 x))" if "x \<in> set h" for x
    using pad_start_hex [of "nat x" 7] h(1) that by (auto simp: unat_eq_nat_uint uint_word_of_int nat_less_iff)
  then have "concat (map (\<lambda>x. pad_start 8 CHR ''0'' (to_string_16 (nat x))) h) = hex_digest (map word32 h)"
    by (simp add: hex_digest_def comp_def cong: map_cong)
  with run h(2) show ?thesis
    by (simp add: stable_hash_def stable_hash_text_def hash_bytes_def Let_def padded_data_fips len(1))
qed

text \<open>The digest of a compiled agent is this hash of its graph.\<close>

lemma compiled_hash: "compile_agent stable_hash_text d = Inr c \<Longrightarrow> ca_hash c = stable_hash (graph_json (ad_graph d))"
  by (auto simp: compile_agent_def bind_res_eq_Inr stable_hash_def given_or_def)

end
