(* ===== verification/Core_Adapters.thy ===== *)
theory Core_Adapters
  imports Authority
begin

text \<open>
  The adapters over \<open>@knolo/core\<close> that keep a state or decide something (\<open>core-v5/load.ts\<close>,
  \<open>claimgraph.ts\<close>, \<open>cortex.ts\<close>, \<open>runs.ts\<close>) and the claim and Cortex capabilities
  they implement (\<open>claims/index.ts\<close>, \<open>cortex/index.ts\<close>). The functions of the core are
  parameters, the fields of the records \<open>claim_core\<close>, \<open>cortex_core\<close> and \<open>run_core\<close>.
\<close>

section \<open>Loading\<close>

definition core_absent_message :: string where
  "core_absent_message = ''Core V5 is required for this adapter; install @knolo/core@^5.5.0''"

definition require_core :: "'c option \<Rightarrow> string option \<Rightarrow> 'c result" where
  "require_core core message =
     (case core of
        Some c \<Rightarrow> Inr c
      | None \<Rightarrow> Inl (PlainError (given_or core_absent_message message)))"

text \<open>\<open>installed\<close> is what \<open>import("@knolo/core")\<close> gives, \<open>None\<close> when it throws.\<close>

definition load_core :: "'c option \<Rightarrow> 'c result" where
  "load_core installed = (case installed of Some c \<Rightarrow> Inr c | None \<Rightarrow> Inl (PlainError core_absent_message))"

text \<open>\<open>core ?? (await loadCoreV5())\<close>, with which every \<open>create\<close> begins.\<close>

definition given_core :: "'c option \<Rightarrow> 'c option \<Rightarrow> 'c result" where
  "given_core installed core = (case core of Some c \<Rightarrow> Inr c | None \<Rightarrow> load_core installed)"

section \<open>The claim graph\<close>

record claim_proposal =
  cp_operation :: jsval
  cp_justification :: string

record claim_graph =
  cg_nodes :: "jsval list"
  cg_edges :: "jsval list"

record claim_document =
  do_id :: "string option"
  do_heading :: "string option"
  do_text :: string

record claim_core =
  cc_get_graph :: "jsval \<Rightarrow> claim_graph option result"
  cc_build_graph :: "claim_document list \<Rightarrow> claim_graph result"

definition empty_graph :: claim_graph where
  "empty_graph = \<lparr>cg_nodes = [], cg_edges = []\<rparr>"

text \<open>The state of an adapter is its graph; \<open>claims_create\<close> and \<open>claims_from\<close> give the first.\<close>

definition claims_create :: "claim_core option \<Rightarrow> claim_core option \<Rightarrow> (claim_core \<times> claim_graph) result" where
  "claims_create installed core = bind_res (given_core installed core) (\<lambda>c. Inr (c, empty_graph))"

definition claims_from :: "claim_core option \<Rightarrow> claim_graph option \<Rightarrow> (claim_core \<times> claim_graph) result" where
  "claims_from core graph =
     bind_res (require_core core None) (\<lambda>c. Inr (c, given_or empty_graph graph))"

definition claims_from_pack :: "claim_core \<Rightarrow> jsval \<Rightarrow> claim_graph result" where
  "claims_from_pack core pack =
     bind_res (cc_get_graph core pack) (\<lambda>g. Inr (given_or empty_graph g))"

definition claims_from_documents :: "claim_core \<Rightarrow> claim_document list \<Rightarrow> claim_graph result" where
  "claims_from_documents core docs = cc_build_graph core docs"

text \<open>\<open>JSON.stringify(item).toLowerCase().includes(needle.toLowerCase())\<close>.\<close>

definition json_mentions :: "string \<Rightarrow> jsval \<Rightarrow> bool result" where
  "json_mentions needle item =
     (case json_stringify item of
        None \<Rightarrow> Inl (TypeError ''Cannot read properties of undefined (reading toLowerCase)'')
      | Some text \<Rightarrow> Inr (js_includes (js_lower text) (js_lower needle)))"

definition claims_read :: "claim_graph \<Rightarrow> jsval \<Rightarrow> claim_graph result" where
  "claims_read g query =
     (let needle = stringify_output query in
      if needle = None \<or> needle = Some [] \<or> needle = Some ''{}'' then Inr g
      else bind_res (filter_res (json_mentions (the needle)) (cg_nodes g)) (\<lambda>nodes.
           bind_res (filter_res (json_mentions (the needle)) (cg_edges g)) (\<lambda>edges.
           Inr \<lparr>cg_nodes = nodes, cg_edges = edges\<rparr>)))"

definition optional_text :: "string option \<Rightarrow> jsval" where
  "optional_text s = (case s of Some t \<Rightarrow> JStr t | None \<Rightarrow> JUndef)"

definition proposal_id :: "nat \<Rightarrow> string" where
  "proposal_id n = ''proposal:'' @ dec_nat n"

definition proposal_node :: "nat \<Rightarrow> claim_proposal \<Rightarrow> jsval" where
  "proposal_node n p = JObj
     [(''id'', JStr (proposal_id n)), (''label'', JStr (cp_justification p)),
      (''props'', JObj [(''operation'', optional_text (json_stringify (cp_operation p)))])]"

definition claims_commit :: "claim_graph \<Rightarrow> claim_proposal \<Rightarrow> claim_graph" where
  "claims_commit g p = \<lparr>cg_nodes = cg_nodes g @ [proposal_node (length (cg_nodes g) + 1) p], cg_edges = cg_edges g\<rparr>"

text \<open>The gate of \<open>claims/index.ts\<close> in front of the adapter: what is committed is the new graph.\<close>

definition submit_claim :: "claim_graph \<Rightarrow> claim_proposal \<times> mutation_approval \<Rightarrow> claim_graph result" where
  "submit_claim g pa = commit_claim_proposal (\<lambda>p. Inr (claims_commit g p)) (fst pa) (snd pa)"

text \<open>Several submissions: a refused one throws before \<open>commit\<close> and leaves the graph as it is.\<close>

definition submit_or_skip :: "claim_graph \<Rightarrow> claim_proposal \<times> mutation_approval \<Rightarrow> claim_graph" where
  "submit_or_skip g pa = (case submit_claim g pa of Inr g' \<Rightarrow> g' | Inl e \<Rightarrow> g)"

section \<open>Cortex\<close>

record 'c cortex_core =
  cx_create :: "string \<Rightarrow> 'c"
  cx_remember :: "'c \<Rightarrow> string \<Rightarrow> string list \<Rightarrow> ('c \<times> jsval) result"
  cx_recall :: "'c \<Rightarrow> string \<Rightarrow> jsval option \<Rightarrow> jsval result"

definition cortex_start :: "'c cortex_core \<Rightarrow> 'c option \<Rightarrow> 'c" where
  "cortex_start core cortex = given_or (cx_create core ''knolo-agents'') cortex"

definition cortex_create :: "'c cortex_core option \<Rightarrow> 'c cortex_core option \<Rightarrow> ('c cortex_core \<times> 'c) result" where
  "cortex_create installed core = bind_res (given_core installed core) (\<lambda>c. Inr (c, cortex_start c None))"

definition cortex_from :: "'c cortex_core option \<Rightarrow> 'c option \<Rightarrow> ('c cortex_core \<times> 'c) result" where
  "cortex_from core cortex = bind_res (require_core core None) (\<lambda>c. Inr (c, cortex_start c cortex))"

definition cortex_remember :: "'c cortex_core \<Rightarrow> string \<Rightarrow> string list option \<Rightarrow> 'c \<Rightarrow> jsval result \<times> 'c" where
  "cortex_remember core text labels c =
     (case cx_remember core c text (given_or [] labels) of
        Inl e \<Rightarrow> (Inl e, c)
      | Inr (c', memory) \<Rightarrow> (Inr memory, c'))"

record cortex_query_v5 =
  qv_query :: "string option"
  qv_top_k :: "jsval option"

definition parse_query :: "jsval \<Rightarrow> cortex_query_v5" where
  "parse_query request =
     (case request of
        JStr s \<Rightarrow> \<lparr>qv_query = Some s, qv_top_k = None\<rparr>
      | JObj es \<Rightarrow>
          \<lparr>qv_query = Some (given_or [] (js_string (js_get es ''query''))),
           qv_top_k = (case js_get es ''topK'' of JNum n \<Rightarrow> Some (JNum n) | JFrac s \<Rightarrow> Some (JFrac s) | _ \<Rightarrow> None)\<rparr>
      | v \<Rightarrow> \<lparr>qv_query = json_stringify v, qv_top_k = None\<rparr>)"

definition cortex_query :: "'c cortex_core \<Rightarrow> 'c \<Rightarrow> jsval \<Rightarrow> jsval result" where
  "cortex_query core c request =
     (let parsed = parse_query request in
      cx_recall core c (given_or [] (qv_query parsed))
        (case qv_top_k parsed of Some k \<Rightarrow> if js_truthy k then Some k else None | None \<Rightarrow> None))"

definition cortex_context :: "'c cortex_core \<Rightarrow> 'c \<Rightarrow> jsval \<Rightarrow> jsval result" where
  "cortex_context core c request = bind_res (cortex_query core c request) (\<lambda>memories. Inr (JObj [(''memories'', memories)]))"

section \<open>Runs\<close>

text \<open>A knowledge run is a value of the core, \<open>'r\<close>; an absent time is 0.\<close>

record 'r run_core =
  rc_create :: "string \<Rightarrow> string \<Rightarrow> jsval \<Rightarrow> int \<Rightarrow> 'r result"
  rc_start :: "'r \<Rightarrow> int \<Rightarrow> 'r result"
  rc_checkpoint :: "'r \<Rightarrow> jsval \<Rightarrow> int \<Rightarrow> 'r result"
  rc_complete :: "'r \<Rightarrow> jsval \<Rightarrow> int \<Rightarrow> 'r result"
  rc_fail :: "'r \<Rightarrow> string \<Rightarrow> int \<Rightarrow> 'r result"

definition knowledge_run_start :: "'r run_core \<Rightarrow> string \<Rightarrow> string \<Rightarrow> jsval option \<Rightarrow> int option \<Rightarrow> 'r result" where
  "knowledge_run_start core agent_id root inp now =
     bind_res (rc_create core agent_id root (given_or (JObj []) inp) (given_or 0 now)) (\<lambda>created.
     rc_start core created (given_or 0 now))"

definition knowledge_run_checkpoint :: "'r run_core \<Rightarrow> 'r \<Rightarrow> jsval \<Rightarrow> int option \<Rightarrow> 'r result" where
  "knowledge_run_checkpoint core run state now = rc_checkpoint core run state (given_or 0 now)"

definition knowledge_run_complete :: "'r run_core \<Rightarrow> 'r \<Rightarrow> jsval option \<Rightarrow> int option \<Rightarrow> 'r result" where
  "knowledge_run_complete core run v now = rc_complete core run (given_or (JObj []) v) (given_or 0 now)"

definition knowledge_run_fail :: "'r run_core \<Rightarrow> 'r \<Rightarrow> string \<Rightarrow> int option \<Rightarrow> 'r result" where
  "knowledge_run_fail core run error now = rc_fail core run error (given_or 0 now)"

section \<open>Adapters fail closed\<close>

lemma adapters_need_core:
  "claims_create None None = Inl (PlainError core_absent_message)"
  "claims_from None g = Inl (PlainError core_absent_message)"
  "cortex_create None None = Inl (PlainError core_absent_message)"
  "cortex_from None c = Inl (PlainError core_absent_message)"
  by (simp_all add: claims_create_def claims_from_def cortex_create_def cortex_from_def given_core_def load_core_def require_core_def given_or_def)

section \<open>The claim ledger\<close>

text \<open>The approved ones of a list of submissions.\<close>

definition approved :: "(claim_proposal \<times> mutation_approval) list \<Rightarrow> claim_proposal list" where
  "approved pas = map fst (filter (\<lambda>pa. snd pa \<noteq> ByPolicy [] \<and> snd pa \<noteq> ByHuman []) pas)"

fun numbered_nodes :: "nat \<Rightarrow> claim_proposal list \<Rightarrow> jsval list" where
  "numbered_nodes n [] = []"
| "numbered_nodes n (p # ps) = proposal_node (n + 1) p # numbered_nodes (n + 1) ps"

lemma numbered_nodes_json: "JUndef \<notin> set (numbered_nodes n ps)"
  by (induction n ps rule: numbered_nodes.induct) (simp_all add: proposal_node_def)

lemma numbered_nodes_nth: "i < length ps \<Longrightarrow> proposal_node (Suc (n + i)) (ps ! i) \<in> set (numbered_nodes n ps)"
proof (induction n ps arbitrary: i rule: numbered_nodes.induct)
  case (2 n p ps)
  then show ?case by (cases i) force+
qed simp

lemma submissions_ledger:
  "cg_nodes (foldl submit_or_skip g pas) = cg_nodes g @ numbered_nodes (length (cg_nodes g)) (approved pas)
    \<and> cg_edges (foldl submit_or_skip g pas) = cg_edges g"
proof (induction pas arbitrary: g)
  case Nil
  then show ?case by (simp add: approved_def)
next
  case (Cons pa pas)
  then show ?case
    by (auto simp: submit_or_skip_def submit_claim_def commit_claim_proposal_def claims_commit_def approved_def)
qed

section \<open>Text in JSON\<close>

lemma js_includes_join: "x \<in> set xs \<Longrightarrow> js_includes (js_join sep xs) x"
  by (induction sep xs rule: js_join.induct) (auto intro: js_includes_append1 js_includes_append2)

lemma js_includes_lower: "js_includes a b \<Longrightarrow> js_includes (js_lower a) (js_lower b)"
  by (auto simp: js_includes_def js_lower_def intro: map_mono_sublist)

definition plain_char :: "char \<Rightarrow> bool" where
  "plain_char c \<longleftrightarrow> of_char c \<ge> (32 :: nat) \<and> of_char c \<noteq> (34 :: nat) \<and> of_char c \<noteq> (92 :: nat)"

lemma json_quote_plain:
  assumes "\<forall>c \<in> set s. plain_char c"
  shows "json_quote s = char_of (34::nat) # s @ [char_of (34::nat)]"
proof -
  have "concat (map json_escape_char s) = s"
    using assms by (induction s) (auto simp: plain_char_def json_escape_char_def Let_def)
  then show ?thesis by (simp add: json_quote_def)
qed

lemma plain_char_dec_pos: "i \<ge> 0 \<Longrightarrow> c \<in> set (dec_pos i) \<Longrightarrow> plain_char c"
proof (induction i rule: dec_pos.induct)
  case (1 i)
  have "char_of (48 + i mod 10) = (char_of (48 + nat (i mod 10)) :: char)"
    using char_of_nat [of "48 + nat (i mod 10)", where ?'a = int] by simp
  then have "plain_char (char_of (48 + i mod 10))"
    by (simp add: plain_char_def)
  with 1 show ?case by (subst (asm) dec_pos.simps) (auto split: if_splits)
qed

lemma plain_char_proposal_id: "c \<in> set (proposal_id n) \<Longrightarrow> plain_char c"
  using plain_char_dec_pos [of "int n" c] by (auto simp: proposal_id_def dec_nat_def plain_char_def)

lemma json_quote_includes_id: "js_includes (json_quote (proposal_id n)) (proposal_id n)"
proof -
  have "js_includes ([char_of (34::nat)] @ proposal_id n @ [char_of (34::nat)]) (proposal_id n)"
    by (intro js_includes_append2 js_includes_append1 js_includes_refl)
  then show ?thesis using json_quote_plain [of "proposal_id n"] plain_char_proposal_id [of _ n] by simp
qed

lemma json_member_text:
  assumes "(k, v) \<in> set es" "json_stringify v = Some s"
  shows "\<exists>json. json_stringify (JObj es) = Some json \<and> js_includes json (json_quote k @ '':'' @ s)"
proof -
  let ?parts = "concat (map (\<lambda>e. case json_stringify (snd e) of None \<Rightarrow> [] | Some s \<Rightarrow> [json_quote (fst e) @ '':'' @ s]) es)"
  have "json_quote k @ '':'' @ s \<in> set ?parts" using assms by force
  then have "js_includes (js_join '','' ?parts) (json_quote k @ '':'' @ s)" by (rule js_includes_join)
  then show ?thesis
    by (simp only: json_stringify.simps option.inject ex_simps simp_thms) (intro js_includes_append1 js_includes_append2)
qed

text \<open>The JSON text of a proposal mentions its id.\<close>

lemma proposal_node_mentions: "json_mentions (proposal_id n) (proposal_node n p) = Inr True"
proof -
  obtain json where json: "json_stringify (proposal_node n p) = Some json"
    and member: "js_includes json (json_quote ''id'' @ '':'' @ json_quote (proposal_id n))"
    unfolding proposal_node_def
    using json_member_text [OF list.set_intros(1) json_stringify.simps(6)] by blast
  have "js_includes json (proposal_id n)"
    by (rule js_includes_trans [OF member])
       (intro js_includes_append2 json_quote_includes_id)
  with json show ?thesis by (simp add: json_mentions_def js_includes_lower)
qed

lemma json_mentions_json: "v \<noteq> JUndef \<Longrightarrow> \<exists>b. json_mentions needle v = Inr b"
  by (cases v) (simp_all add: json_mentions_def)

lemma filter_res_total: "\<forall>x \<in> set xs. \<exists>b. p x = Inr b \<Longrightarrow> filter_res p xs = Inr (filter (\<lambda>x. p x = Inr True) xs)"
  by (induction xs) auto

definition json_graph :: "claim_graph \<Rightarrow> bool" where
  "json_graph g \<longleftrightarrow> JUndef \<notin> set (cg_nodes g) \<and> JUndef \<notin> set (cg_edges g)"

lemma claims_read_needle:
  assumes "json_graph g" "needle \<noteq> []" "needle \<noteq> ''{}''"
  shows "claims_read g (JStr needle) =
    Inr \<lparr>cg_nodes = filter (\<lambda>v. json_mentions needle v = Inr True) (cg_nodes g),
         cg_edges = filter (\<lambda>v. json_mentions needle v = Inr True) (cg_edges g)\<rparr>"
proof -
  have "\<exists>b. json_mentions needle v = Inr b" if "v \<in> set (cg_nodes g) \<union> set (cg_edges g)" for v
    using that assms(1) by (intro json_mentions_json) (auto simp: json_graph_def)
  then show ?thesis using assms(2,3) by (simp add: claims_read_def filter_res_total)
qed

lemma json_graph_submissions:
  assumes "json_graph g"
  shows "json_graph (foldl submit_or_skip g pas)"
  using assms submissions_ledger [of g pas]
  by (auto simp: json_graph_def numbered_nodes_json)

text \<open>
  C39. The claim graph is an append-only ledger behind its gate. Whatever proposals are submitted, with
  or without approval, the nodes afterwards are those from before followed by one node for each approved
  proposal, in order and numbered on, and the edges are the same; and every approved proposal can be read
  back: a query for its id gives a part of the graph that holds its node.
\<close>

theorem claim_graph_ledger:
  assumes "json_graph g" "foldl submit_or_skip g pas = g'"
  shows "cg_nodes g' = cg_nodes g @ numbered_nodes (length (cg_nodes g)) (approved pas) \<and> cg_edges g' = cg_edges g
    \<and> (\<forall>i < length (approved pas). \<exists>part.
         claims_read g' (JStr (proposal_id (length (cg_nodes g) + 1 + i))) = Inr part
       \<and> proposal_node (length (cg_nodes g) + 1 + i) (approved pas ! i) \<in> set (cg_nodes part)
       \<and> set (cg_nodes part) \<subseteq> set (cg_nodes g') \<and> set (cg_edges part) \<subseteq> set (cg_edges g'))"
proof -
  note ledger = submissions_ledger [of g pas, unfolded assms(2)]
  have json: "json_graph g'" using json_graph_submissions [OF assms(1), of pas] assms(2) by simp
  have id: "proposal_id n \<noteq> []" "proposal_id n \<noteq> ''{}''" for n by (simp_all add: proposal_id_def)
  show ?thesis
    using ledger
    by (auto simp: claims_read_needle [OF json id] proposal_node_mentions numbered_nodes_nth)
qed

definition demo_proposal :: claim_proposal where
  "demo_proposal = \<lparr>cp_operation = JObj [(''add'', JStr ''x'')], cp_justification = ''seen''\<rparr>"

definition demo_submissions :: "(claim_proposal \<times> mutation_approval) list" where
  "demo_submissions = [(demo_proposal, ByPolicy ''d1''), (demo_proposal, ByHuman []), (demo_proposal, ByHuman ''ann'')]"

theorem claim_graph_ledger_witness:
  "cg_nodes (foldl submit_or_skip empty_graph demo_submissions) = [proposal_node 1 demo_proposal, proposal_node 2 demo_proposal]"
proof -
  have "json_graph empty_graph" by (simp add: json_graph_def empty_graph_def)
  from claim_graph_ledger [OF this refl [of "foldl submit_or_skip empty_graph demo_submissions"], THEN conjunct1]
  show ?thesis by (simp add: approved_def demo_submissions_def empty_graph_def numeral_2_eq_2)
qed

end
