(* ===== verification/Icp.thy ===== *)
theory Icp
  imports Wasm_Engine Adapters
begin

text \<open>
  The client of the ICP runtime canister (\<open>icp/index.ts\<close>) and the harness adapter over it
  (\<open>adapters/icp.ts\<close>). The canister is outside the TypeScript sources: an actor is a record with one
  function for each method of \<open>AgentRuntimeActor\<close>, which answers with a record of the interface or
  rejects, and changes the world \<open>'w\<close>. A \<open>bigint | number\<close> is an \<open>int\<close>, a text
  that may be \<open>null\<close> or \<open>[]\<close> is an \<open>option\<close>.
\<close>

section \<open>Answers of the canister\<close>

record health_dto =
  he_ok :: bool
  he_message :: string

record inspection_dto =
  is_ok :: bool
  is_engine :: string
  is_graph_loaded :: bool
  is_graph_id :: "string option"
  is_graph_hash :: "string option"
  is_implementation_id :: "string option"
  is_execution_count :: int
  is_capabilities :: "string list option"
  is_limitations :: "string list option"
  is_message :: string
  is_schema_version :: int
  is_handoff_count :: int

record status_dto =
  sd_kind :: string
  sd_detail :: string

text \<open>\<open>status\<close> and \<open>tokens\<close> of a report may be absent, as the adapter allows for.\<close>

record run_report_dto =
  rr_ok :: bool
  rr_execution_id :: string
  rr_status :: "status_dto option"
  rr_steps :: int
  rr_tokens :: "int option"
  rr_cost_micros :: int
  rr_state_json :: string
  rr_event_count :: int
  rr_message :: string

record events_dto =
  es_ok :: bool
  es_execution_id :: string
  es_events_json :: string
  es_message :: string

record checkpoint_dto =
  kd_ok :: bool
  kd_execution_id :: string
  kd_present :: bool
  kd_checkpoint_json :: string
  kd_message :: string

record budget_dto =
  bd_ok :: bool
  bd_tool_calls :: int
  bd_tool_units :: int
  bd_llm_calls :: int
  bd_retrieval_calls :: int
  bd_effect_rounds :: int
  bd_knolo_steps :: int
  bd_knolo_tokens :: int
  bd_knolo_cost_micros :: int
  bd_cycles_spent_observed :: int
  bd_last_cycles_balance :: "int option"
  bd_message :: string

record limits_dto =
  ld_ok :: bool
  ld_max_concurrent_executions :: int
  ld_max_events_per_execution :: int
  ld_max_execution_id_len :: int
  ld_max_state_bytes :: int
  ld_max_handoff_bytes :: int
  ld_require_controller_for_runs :: bool
  ld_allowed_callers :: "string list"
  ld_min_cycles_reserve :: int
  ld_message :: string

record store_stats_dto =
  st_ok :: bool
  st_schema_version :: int
  st_execution_count :: int
  st_checkpoint_count :: int
  st_event_entry_count :: int
  st_handoff_count :: int
  st_has_definition :: bool
  st_message :: string

record execution_list_dto =
  el_ok :: bool
  el_execution_ids :: "string list"
  el_message :: string

record handoff_dto =
  hd_ok :: bool
  hd_handoff_id :: string
  hd_execution_id :: string
  hd_destination :: string
  hd_status :: string
  hd_message :: string

section \<open>The actor\<close>

text \<open>A JSON argument is \<open>None\<close> where the client passes \<open>undefined\<close> for it.\<close>

type_synonym ('d, 'w) canister_call = "'w \<Rightarrow> 'd result \<times> 'w"

record 'w runtime_actor =
  at_health :: "(health_dto, 'w) canister_call"
  at_inspect :: "(inspection_dto, 'w) canister_call"
  at_get_budget :: "(budget_dto, 'w) canister_call"
  at_get_limits :: "(limits_dto, 'w) canister_call"
  at_get_store_stats :: "(store_stats_dto, 'w) canister_call"
  at_list_executions :: "(execution_list_dto, 'w) canister_call"
  at_load_definition :: "string option \<Rightarrow> (health_dto, 'w) canister_call"
  at_clear_definition :: "(health_dto, 'w) canister_call"
  at_set_limits :: "int \<Rightarrow> int \<Rightarrow> int \<Rightarrow> bool \<Rightarrow> string list \<Rightarrow> int \<Rightarrow> (limits_dto, 'w) canister_call"
  at_start_execution :: "string \<Rightarrow> string option \<Rightarrow> (run_report_dto, 'w) canister_call"
  at_step :: "string \<Rightarrow> int \<Rightarrow> (run_report_dto, 'w) canister_call"
  at_resume :: "string \<Rightarrow> (run_report_dto, 'w) canister_call"
  at_continue_effects :: "string \<Rightarrow> (run_report_dto, 'w) canister_call"
  at_accept_handoff :: "string \<Rightarrow> string option \<Rightarrow> string option \<Rightarrow> string option \<Rightarrow> (handoff_dto, 'w) canister_call"
  at_forward_handoff :: "string \<Rightarrow> string \<Rightarrow> string option \<Rightarrow> string option \<Rightarrow> string option \<Rightarrow> (handoff_dto, 'w) canister_call"
  at_get_handoff :: "string \<Rightarrow> (handoff_dto, 'w) canister_call"
  at_get_events :: "string \<Rightarrow> (events_dto, 'w) canister_call"
  at_get_checkpoint :: "string \<Rightarrow> (checkpoint_dto, 'w) canister_call"

section \<open>The client\<close>

text \<open>\<open>stringify_output\<close> is the code's \<open>typeof v === "string" ? v : JSON.stringify(v)\<close>.\<close>

definition client_load_definition :: "'w runtime_actor \<Rightarrow> jsval \<Rightarrow> (health_dto, 'w) canister_call" where
  "client_load_definition actor def = at_load_definition actor (stringify_output def)"

record limit_options =
  lo_max_concurrent_executions :: "int option"
  lo_max_events_per_execution :: "int option"
  lo_max_state_bytes :: "int option"
  lo_require_controller_for_runs :: "bool option"
  lo_allowed_callers :: "string list option"
  lo_min_cycles_reserve :: "int option"

definition client_set_limits :: "'w runtime_actor \<Rightarrow> limit_options \<Rightarrow> (limits_dto, 'w) canister_call" where
  "client_set_limits actor opts =
     at_set_limits actor (given_or 0 (lo_max_concurrent_executions opts)) (given_or 0 (lo_max_events_per_execution opts))
       (given_or 0 (lo_max_state_bytes opts)) (given_or False (lo_require_controller_for_runs opts))
       (given_or [] (lo_allowed_callers opts)) (given_or 0 (lo_min_cycles_reserve opts))"

definition client_start_execution :: "'w runtime_actor \<Rightarrow> string \<Rightarrow> jsval \<Rightarrow> (run_report_dto, 'w) canister_call" where
  "client_start_execution actor i initial = at_start_execution actor i (stringify_output initial)"

definition client_step :: "'w runtime_actor \<Rightarrow> string \<Rightarrow> int option \<Rightarrow> (run_report_dto, 'w) canister_call" where
  "client_step actor i steps = at_step actor i (given_or 1 steps)"

definition client_accept_handoff :: "'w runtime_actor \<Rightarrow> string \<Rightarrow> jsval \<Rightarrow> jsval \<Rightarrow> jsval \<Rightarrow> (handoff_dto, 'w) canister_call" where
  "client_accept_handoff actor i envelope state authority =
     at_accept_handoff actor i (stringify_output envelope) (stringify_output state) (stringify_output authority)"

definition client_forward_handoff :: "'w runtime_actor \<Rightarrow> string \<Rightarrow> string \<Rightarrow> jsval \<Rightarrow> jsval \<Rightarrow> jsval \<Rightarrow> (handoff_dto, 'w) canister_call" where
  "client_forward_handoff actor peer i envelope state authority =
     at_forward_handoff actor peer i (stringify_output envelope) (stringify_output state) (stringify_output authority)"

text \<open>The other methods hand the call on.\<close>

definition client_health :: "'w runtime_actor \<Rightarrow> (health_dto, 'w) canister_call" where
  "client_health actor = at_health actor"

definition client_inspect :: "'w runtime_actor \<Rightarrow> (inspection_dto, 'w) canister_call" where
  "client_inspect actor = at_inspect actor"

definition client_get_budget :: "'w runtime_actor \<Rightarrow> (budget_dto, 'w) canister_call" where
  "client_get_budget actor = at_get_budget actor"

definition client_get_limits :: "'w runtime_actor \<Rightarrow> (limits_dto, 'w) canister_call" where
  "client_get_limits actor = at_get_limits actor"

definition client_get_store_stats :: "'w runtime_actor \<Rightarrow> (store_stats_dto, 'w) canister_call" where
  "client_get_store_stats actor = at_get_store_stats actor"

definition client_list_executions :: "'w runtime_actor \<Rightarrow> (execution_list_dto, 'w) canister_call" where
  "client_list_executions actor = at_list_executions actor"

definition client_clear_definition :: "'w runtime_actor \<Rightarrow> (health_dto, 'w) canister_call" where
  "client_clear_definition actor = at_clear_definition actor"

definition client_resume :: "'w runtime_actor \<Rightarrow> string \<Rightarrow> (run_report_dto, 'w) canister_call" where
  "client_resume actor i = at_resume actor i"

definition client_continue_effects :: "'w runtime_actor \<Rightarrow> string \<Rightarrow> (run_report_dto, 'w) canister_call" where
  "client_continue_effects actor i = at_continue_effects actor i"

definition client_get_handoff :: "'w runtime_actor \<Rightarrow> string \<Rightarrow> (handoff_dto, 'w) canister_call" where
  "client_get_handoff actor i = at_get_handoff actor i"

definition client_get_events :: "'w runtime_actor \<Rightarrow> string \<Rightarrow> (events_dto, 'w) canister_call" where
  "client_get_events actor i = at_get_events actor i"

definition client_get_checkpoint :: "'w runtime_actor \<Rightarrow> string \<Rightarrow> (checkpoint_dto, 'w) canister_call" where
  "client_get_checkpoint actor i = at_get_checkpoint actor i"

section \<open>The portable counter\<close>

definition counter_graph :: graph_definition where
  "counter_graph =
     \<lparr>gd_version = 1, gd_id = ''portable-counter'', gd_state_schema = ''counter-state'', gd_entry = ''increment'',
      gd_nodes =
        [\<lparr>nd_id = ''increment'', nd_terminal = False, nd_reads = [''/count''], nd_writes = [''/count'']\<rparr>,
         \<lparr>nd_id = ''done'', nd_terminal = True, nd_reads = [''/count''], nd_writes = []\<rparr>],
      gd_transitions =
        [\<lparr>td_id = ''increment.continue.done'', td_from = ''increment'', td_route = ''continue'', td_to = ''done''\<rparr>],
      gd_cycles = [],
      gd_limits = \<lparr>max_steps = Whole 10, max_tokens = 100, max_cost_micros = 1000, timeout_ms = Whole 30000\<rparr>\<rparr>"

definition counter_schema :: state_schema where
  "counter_schema = \<lparr>ss_id = ''counter-state'', ss_paths = [(''/count'', VNumber)], ss_required = [''/count'']\<rparr>"

definition portable_counter_definition :: jsval where
  "portable_counter_definition = JObj
     [(''version'', JNum 1), (''implementation_id'', JStr ''portable-counter-v1''), (''pack_hash'', JStr ''pack-none''),
      (''policy_hash'', JStr ''policy-none''), (''contract_hash'', JStr ''contract-none''),
      (''graph'', graph_json counter_graph), (''schema'', schema_json counter_schema)]"

definition portable_counter_initial_state :: "int option \<Rightarrow> jsval" where
  "portable_counter_initial_state n = JObj
     [(''schema_id'', JStr ''counter-state''), (''revision'', JNum 0),
      (''value'', JObj [(''count'', JNum (given_or 0 n))]), (''provenance'', JNull)]"

section \<open>The adapter\<close>

text \<open>
  A failed report is itself the output of the result. The amounts in it are written as numbers; an actor
  that hands out \<open>bigint\<close>s puts those there, which \<open>jsval\<close> does not have.
\<close>

definition report_dto_json :: "run_report_dto \<Rightarrow> jsval" where
  "report_dto_json r = JObj
     [(''ok'', JBool (rr_ok r)), (''execution_id'', JStr (rr_execution_id r)),
      (''status'', (case rr_status r of None \<Rightarrow> JUndef
         | Some s \<Rightarrow> JObj [(''kind'', JStr (sd_kind s)), (''detail'', JStr (sd_detail s))])),
      (''steps'', JNum (rr_steps r)), (''tokens'', optional_int (rr_tokens r)), (''cost_micros'', JNum (rr_cost_micros r)),
      (''state_json'', JStr (rr_state_json r)), (''event_count'', JNum (rr_event_count r)), (''message'', JStr (rr_message r))]"

definition from_icp_report :: "(string \<Rightarrow> jsval option) \<Rightarrow> run_report_dto \<Rightarrow> invocation_result" where
  "from_icp_report parse r =
     (if \<not> rr_ok r
      then \<lparr>res_status = Failed, res_output = report_dto_json r,
             res_error = Some (if rr_message r = [] then ''icp execution failed'' else rr_message r),
             res_tool_calls = None, res_tokens = None\<rparr>
      else
        let (kind, detail) = (case rr_status r of Some s \<Rightarrow> (sd_kind s, sd_detail s) | None \<Rightarrow> ([], []));
            make = (\<lambda>status error. \<lparr>res_status = status, res_output = parse_or_text parse (rr_state_json r), res_error = error,
              res_tool_calls = None, res_tokens = Some (given_or 0 (rr_tokens r))\<rparr>)
        in if kind = ''terminated'' then make Succeeded None
           else if kind = ''suspended'' then make Suspended (Some detail)
           else if kind = ''failed'' \<or> kind = ''cancelled'' then make Failed (Some (if detail = [] then kind else detail))
           else make Partial None)"

record 'w icp_options =
  ic_client :: "'w runtime_actor option"
  ic_actor :: "'w runtime_actor option"
  ic_id :: "string option"
  ic_execution_id :: "string option"

text \<open>A client is its actor. The adapter keeps the capabilities it saw last beside the world.\<close>

record 'w icp_world =
  iw_cached :: "agent_capabilities option"
  iw_host :: 'w

definition icp_client :: "'w icp_options \<Rightarrow> 'w runtime_actor result" where
  "icp_client opts =
     (case ic_client opts of
        Some client \<Rightarrow> Inr client
      | None \<Rightarrow> (case ic_actor opts of
          Some actor \<Rightarrow> Inr actor
        | None \<Rightarrow> Inl (HarnessError ''icpAgent requires a host-supplied IcpAgentRuntimeClient or actor'')))"

definition icp_descriptor :: "'w icp_options \<Rightarrow> agent_descriptor" where
  "icp_descriptor opts = (let i = given_or ''icp'' (ic_id opts) in \<lparr>ad_id = i, ad_name = i, ad_level = Platform\<rparr>)"

definition unseen_capabilities :: agent_capabilities where
  "unseen_capabilities = limited_capabilities Platform False True True
     [''ICP canister host; capabilities are those the Candid surface actually exposes'']"

definition icp_capabilities :: "'w icp_world \<Rightarrow> agent_capabilities \<times> 'w icp_world" where
  "icp_capabilities w =
     (case iw_cached w of
        Some c \<Rightarrow> (c, w)
      | None \<Rightarrow> (unseen_capabilities, w\<lparr>iw_cached := Some unseen_capabilities\<rparr>))"

definition inspected_capabilities :: "inspection_dto \<Rightarrow> agent_capabilities" where
  "inspected_capabilities i =
     limited_capabilities Platform (''tools'' \<in> set (given_or [] (is_capabilities i))) True True
       (case is_limitations i of Some (l # ls) \<Rightarrow> l # ls | _ \<Rightarrow> [''ICP canister host''])"

definition icp_invoke :: "(string \<Rightarrow> jsval option) \<Rightarrow> 'w runtime_actor \<Rightarrow> 'w icp_options \<Rightarrow> 'w icp_world invoke" where
  "icp_invoke parse client opts inp ctx w =
     (case client_inspect client (iw_host w) of
        (Inl e, h) \<Rightarrow> Done (w\<lparr>iw_host := h\<rparr>) (Inl e)
      | (Inr inspection, h) \<Rightarrow>
          (case client_start_execution client (given_or (hc_run_id ctx) (ic_execution_id opts))
               (nullish_or (nullish_or inp (inputs (hc_task ctx))) (JObj [])) h of
             (answer, h) \<Rightarrow> Done (w\<lparr>iw_cached := Some (inspected_capabilities inspection), iw_host := h\<rparr>)
                 (bind_res answer (\<lambda>r. Inr (from_icp_report parse r)))))"

definition icp_agent :: "(string \<Rightarrow> jsval option) \<Rightarrow> 'w icp_options \<Rightarrow> 'w icp_world invoke result" where
  "icp_agent parse opts = bind_res (icp_client opts) (\<lambda>client. Inr (icp_invoke parse client opts))"

record harness_checkpoint =
  hk_run_id :: string
  hk_adapter_id :: string
  hk_payload :: jsval

definition resumed_execution :: "harness_checkpoint \<Rightarrow> string" where
  "resumed_execution c =
     (case hk_payload c of
        JObj es \<Rightarrow> if has_member es ''executionId'' then js_to_string (js_get es ''executionId'') else hk_run_id c
      | _ \<Rightarrow> hk_run_id c)"

definition icp_resume :: "(string \<Rightarrow> jsval option) \<Rightarrow> 'w runtime_actor \<Rightarrow> harness_checkpoint \<Rightarrow> 'w icp_world
    \<Rightarrow> invocation_result result \<times> 'w icp_world" where
  "icp_resume parse client c w =
     (case client_resume client (resumed_execution c) (iw_host w) of
        (answer, h) \<Rightarrow> (bind_res answer (\<lambda>r. Inr (from_icp_report parse r)), w\<lparr>iw_host := h\<rparr>))"

section \<open>What the adapter reports\<close>

text \<open>An execution has succeeded exactly when the canister says so: the report is ok and terminated.\<close>

definition report_kind :: "run_report_dto \<Rightarrow> string" where
  "report_kind r = (case rr_status r of Some s \<Rightarrow> sd_kind s | None \<Rightarrow> [])"

lemma from_icp_report_status:
  "res_status (from_icp_report parse r) =
     (if \<not> rr_ok r \<or> report_kind r \<in> {''failed'', ''cancelled''} then Failed
      else if report_kind r = ''terminated'' then Succeeded
      else if report_kind r = ''suspended'' then Suspended
      else Partial)"
  by (simp add: from_icp_report_def report_kind_def Let_def split: option.split)

lemma from_icp_report_ok:
  assumes "rr_ok r"
  shows "res_output (from_icp_report parse r) = parse_or_text parse (rr_state_json r)"
    "res_tokens (from_icp_report parse r) = Some (given_or 0 (rr_tokens r))"
  using assms by (simp_all add: from_icp_report_def Let_def split: option.split)

lemma from_icp_report_failed:
  assumes "res_status (from_icp_report parse r) = Failed"
  shows "\<exists>m. res_error (from_icp_report parse r) = Some m \<and> m \<noteq> []"
  using assms by (auto simp: from_icp_report_def Let_def split: option.splits if_splits)

text \<open>
  An invocation of the ICP adapter that returns has inspected the canister and started one execution
  there, with the configured id or else that of the run, and the input of the invocation, or else of the
  task, as its state. The result is a success exactly when the canister reported a terminated
  execution, then with the state of that report as output; every failure has a message; and the capabilities
  the adapter reports from then on are those of the inspection.
\<close>

theorem icp_invocation_faithful:
  assumes "icp_agent parse opts = Inr invoke" "icp_client opts = Inr client"
    and "invoke inp ctx w = Done w' (Inr r)"
  shows "\<exists>inspection h report.
      at_inspect client (iw_host w) = (Inr inspection, h)
    \<and> at_start_execution client (given_or (hc_run_id ctx) (ic_execution_id opts))
        (stringify_output (nullish_or (nullish_or inp (inputs (hc_task ctx))) (JObj []))) h = (Inr report, iw_host w')
    \<and> (res_status r = Succeeded \<longleftrightarrow> rr_ok report \<and> report_kind report = ''terminated'')
    \<and> (rr_ok report \<longrightarrow> res_output r = parse_or_text parse (rr_state_json report))
    \<and> (res_status r = Failed \<longrightarrow> (\<exists>m. res_error r = Some m \<and> m \<noteq> []))
    \<and> icp_capabilities w' = (inspected_capabilities inspection, w')"
proof -
  from assms(1,2) have invoke: "invoke = icp_invoke parse client opts" by (simp add: icp_agent_def)
  note run = assms(3) [unfolded invoke icp_invoke_def client_start_execution_def client_inspect_def]
  from run obtain inspection h where 1: "at_inspect client (iw_host w) = (Inr inspection, h)"
    by (auto split: prod.splits sum.splits)
  with run obtain report where 2: "at_start_execution client (given_or (hc_run_id ctx) (ic_execution_id opts))
      (stringify_output (nullish_or (nullish_or inp (inputs (hc_task ctx))) (JObj []))) h = (Inr report, iw_host w')"
    "r = from_icp_report parse report" "iw_cached w' = Some (inspected_capabilities inspection)"
    by (auto split: prod.splits simp: bind_res_eq_Inr)
  then show ?thesis
    using 1 from_icp_report_ok(1) from_icp_report_failed
    by (auto simp: from_icp_report_status icp_capabilities_def)
qed

section \<open>The counter is a valid agent\<close>

text \<open>
  The counter the client ships for smoke tests passes the checks of the package itself: its graph is a
  valid definition over the declared paths, and every initial state it builds satisfies its schema.
\<close>

theorem portable_counter_valid:
  "validate_definition counter_graph = Inr () \<and> validate_graph_state_paths counter_graph counter_schema = Inr ()
    \<and> validate_state counter_schema (member_get (portable_counter_initial_state n) ''value'') = Inr ()"
proof -
  have count: "read_path (JObj [(''count'', v)]) ''/count'' = v" for v by code_simp
  have "validate_state counter_schema (member_get (portable_counter_initial_state n) ''value'') = Inr ()"
    by (simp add: validate_state_def counter_schema_def portable_counter_initial_state_def js_get_def count)
  moreover have "validate_definition counter_graph = Inr ()" "validate_graph_state_paths counter_graph counter_schema = Inr ()"
    by code_simp+
  ultimately show ?thesis by simp
qed

section \<open>A canister\<close>

text \<open>A canister that counts its calls and terminates every execution at once in the state it was given.\<close>

definition refuse :: "('d, nat) canister_call" where
  "refuse w = (Inl (PlainError ''refused''), w + 1)"

definition echo_report :: "string \<Rightarrow> string option \<Rightarrow> run_report_dto" where
  "echo_report i state = \<lparr>rr_ok = True, rr_execution_id = i, rr_status = Some \<lparr>sd_kind = ''terminated'', sd_detail = []\<rparr>,
     rr_steps = 2, rr_tokens = Some 5, rr_cost_micros = 0, rr_state_json = given_or [] state, rr_event_count = 0, rr_message = []\<rparr>"

definition echo_inspection :: inspection_dto where
  "echo_inspection = \<lparr>is_ok = True, is_engine = ''icp'', is_graph_loaded = True, is_graph_id = None, is_graph_hash = None,
     is_implementation_id = None, is_execution_count = 0, is_capabilities = Some [''tools''], is_limitations = None,
     is_message = [], is_schema_version = 1, is_handoff_count = 0\<rparr>"

definition echo_actor :: "nat runtime_actor" where
  "echo_actor = \<lparr>at_health = refuse, at_inspect = (\<lambda>w. (Inr echo_inspection, w + 1)), at_get_budget = refuse,
     at_get_limits = refuse, at_get_store_stats = refuse, at_list_executions = refuse, at_load_definition = (\<lambda>_. refuse),
     at_clear_definition = refuse, at_set_limits = (\<lambda>_ _ _ _ _ _. refuse),
     at_start_execution = (\<lambda>i state w. (Inr (echo_report i state), w + 1)), at_step = (\<lambda>_ _. refuse),
     at_resume = (\<lambda>_. refuse), at_continue_effects = (\<lambda>_. refuse), at_accept_handoff = (\<lambda>_ _ _ _. refuse),
     at_forward_handoff = (\<lambda>_ _ _ _ _. refuse), at_get_handoff = (\<lambda>_. refuse), at_get_events = (\<lambda>_. refuse),
     at_get_checkpoint = (\<lambda>_. refuse)\<rparr>"

definition echo_options :: "nat icp_options" where
  "echo_options = \<lparr>ic_client = None, ic_actor = Some echo_actor, ic_id = None, ic_execution_id = None\<rparr>"

definition echo_context :: harness_context where
  "echo_context = \<lparr>hc_run_id = ''run-1'', hc_task = env_task demo_envelope, hc_task_json = JNull, hc_envelope = demo_envelope\<rparr>"

theorem icp_invocation_faithful_witness:
  "\<exists>r w'. icp_invoke (\<lambda>_. None) echo_actor echo_options (JStr ''s'') echo_context \<lparr>iw_cached = None, iw_host = 0\<rparr> = Done w' (Inr r)
     \<and> iw_host w' = 2 \<and> res_status r = Succeeded \<and> res_output r = JStr ''s''
     \<and> icp_capabilities w' = (inspected_capabilities echo_inspection, w')"
proof -
  let ?w = "\<lparr>iw_cached = None, iw_host = 0\<rparr>"
  let ?invoke = "icp_invoke (\<lambda>_. None) echo_actor echo_options"
  have client: "icp_client echo_options = Inr echo_actor" by (simp add: icp_client_def echo_options_def)
  then have agent: "icp_agent (\<lambda>_. None) echo_options = Inr ?invoke" by (simp add: icp_agent_def)
  have "\<exists>w' r. ?invoke (JStr ''s'') echo_context ?w = Done w' (Inr r)"
    by (simp add: icp_invoke_def echo_actor_def client_start_execution_def client_inspect_def)
  then obtain w' r where run: "?invoke (JStr ''s'') echo_context ?w = Done w' (Inr r)" by blast
  from icp_invocation_faithful [OF agent client run] run show ?thesis
    by (auto simp: echo_actor_def echo_report_def report_kind_def echo_options_def echo_context_def given_or_def
        nullish_or_def parse_or_text_def)
qed

end
