(* ===== verification/Icp_Canister.thy ===== *)
theory Icp_Canister
  imports Icp Harness_Session
begin

text \<open>
  The gate of the runtime canister (\<open>crates/knolo-agent-icp\<close>: \<open>limits.rs\<close>, \<open>auth.rs\<close>,
  \<open>set_limits\<close> and the guards of \<open>start_execution\<close>), which is the Rust code that decides what
  the TypeScript client of \<open>Icp\<close> may do, and the two together. Unsigned integers are integers; Candid
  refuses the others. What the canister does after its guards is the parameter \<open>run\<close> of the actor.
\<close>

section \<open>Limits and access\<close>

record runtime_limits =
  rl_max_concurrent_executions :: int
  rl_max_events_per_execution :: int
  rl_max_execution_id_len :: int
  rl_max_state_bytes :: int
  rl_max_handoff_bytes :: int
  rl_max_execution_record_bytes :: int
  rl_require_controller_for_runs :: bool
  rl_allowed_callers :: "string list"
  rl_min_cycles_reserve :: int
  rl_version :: int

definition initial_limits :: runtime_limits where
  "initial_limits = \<lparr>rl_max_concurrent_executions = 32, rl_max_events_per_execution = 10000, rl_max_execution_id_len = 128,
     rl_max_state_bytes = 512 * 1024, rl_max_handoff_bytes = 256 * 1024, rl_max_execution_record_bytes = 2 * 1024 * 1024,
     rl_require_controller_for_runs = False, rl_allowed_callers = [], rl_min_cycles_reserve = 0, rl_version = 1\<rparr>"

definition require_controller :: "string \<Rightarrow> bool \<Rightarrow> string + unit" where
  "require_controller caller controller =
     (if controller then Inr ()
      else Inl (''Unauthorized: caller '' @ caller @ '' is not a controller of this canister.''))"

definition require_run_access :: "string \<Rightarrow> bool \<Rightarrow> runtime_limits \<Rightarrow> string + unit" where
  "require_run_access caller controller limits =
     (if controller then Inr ()
      else if rl_require_controller_for_runs limits
        then Inl (''Unauthorized: runs require a controller (caller '' @ caller @ '').'')
      else if rl_allowed_callers limits = [] then Inr ()
      else if caller \<in> set (rl_allowed_callers limits) then Inr ()
      else Inl (''Unauthorized: caller '' @ caller @ '' is not in allowed_callers.''))"

definition require_cycles_reserve :: "int option \<Rightarrow> runtime_limits \<Rightarrow> string + unit" where
  "require_cycles_reserve balance limits =
     (if rl_min_cycles_reserve limits = 0 then Inr ()
      else case balance of
        Some b \<Rightarrow> if b < rl_min_cycles_reserve limits
          then Inl (''cycles reserve too low: balance '' @ dec_int b @ '' < min '' @ dec_int (rl_min_cycles_reserve limits))
          else Inr ()
      | None \<Rightarrow> Inr ())"

definition execution_id_char :: "char \<Rightarrow> bool" where
  "execution_id_char c \<longleftrightarrow> (let n = (of_char c :: nat) in
     48 \<le> n \<and> n \<le> 57 \<or> 65 \<le> n \<and> n \<le> 90 \<or> 97 \<le> n \<and> n \<le> 122 \<or> c = CHR ''-'' \<or> c = CHR ''_'' \<or> c = CHR ''.'')"

text \<open>\<open>len\<close> of a Rust string counts the bytes of its UTF-8 encoding.\<close>

definition validate_execution_id :: "runtime_limits \<Rightarrow> string \<Rightarrow> string + unit" where
  "validate_execution_id limits i =
     (if i = [] then Inl ''execution_id must be non-empty''
      else if rl_max_execution_id_len limits < int (length (utf8 i))
        then Inl (''execution_id length '' @ dec_nat (length (utf8 i)) @ '' exceeds max '' @ dec_int (rl_max_execution_id_len limits))
      else if \<not> list_all execution_id_char i
        then Inl (''execution_id may only contain ASCII alphanumerics, '' @ [CHR 0x27] @ ''-'' @ [CHR 0x27] @ '', ''
          @ [CHR 0x27] @ ''_'' @ [CHR 0x27] @ '', '' @ [CHR 0x27] @ ''.'' @ [CHR 0x27])
      else Inr ())"

definition validate_state_bytes :: "runtime_limits \<Rightarrow> string \<Rightarrow> string + unit" where
  "validate_state_bytes limits state =
     (if rl_max_state_bytes limits < int (length (utf8 state))
      then Inl (''state JSON size '' @ dec_nat (length (utf8 state)) @ '' exceeds max '' @ dec_int (rl_max_state_bytes limits))
      else Inr ())"

definition check_capacity :: "runtime_limits \<Rightarrow> nat \<Rightarrow> string + unit" where
  "check_capacity limits n =
     (if rl_max_concurrent_executions limits \<le> int n
      then Inl (''max concurrent executions reached ('' @ dec_int (rl_max_concurrent_executions limits) @ '')'')
      else Inr ())"

section \<open>The canister as an actor\<close>

record 'w canister =
  cn_limits :: runtime_limits
  cn_executions :: "string list"
  cn_rest :: 'w

text \<open>Who calls, with what balance, and whether writing to stable memory fails.\<close>

record canister_caller =
  cl_principal :: string
  cl_controller :: bool
  cl_balance :: "int option"
  cl_persist_error :: "string option"

definition limits_error :: "string \<Rightarrow> limits_dto" where
  "limits_error m = \<lparr>ld_ok = False, ld_max_concurrent_executions = 0, ld_max_events_per_execution = 0, ld_max_execution_id_len = 0,
     ld_max_state_bytes = 0, ld_max_handoff_bytes = 0, ld_require_controller_for_runs = False, ld_allowed_callers = [],
     ld_min_cycles_reserve = 0, ld_message = m\<rparr>"

definition limits_answer :: "runtime_limits \<Rightarrow> limits_dto" where
  "limits_answer l = \<lparr>ld_ok = True, ld_max_concurrent_executions = rl_max_concurrent_executions l,
     ld_max_events_per_execution = rl_max_events_per_execution l, ld_max_execution_id_len = rl_max_execution_id_len l,
     ld_max_state_bytes = rl_max_state_bytes l, ld_max_handoff_bytes = rl_max_handoff_bytes l,
     ld_require_controller_for_runs = rl_require_controller_for_runs l, ld_allowed_callers = rl_allowed_callers l,
     ld_min_cycles_reserve = min (rl_min_cycles_reserve l) (2 ^ 64 - 1), ld_message = ''runtime limits''\<rparr>"

text \<open>
  The text of a \<open>CoreError::Host\<close>, the debug form of the value; none of the messages below has a
  character that this form escapes.
\<close>

definition host_error :: "string \<Rightarrow> string" where
  "host_error m = ''Host('' @ [CHR 0x22] @ m @ [CHR 0x22] @ '')''"

text \<open>\<open>set_limits\<close> of the engine.\<close>

definition engine_set_limits :: "runtime_limits \<Rightarrow> string + unit" where
  "engine_set_limits limits =
     (if rl_version limits \<noteq> 1 then Inl (host_error (''unsupported limits version '' @ dec_int (rl_version limits)))
      else if rl_max_concurrent_executions limits = 0 then Inl (host_error ''max_concurrent_executions must be > 0'')
      else Inr ())"

definition changed_limits :: "int \<Rightarrow> int \<Rightarrow> int \<Rightarrow> bool \<Rightarrow> string list \<Rightarrow> int \<Rightarrow> runtime_limits \<Rightarrow> runtime_limits" where
  "changed_limits concurrent events bytes controller callers reserve l =
     l\<lparr>rl_max_concurrent_executions := if concurrent > 0 then concurrent else rl_max_concurrent_executions l,
       rl_max_events_per_execution := if events > 0 then events else rl_max_events_per_execution l,
       rl_max_state_bytes := if bytes > 0 then bytes else rl_max_state_bytes l,
       rl_require_controller_for_runs := controller, rl_allowed_callers := callers, rl_min_cycles_reserve := reserve\<rparr>"

definition canister_set_limits :: "canister_caller \<Rightarrow> int \<Rightarrow> int \<Rightarrow> int \<Rightarrow> bool \<Rightarrow> string list \<Rightarrow> int
    \<Rightarrow> (limits_dto, 'w canister) canister_call" where
  "canister_set_limits who concurrent events bytes controller callers reserve w =
     (case require_controller (cl_principal who) (cl_controller who) of
        Inl m \<Rightarrow> (Inr (limits_error m), w)
      | Inr _ \<Rightarrow>
          let limits = changed_limits concurrent events bytes controller callers reserve (cn_limits w) in
          (case engine_set_limits limits of
             Inl m \<Rightarrow> (Inr (limits_error m), w)
           | Inr _ \<Rightarrow> (Inr (case cl_persist_error who of
                 Some m \<Rightarrow> limits_error (''limits set but persist failed: '' @ m)
               | None \<Rightarrow> limits_answer limits), w\<lparr>cn_limits := limits\<rparr>)))"

definition report_error :: "string \<Rightarrow> string \<Rightarrow> run_report_dto" where
  "report_error i m = \<lparr>rr_ok = False, rr_execution_id = i, rr_status = Some \<lparr>sd_kind = ''error'', sd_detail = []\<rparr>, rr_steps = 0,
     rr_tokens = Some 0, rr_cost_micros = 0, rr_state_json = ''{}'', rr_event_count = 0, rr_message = m\<rparr>"

text \<open>\<open>guard_new_execution\<close>.\<close>

definition guard_new_execution :: "runtime_limits \<Rightarrow> string list \<Rightarrow> string \<Rightarrow> string \<Rightarrow> string + unit" where
  "guard_new_execution limits executions i state =
     (case validate_execution_id limits i of Inl m \<Rightarrow> Inl (host_error m) | Inr _ \<Rightarrow>
      case validate_state_bytes limits state of Inl m \<Rightarrow> Inl (host_error m) | Inr _ \<Rightarrow>
      case check_capacity limits (length executions) of Inl m \<Rightarrow> Inl (host_error m) | Inr _ \<Rightarrow>
      if i \<in> set executions then Inl (host_error (''execution '' @ [CHR 0x27] @ i @ [CHR 0x27] @ '' already exists'')) else Inr ())"

type_synonym 'w canister_run = "string \<Rightarrow> string \<Rightarrow> 'w canister \<Rightarrow> run_report_dto \<times> 'w canister"

definition canister_start :: "canister_caller \<Rightarrow> 'w canister_run \<Rightarrow> string \<Rightarrow> string option \<Rightarrow> (run_report_dto, 'w canister) canister_call" where
  "canister_start who run i state w =
     (case state of
        None \<Rightarrow> (Inl (PlainError ''Invalid text argument: undefined''), w)
      | Some json \<Rightarrow>
          (case require_run_access (cl_principal who) (cl_controller who) (cn_limits w) of
             Inl m \<Rightarrow> (Inr (report_error i m), w)
           | Inr _ \<Rightarrow> (case require_cycles_reserve (cl_balance who) (cn_limits w) of
               Inl m \<Rightarrow> (Inr (report_error i m), w)
             | Inr _ \<Rightarrow> (case guard_new_execution (cn_limits w) (cn_executions w) i json of
                 Inl m \<Rightarrow> (Inr (report_error i m), w)
               | Inr _ \<Rightarrow> (case run i json w of (r, w') \<Rightarrow> (Inr r, w'))))))"

definition canister_actor :: "canister_caller \<Rightarrow> 'w canister_run \<Rightarrow> 'w canister runtime_actor \<Rightarrow> 'w canister runtime_actor" where
  "canister_actor who run rest = rest\<lparr>at_set_limits := canister_set_limits who, at_start_execution := canister_start who run\<rparr>"

section \<open>The client and the gate\<close>

lemma require_run_access_iff:
  "require_run_access caller controller limits = Inr () \<longleftrightarrow>
     controller \<or> \<not> rl_require_controller_for_runs limits \<and> (rl_allowed_callers limits = [] \<or> caller \<in> set (rl_allowed_callers limits))"
  by (simp add: require_run_access_def)

lemma validate_execution_id_iff:
  "validate_execution_id limits i = Inr () \<longleftrightarrow>
     i \<noteq> [] \<and> int (length (utf8 i)) \<le> rl_max_execution_id_len limits \<and> list_all execution_id_char i"
  by (auto simp: validate_execution_id_def)

lemma guard_new_execution_iff:
  "guard_new_execution limits executions i state = Inr () \<longleftrightarrow>
     validate_execution_id limits i = Inr () \<and> int (length (utf8 state)) \<le> rl_max_state_bytes limits
     \<and> int (length executions) < rl_max_concurrent_executions limits \<and> i \<notin> set executions"
  by (auto simp: guard_new_execution_def validate_state_bytes_def check_capacity_def split: sum.split if_splits)

lemma canister_start_ok:
  assumes "canister_start who run i state w = (Inr r, w')" "rr_ok r"
  shows "require_run_access (cl_principal who) (cl_controller who) (cn_limits w) = Inr ()"
    "require_cycles_reserve (cl_balance who) (cn_limits w) = Inr ()"
    "\<exists>json. state = Some json \<and> guard_new_execution (cn_limits w) (cn_executions w) i json = Inr () \<and> run i json w = (r, w')"
  using assms by (auto simp: canister_start_def report_error_def split: option.splits sum.splits prod.splits)

text \<open>
  What a controller's \<open>setLimits\<close> leaves behind. A number that is not given, or is not positive, stays
  as it was. The flag, the allowlist and the reserve do not: who may run afterwards depends on the options of
  this call alone.
\<close>

theorem client_set_limits_effect:
  assumes "client_set_limits (canister_actor who run rest) opts w = (answer, w')" "cl_controller who"
    and "rl_version (cn_limits w) = 1" "0 < rl_max_concurrent_executions (cn_limits w)"
  shows "require_run_access caller controller (cn_limits w') = Inr () \<longleftrightarrow>
      controller \<or> lo_require_controller_for_runs opts \<noteq> Some True
        \<and> (given_or [] (lo_allowed_callers opts) = [] \<or> caller \<in> set (given_or [] (lo_allowed_callers opts)))"
    and "rl_max_state_bytes (cn_limits w') =
      (if 0 < given_or 0 (lo_max_state_bytes opts) then given_or 0 (lo_max_state_bytes opts) else rl_max_state_bytes (cn_limits w))"
    and "\<exists>dto. answer = Inr dto \<and> (ld_ok dto \<longleftrightarrow> cl_persist_error who = None)"
proof -
  let ?new = "changed_limits (given_or 0 (lo_max_concurrent_executions opts)) (given_or 0 (lo_max_events_per_execution opts))
       (given_or 0 (lo_max_state_bytes opts)) (given_or False (lo_require_controller_for_runs opts))
       (given_or [] (lo_allowed_callers opts)) (given_or 0 (lo_min_cycles_reserve opts)) (cn_limits w)"
  have "engine_set_limits ?new = Inr ()" using assms(3,4) by (auto simp: engine_set_limits_def changed_limits_def)
  with assms(1,2) have w': "cn_limits w' = ?new"
    and answer: "answer = Inr (case cl_persist_error who of
      Some m \<Rightarrow> limits_error (''limits set but persist failed: '' @ m) | None \<Rightarrow> limits_answer ?new)"
    by (auto simp: client_set_limits_def canister_actor_def canister_set_limits_def require_controller_def Let_def)
  show "require_run_access caller controller (cn_limits w') = Inr () \<longleftrightarrow>
      controller \<or> lo_require_controller_for_runs opts \<noteq> Some True
        \<and> (given_or [] (lo_allowed_callers opts) = [] \<or> caller \<in> set (given_or [] (lo_allowed_callers opts)))"
    by (cases "lo_require_controller_for_runs opts") (auto simp: require_run_access_iff w' changed_limits_def given_or_def)
  show "rl_max_state_bytes (cn_limits w') =
      (if 0 < given_or 0 (lo_max_state_bytes opts) then given_or 0 (lo_max_state_bytes opts) else rl_max_state_bytes (cn_limits w))"
    by (simp add: w' changed_limits_def)
  show "\<exists>dto. answer = Inr dto \<and> (ld_ok dto \<longleftrightarrow> cl_persist_error who = None)"
    by (simp add: answer limits_error_def limits_answer_def split: option.split)
qed

text \<open>So a call that only means to change a size opens a canister that was closed to everyone else.\<close>

definition size_only :: limit_options where
  "size_only = \<lparr>lo_max_concurrent_executions = None, lo_max_events_per_execution = None, lo_max_state_bytes = Some 4096,
     lo_require_controller_for_runs = None, lo_allowed_callers = None, lo_min_cycles_reserve = None\<rparr>"

lemma changing_a_size_opens_runs:
  assumes "client_set_limits (canister_actor who run rest) size_only w = (answer, w')" "cl_controller who"
    and "cn_limits w = initial_limits\<lparr>rl_require_controller_for_runs := True\<rparr>"
  shows "require_run_access stranger False (cn_limits w) \<noteq> Inr ()" "require_run_access stranger False (cn_limits w') = Inr ()"
  using client_set_limits_effect(1) [OF assms(1,2), of stranger False] assms(3)
  by (simp_all add: initial_limits_def require_run_access_def size_only_def given_or_def)

text \<open>
  What the adapter needs to know of a runtime: an execution that it reports as ok was allowed, and is one
  run. A client of any such runtime gets the outcome of an allowed run, or a failure.
\<close>

locale guarded_runtime =
  fixes actor :: "'c runtime_actor"
    and allowed :: "string \<Rightarrow> string \<Rightarrow> 'c \<Rightarrow> bool"
    and run :: "string \<Rightarrow> string \<Rightarrow> 'c \<Rightarrow> run_report_dto \<times> 'c"
  assumes starts_allowed: "at_start_execution actor i state c = (Inr report, c') \<Longrightarrow> rr_ok report \<Longrightarrow>
    \<exists>json. state = Some json \<and> allowed i json c \<and> run i json c = (report, c')"
begin

lemma invocation_allowed:
  assumes "icp_invoke parse actor opts inp ctx w = Done w' (Inr r)" "res_status r \<noteq> Failed"
  shows "\<exists>inspection c json report. at_inspect actor (iw_host w) = (Inr inspection, c)
    \<and> stringify_output (nullish_or (nullish_or inp (inputs (hc_task ctx))) (JObj [])) = Some json
    \<and> allowed (given_or (hc_run_id ctx) (ic_execution_id opts)) json c
    \<and> run (given_or (hc_run_id ctx) (ic_execution_id opts)) json c = (report, iw_host w') \<and> r = from_icp_report parse report"
proof -
  obtain inspection c report where inspect: "at_inspect actor (iw_host w) = (Inr inspection, c)"
    and start: "at_start_execution actor (given_or (hc_run_id ctx) (ic_execution_id opts))
        (stringify_output (nullish_or (nullish_or inp (inputs (hc_task ctx))) (JObj []))) c = (Inr report, iw_host w')"
    and r: "r = from_icp_report parse report"
    using assms(1) by (auto simp: icp_invoke_def client_start_execution_def client_inspect_def bind_res_eq_Inr
        split: prod.splits sum.splits)
  have "rr_ok report" using assms(2) r from_icp_report_status [of parse report] by (auto split: if_splits)
  from starts_allowed [OF start this] inspect r show ?thesis by blast
qed

end

definition canister_allows :: "canister_caller \<Rightarrow> string \<Rightarrow> string \<Rightarrow> 'w canister \<Rightarrow> bool" where
  "canister_allows who i json c \<longleftrightarrow>
     require_run_access (cl_principal who) (cl_controller who) (cn_limits c) = Inr ()
     \<and> require_cycles_reserve (cl_balance who) (cn_limits c) = Inr ()
     \<and> guard_new_execution (cn_limits c) (cn_executions c) i json = Inr ()"

interpretation canister: guarded_runtime "canister_actor who run rest" "canister_allows who" run
  for who :: canister_caller and run :: "'w canister_run" and rest :: "'w canister runtime_actor"
proof unfold_locales
  fix i state c report c'
  assume "at_start_execution (canister_actor who run rest) i state c = (Inr report, c')" "rr_ok report"
  then have "canister_start who run i state c = (Inr report, c')" "rr_ok report" by (simp_all add: canister_actor_def)
  from canister_start_ok [OF this] show "\<exists>json. state = Some json \<and> canister_allows who i json c \<and> run i json c = (report, c')"
    by (auto simp: canister_allows_def)
qed

text \<open>
  C40. Through the ICP adapter nothing runs on the canister that its gate does not let through. An invocation
  that does not fail was made by a caller with access to runs and with the cycles in reserve; its execution id
  is valid and was not in use, its state fits, there was room for one more execution; and what is reported is
  the outcome of that one run.
\<close>

theorem icp_execution_guarded:
  assumes "icp_invoke parse (canister_actor who run rest) opts inp ctx w = Done w' (Inr r)" "res_status r \<noteq> Failed"
  defines "i \<equiv> given_or (hc_run_id ctx) (ic_execution_id opts)"
  shows "\<exists>inspection c json report.
      at_inspect rest (iw_host w) = (Inr inspection, c)
    \<and> require_run_access (cl_principal who) (cl_controller who) (cn_limits c) = Inr ()
    \<and> require_cycles_reserve (cl_balance who) (cn_limits c) = Inr ()
    \<and> i \<noteq> [] \<and> list_all execution_id_char i \<and> i \<notin> set (cn_executions c)
    \<and> int (length (cn_executions c)) < rl_max_concurrent_executions (cn_limits c)
    \<and> int (length (utf8 json)) \<le> rl_max_state_bytes (cn_limits c)
    \<and> stringify_output (nullish_or (nullish_or inp (inputs (hc_task ctx))) (JObj [])) = Some json
    \<and> run i json c = (report, iw_host w') \<and> r = from_icp_report parse report"
  using canister.invocation_allowed [OF assms(1,2)]
  by (auto simp: canister_allows_def guard_new_execution_iff validate_execution_id_iff i_def canister_actor_def)

text \<open>
  The id the harness makes up when it is given none has a colon, which the canister does not allow: such a
  run never starts there.
\<close>

lemma made_up_run_id:
  assumes "start_run host sess s = (Inr i, s')" "sn_run_id (hs_options sess) = None"
  shows "\<not> list_all execution_id_char i"
proof -
  have "CHR '':'' \<in> set i" using assms by (auto simp: start_run_def digest_root_def split: prod.splits)
  moreover have "\<not> execution_id_char CHR '':''" by code_simp
  ultimately show ?thesis by (auto simp: list_all_iff)
qed

lemma made_up_run_id_fails:
  assumes "start_run host sess s = (Inr (hc_run_id ctx), s')" "sn_run_id (hs_options sess) = None" "ic_execution_id opts = None"
    and "icp_invoke parse (canister_actor who run rest) opts inp ctx w = Done w' (Inr r)"
  shows "res_status r = Failed"
proof (rule ccontr)
  assume "res_status r \<noteq> Failed"
  from canister.invocation_allowed [OF assms(4) this] made_up_run_id [OF assms(1,2)] assms(3) show False
    by (auto simp: given_or_def canister_allows_def guard_new_execution_iff validate_execution_id_iff)
qed

section \<open>A run on the canister\<close>

definition open_canister :: "nat canister" where
  "open_canister = \<lparr>cn_limits = initial_limits, cn_executions = [''run-0''], cn_rest = 0\<rparr>"

definition terminating_run :: "nat canister_run" where
  "terminating_run i json c = (echo_report i (Some json), c\<lparr>cn_executions := cn_executions c @ [i], cn_rest := cn_rest c + 1\<rparr>)"

definition refuses :: "('d, nat canister) canister_call" where
  "refuses w = (Inl (PlainError ''refused''), w)"

definition quiet_actor :: "nat canister runtime_actor" where
  "quiet_actor = \<lparr>at_health = refuses, at_inspect = (\<lambda>w. (Inr echo_inspection, w)), at_get_budget = refuses,
     at_get_limits = refuses, at_get_store_stats = refuses, at_list_executions = refuses, at_load_definition = (\<lambda>_. refuses),
     at_clear_definition = refuses, at_set_limits = (\<lambda>_ _ _ _ _ _. refuses), at_start_execution = (\<lambda>_ _. refuses),
     at_step = (\<lambda>_ _. refuses), at_resume = (\<lambda>_. refuses), at_continue_effects = (\<lambda>_. refuses),
     at_accept_handoff = (\<lambda>_ _ _ _. refuses), at_forward_handoff = (\<lambda>_ _ _ _ _. refuses), at_get_handoff = (\<lambda>_. refuses),
     at_get_events = (\<lambda>_. refuses), at_get_checkpoint = (\<lambda>_. refuses)\<rparr>"

definition some_caller :: canister_caller where
  "some_caller = \<lparr>cl_principal = ''2vxsx-fae'', cl_controller = False, cl_balance = None, cl_persist_error = None\<rparr>"

definition canister_options :: "nat canister icp_options" where
  "canister_options = \<lparr>ic_client = None, ic_actor = Some (canister_actor some_caller terminating_run quiet_actor), ic_id = None,
     ic_execution_id = None\<rparr>"

theorem icp_execution_guarded_witness:
  "\<exists>w' r report. icp_invoke (\<lambda>_. None) (canister_actor some_caller terminating_run quiet_actor) canister_options (JStr ''s'') echo_context
        \<lparr>iw_cached = None, iw_host = open_canister\<rparr> = Done w' (Inr r)
     \<and> res_status r = Succeeded \<and> terminating_run ''run-1'' ''s'' open_canister = (report, iw_host w')"
proof -
  let ?actor = "canister_actor some_caller terminating_run quiet_actor"
  let ?w = "\<lparr>iw_cached = None, iw_host = open_canister\<rparr>"
  have "guard_new_execution initial_limits [''run-0''] ''run-1'' ''s'' = Inr ()" by code_simp
  moreover have "require_run_access ''2vxsx-fae'' False initial_limits = Inr ()" "require_cycles_reserve None initial_limits = Inr ()"
    by code_simp+
  ultimately have "\<exists>w' report. icp_invoke (\<lambda>_. None) ?actor canister_options (JStr ''s'') echo_context ?w = Done w' (Inr (from_icp_report (\<lambda>_. None) report))
      \<and> report = echo_report ''run-1'' (Some ''s'')"
    by (simp add: icp_invoke_def canister_actor_def quiet_actor_def client_start_execution_def client_inspect_def canister_start_def some_caller_def
        open_canister_def echo_context_def canister_options_def nullish_or_def given_or_def terminating_run_def)
  then obtain w' r report where run: "icp_invoke (\<lambda>_. None) ?actor canister_options (JStr ''s'') echo_context ?w = Done w' (Inr r)"
    "r = from_icp_report (\<lambda>_. None) report" "report = echo_report ''run-1'' (Some ''s'')" by blast
  then have status: "res_status r = Succeeded" by (simp add: from_icp_report_status echo_report_def report_kind_def)
  from icp_execution_guarded [OF run(1)] status run(1) show ?thesis
    by (auto simp: quiet_actor_def echo_context_def canister_options_def nullish_or_def given_or_def)
qed

end
