(* ===== verification/Vendor_Agents.thy ===== *)
theory Vendor_Agents
  imports Mcp
begin

text \<open>
  The reference agents under \<open>examples/adapters\<close>: the prompt they share
  (\<open>shared/contracts.mjs\<close>), the tool loop of the Grok and Grok Build agents
  (\<open>grok/grok-agent.mjs\<close>, \<open>grok-build/grok-build-agent.mjs\<close>) over the MCP bridge, and the OpenClaw
  plugin (\<open>openclaw/plugin.mjs\<close>). The model behind \<open>complete\<close> is the host's: it answers with any
  JSON value, on the world \<open>'w\<close>, or rejects. Members are read as own members.
\<close>

section \<open>The prompt\<close>

definition new_line :: string where
  "new_line = [CHR 0x0A]"

text \<open>An element of \<open>join\<close>: nothing for \<open>null\<close> and \<open>undefined\<close>.\<close>

definition joined_text :: "jsval \<Rightarrow> string" where
  "joined_text v = (if v = JUndef \<or> v = JNull then [] else js_to_string v)"

definition stringified :: "jsval \<Rightarrow> jsval" where
  "stringified v = (case json_stringify v of Some s \<Rightarrow> JStr s | None \<Rightarrow> JUndef)"

definition read_members :: "string list \<Rightarrow> jsval \<Rightarrow> jsval result" where
  "read_members keys item =
     (if item = JUndef \<or> item = JNull
      then Inl (TypeError (''Cannot read properties of '' @ js_to_string item @ '' (reading text)''))
      else Inr (foldr (\<lambda>k rest. nullish_or (member_get item k) rest) keys (stringified item)))"

definition prompt_rows :: "string list \<Rightarrow> jsval list \<Rightarrow> string result" where
  "prompt_rows keys rows = bind_res (map_res (read_members keys) rows) (\<lambda>vs. Inr (js_join new_line (map joined_text vs)))"

definition prompt_part :: "string \<Rightarrow> string \<Rightarrow> string list" where
  "prompt_part title body = (if body = [] then [] else [title @ body])"

definition prompt_from_context :: "harness_context \<Rightarrow> jsval \<Rightarrow> string result" where
  "prompt_from_context ctx inp =
     bind_res (prompt_rows [''text''] (env_evidence (hc_envelope ctx))) (\<lambda>evidence.
     bind_res (prompt_rows [''text'', ''id''] (env_skills (hc_envelope ctx))) (\<lambda>skills.
     let task = hc_task ctx;
         constraints = js_join new_line (map (\<lambda>c. ''- '' @ con_description c) (env_constraints (hc_envelope ctx)))
     in Inr (js_join (new_line @ new_line)
       ([''Objective: '' @ objective task,
         ''Success criteria:'' @ new_line @ js_join new_line (map (\<lambda>c. ''- '' @ c) (success_criteria task))]
        @ prompt_part (''Constraints:'' @ new_line) constraints
        @ (if task_prohibitions ctx = [] then [] else [''Prohibited actions: '' @ js_join '', '' (task_prohibitions ctx)])
        @ prompt_part (''Evidence:'' @ new_line) evidence
        @ prompt_part (''Skills:'' @ new_line) skills
        @ (if inp = JUndef then [] else [''Input: '' @ given_or ''undefined'' (json_stringify inp)])
        @ [''Cite supporting evidence. Do not perform irreversible actions.'']))))"

section \<open>The tool loop\<close>

type_synonym 'w completion = "jsval \<Rightarrow> 'w \<Rightarrow> jsval result \<times> 'w"

text \<open>\<open>toGrokTool\<close> and \<open>toGrokBuildTool\<close>.\<close>

definition to_grok_tool :: "mcp_tool \<Rightarrow> jsval" where
  "to_grok_tool t = JObj [(''type'', JStr ''function''),
     (''function'', JObj [(''name'', JStr (mt_name t)), (''description'', JStr (mt_description t)),
        (''parameters'', nullish_or (mt_schema t) (JObj [(''type'', JStr ''object'')]))])]"

text \<open>\<open>response?.choices?.[0]?.message ?? response?.message ?? response\<close>.\<close>

definition response_choice :: "jsval \<Rightarrow> jsval" where
  "response_choice r =
     nullish_or (member_get (member_get (member_get r ''choices'') ''0'') ''message'') (nullish_or (member_get r ''message'') r)"

text \<open>A count of tokens is an integer under the vendor's types; another value counts as 0 here.\<close>

definition response_tokens :: "jsval \<Rightarrow> int" where
  "response_tokens r = (case member_get (member_get r ''usage'') ''total_tokens'' of JNum n \<Rightarrow> n | _ \<Rightarrow> 0)"

definition requested_calls :: "jsval \<Rightarrow> jsval list" where
  "requested_calls choice = (case member_get choice ''tool_calls'' of JArr calls \<Rightarrow> calls | _ \<Rightarrow> [])"

definition call_name :: "jsval \<Rightarrow> string" where
  "call_name call = js_to_string (nullish_or (member_get (member_get call ''function'') ''name'')
     (nullish_or (member_get call ''name'') (JStr [])))"

definition call_arguments :: "(string \<Rightarrow> jsval option) \<Rightarrow> jsval \<Rightarrow> jsval" where
  "call_arguments parse call =
     (case nullish_or (member_get (member_get call ''function'') ''arguments'') (nullish_or (member_get call ''arguments'') (JObj [])) of
        JStr s \<Rightarrow> (case parse s of Some v \<Rightarrow> v | None \<Rightarrow> JObj [(''raw'', JStr s)])
      | v \<Rightarrow> v)"

definition result_payload :: "mcp_call_result \<Rightarrow> jsval" where
  "result_payload r = nullish_or (mc_structured r) (JArr [JObj [(''type'', JStr ''text''), (''text'', JStr (mc_text r))]])"

definition tool_message :: "jsval \<Rightarrow> string \<Rightarrow> mcp_call_result \<Rightarrow> jsval" where
  "tool_message call name r = JObj [(''role'', JStr ''tool''),
     (''tool_call_id'', nullish_or (member_get call ''id'') (JStr name)), (''content'', JStr (mc_text r))]"

text \<open>The calls of one answer, in order, and then the rest of the loop.\<close>

primrec run_tool_calls :: "(string \<Rightarrow> jsval option) \<Rightarrow> 'w mcp_server \<Rightarrow> mcp_context \<Rightarrow> jsval list \<Rightarrow> jsval list \<Rightarrow> string list \<Rightarrow> 'w
    \<Rightarrow> (jsval list \<Rightarrow> string list \<Rightarrow> 'w \<Rightarrow> 'w act) \<Rightarrow> 'w act" where
  "run_tool_calls parse server ctx [] messages made w rest = rest messages made w"
| "run_tool_calls parse server ctx (call # calls) messages made w rest =
     (if call = JUndef \<or> call = JNull
      then Done w (Inl (TypeError (''Cannot read properties of '' @ js_to_string call @ '' (reading function)'')))
      else EmitTool w True (call_name call) (call_arguments parse call) (\<lambda>r w.
        case r of Inl e \<Rightarrow> Done w (Inl e)
        | Inr _ \<Rightarrow>
            (case call_tool server (call_name call) (call_arguments parse call) (Some ctx) w of
               (result, w) \<Rightarrow> EmitTool w False (call_name call) (result_payload result) (\<lambda>r w.
                 case r of Inl e \<Rightarrow> Done w (Inl e)
                 | Inr _ \<Rightarrow> run_tool_calls parse server ctx calls (messages @ [tool_message call (call_name call) result])
                     (made @ [call_name call]) w rest))))"

text \<open>What distinguishes the two agents: the request, the text of an answer and the message when the steps are used up.\<close>

record vendor =
  ve_request :: "jsval list \<Rightarrow> jsval"
  ve_text :: "jsval \<Rightarrow> jsval \<Rightarrow> string"
  ve_exhausted :: string

definition vendor_result :: "invocation_status \<Rightarrow> string \<Rightarrow> string option \<Rightarrow> string list \<Rightarrow> int \<Rightarrow> invocation_result" where
  "vendor_result status output error made tokens =
     \<lparr>res_status = status, res_output = JStr output, res_error = error, res_tool_calls = Some made,
      res_tokens = (if tokens = 0 then None else Some tokens)\<rparr>"

definition assistant_message :: "jsval \<Rightarrow> jsval" where
  "assistant_message choice = JObj [(''role'', JStr ''assistant''), (''content'', nullish_or (member_get choice ''content'') JNull),
     (''tool_calls'', JArr (requested_calls choice))]"

primrec vendor_loop :: "(string \<Rightarrow> jsval option) \<Rightarrow> vendor \<Rightarrow> 'w completion \<Rightarrow> 'w mcp_server option \<Rightarrow> mcp_context \<Rightarrow> nat
    \<Rightarrow> jsval list \<Rightarrow> string list \<Rightarrow> int \<Rightarrow> 'w \<Rightarrow> 'w act" where
  "vendor_loop parse v complete mcp ctx 0 messages made tokens w =
     Done w (Inr (vendor_result Partial (ve_exhausted v) (Some ''timeout'') made tokens))"
| "vendor_loop parse v complete mcp ctx (Suc steps) messages made tokens w =
     (case complete (ve_request v messages) w of
        (Inl e, w) \<Rightarrow> Done w (Inl e)
      | (Inr response, w) \<Rightarrow>
          let choice = response_choice response; used = tokens + response_tokens response in
          (case (requested_calls choice, mcp) of
             (call # calls, Some server) \<Rightarrow>
               run_tool_calls parse server ctx (call # calls) (messages @ [assistant_message choice]) made w
                 (\<lambda>messages made w. vendor_loop parse v complete mcp ctx steps messages made used w)
           | _ \<Rightarrow> Done w (Inr (vendor_result Succeeded (ve_text v choice response) None made used))))"

text \<open>\<open>ctx.envelope.budget.maxSteps ?? 8\<close>: a positive integer, as \<open>validateTask\<close> has checked.\<close>

definition step_budget :: "harness_context \<Rightarrow> nat" where
  "step_budget ctx = (case Option.bind (map_of (env_budget (hc_envelope ctx)) ''maxSteps'') id of
     Some n \<Rightarrow> nat (num_value n) | None \<Rightarrow> 8)"

definition user_message :: "string \<Rightarrow> jsval" where
  "user_message prompt = JObj [(''role'', JStr ''user''), (''content'', JStr prompt)]"

section \<open>Grok and Grok Build\<close>

record 'w vendor_options =
  vo_complete :: "'w completion option"
  vo_mcp :: "'w mcp_server option"
  vo_tools_mcp :: bool
  vo_extra_tools :: "mcp_tool list"
  vo_extra_handlers :: "(string, 'w mcp_handler) js_map"
  vo_id :: "string option"
  vo_name :: "string option"
  vo_model :: "string option"
  vo_session_id :: "string option"

definition vendor_bridge :: "'w vendor_options \<Rightarrow> 'w mcp_server option result" where
  "vendor_bridge opts =
     (case vo_mcp opts of
        Some server \<Rightarrow> Inr (Some server)
      | None \<Rightarrow>
          if vo_tools_mcp opts
          then bind_res (knolo_mcp_bridge \<lparr>mo_ctx = None, mo_retrieve = None, mo_resolve_skills = None, mo_evaluate = None,
                 mo_resources = [], mo_extra_tools = vo_extra_tools opts, mo_extra_handlers = vo_extra_handlers opts,
                 mo_server_name = None, mo_server_version = None\<rparr>) (\<lambda>server. Inr (Some server))
          else Inr None)"

definition tools_member :: "'w mcp_server option \<Rightarrow> (string \<times> jsval) list" where
  "tools_member mcp = (case mcp of Some server \<Rightarrow> [(''tools'', JArr (map to_grok_tool (list_tools server)))] | None \<Rightarrow> [])"

definition grok :: "'w vendor_options \<Rightarrow> 'w mcp_server option \<Rightarrow> vendor" where
  "grok opts mcp =
     \<lparr>ve_request = (\<lambda>messages. JObj ([(''model'', JStr (given_or ''grok-4'' (vo_model opts))), (''messages'', JArr messages)] @ tools_member mcp)),
      ve_text = (\<lambda>choice response. js_to_string (nullish_or (member_get choice ''content'') (nullish_or (member_get choice ''output'') (JStr [])))),
      ve_exhausted = ''grok tool loop exhausted step budget''\<rparr>"

definition grok_build :: "'w vendor_options \<Rightarrow> 'w mcp_server option \<Rightarrow> harness_context \<Rightarrow> string \<Rightarrow> vendor" where
  "grok_build opts mcp ctx prompt =
     \<lparr>ve_request = (\<lambda>messages. JObj ([(''model'', JStr (given_or ''grok-4.6'' (vo_model opts))),
         (''sessionId'', JStr (given_or (hc_run_id ctx) (vo_session_id opts))), (''prompt'', JStr prompt), (''messages'', JArr messages)]
         @ tools_member mcp)),
      ve_text = (\<lambda>choice response. js_to_string (nullish_or (member_get choice ''content'') (nullish_or (member_get choice ''output'')
         (nullish_or (member_get response ''output'') (JStr []))))),
      ve_exhausted = ''grok-build tool loop exhausted step budget''\<rparr>"

definition vendor_invoke :: "(string \<Rightarrow> jsval option) \<Rightarrow> (harness_context \<Rightarrow> string \<Rightarrow> vendor) \<Rightarrow> 'w completion \<Rightarrow> 'w mcp_server option
    \<Rightarrow> jsval \<Rightarrow> mcp_context \<Rightarrow> 'w \<Rightarrow> 'w act" where
  "vendor_invoke parse agent_of complete mcp inp ctx w =
     (case prompt_from_context (harness_context.truncate ctx) inp of
        Inl e \<Rightarrow> Done w (Inl e)
      | Inr prompt \<Rightarrow> vendor_loop parse (agent_of (harness_context.truncate ctx) prompt) complete mcp ctx
          (step_budget (harness_context.truncate ctx)) [user_message prompt] [] 0 w)"

definition grok_agent :: "(string \<Rightarrow> jsval option) \<Rightarrow> 'w vendor_options \<Rightarrow> (jsval \<Rightarrow> mcp_context \<Rightarrow> 'w \<Rightarrow> 'w act) result" where
  "grok_agent parse opts =
     (case vo_complete opts of
        None \<Rightarrow> Inl (PlainError ''grokAgent requires a host-owned complete()'')
      | Some complete \<Rightarrow> bind_res (vendor_bridge opts) (\<lambda>mcp.
          Inr (vendor_invoke parse (\<lambda>ctx prompt. grok opts mcp) complete mcp)))"

definition grok_build_agent :: "(string \<Rightarrow> jsval option) \<Rightarrow> 'w vendor_options \<Rightarrow> (jsval \<Rightarrow> mcp_context \<Rightarrow> 'w \<Rightarrow> 'w act) result" where
  "grok_build_agent parse opts =
     (case vo_complete opts of
        None \<Rightarrow> Inl (PlainError ''grokBuildAgent requires a host-owned complete()'')
      | Some complete \<Rightarrow> bind_res (vendor_bridge opts) (\<lambda>mcp.
          Inr (vendor_invoke parse (grok_build opts mcp) complete mcp)))"

definition vendor_level :: "'w mcp_server option \<Rightarrow> assurance_level" where
  "vendor_level mcp = (if mcp = None then L0 else L1)"

definition grok_descriptor :: "'w vendor_options \<Rightarrow> 'w mcp_server option \<Rightarrow> agent_descriptor" where
  "grok_descriptor opts mcp = describe ''grok'' (vendor_level mcp) \<lparr>ag_id = vo_id opts, ag_name = vo_name opts\<rparr>"

definition grok_build_descriptor :: "'w vendor_options \<Rightarrow> 'w mcp_server option \<Rightarrow> agent_descriptor" where
  "grok_build_descriptor opts mcp =
     describe ''grok-build'' (vendor_level mcp) \<lparr>ag_id = vo_id opts, ag_name = Some (given_or ''Grok Build'' (vo_name opts))\<rparr>"

definition grok_capabilities :: "'w mcp_server option \<Rightarrow> agent_capabilities" where
  "grok_capabilities mcp = limited_capabilities (vendor_level mcp) (mcp \<noteq> None) False False
     [if mcp \<noteq> None then ''host-owned Grok client; Knolo MCP function calling only'' else ''host-owned Grok client; black-box chat completions'']"

definition grok_build_capabilities :: "'w mcp_server option \<Rightarrow> agent_capabilities" where
  "grok_build_capabilities mcp = limited_capabilities (vendor_level mcp) (mcp \<noteq> None) False False
     [if mcp \<noteq> None then ''host-owned Grok Build session; Knolo MCP tools only'' else ''host-owned Grok Build session; black-box prompt'']"

section \<open>OpenClaw\<close>

text \<open>
  The three hooks of a plugin; \<open>None\<close> is an event without the harness context. What
  \<open>before_prompt_build\<close> leaves out is \<open>undefined\<close>.
\<close>

record built_prompt =
  bp_prompt :: jsval
  bp_system :: jsval
  bp_dependency_root :: "string option"

datatype tool_gate = Denied string | Allowed "mcp_call_result option"

record 'w claw_plugin =
  cw_before_prompt_build :: "mcp_context option \<Rightarrow> jsval \<Rightarrow> string \<Rightarrow> 'w \<Rightarrow> built_prompt result \<times> 'w"
  cw_before_tool_call :: "mcp_context option \<Rightarrow> string \<Rightarrow> jsval \<Rightarrow> 'w \<Rightarrow> tool_gate result \<times> 'w"
  cw_agent_end :: "mcp_context option \<Rightarrow> jsval \<Rightarrow> invocation_status \<Rightarrow> string list \<Rightarrow> 'w \<Rightarrow> jsval result \<times> 'w"

definition context_bridge :: "mcp_context \<Rightarrow> 'w mcp_server result" where
  "context_bridge ctx = knolo_mcp_bridge \<lparr>mo_ctx = Some ctx, mo_retrieve = None, mo_resolve_skills = None, mo_evaluate = None,
     mo_resources = [], mo_extra_tools = [], mo_extra_handlers = [], mo_server_name = None, mo_server_version = None\<rparr>"

definition claw_prompt :: "mcp_context option \<Rightarrow> jsval \<Rightarrow> string \<Rightarrow> built_prompt result" where
  "claw_prompt ctx inp prompt =
     (case ctx of
        None \<Rightarrow> Inr \<lparr>bp_prompt = JStr prompt, bp_system = JUndef, bp_dependency_root = None\<rparr>
      | Some c \<Rightarrow> bind_res (prompt_from_context (harness_context.truncate c) inp) (\<lambda>compiled.
          Inr \<lparr>bp_prompt = JStr (js_join (new_line @ new_line) (filter (\<lambda>s. s \<noteq> []) [prompt, compiled])),
               bp_system = hc_envelope_json c, bp_dependency_root = Some (env_dependency_root (hc_envelope c))\<rparr>))"

definition claw_tool_gate :: "bool \<Rightarrow> mcp_context option \<Rightarrow> string \<Rightarrow> jsval \<Rightarrow> 'w \<Rightarrow> tool_gate result \<times> 'w" where
  "claw_tool_gate mcp ctx tool args w =
     (if tool \<in> set (case ctx of Some c \<Rightarrow> prohibited_of (hc_task c) | None \<Rightarrow> [])
      then (Inr (Denied (''tool is prohibited by task policy: '' @ tool)), w)
      else case ctx of
        Some c \<Rightarrow>
          if mcp then
            (case context_bridge c of
               Inl e \<Rightarrow> (Inl e, w)
             | Inr server \<Rightarrow>
                 if tool \<in> set (map mt_name (list_tools server))
                 then (case call_tool server tool (args_or_null args) (Some c) w of (r, w) \<Rightarrow> (Inr (Allowed (Some r)), w))
                 else (Inr (Allowed None), w))
          else (Inr (Allowed None), w)
      | None \<Rightarrow> (Inr (Allowed None), w))"

definition claw_agent_end :: "mcp_context option \<Rightarrow> jsval \<Rightarrow> invocation_status \<Rightarrow> string list \<Rightarrow> 'w \<Rightarrow> jsval result \<times> 'w" where
  "claw_agent_end ctx output status calls w =
     (case ctx of
        None \<Rightarrow> (Inr JNull, w)
      | Some c \<Rightarrow> run_then (context_bridge c, w) (\<lambda>server w.
          (case call_tool server ''knolo.evaluate'' (JObj [(''output'', nullish_or output (JStr [])), (''status'', JStr (status_name status)),
               (''toolCalls'', strs_json calls)]) (Some c) w of
             (r, w) \<Rightarrow> (Inr (nullish_or (mc_structured r) (call_result_json r)), w))))"

definition open_claw_plugin :: "bool \<Rightarrow> 'w claw_plugin" where
  "open_claw_plugin mcp =
     \<lparr>cw_before_prompt_build = (\<lambda>ctx inp prompt w. (claw_prompt ctx inp prompt, w)),
      cw_before_tool_call = claw_tool_gate mcp, cw_agent_end = claw_agent_end\<rparr>"

record 'w claw_options =
  ow_complete :: "'w completion option"
  ow_plugin :: "'w claw_plugin option"
  ow_mcp :: "bool option"
  ow_id :: "string option"
  ow_name :: "string option"
  ow_prompt :: "string option"

definition claw_descriptor :: "'w claw_options \<Rightarrow> agent_descriptor" where
  "claw_descriptor opts = describe ''openclaw'' L2 \<lparr>ag_id = ow_id opts, ag_name = ow_name opts\<rparr>"

definition claw_capabilities :: agent_capabilities where
  "claw_capabilities = limited_capabilities L2 True False True
     [''OpenClaw plugin hooks only; host APIs are experimental and version-pinned'']"

definition requested_tool :: "jsval \<Rightarrow> string" where
  "requested_tool call = js_to_string (nullish_or (member_get call ''toolId'') (nullish_or (member_get call ''name'') (JStr [])))"

text \<open>
  The gates of the requested tools, in order: the calls let through, or the reason of the first that is not.
  The events and the evaluation in the result are not read by the harness and are left out.
\<close>

fun claw_gates :: "'w claw_plugin \<Rightarrow> mcp_context \<Rightarrow> jsval list \<Rightarrow> string list \<Rightarrow> 'w \<Rightarrow> (string option \<times> string list) result \<times> 'w" where
  "claw_gates plugin ctx [] made w = (Inr (None, made), w)"
| "claw_gates plugin ctx (call # calls) made w =
     (if call = JUndef \<or> call = JNull
      then (Inl (TypeError (''Cannot read properties of '' @ js_to_string call @ '' (reading toolId)'')), w)
      else let tool = requested_tool call in
        run_then (cw_before_tool_call plugin (Some ctx) tool (nullish_or (member_get call ''args'') JNull) w) (\<lambda>gate w.
          case gate of
            Denied reason \<Rightarrow> (Inr (Some reason, made), w)
          | Allowed _ \<Rightarrow> claw_gates plugin ctx calls (made @ [tool]) w))"

definition claw_result :: "invocation_status \<Rightarrow> jsval \<Rightarrow> string option \<Rightarrow> string list \<Rightarrow> invocation_result" where
  "claw_result status output error made = \<lparr>res_status = status, res_output = output, res_error = error,
     res_tool_calls = Some made, res_tokens = None\<rparr>"

definition claw_run :: "'w claw_plugin \<Rightarrow> 'w completion \<Rightarrow> string \<Rightarrow> jsval \<Rightarrow> mcp_context \<Rightarrow> 'w \<Rightarrow> invocation_result result \<times> 'w" where
  "claw_run plugin complete prompt inp ctx w =
     run_then (cw_before_prompt_build plugin (Some ctx) inp prompt w) (\<lambda>built w.
     run_then (complete (JObj [(''prompt'', bp_prompt built), (''envelope'', bp_system built), (''input'', inp)]) w) (\<lambda>response w.
     run_then (claw_gates plugin ctx (case member_get response ''toolCalls'' of JArr calls \<Rightarrow> calls | _ \<Rightarrow> []) [] w) (\<lambda>(refused, made) w.
       case refused of
         Some reason \<Rightarrow> (Inr (claw_result Failed (nullish_or (member_get response ''output'') (JStr [])) (Some reason) made), w)
       | None \<Rightarrow>
           let output = JStr (js_to_string (nullish_or (member_get response ''output'') (nullish_or response (JStr [])))) in
           run_then (cw_agent_end plugin (Some ctx) output Succeeded made w) (\<lambda>_ w.
             (Inr (claw_result Succeeded output None made), w)))))"

definition open_claw_agent :: "'w claw_options \<Rightarrow> (jsval \<Rightarrow> mcp_context \<Rightarrow> 'w \<Rightarrow> 'w act) result" where
  "open_claw_agent opts =
     (case ow_complete opts of
        None \<Rightarrow> Inl (PlainError ''openClawAgent requires a host-owned complete()'')
      | Some complete \<Rightarrow> Inr (\<lambda>inp ctx w.
          case claw_run (given_or (open_claw_plugin (ow_mcp opts \<noteq> Some False)) (ow_plugin opts)) complete
              (given_or [] (ow_prompt opts)) inp ctx w of
            (r, w) \<Rightarrow> Done w r))"

text \<open>The HTTP agent that stands in without the hooks: by default it sends the envelope of the run, \<open>ctx\<close>, too.\<close>

definition whole_context :: "jsval \<Rightarrow> mcp_context \<Rightarrow> jsval" where
  "whole_context inp ctx = JObj [(''input'', inp), (''task'', hc_task_json ctx), (''envelope'', hc_envelope_json ctx)]"

definition claw_http_fallback :: "(string \<Rightarrow> jsval option) \<Rightarrow> 'w http_agent_options \<Rightarrow> mcp_context \<Rightarrow> 'w invoke result" where
  "claw_http_fallback parse opts ctx =
     http_agent parse \<lparr>ha_url = ha_url opts, ha_fetch = ha_fetch opts, ha_method = None, ha_headers = [],
       ha_map_request = Some (given_or (\<lambda>inp c. Inr (whole_context inp ctx)) (ha_map_request opts)),
       ha_map_response = ha_map_response opts\<rparr>"

definition claw_http_descriptor :: "string option \<Rightarrow> agent_descriptor" where
  "claw_http_descriptor i = http_descriptor (Some (given_or ''openclaw-http'' i))"

section \<open>Prohibited tools\<close>

text \<open>Two servers with the same tools, whose code may differ only for tools the task prohibits.\<close>

definition same_server :: "mcp_context \<Rightarrow> 'w mcp_server \<Rightarrow> 'w mcp_server \<Rightarrow> bool" where
  "same_server ctx s s' \<longleftrightarrow> list_tools s = list_tools s'
     \<and> (\<forall>name. name \<notin> set (prohibited_of (hc_task ctx)) \<longrightarrow> map_of (ms_tools s) name = map_of (ms_tools s') name)"

lemma same_server_call: "same_server ctx s s' \<Longrightarrow> call_tool s name args (Some ctx) w = call_tool s' name args (Some ctx) w"
  by (simp add: call_tool_def same_server_def)

lemma same_server_calls:
  assumes "same_server ctx s s'" "\<And>messages made w. rest messages made w = rest' messages made w"
  shows "run_tool_calls parse s ctx calls messages made w rest = run_tool_calls parse s' ctx calls messages made w rest'"
  using assms(2)
  by (induction calls arbitrary: messages made w)
     (simp_all add: same_server_call [OF assms(1)] cong: sum.case_cong)

lemma same_server_loop:
  assumes "same_server ctx s s'"
  shows "vendor_loop parse v complete (Some s) ctx steps messages made tokens w
    = vendor_loop parse v complete (Some s') ctx steps messages made tokens w"
proof (induction steps arbitrary: messages made tokens w)
  case (Suc steps)
  have "run_tool_calls parse s ctx calls ms mk w (\<lambda>ms mk w. vendor_loop parse v complete (Some s) ctx steps ms mk used w)
      = run_tool_calls parse s' ctx calls ms mk w (\<lambda>ms mk w. vendor_loop parse v complete (Some s') ctx steps ms mk used w)" for calls ms mk w used
    by (rule same_server_calls [OF assms Suc.IH])
  then show ?case
    by (simp del: run_tool_calls.simps add: Let_def split: prod.split sum.split list.split)
qed simp

text \<open>The invocation of either agent is the same whatever the code of the tools the task prohibits.\<close>

lemma vendor_prohibited_never_run:
  assumes "same_server ctx s s'"
  shows "vendor_invoke parse (\<lambda>c prompt. grok opts (Some s)) complete (Some s) inp ctx w
      = vendor_invoke parse (\<lambda>c prompt. grok opts (Some s')) complete (Some s') inp ctx w"
    "vendor_invoke parse (grok_build opts (Some s)) complete (Some s) inp ctx w
      = vendor_invoke parse (grok_build opts (Some s')) complete (Some s') inp ctx w"
proof -
  have tools: "list_tools s = list_tools s'" using assms by (simp add: same_server_def)
  then have grok: "grok opts (Some s) = grok opts (Some s')" by (simp add: grok_def tools_member_def)
  have build: "grok_build opts (Some s) = grok_build opts (Some s')" by (simp add: grok_build_def tools_member_def tools fun_eq_iff)
  show "vendor_invoke parse (\<lambda>c prompt. grok opts (Some s)) complete (Some s) inp ctx w
      = vendor_invoke parse (\<lambda>c prompt. grok opts (Some s')) complete (Some s') inp ctx w"
    unfolding vendor_invoke_def grok same_server_loop [OF assms] ..
  show "vendor_invoke parse (grok_build opts (Some s)) complete (Some s) inp ctx w
      = vendor_invoke parse (grok_build opts (Some s')) complete (Some s') inp ctx w"
    unfolding vendor_invoke_def build same_server_loop [OF assms] ..
qed

text \<open>The OpenClaw gate lets no prohibited tool through, and a run in which one is asked for fails.\<close>

lemma open_claw_gate [simp]: "cw_before_tool_call (open_claw_plugin mcp) = claw_tool_gate mcp"
  by (simp add: open_claw_plugin_def)

lemma claw_gates_clean:
  assumes "claw_gates (open_claw_plugin mcp) ctx calls made w = (Inr (refused, made'), w')"
    and "\<forall>tool \<in> set made. tool \<notin> set (prohibited_of (hc_task ctx))"
  shows "\<forall>tool \<in> set made'. tool \<notin> set (prohibited_of (hc_task ctx))"
  using assms
proof (induction calls arbitrary: made w)
  case (Cons call calls)
  from Cons.prems(1) obtain gate w1 where step: "call \<noteq> JUndef" "call \<noteq> JNull"
    "claw_tool_gate mcp (Some ctx) (requested_tool call)
       (nullish_or (member_get call ''args'') JNull) w = (Inr gate, w1)"
    by (auto simp: run_then_def Let_def split: if_splits prod.splits sum.splits)
  show ?case
  proof (cases gate)
    case (Denied reason)
    with Cons.prems step show ?thesis by (auto simp: run_then_def Let_def)
  next
    case (Allowed r)
    with step(3) have "requested_tool call
        \<notin> set (prohibited_of (hc_task ctx))"
      by (auto simp: claw_tool_gate_def split: if_splits)
    with Cons.prems step Allowed show ?thesis
      by (intro Cons.IH [of "made @ [requested_tool call]" w1]) (auto simp: run_then_def Let_def)
  qed
qed simp

lemma claw_run_clean:
  assumes "claw_run (open_claw_plugin mcp) complete prompt inp ctx w = (Inr r, w')"
  shows "\<forall>tool \<in> set (given_or [] (res_tool_calls r)). tool \<notin> set (prohibited_of (hc_task ctx))"
  using assms
  by (auto simp: claw_run_def run_then_def Let_def claw_result_def given_or_def
      split: prod.splits sum.splits option.splits dest!: claw_gates_clean)

end
