(* ===== verification/Spec2Isabelle.thy ===== *)
theory Spec2Isabelle
  imports Context_Compiler Graph_Replay Graph_Budgets Agent_Score Session_Safety Skill_Publishing Http_Registry Mcp Agent_Runtime
    Stable_Hash Core_Adapters Icp_Canister Vendor_Agents
begin

text \<open>
  A verification development for the TypeScript package \<open>packages/agents\<close> of Knolo-Agents. File
  names below are under \<open>packages/agents/src\<close>. Every definition is a translation of the code, executable
  where the code is, and named after it in lower case; what the package calls but does not contain is an
  argument of the definitions that use it.

  \<^bold>\<open>The program.\<close> A \<^emph>\<open>harness\<close> runs a task on an agent it does not trust. It resolves the skills of the run
  from installed packs within the authority of the task, freezes the set of dependencies into one digest,
  compiles evidence, memories, skills and constraints into a context of bounded size, invokes the agent through
  an \<^emph>\<open>adapter\<close> with middleware around every call and a policy for recovery, evaluates the result, gives a
  receipt that binds all of it, and learns from the run. Packs come from a \<^emph>\<open>registry\<close>. Beside the harness
  stands the \<^emph>\<open>engine\<close>, which runs an agent defined as a graph of handlers over a typed state, with
  checkpoints and replay; a loaded graph agent is one of the adapters.

  \<^bold>\<open>Conventions.\<close> A JSON value is \<open>jsval\<close>, an object the list of its members in order; a character
  is one code unit below 256. An error is a value: \<open>'a result\<close> is \<open>js_error + 'a\<close>, and every
  throw, early return and rejected promise of the code is a branch. State is passed and returned, also when an
  error is returned; \<open>'w\<close> is the world that handlers, clocks, registries and tools change. A
  \<open>Map\<close> or object used as a map is the association list of its entries in insertion order. Numbers are
  integers where the code counts (below \<open>2 ^ 53\<close> they are exact), rationals rounded to doubles after
  every operation in the agent score, and 32-bit words where the code computes with \<open>>>>\<close>. An \<open>await\<close> is a point
  in the order of the steps; where other calls can come in between (freezing, between the runs of a session)
  the step is split there.

  \<^bold>\<open>Theories and files.\<close>
  \<^item> Base: \<open>Knolo_Prelude\<close> (errors, strings, sorting with a comparator, maps, the locale
    \<open>comparator\<close>), \<open>JS_Value\<close> (\<open>harness/hash.ts\<close>, JSON), \<open>JS_Number\<close> (double
    arithmetic, locale \<open>rounding\<close>), \<open>Step_Machine\<close> (loops as step machines with a rank, and their
    simulations), \<open>Harness_Types\<close> (\<open>harness/types.ts\<close>, \<open>task.ts\<close>).
  \<^item> Engine: \<open>Graph_Types\<close> (\<open>contracts/index.ts\<close>), \<open>Graph_Builder\<close> and
    \<open>Stable_Hash\<close> (\<open>builder/index.ts\<close>), \<open>Graph_Engine\<close>, \<open>Graph_Runs\<close> and
    \<open>Graph_Budgets\<close> (\<open>engine/typescript/index.ts\<close>, \<open>hitl/index.ts\<close>), \<open>Graph_Replay\<close>
    (\<open>replay/index.ts\<close>), \<open>Wasm_Engine\<close> (\<open>engine/wasm/index.ts\<close>), \<open>Agent_Runtime\<close>
    (\<open>agent/index.ts\<close>, \<open>adapters/native.ts\<close>).
  \<^item> Context and authority: \<open>Lexical\<close>, \<open>Context_Budget\<close>, \<open>Context_Compiler\<close>
    (\<open>context/\<close>), \<open>Authority\<close> (\<open>capabilities/authority.ts\<close>, \<open>multi-agent/\<close>,
    \<open>claims/\<close>).
  \<^item> Dependencies and packs: \<open>Cbor\<close>, \<open>Dependency_Root\<close>, \<open>Dependency_Activation\<close>
    (\<open>dependencies/\<close>), \<open>Pack_Registry\<close> (\<open>registry/spec.ts\<close>, \<open>cache.ts\<close>,
    \<open>fake.ts\<close>, \<open>offline.ts\<close>), \<open>Http_Host\<close> and \<open>Http_Registry\<close>
    (\<open>registry/http.ts\<close>), \<open>Pack_Codec\<close> (\<open>core-v5/knowledge.ts\<close>).
  \<^item> Skills: \<open>Skill_Definition\<close>, \<open>Capability_Index\<close>, \<open>Skill_Resolver\<close>,
    \<open>Skill_Acquisition\<close>, \<open>Skill_Publishing\<close> (\<open>skills/\<close>, \<open>capabilities/\<close>).
  \<^item> Runs: \<open>Middleware\<close>, \<open>Recovery\<close> (\<open>middleware/\<close>, \<open>recovery/\<close>, the
    invocation loop of \<open>harness/session.ts\<close>), \<open>Evaluation\<close>, \<open>Agent_Score\<close>
    (\<open>evaluation/\<close>), \<open>Experience\<close> (\<open>experience/\<close>), \<open>Harness_Inputs\<close>,
    \<open>Harness_Receipts\<close>, \<open>Harness_Session\<close>, \<open>Session_Safety\<close> (\<open>harness/\<close>).
  \<^item> Adapters: \<open>Adapters\<close> (callable, tool-aware, HTTP and process agents), \<open>Mcp\<close>,
    \<open>Icp\<close> (\<open>icp/index.ts\<close>, \<open>adapters/icp.ts\<close>), \<open>Icp_Canister\<close> (the gate of
    \<open>crates/knolo-agent-icp\<close> that the client meets), \<open>Core_Adapters\<close> (\<open>core-v5/\<close>),
    \<open>Vendor_Agents\<close> (Grok, Grok Build and OpenClaw under \<open>examples/adapters\<close>).

  \<^bold>\<open>What is shown.\<close>
  \<^item> Engine: what the compilation of a definition checks, exactly (fewer things than
    \<open>docs/architecture/graph-validation.md\<close> lists); a state schema keeps the promise of its shape; a run
    follows declared transitions, its snapshots are declared and well typed patches; its step and token budgets
    and its event numbering hold over suspension and resumption, its cost budget from the last resumption on; a
    recorded run replays in any environment that agrees with it up to time. The hash of a compiled
    graph, which the code computes itself, is SHA-256 as the standard defines it.
  \<^item> Context: the budget accounts for every item, and the result does not depend on the order of its inputs when
    their ids are told apart and no evidence requirement fits two rows.
  \<^item> Dependencies: canonical CBOR is injective, so equal roots mean equal sets or a hash collision; a frozen
    set stays as it is until the staged packs are activated, overlapping freezes apart. A pull gives bytes with the digest of their
    manifest, from memory and over HTTP, whatever the server answers.
  \<^item> Skills: what is selected, acquired, promoted or published lies within the authority, the trust policy,
    the evidence of earlier runs and the consent that each asks for.
  \<^item> Runs: recovery ends and leaves a gapless trail; evaluation and score mean what they say; the receipt of a
    run binds the frozen dependencies. These are lifted to a session over all its runs, pulls and approvals, and
    no earlier run keeps a session from its next one.
  \<^item> Adapters: a prohibited tool is never run, whatever its code; how the MCP bridge answers each kind of
    request; an execution on the canister passed its gate; the claim graph is an append-only ledger behind its
    approval.

  \<^bold>\<open>Interfaces.\<close> Contracts are locales, interpreted on the model of the code that keeps them:
  \<open>comparator\<close> and \<open>total_comparator\<close> (code units, UTF-8 order), \<open>step_machine\<close> (engine,
  recovery) and \<open>step_simulation\<close> (through \<open>replay_pair\<close>, two runs in agreeing environments),
  \<open>engine_invariant\<close> (event numbering, history), \<open>hook_runner\<close> and \<open>recovery_hooks\<close>
  (the middleware pipeline), \<open>pack_cache_laws\<close> (memory cache), \<open>verified_registry\<close> (memory and
  HTTP registry), \<open>skill_catalog\<close> (capability index), \<open>rounding\<close> (binary64 rounding),
  \<open>guarded_runtime\<close> (canister).

  \<^bold>\<open>Loops and bounds.\<close> The engine's \<open>while (true)\<close> ends because a turn that continues uses up
  one of the \<open>max_steps\<close> of the limits, a checked safe integer; recovery because every turn uses up a
  strategy or a retry, at most \<open>maxRetries + 3\<close>; reachability because a pass adds a node or is the last.
  These are total functions with a measure, no fuel. How often the WASM adapter answers is not up to the
  package, so that loop is a partial function, and a run without a report is \<open>None\<close>. Lengths in CBOR are
  below \<open>2 ^ 32\<close>, as the code checks; the SHA-256 theorem holds for every length, the numbers of the code
  being exact up to \<open>2 ^ 50\<close> bytes.

  \<^bold>\<open>Parameters.\<close> SHA-256 of the platform, \<open>JSON.parse\<close>, \<open>localeCompare\<close>, the
  \<open>URL\<close> class, \<open>TextDecoder\<close>, \<open>fetch\<close>, spawning a process, the clock and random
  ids, the functions of \<open>@knolo/core\<close>, the WASM engine, the canister behind its guards, and all code of
  the user: handlers, middleware, adapters, tools, judges.

  \<^bold>\<open>Not modelled.\<close> The pass-through adapters of \<open>core-v5\<close>, \<open>cortex/index.ts\<close> and the
  entry points have no code of their own. Abort signals are seen where the code tests them (engine, child
  process) and otherwise only handed on. Prototype members, mutation of readonly envelopes, \<open>NaN\<close>,
  overflow of doubles and \<open>bigint\<close> amounts are outside the data model. The scripts that run the
  examples, the repository's scripts and the tests are not part of the package, and of the Rust crates, which mirror the engine, only the gate of the canister is
  modelled.
\<close>

end
